(* ===== verification/Prelude.thy ===== *)
theory Prelude
  imports Main "HOL-Library.AList"
begin

text \<open>
  Shared vocabulary of the development: effectful operations as explicit state passing with
  a sum for the outcome (left: the value that was thrown, right: the value returned), the
  transaction wrapper the repositories use, table updates, and the list lemmas the component
  theories share.  The collections \<open>eff_defs\<close> (effect combinators) and \<open>table_simps\<close>
  (lookups in and updates of tables) are filled here and extended by the components.
\<close>

named_theorems eff_defs "definitions of the effect combinators"
named_theorems table_simps "lookup and update laws of tables of rows"

section \<open>Effects\<close>

text \<open>
  An asynchronous operation of the source that reads and writes a component's state and may
  reject is a function from the state to an outcome and a new state.  An \<open>await\<close> is
  \<open>bind_eff\<close>; \<open>try { m } catch (e) { h }\<close> is \<open>catch_eff m h\<close>.
\<close>

type_synonym ('s, 'e, 'a) eff = "'s \<Rightarrow> ('e + 'a) \<times> 's"

definition ret :: "'a \<Rightarrow> ('s, 'e, 'a) eff" where
  "ret x s = (Inr x, s)"

definition throw :: "'e \<Rightarrow> ('s, 'e, 'a) eff" where
  "throw e s = (Inl e, s)"

definition bind_eff :: "('s, 'e, 'a) eff \<Rightarrow> ('a \<Rightarrow> ('s, 'e, 'b) eff) \<Rightarrow> ('s, 'e, 'b) eff" where
  "bind_eff m f s = (case m s of (Inl e, t) \<Rightarrow> (Inl e, t) | (Inr x, t) \<Rightarrow> f x t)"

definition catch_eff :: "('s, 'e, 'a) eff \<Rightarrow> ('e \<Rightarrow> ('s, 'e, 'a) eff) \<Rightarrow> ('s, 'e, 'a) eff" where
  "catch_eff m h s = (case m s of (Inl e, t) \<Rightarrow> h e t | (Inr x, t) \<Rightarrow> (Inr x, t))"

text \<open>A synchronous computation that may throw, run inside an operation.\<close>

definition lift_res :: "'e + 'a \<Rightarrow> ('s, 'e, 'a) eff" where
  "lift_res r s = (r, s)"

text \<open>
  \<open>db.transaction(body)\<close>: when the body throws, every write it made is rolled back and the
  error propagates; otherwise its writes are committed.
\<close>

definition transaction :: "('s, 'e, 'a) eff \<Rightarrow> ('s, 'e, 'a) eff" where
  "transaction m s = (case m s of (Inl e, _) \<Rightarrow> (Inl e, s) | (Inr x, t) \<Rightarrow> (Inr x, t))"

declare ret_def [eff_defs] throw_def [eff_defs] bind_eff_def [eff_defs]
  catch_eff_def [eff_defs] lift_res_def [eff_defs] transaction_def [eff_defs]

lemma transaction_rollback: "transaction m s = (Inl e, t) \<Longrightarrow> t = s"
  by (auto simp: transaction_def split: prod.splits sum.splits)

lemma transaction_commit: "transaction m s = (Inr x, t) \<longleftrightarrow> m s = (Inr x, t)"
  by (auto simp: transaction_def split: prod.splits sum.splits)

lemma bind_eff_Inr: "bind_eff m f s = (Inr y, u) \<longleftrightarrow> (\<exists>x t. m s = (Inr x, t) \<and> f x t = (Inr y, u))"
  by (auto simp: bind_eff_def split: prod.splits sum.splits)

lemma bind_eff_step: "m s = (Inr x, t) \<Longrightarrow> bind_eff m f s = f x t"
  by (simp add: bind_eff_def)

lemma bind_eff_stop: "m s = (Inl e, t) \<Longrightarrow> bind_eff m f s = (Inl e, t)"
  by (simp add: bind_eff_def)

lemma catch_eff_ok: "m s = (Inr x, t) \<Longrightarrow> catch_eff m h s = (Inr x, t)"
  by (simp add: catch_eff_def)

lemma catch_eff_err: "m s = (Inl e, t) \<Longrightarrow> catch_eff m h s = h e t"
  by (simp add: catch_eff_def)

lemma bind_ret [simp]: "bind_eff (ret x) f = f x"
  by (simp add: bind_eff_def ret_def fun_eq_iff)

lemma bind_lift_Inr [simp]: "bind_eff (lift_res (Inr x)) f = f x"
  by (simp add: bind_eff_def lift_res_def fun_eq_iff)

section \<open>Throwing computations\<close>

definition res_bind :: "'e + 'a \<Rightarrow> ('a \<Rightarrow> 'e + 'b) \<Rightarrow> 'e + 'b" where
  "res_bind r f = (case r of Inl e \<Rightarrow> Inl e | Inr x \<Rightarrow> f x)"

text \<open>\<open>xs.map(f)\<close> for a callback that may throw: the first throw ends the traversal.\<close>

fun map_res :: "('a \<Rightarrow> 'e + 'b) \<Rightarrow> 'a list \<Rightarrow> 'e + 'b list" where
  "map_res f [] = Inr []"
| "map_res f (x # xs) =
     (case f x of
        Inl e \<Rightarrow> Inl e
      | Inr y \<Rightarrow> (case map_res f xs of Inl e \<Rightarrow> Inl e | Inr ys \<Rightarrow> Inr (y # ys)))"

text \<open>\<open>xs.reduce(f, z)\<close> for a callback that may throw.\<close>

fun fold_res :: "('b \<Rightarrow> 'a \<Rightarrow> 'e + 'b) \<Rightarrow> 'b \<Rightarrow> 'a list \<Rightarrow> 'e + 'b" where
  "fold_res f z [] = Inr z"
| "fold_res f z (x # xs) = (case f z x of Inl e \<Rightarrow> Inl e | Inr z' \<Rightarrow> fold_res f z' xs)"

lemma res_bind_Inr: "res_bind r f = Inr y \<longleftrightarrow> (\<exists>x. r = Inr x \<and> f x = Inr y)"
  by (cases r) (auto simp: res_bind_def)

lemma map_res_Cons_Inr:
  "map_res f (x # xs) = Inr zs \<longleftrightarrow> (\<exists>y ys. f x = Inr y \<and> map_res f xs = Inr ys \<and> zs = y # ys)"
  by (auto split: sum.splits)

lemma map_res_Inr: "map_res f xs = Inr ys \<longleftrightarrow> list_all2 (\<lambda>x y. f x = Inr y) xs ys"
proof (induction xs arbitrary: ys)
  case Nil
  then show ?case by auto
next
  case (Cons x xs)
  show ?case
    unfolding map_res_Cons_Inr Cons.IH by (auto simp: list_all2_Cons1)
qed

lemma map_res_Inr_iff: "map_res f xs = Inr ys \<longleftrightarrow> map f xs = map Inr ys"
  by (auto simp: map_res_Inr list_all2_conv_all_nth list_eq_iff_nth_eq)

lemma map_res_length: "map_res f xs = Inr ys \<Longrightarrow> length ys = length xs"
  by (simp add: map_res_Inr list_all2_lengthD)

lemma map_res_map: "map_res f (map g xs) = map_res (\<lambda>x. f (g x)) xs"
  by (induction xs) (auto split: sum.splits)

lemma map_res_cong [fundef_cong]:
  "xs = ys \<Longrightarrow> (\<And>x. x \<in> set ys \<Longrightarrow> f x = g x) \<Longrightarrow> map_res f xs = map_res g ys"
  by (induction ys arbitrary: xs) (auto split: sum.splits)

lemma map_res_total: "(\<And>x. x \<in> set xs \<Longrightarrow> f x = Inr (g x)) \<Longrightarrow> map_res f xs = Inr (map g xs)"
  by (induction xs) auto

section \<open>Tables of rows\<close>

text \<open>
  A database table is the list of its rows in insertion order.  \<open>where(P).update(f)\<close> rewrites
  the rows that satisfy the condition in place; \<open>where(P).first()\<close> is \<open>List.find\<close>.
\<close>

definition update_where :: "('r \<Rightarrow> bool) \<Rightarrow> ('r \<Rightarrow> 'r) \<Rightarrow> 'r list \<Rightarrow> 'r list" where
  "update_where P f rows = map (\<lambda>r. if P r then f r else r) rows"

lemma length_update_where [table_simps]: "length (update_where P f rows) = length rows"
  by (simp add: update_where_def)

lemma update_where_append [table_simps]:
  "update_where P f (xs @ ys) = update_where P f xs @ update_where P f ys"
  by (simp add: update_where_def)

lemma update_where_Nil [table_simps]: "update_where P f [] = []"
  by (simp add: update_where_def)

lemma update_where_Cons [table_simps]:
  "update_where P f (r # rows) = (if P r then f r else r) # update_where P f rows"
  by (simp add: update_where_def)

lemma set_update_where: "set (update_where P f rows) = (\<lambda>r. if P r then f r else r) ` set rows"
  by (simp add: update_where_def)

lemma update_where_none: "(\<And>r. r \<in> set rows \<Longrightarrow> \<not> P r) \<Longrightarrow> update_where P f rows = rows"
  by (induction rows) (auto simp: update_where_def)

text \<open>A column the update does not write keeps its values.\<close>

lemma map_update_where: "(\<And>r. P r \<Longrightarrow> k (f r) = k r) \<Longrightarrow> map k (update_where P f rows) = map k rows"
  by (simp add: update_where_def)

lemma filter_update_where:
  "(\<And>r. P r \<Longrightarrow> Q (f r) = Q r) \<Longrightarrow> filter Q (update_where P f rows) = update_where P f (filter Q rows)"
  by (induction rows) (auto simp: update_where_def)

lemma find_update_where_other:
  "(\<And>r. P r \<Longrightarrow> \<not> Q r \<and> \<not> Q (f r)) \<Longrightarrow> List.find Q (update_where P f rows) = List.find Q rows"
  by (induction rows) (auto simp: update_where_def)

lemma find_update_where_same:
  "(\<And>r. P r \<Longrightarrow> Q (f r) = Q r) \<Longrightarrow>
   List.find Q (update_where P f rows) = map_option (\<lambda>r. if P r then f r else r) (List.find Q rows)"
  by (induction rows) (auto simp: update_where_def)

lemma find_append:
  "List.find P (xs @ ys) = (case List.find P xs of None \<Rightarrow> List.find P ys | Some x \<Rightarrow> Some x)"
  by (induction xs) auto

lemma find_SomeD: "List.find P xs = Some x \<Longrightarrow> x \<in> set xs \<and> P x"
  by (auto simp: find_Some_iff)

lemma find_NoneD: "List.find P xs = None \<Longrightarrow> x \<in> set xs \<Longrightarrow> \<not> P x"
  by (auto simp: find_None_iff)

text \<open>A lookup by a key whose values are distinct finds the row that carries it.\<close>

lemma find_key_distinct:
  "distinct (map k rows) \<Longrightarrow> r \<in> set rows \<Longrightarrow> List.find (\<lambda>x. k x = k r) rows = Some r"
proof (induction rows)
  case Nil
  then show ?case by simp
next
  case (Cons a rows)
  then show ?case by (cases "a = r") (auto simp: image_iff)
qed

lemma find_key_None: "List.find (\<lambda>x. k x = i) rows = None \<longleftrightarrow> i \<notin> k ` set rows"
  by (auto simp: find_None_iff)

lemma distinct_key_inj: "distinct (map k rows) \<Longrightarrow> r \<in> set rows \<Longrightarrow> r' \<in> set rows \<Longrightarrow> k r = k r' \<Longrightarrow> r = r'"
  by (auto simp: distinct_map dest: inj_onD)

section \<open>Sums over tables\<close>

lemma sum_list_update_where:
  fixes g :: "'r \<Rightarrow> int"
  shows "sum_list (map g (update_where P f rows)) =
    sum_list (map g rows) + sum_list (map (\<lambda>r. g (f r) - g r) (filter P rows))"
  by (induction rows) (auto simp: update_where_def algebra_simps)

lemma sum_list_nonneg_member:
  fixes g :: "'r \<Rightarrow> int"
  assumes "\<forall>r\<in>set rows. 0 \<le> g r" and "x \<in> set rows"
  shows "g x \<le> sum_list (map g rows)"
  using assms
proof (induction rows)
  case Nil
  then show ?case by simp
next
  case (Cons r rows)
  from Cons.prems(1) have "0 \<le> sum_list (map g rows)" by (intro sum_list_nonneg) auto
  with Cons show ?case by auto
qed

lemma filter_key_singleton:
  "distinct (map k rows) \<Longrightarrow> r \<in> set rows \<Longrightarrow> filter (\<lambda>x. k x = k r) rows = [r]"
  by (induction rows) (auto simp: filter_empty_conv image_iff)

section \<open>Keyset pagination\<close>

text \<open>In a strictly descending list the rows below the n-th are the rest of the list.\<close>

lemma filter_below_nth:
  fixes c :: "'r \<Rightarrow> int"
  assumes "sorted_wrt (\<lambda>a b. c b < c a) xs" and "n < length xs"
  shows "filter (\<lambda>r. c r < c (xs ! n)) xs = drop (Suc n) xs"
  using assms
proof (induction xs arbitrary: n)
  case (Cons x xs)
  show ?case
  proof (cases n)
    case 0
    with Cons.prems show ?thesis by (auto simp: filter_id_conv)
  next
    case (Suc m)
    with Cons.prems have "\<not> c x < c (xs ! m)" by (simp add: order_less_imp_not_less)
    with Suc Cons show ?thesis by simp
  qed
qed simp

lemma sort_desc_strict:
  assumes "inj_on c (set rows)" and "distinct rows"
  shows "sorted_wrt (\<lambda>a b. c b < (c a :: int)) (sort_key (\<lambda>r. - c r) rows)"
proof -
  let ?s = "sort_key (\<lambda>r. - c r) rows"
  have "sorted (map (\<lambda>r. - c r) ?s)" by simp
  moreover have "distinct (map (\<lambda>r. - c r) ?s)"
    using assms by (auto simp: distinct_map inj_on_def)
  ultimately have "sorted_wrt (<) (map (\<lambda>r. - c r) ?s)" by (simp add: strict_sorted_iff)
  then show ?thesis by (simp add: sorted_wrt_map)
qed

section \<open>Stable sorting by a comparison\<close>

text \<open>\<open>[...xs].sort(cmp)\<close>: \<open>le\<close> holds when the comparison is not positive.\<close>

fun insert_by :: "('a \<Rightarrow> 'a \<Rightarrow> bool) \<Rightarrow> 'a \<Rightarrow> 'a list \<Rightarrow> 'a list" where
  "insert_by le x [] = [x]"
| "insert_by le x (y # ys) = (if le x y then x # y # ys else y # insert_by le x ys)"

definition sort_by :: "('a \<Rightarrow> 'a \<Rightarrow> bool) \<Rightarrow> 'a list \<Rightarrow> 'a list" where
  "sort_by le xs = foldr (insert_by le) xs []"

lemma set_insert_by [simp]: "set (insert_by le x xs) = insert x (set xs)"
  by (induction xs) auto

lemma set_sort_by [simp]: "set (sort_by le xs) = set xs"
  by (induction xs) (auto simp: sort_by_def)

lemma sum_list_insert_by: "sum_list (map (g :: 'a \<Rightarrow> int) (insert_by le x xs)) = g x + sum_list (map g xs)"
  by (induction xs) auto

lemma sum_list_sort_by: "sum_list (map (g :: 'a \<Rightarrow> int) (sort_by le xs)) = sum_list (map g xs)"
  by (induction xs) (auto simp: sort_by_def sum_list_insert_by)

lemma length_insert_by [simp]: "length (insert_by le x xs) = Suc (length xs)"
  by (induction xs) auto

lemma length_sort_by [simp]: "length (sort_by le xs) = length xs"
  by (induction xs) (auto simp: sort_by_def)

lemma distinct_insert_by: "distinct (map k (insert_by le x xs)) \<longleftrightarrow> k x \<notin> k ` set xs \<and> distinct (map k xs)"
  by (induction xs) auto

lemma distinct_sort_by: "distinct (map k (sort_by le xs)) \<longleftrightarrow> distinct (map k xs)"
proof (induction xs)
  case (Cons x xs)
  have "sort_by le (x # xs) = insert_by le x (sort_by le xs)" by (simp add: sort_by_def)
  with Cons show ?case by (simp add: distinct_insert_by)
qed (simp add: sort_by_def)

definition total_preorder :: "('a \<Rightarrow> 'a \<Rightarrow> bool) \<Rightarrow> bool" where
  "total_preorder le \<longleftrightarrow> (\<forall>x y. le x y \<or> le y x) \<and> (\<forall>x y z. le x y \<longrightarrow> le y z \<longrightarrow> le x z)"

lemma sorted_insert_by:
  assumes le: "total_preorder le" and "sorted_wrt le xs"
  shows "sorted_wrt le (insert_by le x xs)"
  using assms(2)
proof (induction xs)
  case (Cons y ys)
  show ?case
  proof (cases "le x y")
    case True
    with Cons.prems le have "\<forall>z\<in>set ys. le x z" unfolding total_preorder_def by (meson sorted_wrt.simps(2))
    with True Cons.prems show ?thesis by simp
  next
    case False
    with le have "le y x" by (auto simp: total_preorder_def)
    with False Cons show ?thesis by auto
  qed
qed simp

lemma sorted_sort_by: "total_preorder le \<Longrightarrow> sorted_wrt le (sort_by le xs)"
  by (induction xs) (auto simp: sort_by_def sorted_insert_by)

section \<open>Maps in insertion order\<close>

text \<open>A JavaScript \<open>Map\<close> is an association list: \<open>set\<close> is \<open>AList.update\<close>, which appends a new key.\<close>

lemma update_new: "map_of xs k = None \<Longrightarrow> AList.update k v xs = xs @ [(k, v)]"
  by (induction xs) auto

lemma foldl_update_distinct:
  "distinct (map fst (acc @ kvs)) \<Longrightarrow> foldl (\<lambda>acc (k, v). AList.update k v acc) acc kvs = acc @ kvs"
proof (induction kvs arbitrary: acc)
  case (Cons p kvs)
  then have "map_of acc (fst p) = None" by (auto simp: map_of_eq_None_iff)
  with Cons show ?case by (cases p) (simp add: update_new)
qed simp

end
