(* ===== verification/App_Error.thy ===== *)
theory App_Error
  imports Json
begin

text \<open>
  The error classes of \<open>packages/shared/src/errors/AppError.ts\<close>, their RFC 7807
  serialisation, and the express error handler that turns any thrown value into an HTTP
  response (\<open>packages/shared/src/middleware/errorHandler.ts\<close>).
\<close>

section \<open>Error classes\<close>

datatype error_class =
    ValidationError | AuthenticationError | AuthorizationError | NotFoundError
  | ConflictError | RateLimitError | ExternalServiceError | InternalError

fun statusCode :: "error_class \<Rightarrow> int" where
  "statusCode ValidationError = 400"
| "statusCode AuthenticationError = 401"
| "statusCode AuthorizationError = 403"
| "statusCode NotFoundError = 404"
| "statusCode ConflictError = 409"
| "statusCode RateLimitError = 429"
| "statusCode ExternalServiceError = 502"
| "statusCode InternalError = 500"

fun error_type :: "error_class \<Rightarrow> string" where
  "error_type ValidationError = ''https://nexuspay.dev/errors/validation''"
| "error_type AuthenticationError = ''https://nexuspay.dev/errors/authentication''"
| "error_type AuthorizationError = ''https://nexuspay.dev/errors/authorization''"
| "error_type NotFoundError = ''https://nexuspay.dev/errors/not-found''"
| "error_type ConflictError = ''https://nexuspay.dev/errors/conflict''"
| "error_type RateLimitError = ''https://nexuspay.dev/errors/rate-limit''"
| "error_type ExternalServiceError = ''https://nexuspay.dev/errors/external-service''"
| "error_type InternalError = ''https://nexuspay.dev/errors/internal''"

fun error_title :: "error_class \<Rightarrow> string" where
  "error_title ValidationError = ''Validation Error''"
| "error_title AuthenticationError = ''Authentication Required''"
| "error_title AuthorizationError = ''Forbidden''"
| "error_title NotFoundError = ''Not Found''"
| "error_title ConflictError = ''Conflict''"
| "error_title RateLimitError = ''Too Many Requests''"
| "error_title ExternalServiceError = ''External Service Error''"
| "error_title InternalError = ''Internal Server Error''"

record app_error =
  ae_class :: error_class
  ae_detail :: string
  ae_isOperational :: bool
  ae_instance :: "string option"
  ae_metadata :: "json option"
  ae_fields :: "(string \<times> string) list option"
  ae_retryAfter :: "int option"

text \<open>The constructors: \<open>AppError\<close> sets \<open>isOperational\<close>, \<open>InternalError\<close> clears it.\<close>

definition new_error :: "error_class \<Rightarrow> string \<Rightarrow> app_error" where
  "new_error c d =
     \<lparr>ae_class = c, ae_detail = d, ae_isOperational = (c \<noteq> InternalError), ae_instance = None,
      ae_metadata = None, ae_fields = None, ae_retryAfter = None\<rparr>"

text \<open>
  Everything the modelled code can throw: an application error, a plain \<open>Error\<close>, the
  gateway's and the breaker's own error classes, and an error raised inside a third-party
  library (the database driver, decimal.js) that the code only propagates; its text is the
  library's.
\<close>

datatype js_error =
    App app_error
  | PlainError string
  | GatewayError string bool int
  | CircuitOpenError string
  | LibraryError string

definition app_err :: "error_class \<Rightarrow> string \<Rightarrow> js_error" where
  "app_err c d = App (new_error c d)"

text \<open>\<open>error.message\<close>; \<open>libmsg\<close> gives the text a library puts on its own errors.\<close>

fun error_message :: "(string \<Rightarrow> string) \<Rightarrow> js_error \<Rightarrow> string" where
  "error_message libmsg (App e) = ae_detail e"
| "error_message libmsg (PlainError m) = m"
| "error_message libmsg (GatewayError m r c) = m"
| "error_message libmsg (CircuitOpenError m) = m"
| "error_message libmsg (LibraryError t) = libmsg t"

fun is_app :: "js_error \<Rightarrow> bool" where
  "is_app (App e) = True"
| "is_app _ = False"

fun has_class :: "error_class \<Rightarrow> js_error \<Rightarrow> bool" where
  "has_class c (App e) = (ae_class e = c)"
| "has_class c _ = False"

lemma has_class_app_err [simp]: "has_class c (app_err c' d) = (c = c')"
  by (auto simp: app_err_def new_error_def)

section \<open>Serialisation\<close>

text \<open>
  \<open>AppError.toJSON\<close>: empty strings are falsy and leave \<open>instance\<close> out; the stack is
  present in development only (\<open>dev\<close> carries it).
\<close>

definition base_toJSON :: "string option \<Rightarrow> app_error \<Rightarrow> (string \<times> json) list" where
  "base_toJSON dev e =
     [(''type'', JStr (error_type (ae_class e))),
      (''title'', JStr (error_title (ae_class e))),
      (''status'', JNum (of_int (statusCode (ae_class e)))),
      (''detail'', JStr (ae_detail e))]
     @ (case ae_instance e of Some i \<Rightarrow> if i = [] then [] else [(''instance'', JStr i)] | None \<Rightarrow> [])
     @ (case ae_metadata e of Some m \<Rightarrow> [(''metadata'', m)] | None \<Rightarrow> [])
     @ (case dev of Some st \<Rightarrow> [(''stack'', JStr st)] | None \<Rightarrow> [])"

definition error_toJSON :: "string option \<Rightarrow> app_error \<Rightarrow> (string \<times> json) list" where
  "error_toJSON dev e =
     (let json = base_toJSON dev e in
      case ae_class e of
        ValidationError \<Rightarrow>
          (case ae_fields e of
             Some fs \<Rightarrow> json @ [(''fields'', JObj (map (\<lambda>(k, v). (k, JStr v)) fs))] | None \<Rightarrow> json)
      | RateLimitError \<Rightarrow>
          (case ae_retryAfter e of
             Some n \<Rightarrow> if n = 0 then json else json @ [(''retryAfter'', JNum (of_int n))] | None \<Rightarrow> json)
      | _ \<Rightarrow> json)"

section \<open>The error handler\<close>

datatype log_level = LDebug | LInfo | LWarn | LError

record http_response =
  res_status :: int
  res_headers :: "(string \<times> string) list"
  res_body :: json

definition to_app_error :: "js_error \<Rightarrow> app_error" where
  "to_app_error e =
     (case e of App a \<Rightarrow> a | _ \<Rightarrow> new_error InternalError ''An unexpected error occurred'')"

text \<open>
  \<open>errorHandlerMiddleware\<close>: unknown errors are wrapped, the severity of the log line
  follows \<open>isOperational\<close>, the body is the serialised error with the request id as
  \<open>traceId\<close> when there is one.
\<close>

definition errorHandler ::
    "string option \<Rightarrow> string option \<Rightarrow> js_error \<Rightarrow> log_level \<times> http_response" where
  "errorHandler dev requestId err =
     (let appError = to_app_error err;
          level = (if ae_isOperational appError then LWarn else LError);
          body = error_toJSON dev appError
                 @ (case requestId of
                      Some r \<Rightarrow> if r = [] then [] else [(''traceId'', JStr r)]
                    | None \<Rightarrow> [])
      in (level, \<lparr>res_status = statusCode (ae_class appError), res_headers = [], res_body = JObj body\<rparr>))"

lemma to_app_error_new: "to_app_error (app_err c d) = new_error c d"
  by (simp add: to_app_error_def app_err_def)

lemma base_toJSON_status:
  "map_of (base_toJSON dev e @ rest) ''status'' = Some (JNum (of_int (statusCode (ae_class e))))"
  by (simp add: base_toJSON_def)

lemma error_toJSON_extends: "\<exists>ext. error_toJSON dev e = base_toJSON dev e @ ext"
  by (cases "ae_class e") (simp_all add: error_toJSON_def Let_def split: option.split)

lemma error_toJSON_status:
  "map_of (error_toJSON dev e @ rest) ''status'' = Some (JNum (of_int (statusCode (ae_class e))))"
proof -
  obtain ext where "error_toJSON dev e = base_toJSON dev e @ ext"
    using error_toJSON_extends by blast
  then show ?thesis using base_toJSON_status [of dev e "ext @ rest"] by (simp only: append_assoc)
qed

lemma statusCode_range: "400 \<le> statusCode c \<and> statusCode c < 600"
  by (cases c) auto

lemma statusCode_inject: "statusCode c = statusCode c' \<longleftrightarrow> c = c'"
  by (cases c; cases c') auto

end
