(* ===== verification/Status_Machine.thy ===== *)
theory Status_Machine
  imports App_Error
begin

text \<open>
  The contract the order and the payment status tables share
  (\<open>services/order-service/src/domain/value-objects/OrderStatus.ts\<close>,
  \<open>services/payment-service/src/domain/value-objects/PaymentStatus.ts\<close>): a table of allowed
  successors, a membership test and a test for an empty row.  Paths through the table are
  lists of successive statuses.
\<close>

text \<open>\<open>TRANSITIONS[from].includes(to)\<close> along a path.\<close>

fun status_path :: "('s \<Rightarrow> 's \<Rightarrow> bool) \<Rightarrow> 's \<Rightarrow> 's list \<Rightarrow> bool" where
  "status_path can s [] = True"
| "status_path can s (t # ts) = (can s t \<and> status_path can t ts)"

locale status_machine =
  fixes transitions :: "'s \<Rightarrow> 's list"
    and can :: "'s \<Rightarrow> 's \<Rightarrow> bool"
    and terminal :: "'s \<Rightarrow> bool"
  assumes can_iff: "can s t \<longleftrightarrow> t \<in> set (transitions s)"
    and terminal_iff: "terminal s \<longleftrightarrow> transitions s = []"
begin

lemma terminal_stuck: "terminal s \<Longrightarrow> \<not> can s t"
  by (simp add: can_iff terminal_iff)

lemma not_terminal_moves: "\<not> terminal s \<Longrightarrow> \<exists>t. can s t"
  by (cases "transitions s") (auto simp: can_iff terminal_iff)

lemma path_from_terminal: "terminal s \<Longrightarrow> status_path can s ts \<Longrightarrow> ts = []"
  by (cases ts) (auto simp: terminal_stuck)

lemma path_append: "status_path can s (ts @ us) \<longleftrightarrow> status_path can s ts \<and> status_path can (last (s # ts)) us"
  by (induction ts arbitrary: s) auto

end

text \<open>A machine whose statuses carry a rank that every step raises has no cycles.\<close>

locale ranked_status_machine = status_machine transitions can terminal
  for transitions :: "'s \<Rightarrow> 's list" and can terminal +
  fixes rank :: "'s \<Rightarrow> nat"
    and top :: nat
  assumes rank_step: "can s t \<Longrightarrow> rank s < rank t"
    and rank_top: "rank s \<le> top"
begin

lemma path_rank: "status_path can s ts \<Longrightarrow> rank s + length ts \<le> rank (last (s # ts))"
proof (induction ts arbitrary: s)
  case Nil
  then show ?case by simp
next
  case (Cons t ts)
  then have "rank s < rank t" and "rank t + length ts \<le> rank (last (t # ts))"
    by (auto intro: rank_step)
  then show ?case by simp
qed

lemma path_bound: "status_path can s ts \<Longrightarrow> rank s + length ts \<le> top"
  using path_rank [of s ts] rank_top [of "last (s # ts)"] by simp

lemma path_rank_member: "status_path can s ts \<Longrightarrow> t \<in> set ts \<Longrightarrow> rank s < rank t"
proof (induction ts arbitrary: s)
  case (Cons u us)
  then have "rank s < rank u" by (simp add: rank_step)
  with Cons show ?case by (cases "t = u") (auto dest: less_trans)
qed simp

lemma path_distinct: "status_path can s ts \<Longrightarrow> distinct (s # ts)"
proof (induction ts arbitrary: s)
  case (Cons t ts)
  then show ?case using path_rank_member [of s "t # ts"] by fastforce
qed simp

lemma no_return: "status_path can s ts \<Longrightarrow> ts \<noteq> [] \<Longrightarrow> last ts \<noteq> s"
  using path_rank [of s ts] by (cases ts) auto

end

end
