(* ===== verification/Money.thy ===== *)
theory Money
  imports App_Error
begin

text \<open>
  The monetary value object of \<open>packages/shared/src/domain/Money.ts\<close>.  Its arithmetic is
  that of the decimal.js package, which is not part of the repository: the operations it uses
  are the fields of a record \<open>'d decimal_lib\<close> that every definition takes as an argument.
  What decimal.js documents about them (20 significant digits, exact below that; comparison by
  value; \<open>toFixed\<close> followed by parsing gives the rounded value) is the predicate
  \<open>decimal_laws\<close>, a named hypothesis of the theorems that need it.
\<close>

section \<open>The decimal library as a parameter\<close>

record 'd decimal_lib =
  dec_of_number :: "rat \<Rightarrow> 'd"
  dec_of_string :: "string \<Rightarrow> 'd option"
  dec_isNaN :: "'d \<Rightarrow> bool"
  dec_plus :: "'d \<Rightarrow> 'd \<Rightarrow> 'd"
  dec_minus :: "'d \<Rightarrow> 'd \<Rightarrow> 'd"
  dec_times :: "'d \<Rightarrow> 'd \<Rightarrow> 'd"
  dec_isZero :: "'d \<Rightarrow> bool"
  dec_gt :: "'d \<Rightarrow> 'd \<Rightarrow> bool"
  dec_lt :: "'d \<Rightarrow> 'd \<Rightarrow> bool"
  dec_eq :: "'d \<Rightarrow> 'd \<Rightarrow> bool"
  dec_toFixed :: "'d \<Rightarrow> nat \<Rightarrow> string"
  dec_toNumber :: "'d \<Rightarrow> rat"

text \<open>An argument of type \<open>number | string | Decimal\<close>.\<close>

datatype 'd amount_arg = ANum rat | AStr string | ADec 'd

fun newDecimal :: "'d decimal_lib \<Rightarrow> 'd amount_arg \<Rightarrow> js_error + 'd" where
  "newDecimal D (ANum r) = Inr (dec_of_number D r)"
| "newDecimal D (AStr s) =
     (case dec_of_string D s of Some d \<Rightarrow> Inr d | None \<Rightarrow> Inl (LibraryError ''DecimalError''))"
| "newDecimal D (ADec d) = Inr d"

section \<open>Money\<close>

record 'd money =
  m_amount :: 'd
  m_currency :: string

definition mk_money :: "'d \<Rightarrow> string \<Rightarrow> 'd money" where
  "mk_money d c = \<lparr>m_amount = d, m_currency = to_upper c\<rparr>"

fun arg_text :: "'d amount_arg \<Rightarrow> string" where
  "arg_text (AStr s) = s"
| "arg_text _ = ''NaN''"

definition money_of :: "'d decimal_lib \<Rightarrow> 'd amount_arg \<Rightarrow> string \<Rightarrow> js_error + 'd money" where
  "money_of D a c =
     (if c = [] \<or> length c \<noteq> 3
      then Inl (PlainError (''Invalid currency code: \"'' @ c @ ''\". Must be 3-letter ISO 4217.''))
      else case newDecimal D a of
        Inl e \<Rightarrow> Inl e
      | Inr d \<Rightarrow>
          if dec_isNaN D d
          then Inl (PlainError (''Invalid monetary amount: \"'' @ arg_text a @ ''\"''))
          else Inr (mk_money d c))"

definition money_zero :: "'d decimal_lib \<Rightarrow> string \<Rightarrow> js_error + 'd money" where
  "money_zero D c = money_of D (ANum 0) c"

definition assertSameCurrency :: "'d money \<Rightarrow> 'd money \<Rightarrow> js_error + unit" where
  "assertSameCurrency a b =
     (if m_currency a \<noteq> m_currency b
      then Inl (PlainError (''Currency mismatch: cannot operate on '' @ m_currency a @ '' and '' @ m_currency b))
      else Inr ())"

definition money_add :: "'d decimal_lib \<Rightarrow> 'd money \<Rightarrow> 'd money \<Rightarrow> js_error + 'd money" where
  "money_add D a b =
     (case assertSameCurrency a b of
        Inl e \<Rightarrow> Inl e
      | Inr _ \<Rightarrow> Inr (mk_money (dec_plus D (m_amount a) (m_amount b)) (m_currency a)))"

definition money_subtract :: "'d decimal_lib \<Rightarrow> 'd money \<Rightarrow> 'd money \<Rightarrow> js_error + 'd money" where
  "money_subtract D a b =
     (case assertSameCurrency a b of
        Inl e \<Rightarrow> Inl e
      | Inr _ \<Rightarrow> Inr (mk_money (dec_minus D (m_amount a) (m_amount b)) (m_currency a)))"

definition money_multiply :: "'d decimal_lib \<Rightarrow> 'd money \<Rightarrow> 'd amount_arg \<Rightarrow> js_error + 'd money" where
  "money_multiply D a k =
     (case newDecimal D k of
        Inl e \<Rightarrow> Inl e
      | Inr d \<Rightarrow> Inr (mk_money (dec_times D (m_amount a) d) (m_currency a)))"

definition money_isZero :: "'d decimal_lib \<Rightarrow> 'd money \<Rightarrow> bool" where
  "money_isZero D a = dec_isZero D (m_amount a)"

definition money_isPositive :: "'d decimal_lib \<Rightarrow> 'd money \<Rightarrow> bool" where
  "money_isPositive D a = dec_gt D (m_amount a) (dec_of_number D 0)"

definition money_isNegative :: "'d decimal_lib \<Rightarrow> 'd money \<Rightarrow> bool" where
  "money_isNegative D a = dec_lt D (m_amount a) (dec_of_number D 0)"

definition money_equals :: "'d decimal_lib \<Rightarrow> 'd money \<Rightarrow> 'd money \<Rightarrow> bool" where
  "money_equals D a b = (m_currency a = m_currency b \<and> dec_eq D (m_amount a) (m_amount b))"

definition money_greaterThan :: "'d decimal_lib \<Rightarrow> 'd money \<Rightarrow> 'd money \<Rightarrow> js_error + bool" where
  "money_greaterThan D a b =
     (case assertSameCurrency a b of Inl e \<Rightarrow> Inl e | Inr _ \<Rightarrow> Inr (dec_gt D (m_amount a) (m_amount b)))"

definition money_lessThan :: "'d decimal_lib \<Rightarrow> 'd money \<Rightarrow> 'd money \<Rightarrow> js_error + bool" where
  "money_lessThan D a b =
     (case assertSameCurrency a b of Inl e \<Rightarrow> Inl e | Inr _ \<Rightarrow> Inr (dec_lt D (m_amount a) (m_amount b)))"

text \<open>\<open>toFixed(decimals = 2)\<close>; \<open>money_fixed\<close> is the call without an argument.\<close>

definition money_toFixed :: "'d decimal_lib \<Rightarrow> 'd money \<Rightarrow> nat \<Rightarrow> string" where
  "money_toFixed D a n = dec_toFixed D (m_amount a) n"

definition money_fixed :: "'d decimal_lib \<Rightarrow> 'd money \<Rightarrow> string" where
  "money_fixed D a = money_toFixed D a 2"

definition money_toNumber :: "'d decimal_lib \<Rightarrow> 'd money \<Rightarrow> rat" where
  "money_toNumber D a = dec_toNumber D (m_amount a)"

record money_json =
  mj_amount :: string
  mj_currency :: string

definition money_toJSON :: "'d decimal_lib \<Rightarrow> 'd money \<Rightarrow> money_json" where
  "money_toJSON D a = \<lparr>mj_amount = money_fixed D a, mj_currency = m_currency a\<rparr>"

definition money_toString :: "'d decimal_lib \<Rightarrow> 'd money \<Rightarrow> string" where
  "money_toString D a = m_currency a @ '' '' @ money_fixed D a"

definition money_fromJSON :: "'d decimal_lib \<Rightarrow> money_json \<Rightarrow> js_error + 'd money" where
  "money_fromJSON D j = money_of D (AStr (mj_amount j)) (mj_currency j)"

section \<open>What decimal.js documents\<close>

text \<open>
  \<open>val\<close> reads a finite decimal as a rational (\<open>None\<close> for NaN and the infinities).  A result
  is exact when it has at most 20 significant digits, the default precision.  \<open>round_half_up\<close>
  is the default rounding mode of \<open>toFixed\<close>: to the nearest multiple of a power of ten, ties
  away from zero.
\<close>

definition fits20 :: "rat \<Rightarrow> bool" where
  "fits20 r \<longleftrightarrow> (\<exists>(m::int) (k::nat). \<bar>m\<bar> < 10 ^ 20 \<and> (r = of_int m * 10 ^ k \<or> r * 10 ^ k = of_int m))"

definition round_half_up :: "nat \<Rightarrow> rat \<Rightarrow> rat" where
  "round_half_up n r =
     (let k = 10 ^ n; q = of_int \<lfloor>\<bar>r\<bar> * k + 1 / 2\<rfloor> / k in if r < 0 then - q else q)"

definition decimal_laws :: "'d decimal_lib \<Rightarrow> ('d \<Rightarrow> rat option) \<Rightarrow> bool" where
  "decimal_laws D val \<longleftrightarrow>
     (\<forall>r. fits20 r \<longrightarrow> val (dec_of_number D r) = Some r) \<and>
     (\<forall>x r. val x = Some r \<longrightarrow> \<not> dec_isNaN D x) \<and>
     (\<forall>x y r s. val x = Some r \<longrightarrow> val y = Some s \<longrightarrow> fits20 (r + s) \<longrightarrow> val (dec_plus D x y) = Some (r + s)) \<and>
     (\<forall>x y r s. val x = Some r \<longrightarrow> val y = Some s \<longrightarrow> fits20 (r * s) \<longrightarrow> val (dec_times D x y) = Some (r * s)) \<and>
     (\<forall>x y r s. val x = Some r \<longrightarrow> val y = Some s \<longrightarrow> (dec_gt D x y \<longleftrightarrow> s < r)) \<and>
     (\<forall>x y r s. val x = Some r \<longrightarrow> val y = Some s \<longrightarrow> (dec_eq D x y \<longleftrightarrow> r = s)) \<and>
     (\<forall>x r. val x = Some r \<longrightarrow>
        (\<exists>y. dec_of_string D (dec_toFixed D x 2) = Some y \<and> val y = Some (round_half_up 2 r)))"

lemma decimal_lawsD:
  assumes "decimal_laws D val"
  shows dec_val_of_number: "fits20 r \<Longrightarrow> val (dec_of_number D r) = Some r"
    and dec_val_not_NaN: "val x = Some r \<Longrightarrow> \<not> dec_isNaN D x"
    and dec_val_plus: "val x = Some r \<Longrightarrow> val y = Some s \<Longrightarrow> fits20 (r + s) \<Longrightarrow> val (dec_plus D x y) = Some (r + s)"
    and dec_val_times: "val x = Some r \<Longrightarrow> val y = Some s \<Longrightarrow> fits20 (r * s) \<Longrightarrow> val (dec_times D x y) = Some (r * s)"
    and dec_val_gt: "val x = Some r \<Longrightarrow> val y = Some s \<Longrightarrow> dec_gt D x y \<longleftrightarrow> s < r"
    and dec_val_eq: "val x = Some r \<Longrightarrow> val y = Some s \<Longrightarrow> dec_eq D x y \<longleftrightarrow> r = s"
    and dec_val_toFixed: "val x = Some r \<Longrightarrow>
      \<exists>y. dec_of_string D (dec_toFixed D x 2) = Some y \<and> val y = Some (round_half_up 2 r)"
  by (insert assms) (simp_all add: decimal_laws_def)

lemma fits20_cents: "\<bar>k\<bar> < 10 ^ 20 \<Longrightarrow> fits20 (of_int k / 100)"
  unfolding fits20_def by (intro exI [of _ k] exI [of _ "2::nat"]) simp

lemma fits20_int: "\<bar>k\<bar> < 10 ^ 20 \<Longrightarrow> fits20 (of_int k)"
  unfolding fits20_def by (intro exI [of _ k] exI [of _ "0::nat"]) simp

lemma fits20_0 [simp]: "fits20 0"
  using fits20_int [of 0] by simp

lemma round_half_up_exact: "round_half_up 2 (of_int k / 100) = of_int k / 100"
proof -
  have "\<lfloor>\<bar>of_int k / 100 :: rat\<bar> * 100 + 1 / 2\<rfloor> = \<bar>k\<bar>"
    by (simp add: floor_eq_iff abs_if)
  then show ?thesis
    by (auto simp: round_half_up_def Let_def abs_if divide_less_0_iff)
qed

section \<open>Laws of the value object\<close>

lemma money_of_Inr:
  "money_of D a c = Inr m \<longleftrightarrow>
     length c = 3 \<and> (\<exists>d. newDecimal D a = Inr d \<and> \<not> dec_isNaN D d \<and> m = mk_money d c)"
  by (auto simp: money_of_def split: sum.splits)

lemma mk_money_sel [simp]: "m_amount (mk_money d c) = d" "m_currency (mk_money d c) = to_upper c"
  by (simp_all add: mk_money_def)

lemma mk_money_currency [simp]: "to_upper c = c \<Longrightarrow> mk_money d c = \<lparr>m_amount = d, m_currency = c\<rparr>"
  by (simp add: mk_money_def)

text \<open>The type invariant of the class: a three-letter code in upper case.\<close>

definition money_ok :: "'d money \<Rightarrow> bool" where
  "money_ok m \<longleftrightarrow> length (m_currency m) = 3 \<and> to_upper (m_currency m) = m_currency m"

lemma money_of_ok: "money_of D a c = Inr m \<Longrightarrow> money_ok m"
  by (auto simp: money_of_Inr money_ok_def)

lemma money_zero_ok: "money_zero D c = Inr m \<Longrightarrow> money_ok m"
  by (simp add: money_zero_def money_of_ok)

lemma money_add_Inr:
  "money_add D a b = Inr m \<longleftrightarrow>
     m_currency a = m_currency b \<and> m = mk_money (dec_plus D (m_amount a) (m_amount b)) (m_currency a)"
  by (auto simp: money_add_def assertSameCurrency_def)

lemma money_multiply_Inr:
  "money_multiply D a k = Inr m \<longleftrightarrow>
     (\<exists>d. newDecimal D k = Inr d \<and> m = mk_money (dec_times D (m_amount a) d) (m_currency a))"
  by (auto simp: money_multiply_def split: sum.splits)

lemma money_add_ok: "money_ok a \<Longrightarrow> money_add D a b = Inr m \<Longrightarrow> money_ok m"
  by (auto simp: money_add_Inr money_ok_def)

lemma money_subtract_ok: "money_ok a \<Longrightarrow> money_subtract D a b = Inr m \<Longrightarrow> money_ok m"
  by (auto simp: money_subtract_def assertSameCurrency_def money_ok_def split: if_splits)

lemma money_multiply_ok: "money_ok a \<Longrightarrow> money_multiply D a k = Inr m \<Longrightarrow> money_ok m"
  by (auto simp: money_multiply_Inr money_ok_def)

section \<open>A concrete decimal library\<close>

text \<open>
  An instance of the parameter, used to show that the hypotheses about decimal.js can hold and
  to evaluate the model on concrete inputs: exact rationals, printed and parsed in fixed-point
  notation with up to two decimals.
\<close>

definition show_cents :: "int \<Rightarrow> string" where
  "show_cents k = (if k < 0 then ''-'' else []) @ show_nat (nat \<bar>k\<bar> div 100) @ ''.'' @
     [digit_char (nat \<bar>k\<bar> div 10 mod 10), digit_char (nat \<bar>k\<bar> mod 10)]"

definition is_digit :: "char \<Rightarrow> bool" where
  "is_digit c = (48 \<le> (of_char c :: nat) \<and> (of_char c :: nat) \<le> 57)"

fun parse_digits :: "int \<Rightarrow> string \<Rightarrow> int" where
  "parse_digits a [] = a"
| "parse_digits a (c # cs) = parse_digits (10 * a + (of_char c - 48)) cs"

definition parse_unsigned :: "string \<Rightarrow> rat option" where
  "parse_unsigned s =
     (case split_on CHR ''.'' s of
        [w] \<Rightarrow> if w \<noteq> [] \<and> list_all is_digit w then Some (of_int (parse_digits 0 w)) else None
      | [w, f] \<Rightarrow> if w @ f \<noteq> [] \<and> list_all is_digit (w @ f)
                  then Some (of_int (parse_digits 0 (w @ f)) / of_int (10 ^ length f)) else None
      | _ \<Rightarrow> None)"

fun parse_rat :: "string \<Rightarrow> rat option" where
  "parse_rat [] = None"
| "parse_rat (c # cs) = (if c = CHR ''-'' then map_option uminus (parse_unsigned cs) else parse_unsigned (c # cs))"

definition rat_decimal :: "rat decimal_lib" where
  "rat_decimal =
     \<lparr>dec_of_number = id, dec_of_string = parse_rat, dec_isNaN = (\<lambda>_. False),
      dec_plus = (+), dec_minus = (-), dec_times = (*), dec_isZero = (\<lambda>x. x = 0),
      dec_gt = (>), dec_lt = (<), dec_eq = (=),
      dec_toFixed = (\<lambda>x n. show_cents (\<lfloor>round_half_up 2 x * 100\<rfloor>)), dec_toNumber = id\<rparr>"

lemma of_char_digit:
  "n < 10 \<Longrightarrow> (of_char (digit_char n) :: nat) = 48 + n"
  "n < 10 \<Longrightarrow> (of_char (digit_char n) :: int) = 48 + int n"
proof -
  show nat: "(of_char (digit_char n) :: nat) = 48 + n" if "n < 10"
    using that by (simp add: digit_char_def of_char_of)
  have "(of_char c :: int) = int (of_char c)" for c by (simp add: of_nat_of_char)
  then show "(of_char (digit_char n) :: int) = 48 + int n" if "n < 10" using nat that by simp
qed

lemma parse_digits_append: "parse_digits a (xs @ ys) = parse_digits (parse_digits a xs) ys"
  by (induction xs arbitrary: a) auto

lemma parse_show_nat: "parse_digits 0 (show_nat n) = int n"
proof (induction n rule: show_nat.induct)
  case (1 n)
  show ?case
  proof (cases "n < 10")
    case True
    then show ?thesis by (subst show_nat.simps) (simp add: of_char_digit)
  next
    case False
    with "1.IH" show ?thesis
      by (subst show_nat.simps)
        (simp add: parse_digits_append of_char_digit zdiv_int zmod_int mult_div_mod_eq)
  qed
qed

lemma is_digit_digit_char: "n < 10 \<Longrightarrow> is_digit (digit_char n)"
  by (simp add: is_digit_def of_char_digit)

lemma show_nat_digits: "list_all is_digit (show_nat n)"
proof (induction n rule: show_nat.induct)
  case (1 n)
  then show ?case
    by (subst show_nat.simps) (simp add: is_digit_digit_char)
qed

lemma show_nat_nonempty: "show_nat n \<noteq> []"
  by (subst show_nat.simps) simp

lemma digits_avoid: "list_all is_digit w \<Longrightarrow> \<not> is_digit c \<Longrightarrow> c \<notin> set w"
  by (auto simp: list_all_iff)

lemma parse_unsigned_fixed:
  assumes "a < 10" and "b < 10"
  shows "parse_unsigned (show_nat n @ ''.'' @ [digit_char a, digit_char b]) =
    Some (of_nat (n * 100 + a * 10 + b) / 100)"
proof -
  let ?f = "[digit_char a, digit_char b]"
  have dot: "\<not> is_digit CHR ''.''" by (simp add: is_digit_def)
  have f: "list_all is_digit ?f" using assms by (simp add: is_digit_digit_char)
  have "split_on CHR ''.'' (show_nat n @ ''.'' @ ?f) = show_nat n # split_on CHR ''.'' ?f"
    using split_on_append_sep [OF digits_avoid [OF show_nat_digits dot]] by simp
  also have "split_on CHR ''.'' ?f = [?f]"
    by (rule split_on_no_sep [OF digits_avoid [OF f dot]])
  finally show ?thesis
    using f assms
    by (simp add: parse_unsigned_def show_nat_digits parse_digits_append parse_show_nat of_char_digit
        algebra_simps)
qed

lemma cents_split: "n div 100 * 100 + n div 10 mod 10 * 10 + n mod 10 = (n::nat)"
proof -
  have "n div 100 = n div 10 div 10" by (simp add: div_mult2_eq [symmetric])
  moreover have "n div 10 div 10 * 10 + n div 10 mod 10 = n div 10" by (rule div_mult_mod_eq)
  moreover have "n div 10 * 10 + n mod 10 = n" by (rule div_mult_mod_eq)
  ultimately show ?thesis by linarith
qed

lemma parse_show_cents: "parse_rat (show_cents k) = Some (of_int k / 100)"
proof -
  let ?n = "nat \<bar>k\<bar>"
  let ?u = "show_nat (?n div 100) @ ''.'' @ [digit_char (?n div 10 mod 10), digit_char (?n mod 10)]"
  have u: "parse_unsigned ?u = Some (of_nat ?n / 100)"
    using parse_unsigned_fixed [of "?n div 10 mod 10" "?n mod 10" "?n div 100"]
    by (simp add: cents_split [simplified])
  obtain c w where cw: "show_nat (?n div 100) = c # w" and "is_digit c"
    using show_nat_nonempty [of "?n div 100"] show_nat_digits [of "?n div 100"]
    by (cases "show_nat (?n div 100)") auto
  then have nd: "c \<noteq> CHR ''-''" by (auto simp: is_digit_def)
  show ?thesis
  proof (cases "k < 0")
    case True
    with u show ?thesis by (simp add: show_cents_def)
  next
    case False
    moreover have "parse_rat ?u = parse_unsigned ?u"
      using nd by (simp add: cw)
    ultimately show ?thesis using u by (simp add: show_cents_def)
  qed
qed

lemma round_half_up_cents: "of_int \<lfloor>round_half_up 2 r * 100\<rfloor> / 100 = round_half_up 2 r"
  by (simp add: round_half_up_def Let_def)

lemma rat_decimal_laws: "decimal_laws rat_decimal Some"
  by (simp add: decimal_laws_def rat_decimal_def parse_show_cents round_half_up_cents)

end
