(* ===== verification/Order.thy ===== *)
theory Order
  imports Status_Machine Money
begin

text \<open>
  The order aggregate of the order service: the status table
  (\<open>domain/value-objects/OrderStatus.ts\<close>), line items (\<open>domain/entities/OrderItem.ts\<close>) and the
  aggregate root (\<open>domain/entities/Order.ts\<close>).  The clock and the generator of ids are arguments.
\<close>

section \<open>Order status\<close>

datatype order_status =
    OS_CREATED | OS_INVENTORY_RESERVED | OS_INVENTORY_FAILED | OS_PAYMENT_PENDING
  | OS_PAYMENT_FAILED | OS_CONFIRMED | OS_CANCELLED | OS_EXPIRED

fun order_status_text :: "order_status \<Rightarrow> string" where
  "order_status_text OS_CREATED = ''CREATED''"
| "order_status_text OS_INVENTORY_RESERVED = ''INVENTORY_RESERVED''"
| "order_status_text OS_INVENTORY_FAILED = ''INVENTORY_FAILED''"
| "order_status_text OS_PAYMENT_PENDING = ''PAYMENT_PENDING''"
| "order_status_text OS_PAYMENT_FAILED = ''PAYMENT_FAILED''"
| "order_status_text OS_CONFIRMED = ''CONFIRMED''"
| "order_status_text OS_CANCELLED = ''CANCELLED''"
| "order_status_text OS_EXPIRED = ''EXPIRED''"

fun order_TRANSITIONS :: "order_status \<Rightarrow> order_status list" where
  "order_TRANSITIONS OS_CREATED = [OS_INVENTORY_RESERVED, OS_INVENTORY_FAILED, OS_EXPIRED, OS_CANCELLED]"
| "order_TRANSITIONS OS_INVENTORY_RESERVED = [OS_PAYMENT_PENDING, OS_CANCELLED]"
| "order_TRANSITIONS OS_PAYMENT_PENDING = [OS_CONFIRMED, OS_PAYMENT_FAILED]"
| "order_TRANSITIONS OS_PAYMENT_FAILED = [OS_CANCELLED]"
| "order_TRANSITIONS OS_INVENTORY_FAILED = [OS_CANCELLED]"
| "order_TRANSITIONS OS_CONFIRMED = []"
| "order_TRANSITIONS OS_CANCELLED = []"
| "order_TRANSITIONS OS_EXPIRED = []"

definition order_canTransition :: "order_status \<Rightarrow> order_status \<Rightarrow> bool" where
  "order_canTransition s t = (t \<in> set (order_TRANSITIONS s))"

definition status_isCancellable :: "order_status \<Rightarrow> bool" where
  "status_isCancellable s = order_canTransition s OS_CANCELLED"

definition order_status_isTerminal :: "order_status \<Rightarrow> bool" where
  "order_status_isTerminal s = (length (order_TRANSITIONS s) = 0)"

text \<open>How far along its life an order is: the longest path from creation to the status.\<close>

fun order_rank :: "order_status \<Rightarrow> nat" where
  "order_rank OS_CREATED = 0"
| "order_rank OS_INVENTORY_RESERVED = 1"
| "order_rank OS_INVENTORY_FAILED = 1"
| "order_rank OS_PAYMENT_PENDING = 2"
| "order_rank OS_PAYMENT_FAILED = 3"
| "order_rank OS_CONFIRMED = 3"
| "order_rank OS_CANCELLED = 4"
| "order_rank OS_EXPIRED = 1"

interpretation order_machine:
  ranked_status_machine order_TRANSITIONS order_canTransition order_status_isTerminal order_rank 4
proof
  fix s t
  show "order_canTransition s t \<longleftrightarrow> t \<in> set (order_TRANSITIONS s)" by (simp add: order_canTransition_def)
  show "order_status_isTerminal s \<longleftrightarrow> order_TRANSITIONS s = []" by (simp add: order_status_isTerminal_def)
  show "order_canTransition s t \<Longrightarrow> order_rank s < order_rank t"
    by (cases s) (auto simp: order_canTransition_def)
  show "order_rank s \<le> 4" by (cases s) auto
qed

lemma isCancellable_iff:
  "status_isCancellable s \<longleftrightarrow>
     s \<in> {OS_CREATED, OS_INVENTORY_RESERVED, OS_PAYMENT_FAILED, OS_INVENTORY_FAILED}"
  by (cases s) (auto simp: status_isCancellable_def order_canTransition_def)

lemma isTerminal_iff: "order_status_isTerminal s \<longleftrightarrow> s \<in> {OS_CONFIRMED, OS_CANCELLED, OS_EXPIRED}"
  by (cases s) (auto simp: order_status_isTerminal_def)

section \<open>Order items\<close>

record 'd order_item_props =
  ip_id :: "string option"
  ip_productId :: string
  ip_sku :: string
  ip_quantity :: int
  ip_unitPrice :: "'d money"

record 'd order_item =
  oi_id :: "string option"
  oi_productId :: string
  oi_sku :: string
  oi_quantity :: int
  oi_unitPrice :: "'d money"
  oi_totalPrice :: "'d money"

definition newOrderItem :: "'d decimal_lib \<Rightarrow> 'd order_item_props \<Rightarrow> js_error + 'd order_item" where
  "newOrderItem D p =
     (if ip_quantity p \<le> 0
      then Inl (PlainError (''Quantity must be positive, got '' @ show_int (ip_quantity p)))
      else if \<not> money_isPositive D (ip_unitPrice p)
      then Inl (PlainError (''Unit price must be positive, got '' @ money_toString D (ip_unitPrice p)))
      else case money_multiply D (ip_unitPrice p) (ANum (of_int (ip_quantity p))) of
        Inl e \<Rightarrow> Inl e
      | Inr tot \<Rightarrow>
          Inr \<lparr>oi_id = ip_id p, oi_productId = ip_productId p, oi_sku = ip_sku p,
               oi_quantity = ip_quantity p, oi_unitPrice = ip_unitPrice p, oi_totalPrice = tot\<rparr>)"

section \<open>The aggregate\<close>

record 'd order_props =
  op_id :: "string option"
  op_customerId :: string
  op_items :: "'d order_item_props list"
  op_currency :: string
  op_idempotencyKey :: string
  op_shippingAddress :: "json option"
  op_metadata :: "json option"
  op_status :: "order_status option"
  op_version :: "int option"
  op_createdAt :: "int option"
  op_updatedAt :: "int option"

record 'd order =
  o_id :: string
  o_customerId :: string
  o_items :: "'d order_item list"
  o_totalAmount :: "'d money"
  o_currency :: string
  o_idempotencyKey :: string
  o_shippingAddress :: json
  o_metadata :: json
  o_status :: order_status
  o_version :: int
  o_initialVersion :: int
  o_createdAt :: int
  o_updatedAt :: int

definition items_total :: "'d decimal_lib \<Rightarrow> string \<Rightarrow> 'd order_item list \<Rightarrow> js_error + 'd money" where
  "items_total D currency items =
     (case money_zero D currency of
        Inl e \<Rightarrow> Inl e
      | Inr z \<Rightarrow> fold_res (\<lambda>acc item. money_add D acc (oi_totalPrice item)) z items)"

text \<open>
  \<open>new Order(props)\<close>: \<open>uuid\<close> is the id \<open>randomUUID()\<close> would draw, \<open>now\<close> the current
  instant.
\<close>

definition newOrder :: "'d decimal_lib \<Rightarrow> string \<Rightarrow> int \<Rightarrow> 'd order_props \<Rightarrow> js_error + 'd order" where
  "newOrder D uuid now p =
     (if op_items p = [] then Inl (app_err ValidationError ''Order must have at least one item'')
      else if op_customerId p = [] then Inl (app_err ValidationError ''Customer ID is required'')
      else if op_idempotencyKey p = [] then Inl (app_err ValidationError ''Idempotency key is required'')
      else
        let currency = (if op_currency p = [] then ''USD'' else op_currency p);
            version = (case op_version p of Some v \<Rightarrow> v | None \<Rightarrow> 1)
        in case map_res (newOrderItem D) (op_items p) of
             Inl e \<Rightarrow> Inl e
           | Inr items \<Rightarrow>
               (case items_total D currency items of
                  Inl e \<Rightarrow> Inl e
                | Inr tot \<Rightarrow>
                    Inr \<lparr>o_id = (case op_id p of Some i \<Rightarrow> i | None \<Rightarrow> uuid),
                         o_customerId = op_customerId p, o_items = items, o_totalAmount = tot,
                         o_currency = currency, o_idempotencyKey = op_idempotencyKey p,
                         o_shippingAddress = (case op_shippingAddress p of Some a \<Rightarrow> a | None \<Rightarrow> JObj []),
                         o_metadata = (case op_metadata p of Some m \<Rightarrow> m | None \<Rightarrow> JObj []),
                         o_status = (case op_status p of Some s \<Rightarrow> s | None \<Rightarrow> OS_CREATED),
                         o_version = version, o_initialVersion = version,
                         o_createdAt = (case op_createdAt p of Some t \<Rightarrow> t | None \<Rightarrow> now),
                         o_updatedAt = (case op_updatedAt p of Some t \<Rightarrow> t | None \<Rightarrow> now)\<rparr>))"

definition transition_conflict :: "'d order \<Rightarrow> order_status \<Rightarrow> js_error" where
  "transition_conflict ord newStatus =
     App ((new_error ConflictError
             (''Cannot transition order from '' @ order_status_text (o_status ord) @ '' to ''
              @ order_status_text newStatus))
          \<lparr>ae_metadata := Some (JObj
             [(''currentStatus'', JStr (order_status_text (o_status ord))),
              (''requestedStatus'', JStr (order_status_text newStatus)),
              (''orderId'', JStr (o_id ord))])\<rparr>)"

definition order_transitionTo :: "int \<Rightarrow> order_status \<Rightarrow> 'd order \<Rightarrow> js_error + 'd order" where
  "order_transitionTo now newStatus ord =
     (if \<not> order_canTransition (o_status ord) newStatus then Inl (transition_conflict ord newStatus)
      else Inr (ord\<lparr>o_status := newStatus, o_version := o_version ord + 1, o_updatedAt := now\<rparr>))"

definition order_cancel :: "int \<Rightarrow> 'd order \<Rightarrow> js_error + 'd order" where
  "order_cancel now ord =
     (if \<not> status_isCancellable (o_status ord)
      then Inl (App ((new_error ConflictError
                  (''Order in status '' @ order_status_text (o_status ord) @ '' cannot be cancelled''))
                \<lparr>ae_metadata := Some (JObj [(''orderId'', JStr (o_id ord)),
                    (''currentStatus'', JStr (order_status_text (o_status ord)))])\<rparr>))
      else order_transitionTo now OS_CANCELLED ord)"

definition order_isTerminal :: "'d order \<Rightarrow> bool" where
  "order_isTerminal ord = order_status_isTerminal (o_status ord)"

definition order_isCancellable :: "'d order \<Rightarrow> bool" where
  "order_isCancellable ord = status_isCancellable (o_status ord)"

section \<open>Facts about single operations\<close>

lemma transitionTo_Inr:
  "order_transitionTo now t ord = Inr ord' \<longleftrightarrow>
     order_canTransition (o_status ord) t \<and>
     ord' = ord\<lparr>o_status := t, o_version := o_version ord + 1, o_updatedAt := now\<rparr>"
  by (auto simp: order_transitionTo_def)

lemma transitionTo_Inl:
  "order_transitionTo now t ord = Inl e \<longleftrightarrow>
     \<not> order_canTransition (o_status ord) t \<and> e = transition_conflict ord t"
  by (auto simp: order_transitionTo_def)

lemma cancel_Inr:
  "order_cancel now ord = Inr ord' \<longleftrightarrow>
     order_isCancellable ord \<and>
     ord' = ord\<lparr>o_status := OS_CANCELLED, o_version := o_version ord + 1, o_updatedAt := now\<rparr>"
  by (auto simp: order_cancel_def order_isCancellable_def transitionTo_Inr)
    (auto simp: order_transitionTo_def status_isCancellable_def)

text \<open>A chain of transitions, each checked, as the event handlers perform before one update.\<close>

fun order_transitions :: "int \<Rightarrow> order_status list \<Rightarrow> 'd order \<Rightarrow> js_error + 'd order" where
  "order_transitions now [] ord = Inr ord"
| "order_transitions now (t # ts) ord =
     (case order_transitionTo now t ord of Inl e \<Rightarrow> Inl e | Inr ord' \<Rightarrow> order_transitions now ts ord')"

lemma order_transitions_Inr:
  "order_transitions now ts ord = Inr ord' \<Longrightarrow>
     status_path order_canTransition (o_status ord) ts \<and>
     o_status ord' = last (o_status ord # ts) \<and>
     o_version ord' = o_version ord + int (length ts) \<and>
     o_initialVersion ord' = o_initialVersion ord \<and> o_items ord' = o_items ord \<and>
     o_totalAmount ord' = o_totalAmount ord \<and> o_id ord' = o_id ord"
proof (induction ts arbitrary: ord)
  case Nil
  then show ?case by simp
next
  case (Cons t ts)
  then obtain ord1 where 1: "order_transitionTo now t ord = Inr ord1"
    and 2: "order_transitions now ts ord1 = Inr ord'"
    by (auto split: sum.splits)
  from 1 have "ord1 = ord\<lparr>o_status := t, o_version := o_version ord + 1, o_updatedAt := now\<rparr>"
    and "order_canTransition (o_status ord) t"
    by (auto simp: transitionTo_Inr)
  with Cons.IH [OF 2] show ?case by simp
qed

lemma newOrderItem_Inr:
  "newOrderItem D p = Inr i \<longleftrightarrow>
     0 < ip_quantity p \<and> money_isPositive D (ip_unitPrice p) \<and>
     i = \<lparr>oi_id = ip_id p, oi_productId = ip_productId p, oi_sku = ip_sku p,
          oi_quantity = ip_quantity p, oi_unitPrice = ip_unitPrice p,
          oi_totalPrice = mk_money (dec_times D (m_amount (ip_unitPrice p))
            (dec_of_number D (of_int (ip_quantity p)))) (m_currency (ip_unitPrice p))\<rparr>"
  by (auto simp: newOrderItem_def money_multiply_def)

text \<open>The class invariant established by the constructor.\<close>

definition order_ok :: "'d decimal_lib \<Rightarrow> 'd order \<Rightarrow> bool" where
  "order_ok D ord \<longleftrightarrow>
     o_items ord \<noteq> [] \<and> o_customerId ord \<noteq> [] \<and> o_idempotencyKey ord \<noteq> [] \<and>
     (\<forall>i\<in>set (o_items ord). 0 < oi_quantity i \<and> money_isPositive D (oi_unitPrice i)) \<and>
     items_total D (o_currency ord) (o_items ord) = Inr (o_totalAmount ord) \<and>
     o_initialVersion ord \<le> o_version ord"

lemma newOrder_Inr:
  assumes "newOrder D uuid now p = Inr ord"
  shows "op_items p \<noteq> []" and "op_customerId p \<noteq> []" and "op_idempotencyKey p \<noteq> []"
    and "map_res (newOrderItem D) (op_items p) = Inr (o_items ord)"
    and "items_total D (o_currency ord) (o_items ord) = Inr (o_totalAmount ord)"
    and "o_customerId ord = op_customerId p" and "o_idempotencyKey ord = op_idempotencyKey p"
    and "o_initialVersion ord = o_version ord"
    and "o_id ord = (case op_id p of Some i \<Rightarrow> i | None \<Rightarrow> uuid)"
    and "o_currency ord = (if op_currency p = [] then ''USD'' else op_currency p)"
    and "o_status ord = (case op_status p of Some s \<Rightarrow> s | None \<Rightarrow> OS_CREATED)"
    and "o_version ord = (case op_version p of Some v \<Rightarrow> v | None \<Rightarrow> 1)"
  using assms by (auto simp: newOrder_def Let_def split: if_splits sum.splits)

lemma newOrder_ok: "newOrder D uuid now p = Inr ord \<Longrightarrow> order_ok D ord"
proof -
  assume new: "newOrder D uuid now p = Inr ord"
  note f = newOrder_Inr [OF new]
  have len: "length (o_items ord) = length (op_items p)" by (rule map_res_length [OF f(4)])
  have "\<forall>i\<in>set (o_items ord). 0 < oi_quantity i \<and> money_isPositive D (oi_unitPrice i)"
  proof
    fix i assume "i \<in> set (o_items ord)"
    then obtain n where "n < length (o_items ord)" "o_items ord ! n = i" by (auto simp: in_set_conv_nth)
    with f(4) len have "newOrderItem D (op_items p ! n) = Inr i"
      by (auto simp: map_res_Inr list_all2_conv_all_nth)
    then show "0 < oi_quantity i \<and> money_isPositive D (oi_unitPrice i)" by (auto simp: newOrderItem_Inr)
  qed
  with f len show ?thesis by (auto simp: order_ok_def)
qed

lemma order_ok_transition: "order_ok D ord \<Longrightarrow> order_transitionTo now t ord = Inr ord' \<Longrightarrow> order_ok D ord'"
  by (auto simp: order_ok_def transitionTo_Inr)

lemma order_ok_cancel: "order_ok D ord \<Longrightarrow> order_cancel now ord = Inr ord' \<Longrightarrow> order_ok D ord'"
  by (auto simp: order_ok_def cancel_Inr)

section \<open>Totals in cents\<close>

text \<open>
  With prices that are whole numbers of cents and a total below the precision of the decimal
  library, the computed total is the exact sum of price times quantity.
\<close>

lemma fold_total_cents:
  assumes D: "decimal_laws D val"
    and items: "\<forall>i\<in>set items. m_currency (oi_totalPrice i) = c \<and> 0 \<le> f i \<and> val (m_amount (oi_totalPrice i)) = Some (of_int (f i) / 100)"
    and z: "m_currency z = c" "to_upper c = c" "0 \<le> k" "val (m_amount z) = Some (of_int k / 100)"
    and bound: "k + sum_list (map f items) < 10 ^ 20"
  shows "\<exists>m. fold_res (\<lambda>acc item. money_add D acc (oi_totalPrice item)) z items = Inr m \<and>
    m_currency m = c \<and> val (m_amount m) = Some (of_int (k + sum_list (map f items)) / 100)"
  using items z bound
proof (induction items arbitrary: z k)
  case Nil
  then show ?case by simp
next
  case (Cons i items)
  let ?s = "mk_money (dec_plus D (m_amount z) (m_amount (oi_totalPrice i))) c"
  have nn: "0 \<le> sum_list (map f items)" using Cons.prems(1) by (intro sum_list_nonneg) auto
  have "\<bar>k + f i\<bar> < 10 ^ 20" using Cons.prems nn by auto
  then have fit: "fits20 (of_int (k + f i) / 100)" by (rule fits20_cents)
  have "val (dec_plus D (m_amount z) (m_amount (oi_totalPrice i))) = Some (of_int k / 100 + of_int (f i) / 100)"
    using Cons.prems fit by (intro dec_val_plus [OF D]) (auto simp: add_divide_distrib)
  then have v: "val (m_amount ?s) = Some (of_int (k + f i) / 100)" by (simp add: add_divide_distrib)
  have "\<exists>m. fold_res (\<lambda>acc item. money_add D acc (oi_totalPrice item)) ?s items = Inr m \<and>
    m_currency m = c \<and> val (m_amount m) = Some (of_int ((k + f i) + sum_list (map f items)) / 100)"
    using Cons.prems v by (intro Cons.IH) auto
  with Cons.prems show ?case by (auto simp: money_add_def assertSameCurrency_def add.assoc)
qed

end
