(* ===== verification/Sql.thy ===== *)
theory Sql
  imports App_Error
begin

text \<open>
  What the four Knex repositories share about PostgreSQL: tables are lists of rows in insertion
  order, a statement that violates a constraint of the migrations rejects with a driver error
  (its SQLSTATE), and \<open>transaction\<close> of the prelude rolls back.  Two functions of the server
  are parameters: which texts the \<open>uuid\<close> type accepts and which number a \<open>numeric\<close> text
  denotes.
\<close>

record sql_env =
  sql_uuid :: "string \<Rightarrow> bool"
  sql_numeric :: "string \<Rightarrow> rat option"

definition sql_err :: "string \<Rightarrow> js_error" where
  "sql_err sqlstate = LibraryError sqlstate"

text \<open>The SQLSTATE of the first constraint that does not hold.\<close>

fun first_violation :: "(bool \<times> string) list \<Rightarrow> string option" where
  "first_violation [] = None"
| "first_violation ((ok, t) # cs) = (if ok then first_violation cs else Some t)"

lemma first_violation_None: "first_violation cs = None \<longleftrightarrow> (\<forall>(ok, t)\<in>set cs. ok)"
  by (induction cs rule: first_violation.induct) auto

definition unique_violation :: string where "unique_violation = ''23505''"
definition foreign_key_violation :: string where "foreign_key_violation = ''23503''"
definition check_violation :: string where "check_violation = ''23514''"
definition invalid_text :: string where "invalid_text = ''22P02''"
definition too_long :: string where "too_long = ''22001''"
definition out_of_range :: string where "out_of_range = ''22003''"

text \<open>\<open>decimal(12, 2)\<close>: at most ten digits before the point; \<open>integer\<close>: 32 bits.\<close>

definition decimal_12_2 :: "sql_env \<Rightarrow> string \<Rightarrow> bool" where
  "decimal_12_2 E s = (case sql_numeric E s of Some r \<Rightarrow> \<bar>r\<bar> < 10 ^ 10 | None \<Rightarrow> False)"

definition int4 :: "int \<Rightarrow> bool" where
  "int4 n = (- 2147483648 \<le> n \<and> n \<le> 2147483647)"

text \<open>\<open>INSERT\<close> of several rows by one statement: \<open>viol\<close> gives the constraint a row violates
  against the rows before it; the statement fails as a whole.\<close>

fun insert_rows :: "('r list \<Rightarrow> 'r \<Rightarrow> string option) \<Rightarrow> 'r list \<Rightarrow> 'r list \<Rightarrow> js_error + 'r list" where
  "insert_rows viol rows [] = Inr rows"
| "insert_rows viol rows (r # rs) =
     (case viol rows r of
        Some t \<Rightarrow> Inl (sql_err t)
      | None \<Rightarrow> insert_rows viol (rows @ [r]) rs)"

lemma insert_rows_append: "insert_rows viol rows news = Inr rows' \<Longrightarrow> rows' = rows @ news"
  by (induction news arbitrary: rows) (fastforce split: option.splits)+

lemma insert_rows_all:
  assumes "insert_rows viol rows news = Inr rows'"
    and "\<And>rows r. viol rows r = None \<Longrightarrow> P r"
  shows "\<forall>r\<in>set news. P r"
  using assms(1)
proof (induction news arbitrary: rows)
  case (Cons r rs)
  then have "viol rows r = None" and "insert_rows viol (rows @ [r]) rs = Inr rows'"
    by (auto split: option.splits)
  with Cons.IH assms(2) show ?case by auto
qed simp

lemma insert_rows_distinct:
  assumes "insert_rows viol rows news = Inr rows'"
    and "\<And>rows r. viol rows r = None \<Longrightarrow> k r \<notin> k ` set rows"
    and "distinct (map k rows)"
  shows "distinct (map k rows')"
  using assms(1,3)
proof (induction news arbitrary: rows)
  case (Cons r rs)
  then have v: "viol rows r = None" and "insert_rows viol (rows @ [r]) rs = Inr rows'"
    by (auto split: option.splits)
  with Cons.IH [of "rows @ [r]"] Cons.prems assms(2) [OF v] show ?case by auto
qed simp

lemma insert_rows_one:
  "insert_rows viol rows [r] = Inr rows' \<longleftrightarrow> viol rows r = None \<and> rows' = rows @ [r]"
  by (auto split: option.splits)

text \<open>\<open>ORDER BY k ASC/DESC LIMIT n\<close>.  Rows with equal keys keep their insertion order.\<close>

definition order_limit :: "('r \<Rightarrow> int) \<Rightarrow> nat \<Rightarrow> 'r list \<Rightarrow> 'r list" where
  "order_limit k n rows = take n (sort_key k rows)"

lemma order_limit_set: "set (order_limit k n rows) \<subseteq> set rows"
  using set_take_subset [of n "sort_key k rows"] by (simp add: order_limit_def)

lemma order_limit_length: "length (order_limit k n rows) = min n (length rows)"
  by (simp add: order_limit_def min.commute)

lemma order_limit_sorted: "sorted (map k (order_limit k n rows))"
  by (simp add: order_limit_def take_map [symmetric] sorted_wrt_take)

lemma order_limit_distinct: "distinct rows \<Longrightarrow> distinct (order_limit k n rows)"
  by (simp add: order_limit_def)

end
