(* ===== verification/Trace_Context.thy ===== *)
theory Trace_Context
  imports App_Error
begin

text \<open>
  W3C trace context (\<open>packages/shared/src/observability/trace.ts\<close>), the request context
  (\<open>packages/shared/src/context/RequestContext.ts\<close>) and the middleware that fills it
  (\<open>packages/shared/src/middleware/requestId.ts\<close>).  Random identifiers are arguments.
\<close>

section \<open>Trace identifiers\<close>

record trace_context =
  tc_traceId :: string
  tc_spanId :: string
  tc_sampled :: bool

definition is_hex :: "char \<Rightarrow> bool" where
  "is_hex c = (let n = of_char c :: nat in (48 \<le> n \<and> n \<le> 57) \<or> (97 \<le> n \<and> n \<le> 102))"

definition hex_value :: "char \<Rightarrow> nat" where
  "hex_value c = (let n = of_char c :: nat in if n \<le> 57 then n - 48 else n - 87)"

definition hex_digit :: "nat \<Rightarrow> char" where
  "hex_digit n = (if n < 10 then char_of (48 + n) else char_of (87 + n))"

definition ALL_ZERO_TRACE :: string where
  "ALL_ZERO_TRACE = replicate 32 CHR ''0''"

definition ALL_ZERO_SPAN :: string where
  "ALL_ZERO_SPAN = replicate 16 CHR ''0''"

text \<open>\<open>randomBytes(n).toString('hex')\<close> for the bytes drawn.\<close>

definition hex_of_bytes :: "nat list \<Rightarrow> string" where
  "hex_of_bytes bs = concat (map (\<lambda>b. [hex_digit (b div 16 mod 16), hex_digit (b mod 16)]) bs)"

definition generateTraceId :: "nat list \<Rightarrow> string" where
  "generateTraceId bytes = hex_of_bytes (take 16 bytes)"

definition generateSpanId :: "nat list \<Rightarrow> string" where
  "generateSpanId bytes = hex_of_bytes (take 8 bytes)"

section \<open>The traceparent header\<close>

text \<open>
  The regular expression \<open>^00-([0-9a-f]{32})-([0-9a-f]{16})-([0-9a-f]{2})$\<close>: its three
  groups, or \<open>None\<close> when the text does not match.
\<close>

definition traceparent_match :: "string \<Rightarrow> (string \<times> string \<times> string) option" where
  "traceparent_match s =
     (let t = take 32 (drop 3 s); p = take 16 (drop 36 s); f = drop 53 s in
      if length s = 55 \<and> take 3 s = ''00-'' \<and> list_all is_hex t \<and> s ! 35 = CHR ''-''
         \<and> list_all is_hex p \<and> s ! 52 = CHR ''-'' \<and> list_all is_hex f
      then Some (t, p, f) else None)"

definition flags_sampled :: "string \<Rightarrow> bool" where
  "flags_sampled f = odd (hex_value (f ! 0) * 16 + hex_value (f ! 1))"

definition parseTraceparent :: "string option \<Rightarrow> trace_context option" where
  "parseTraceparent header =
     (case header of
        None \<Rightarrow> None
      | Some h \<Rightarrow>
          if h = [] then None
          else case traceparent_match (trim h) of
            None \<Rightarrow> None
          | Some (traceId, spanId, flags) \<Rightarrow>
              if traceId = ALL_ZERO_TRACE \<or> spanId = ALL_ZERO_SPAN then None
              else Some \<lparr>tc_traceId = traceId, tc_spanId = spanId, tc_sampled = flags_sampled flags\<rparr>)"

definition formatTraceparent :: "trace_context \<Rightarrow> string" where
  "formatTraceparent c =
     ''00-'' @ tc_traceId c @ ''-'' @ tc_spanId c @ ''-'' @ (if tc_sampled c then ''01'' else ''00'')"

text \<open>The bytes drawn for a fresh trace id and a fresh span id are arguments.\<close>

definition continueTrace :: "nat list \<Rightarrow> nat list \<Rightarrow> string option \<Rightarrow> trace_context" where
  "continueTrace tbytes sbytes header =
     (case parseTraceparent header of
        Some parent \<Rightarrow>
          \<lparr>tc_traceId = tc_traceId parent, tc_spanId = generateSpanId sbytes, tc_sampled = tc_sampled parent\<rparr>
      | None \<Rightarrow>
          \<lparr>tc_traceId = generateTraceId tbytes, tc_spanId = generateSpanId sbytes, tc_sampled = True\<rparr>)"

text \<open>What a well-formed context is.\<close>

definition trace_ok :: "trace_context \<Rightarrow> bool" where
  "trace_ok c \<longleftrightarrow>
     length (tc_traceId c) = 32 \<and> list_all is_hex (tc_traceId c) \<and> tc_traceId c \<noteq> ALL_ZERO_TRACE \<and>
     length (tc_spanId c) = 16 \<and> list_all is_hex (tc_spanId c) \<and> tc_spanId c \<noteq> ALL_ZERO_SPAN"

lemma hex_digit_hex: "n < 16 \<Longrightarrow> is_hex (hex_digit n)"
  by (auto simp: is_hex_def hex_digit_def Let_def of_char_of)

lemma hex_of_bytes_hex: "list_all is_hex (hex_of_bytes bs)"
  by (auto simp: hex_of_bytes_def list_all_iff hex_digit_hex)

lemma length_hex_of_bytes: "length (hex_of_bytes bs) = 2 * length bs"
  by (induction bs) (auto simp: hex_of_bytes_def)

lemma not_space_hex: "is_hex c \<Longrightarrow> \<not> is_space c"
  by (auto simp: is_hex_def is_space_def Let_def)

lemma trim_id: "s \<noteq> [] \<Longrightarrow> \<not> is_space (hd s) \<Longrightarrow> \<not> is_space (last s) \<Longrightarrow> trim s = s"
  by (simp add: trim_def dropWhile_eq_self_iff [THEN iffD2] hd_rev)

lemma format_match:
  assumes "length t = 32" "list_all is_hex t" "length p = 16" "list_all is_hex p"
    and "length f = 2" "list_all is_hex f"
  shows "traceparent_match (''00-'' @ t @ ''-'' @ p @ ''-'' @ f) = Some (t, p, f)"
  using assms by (simp add: traceparent_match_def nth_append numeral_eq_Suc)

lemma parse_formatted:
  assumes "trace_ok c"
  shows "parseTraceparent (Some (formatTraceparent c)) = Some c"
proof -
  let ?f = "if tc_sampled c then ''01'' else ''00''"
  have f: "length ?f = 2" "list_all is_hex ?f" by (auto simp: is_hex_def)
  have "last (formatTraceparent c) = last ?f" by (simp add: formatTraceparent_def)
  then have "trim (formatTraceparent c) = formatTraceparent c"
    by (intro trim_id) (auto simp: formatTraceparent_def is_space_def)
  moreover have "traceparent_match (formatTraceparent c) = Some (tc_traceId c, tc_spanId c, ?f)"
    unfolding formatTraceparent_def using assms f by (intro format_match) (auto simp: trace_ok_def)
  moreover have "flags_sampled ?f = tc_sampled c"
    by (simp add: flags_sampled_def hex_value_def)
  ultimately show ?thesis
    using assms by (simp add: parseTraceparent_def trace_ok_def) (simp add: formatTraceparent_def)
qed

lemma parse_ok: "parseTraceparent h = Some c \<Longrightarrow> trace_ok c"
  by (auto simp: parseTraceparent_def traceparent_match_def trace_ok_def Let_def
      split: option.splits if_splits)

section \<open>Request context\<close>

record request_context =
  rc_requestId :: string
  rc_correlationId :: string
  rc_userId :: "string option"
  rc_startTime :: int
  rc_traceId :: "string option"
  rc_spanId :: "string option"

text \<open>
  \<open>RequestContext.run(ctx, fn)\<close> runs \<open>fn\<close> with \<open>ctx\<close> as the ambient store; the getters
  read it.  The ambient store is an explicit argument \<open>request_context option\<close>.
\<close>

definition ctx_run :: "request_context \<Rightarrow> (request_context option \<Rightarrow> 'a) \<Rightarrow> 'a" where
  "ctx_run ctx fn = fn (Some ctx)"

definition getRequestId :: "request_context option \<Rightarrow> string option" where
  "getRequestId c = map_option rc_requestId c"

definition getCorrelationId :: "request_context option \<Rightarrow> string option" where
  "getCorrelationId c = map_option rc_correlationId c"

definition getUserId :: "request_context option \<Rightarrow> string option" where
  "getUserId c = Option.bind c rc_userId"

definition getTraceId :: "request_context option \<Rightarrow> string option" where
  "getTraceId c = Option.bind c rc_traceId"

definition getSpanId :: "request_context option \<Rightarrow> string option" where
  "getSpanId c = Option.bind c rc_spanId"

definition getElapsedMs :: "int \<Rightarrow> request_context option \<Rightarrow> int option" where
  "getElapsedMs now c = map_option (\<lambda>ctx. now - rc_startTime ctx) c"

text \<open>The traceparent of the ambient context, when it has non-empty trace and span ids.\<close>

definition currentTraceparent :: "request_context option \<Rightarrow> string option" where
  "currentTraceparent c =
     (case c of
        None \<Rightarrow> None
      | Some ctx \<Rightarrow>
          (case (rc_traceId ctx, rc_spanId ctx) of
             (Some t, Some s) \<Rightarrow>
               if t \<noteq> [] \<and> s \<noteq> []
               then Some (formatTraceparent \<lparr>tc_traceId = t, tc_spanId = s, tc_sampled = True\<rparr>)
               else None
           | _ \<Rightarrow> None))"

text \<open>
  \<open>requestIdMiddleware\<close>: the response headers it sets and the context the rest of the
  request runs in.  \<open>uuid\<close> is the id \<open>randomUUID()\<close> would draw.
\<close>

definition requestIdMiddleware ::
    "string \<Rightarrow> nat list \<Rightarrow> nat list \<Rightarrow> int \<Rightarrow> (string \<rightharpoonup> string) \<Rightarrow>
     (string \<times> string) list \<times> request_context" where
  "requestIdMiddleware uuid tbytes sbytes now headers =
     (let requestId = (case headers ''x-request-id'' of Some r \<Rightarrow> r | None \<Rightarrow> uuid);
          correlationId = (case headers ''x-correlation-id'' of Some c \<Rightarrow> c | None \<Rightarrow> requestId);
          trace = continueTrace tbytes sbytes (headers ''traceparent'')
      in ([(''X-Request-ID'', requestId), (''X-Correlation-ID'', correlationId),
           (''traceparent'', formatTraceparent trace)],
          \<lparr>rc_requestId = requestId, rc_correlationId = correlationId, rc_userId = None,
           rc_startTime = now, rc_traceId = Some (tc_traceId trace), rc_spanId = Some (tc_spanId trace)\<rparr>))"

lemma continueTrace_parent:
  assumes "parseTraceparent header = Some parent"
  shows "continueTrace tb sb header =
    \<lparr>tc_traceId = tc_traceId parent, tc_spanId = generateSpanId sb, tc_sampled = tc_sampled parent\<rparr>"
  using assms by (simp add: continueTrace_def)

lemma continueTrace_ok:
  assumes "length tb = 16" "length sb = 8"
    and "generateTraceId tb \<noteq> ALL_ZERO_TRACE" "generateSpanId sb \<noteq> ALL_ZERO_SPAN"
  shows "trace_ok (continueTrace tb sb header)"
  using assms parse_ok [of header]
  by (auto simp: continueTrace_def trace_ok_def generateTraceId_def generateSpanId_def
      length_hex_of_bytes hex_of_bytes_hex split: option.split)

end
