(* ===== verification/Order_Store.thy ===== *)
theory Order_Store
  imports Order Sql Trace_Context
begin

text \<open>
  Persistence of the order service: the ports \<open>application/ports/*.ts\<close> as records of
  operations, the tables of its migrations, and the Knex repositories
  (\<open>infrastructure/repositories/Knex{Order,Outbox,SagaStep}Repository.ts\<close>).  The contract the
  handlers rely on is the locale \<open>order_store\<close>, interpreted here on the Knex repository.
\<close>

section \<open>Ports\<close>

record outbox_input =
  ob_aggregateType :: string
  ob_aggregateId :: string
  ob_eventType :: string
  ob_payload :: json
  ob_metadata :: "json option"

record outbox_record =
  obr_id :: string
  obr_createdAt :: int
  obr_event :: outbox_input

text \<open>
  What one call draws from its environment: the clock, \<open>randomUUID()\<close>, the ids
  \<open>gen_random_uuid()\<close> gives to the n-th row of an insert, the ambient request context.
\<close>

record call_ctx =
  cx_now :: int
  cx_uuid :: string
  cx_itemIds :: "nat \<Rightarrow> string"
  cx_outboxIds :: "nat \<Rightarrow> string"
  cx_request :: "request_context option"

record page_options =
  pg_cursor :: "string option"
  pg_limit :: nat
  pg_status :: "string option"

record 'a page =
  pr_data :: "'a list"
  pr_limit :: nat
  pr_hasMore :: bool
  pr_nextCursor :: "string option"

record ('s, 'd) order_repository =
  repo_save :: "call_ctx \<Rightarrow> 'd order \<Rightarrow> outbox_input list \<Rightarrow> ('s, js_error, 'd order) eff"
  repo_findById :: "string \<Rightarrow> ('s, js_error, 'd order option) eff"
  repo_findByIdempotencyKey :: "string \<Rightarrow> ('s, js_error, 'd order option) eff"
  repo_update :: "call_ctx \<Rightarrow> 'd order \<Rightarrow> outbox_input list \<Rightarrow> ('s, js_error, 'd order) eff"
  repo_findByCustomerId :: "string \<Rightarrow> page_options \<Rightarrow> ('s, js_error, 'd order page) eff"

record saga_step =
  ss_id :: string
  ss_orderId :: string
  ss_stepName :: string
  ss_status :: string
  ss_error :: "string option"
  ss_startedAt :: int
  ss_completedAt :: "int option"
  ss_retryCount :: int

record 's saga_repository =
  saga_record :: "call_ctx \<Rightarrow> string \<Rightarrow> string \<Rightarrow> string \<Rightarrow> string option \<Rightarrow> ('s, js_error, unit) eff"
  saga_findByOrderId :: "string \<Rightarrow> ('s, js_error, saga_step list) eff"

section \<open>Tables\<close>

record order_row =
  ow_id :: string
  ow_customer_id :: string
  ow_status :: order_status
  ow_total_amount :: string
  ow_currency :: string
  ow_idempotency_key :: string
  ow_shipping_address :: json
  ow_metadata :: json
  ow_created_at :: int
  ow_updated_at :: int
  ow_version :: int

record order_item_row =
  iw_id :: string
  iw_order_id :: string
  iw_product_id :: string
  iw_sku :: string
  iw_quantity :: int
  iw_unit_price :: string
  iw_total_price :: string

record outbox_row =
  xw_id :: string
  xw_event :: outbox_input
  xw_published :: bool
  xw_created_at :: int
  xw_published_at :: "int option"

record order_db =
  od_orders :: "order_row list"
  od_items :: "order_item_row list"
  od_outbox :: "outbox_row list"
  od_steps :: "saga_step list"

text \<open>The constraints of migrations 001, 002 and 004.\<close>

definition order_row_violation :: "sql_env \<Rightarrow> order_row list \<Rightarrow> order_row \<Rightarrow> string option" where
  "order_row_violation E rows r = first_violation
     [(sql_uuid E (ow_id r), invalid_text), (sql_uuid E (ow_customer_id r), invalid_text),
      (decimal_12_2 E (ow_total_amount r), out_of_range), (length (ow_currency r) \<le> 3, too_long),
      (length (ow_idempotency_key r) \<le> 64, too_long), (int4 (ow_version r), out_of_range),
      (ow_id r \<notin> ow_id ` set rows, unique_violation),
      (ow_idempotency_key r \<notin> ow_idempotency_key ` set rows, unique_violation)]"

definition item_row_violation ::
    "sql_env \<Rightarrow> order_row list \<Rightarrow> order_item_row list \<Rightarrow> order_item_row \<Rightarrow> string option" where
  "item_row_violation E orders rows r = first_violation
     [(sql_uuid E (iw_product_id r), invalid_text), (length (iw_sku r) \<le> 50, too_long),
      (int4 (iw_quantity r), out_of_range),
      (decimal_12_2 E (iw_unit_price r), out_of_range), (decimal_12_2 E (iw_total_price r), out_of_range),
      (0 < iw_quantity r, check_violation),
      (case sql_numeric E (iw_unit_price r) of Some p \<Rightarrow> 0 < p | None \<Rightarrow> False, check_violation),
      (iw_id r \<notin> iw_id ` set rows, unique_violation),
      (iw_order_id r \<in> ow_id ` set orders, foreign_key_violation)]"

definition outbox_row_violation :: "sql_env \<Rightarrow> outbox_row list \<Rightarrow> outbox_row \<Rightarrow> string option" where
  "outbox_row_violation E rows r = first_violation
     [(length (ob_aggregateType (xw_event r)) \<le> 50, too_long),
      (sql_uuid E (ob_aggregateId (xw_event r)), invalid_text),
      (length (ob_eventType (xw_event r)) \<le> 100, too_long),
      (xw_id r \<notin> xw_id ` set rows, unique_violation)]"

section \<open>KnexOrderRepository\<close>

definition item_props_of_row ::
    "'d decimal_lib \<Rightarrow> string \<Rightarrow> order_item_row \<Rightarrow> js_error + 'd order_item_props" where
  "item_props_of_row D currency item =
     (case money_of D (AStr (iw_unit_price item)) currency of
        Inl e \<Rightarrow> Inl e
      | Inr price \<Rightarrow> Inr \<lparr>ip_id = Some (iw_id item), ip_productId = iw_product_id item, ip_sku = iw_sku item,
                         ip_quantity = iw_quantity item, ip_unitPrice = price\<rparr>)"

definition order_toDomain ::
    "'d decimal_lib \<Rightarrow> order_row \<Rightarrow> order_item_row list \<Rightarrow> js_error + 'd order" where
  "order_toDomain D row items =
     (case map_res (item_props_of_row D (ow_currency row)) items of
        Inl e \<Rightarrow> Inl e
      | Inr props \<Rightarrow>
          newOrder D (ow_id row) (ow_created_at row)
            \<lparr>op_id = Some (ow_id row), op_customerId = ow_customer_id row, op_items = props,
             op_currency = ow_currency row, op_idempotencyKey = ow_idempotency_key row,
             op_shippingAddress = Some (ow_shipping_address row), op_metadata = Some (ow_metadata row),
             op_status = Some (ow_status row), op_version = Some (ow_version row),
             op_createdAt = Some (ow_created_at row), op_updatedAt = Some (ow_updated_at row)\<rparr>)"

definition items_of :: "order_db \<Rightarrow> string \<Rightarrow> order_item_row list" where
  "items_of db oid = filter (\<lambda>i. iw_order_id i = oid) (od_items db)"

definition trx_insert_order :: "sql_env \<Rightarrow> order_row \<Rightarrow> (order_db, js_error, order_row) eff" where
  "trx_insert_order E row db =
     (case insert_rows (order_row_violation E) (od_orders db) [row] of
        Inl e \<Rightarrow> (Inl e, db)
      | Inr rows \<Rightarrow> (Inr row, db\<lparr>od_orders := rows\<rparr>))"

definition trx_insert_items :: "sql_env \<Rightarrow> order_item_row list \<Rightarrow> (order_db, js_error, unit) eff" where
  "trx_insert_items E items db =
     (case insert_rows (item_row_violation E (od_orders db)) (od_items db) items of
        Inl e \<Rightarrow> (Inl e, db)
      | Inr rows \<Rightarrow> (Inr (), db\<lparr>od_items := rows\<rparr>))"

text \<open>\<open>writeOutbox\<close>: one row per event, inside the caller's transaction.\<close>

definition outbox_rows :: "call_ctx \<Rightarrow> outbox_input list \<Rightarrow> outbox_row list" where
  "outbox_rows cx events =
     map (\<lambda>(i, e). \<lparr>xw_id = cx_outboxIds cx i, xw_event = e, xw_published = False,
                    xw_created_at = cx_now cx, xw_published_at = None\<rparr>) (enumerate 0 events)"

definition writeOutbox :: "sql_env \<Rightarrow> call_ctx \<Rightarrow> outbox_input list \<Rightarrow> (order_db, js_error, unit) eff" where
  "writeOutbox E cx events db =
     (if events = [] then (Inr (), db)
      else case insert_rows (outbox_row_violation E) (od_outbox db) (outbox_rows cx events) of
        Inl e \<Rightarrow> (Inl e, db)
      | Inr rows \<Rightarrow> (Inr (), db\<lparr>od_outbox := rows\<rparr>))"

text \<open>The row \<open>save\<close> inserts (the creation instants are the column defaults) and its items.\<close>

definition row_of_order :: "'d decimal_lib \<Rightarrow> call_ctx \<Rightarrow> 'd order \<Rightarrow> order_row" where
  "row_of_order D cx ord =
     \<lparr>ow_id = o_id ord, ow_customer_id = o_customerId ord, ow_status = o_status ord,
      ow_total_amount = money_fixed D (o_totalAmount ord), ow_currency = o_currency ord,
      ow_idempotency_key = o_idempotencyKey ord, ow_shipping_address = o_shippingAddress ord,
      ow_metadata = o_metadata ord, ow_created_at = cx_now cx, ow_updated_at = cx_now cx,
      ow_version = o_version ord\<rparr>"

definition item_row_of :: "'d decimal_lib \<Rightarrow> string \<Rightarrow> string \<Rightarrow> 'd order_item \<Rightarrow> order_item_row" where
  "item_row_of D rowid oid item =
     \<lparr>iw_id = rowid, iw_order_id = oid, iw_product_id = oi_productId item, iw_sku = oi_sku item,
      iw_quantity = oi_quantity item, iw_unit_price = money_fixed D (oi_unitPrice item),
      iw_total_price = money_fixed D (oi_totalPrice item)\<rparr>"

definition item_rows_of ::
    "'d decimal_lib \<Rightarrow> (nat \<Rightarrow> string) \<Rightarrow> string \<Rightarrow> 'd order_item list \<Rightarrow> order_item_row list" where
  "item_rows_of D ids oid items = map (\<lambda>(i, item). item_row_of D (ids i) oid item) (enumerate 0 items)"

text \<open>
  \<open>save\<close>: order, items and outbox events in one transaction.  \<open>INSERT ... RETURNING\<close>
  yields the inserted row, so the guard for a missing row cannot fire.  The order returned is
  built from the texts written to the columns.
\<close>

definition generated_id :: "nat \<Rightarrow> string" where
  "generated_id i = ''generated-'' @ show_nat i"

definition knex_order_save ::
    "sql_env \<Rightarrow> 'd decimal_lib \<Rightarrow> call_ctx \<Rightarrow> 'd order \<Rightarrow> outbox_input list \<Rightarrow>
     (order_db, js_error, 'd order) eff" where
  "knex_order_save E D cx ord events = transaction
     (bind_eff (trx_insert_order E (row_of_order D cx ord)) (\<lambda>row.
      bind_eff (if o_items ord = [] then ret ()
                else trx_insert_items E (item_rows_of D (cx_itemIds cx) (ow_id row) (o_items ord))) (\<lambda>_.
      bind_eff (writeOutbox E cx events) (\<lambda>_.
      lift_res (order_toDomain D row (item_rows_of D generated_id (ow_id row) (o_items ord)))))))"

definition knex_order_findById ::
    "sql_env \<Rightarrow> 'd decimal_lib \<Rightarrow> string \<Rightarrow> (order_db, js_error, 'd order option) eff" where
  "knex_order_findById E D oid db =
     (if \<not> sql_uuid E oid then (Inl (sql_err invalid_text), db)
      else case List.find (\<lambda>r. ow_id r = oid) (od_orders db) of
        None \<Rightarrow> (Inr None, db)
      | Some row \<Rightarrow>
          (case order_toDomain D row (items_of db oid) of
             Inl e \<Rightarrow> (Inl e, db) | Inr ord \<Rightarrow> (Inr (Some ord), db)))"

definition knex_order_findByIdempotencyKey ::
    "'d decimal_lib \<Rightarrow> string \<Rightarrow> (order_db, js_error, 'd order option) eff" where
  "knex_order_findByIdempotencyKey D key db =
     (case List.find (\<lambda>r. ow_idempotency_key r = key) (od_orders db) of
        None \<Rightarrow> (Inr None, db)
      | Some row \<Rightarrow>
          (case order_toDomain D row (items_of db (ow_id row)) of
             Inl e \<Rightarrow> (Inl e, db) | Inr ord \<Rightarrow> (Inr (Some ord), db)))"

definition version_conflict :: "'d order \<Rightarrow> js_error" where
  "version_conflict ord =
     App ((new_error ConflictError
             (''Order '' @ o_id ord @ '' was modified by another process (version conflict)''))
          \<lparr>ae_metadata := Some (JObj [(''orderId'', JStr (o_id ord)),
             (''expectedVersion'', JNum (of_int (o_initialVersion ord)))])\<rparr>)"

definition matches_version :: "'d order \<Rightarrow> order_row \<Rightarrow> bool" where
  "matches_version ord r = (ow_id r = o_id ord \<and> ow_version r = o_initialVersion ord)"

definition updated_row :: "'d decimal_lib \<Rightarrow> call_ctx \<Rightarrow> 'd order \<Rightarrow> order_row \<Rightarrow> order_row" where
  "updated_row D cx ord r =
     r\<lparr>ow_status := o_status ord, ow_total_amount := money_fixed D (o_totalAmount ord),
       ow_updated_at := cx_now cx, ow_version := o_version ord, ow_metadata := o_metadata ord\<rparr>"

text \<open>\<open>update(order)\<close>'s statement: the first row it rewrote, or the conflict.\<close>

definition trx_update_order ::
    "sql_env \<Rightarrow> 'd decimal_lib \<Rightarrow> call_ctx \<Rightarrow> 'd order \<Rightarrow> (order_db, js_error, order_row) eff" where
  "trx_update_order E D cx ord db =
     (if \<not> sql_uuid E (o_id ord) then (Inl (sql_err invalid_text), db)
      else case List.find (matches_version ord) (od_orders db) of
        None \<Rightarrow> (Inl (version_conflict ord), db)
      | Some row \<Rightarrow>
          if \<not> decimal_12_2 E (money_fixed D (o_totalAmount ord)) \<or> \<not> int4 (o_version ord)
          then (Inl (sql_err out_of_range), db)
          else (Inr (updated_row D cx ord row),
                db\<lparr>od_orders := update_where (matches_version ord) (updated_row D cx ord) (od_orders db)\<rparr>))"

definition knex_order_update ::
    "sql_env \<Rightarrow> 'd decimal_lib \<Rightarrow> call_ctx \<Rightarrow> 'd order \<Rightarrow> outbox_input list \<Rightarrow>
     (order_db, js_error, 'd order) eff" where
  "knex_order_update E D cx ord events =
     (if o_id ord = [] then throw (PlainError ''Cannot update order without ID'')
      else transaction
        (bind_eff (trx_update_order E D cx ord) (\<lambda>row.
         bind_eff (writeOutbox E cx events) (\<lambda>_ db.
           (order_toDomain D row (items_of db (o_id ord)), db)))))"

text \<open>
  \<open>findByCustomerId\<close>.  The cursor is the base64 text of a JSON object with the instant of the
  last row; encoder and decoder (which may throw) are an argument.
\<close>

record cursor_codec =
  cur_encode :: "int \<Rightarrow> string"
  cur_decode :: "string \<Rightarrow> js_error + int"

definition cursor_bound :: "cursor_codec \<Rightarrow> string option \<Rightarrow> js_error + int option" where
  "cursor_bound C cursor =
     (case cursor of
        None \<Rightarrow> Inr None
      | Some c \<Rightarrow> if c = [] then Inr None
                  else (case cur_decode C c of Inl e \<Rightarrow> Inl e | Inr t \<Rightarrow> Inr (Some t)))"

definition order_page_filter :: "string \<Rightarrow> string option \<Rightarrow> int option \<Rightarrow> order_row \<Rightarrow> bool" where
  "order_page_filter customerId status bound r \<longleftrightarrow>
     ow_customer_id r = customerId \<and>
     (case status of Some st \<Rightarrow> st = [] \<or> order_status_text (ow_status r) = st | None \<Rightarrow> True) \<and>
     (case bound of Some t \<Rightarrow> ow_created_at r < t | None \<Rightarrow> True)"

definition order_page_rows :: "string \<Rightarrow> string option \<Rightarrow> int option \<Rightarrow> nat \<Rightarrow> order_db \<Rightarrow> order_row list" where
  "order_page_rows customerId status bound limit db =
     order_limit (\<lambda>r. - ow_created_at r) (limit + 1)
       (filter (order_page_filter customerId status bound) (od_orders db))"

definition knex_order_findByCustomerId ::
    "sql_env \<Rightarrow> 'd decimal_lib \<Rightarrow> cursor_codec \<Rightarrow> string \<Rightarrow> page_options \<Rightarrow>
     (order_db, js_error, 'd order page) eff" where
  "knex_order_findByCustomerId E D C customerId opts db =
     (case cursor_bound C (pg_cursor opts) of
        Inl e \<Rightarrow> (Inl e, db)
      | Inr bound \<Rightarrow>
          if \<not> sql_uuid E customerId then (Inl (sql_err invalid_text), db)
          else
            let rows = order_page_rows customerId (pg_status opts) bound (pg_limit opts) db;
                hasMore = (length rows > pg_limit opts);
                data = take (pg_limit opts) rows;
                nextCursor = (if hasMore \<and> data \<noteq> [] then Some (cur_encode C (ow_created_at (last data))) else None)
            in case map_res (\<lambda>row. order_toDomain D row (items_of db (ow_id row))) data of
                 Inl e \<Rightarrow> (Inl e, db)
               | Inr orders \<Rightarrow>
                   (Inr \<lparr>pr_data = orders, pr_limit = pg_limit opts, pr_hasMore = hasMore,
                         pr_nextCursor = nextCursor\<rparr>, db))"

definition KnexOrderRepository ::
    "sql_env \<Rightarrow> 'd decimal_lib \<Rightarrow> cursor_codec \<Rightarrow> (order_db, 'd) order_repository" where
  "KnexOrderRepository E D C =
     \<lparr>repo_save = knex_order_save E D, repo_findById = knex_order_findById E D,
      repo_findByIdempotencyKey = knex_order_findByIdempotencyKey D,
      repo_update = knex_order_update E D, repo_findByCustomerId = knex_order_findByCustomerId E D C\<rparr>"

section \<open>KnexOutboxRepository\<close>

definition record_of_outbox_row :: "outbox_row \<Rightarrow> outbox_record" where
  "record_of_outbox_row r = \<lparr>obr_id = xw_id r, obr_createdAt = xw_created_at r, obr_event = xw_event r\<rparr>"

definition knex_findUnpublished :: "nat \<Rightarrow> (order_db, js_error, outbox_record list) eff" where
  "knex_findUnpublished limit db =
     (Inr (map record_of_outbox_row
             (order_limit xw_created_at limit (filter (\<lambda>r. \<not> xw_published r) (od_outbox db)))), db)"

definition knex_markPublished :: "int \<Rightarrow> string list \<Rightarrow> (order_db, js_error, unit) eff" where
  "knex_markPublished now ids db =
     (if ids = [] then (Inr (), db)
      else (Inr (), db\<lparr>od_outbox := update_where (\<lambda>r. xw_id r \<in> set ids)
              (\<lambda>r. r\<lparr>xw_published := True, xw_published_at := Some now\<rparr>) (od_outbox db)\<rparr>))"

section \<open>KnexSagaStepRepository\<close>

text \<open>
  \<open>record\<close>: an upsert on \<open>(order_id, step_name)\<close>.  The id of a new row is the first the
  database draws.
\<close>

definition is_step :: "string \<Rightarrow> string \<Rightarrow> saga_step \<Rightarrow> bool" where
  "is_step orderId stepName r = (ss_orderId r = orderId \<and> ss_stepName r = stepName)"

definition knex_saga_record ::
    "sql_env \<Rightarrow> call_ctx \<Rightarrow> string \<Rightarrow> string \<Rightarrow> string \<Rightarrow> string option \<Rightarrow> (order_db, js_error, unit) eff" where
  "knex_saga_record E cx orderId stepName status err db =
     (let now = cx_now cx;
          completedAt = (if status = ''PENDING'' then None else Some now);
          row = \<lparr>ss_id = cx_itemIds cx 0, ss_orderId = orderId, ss_stepName = stepName, ss_status = status,
                 ss_error = err, ss_startedAt = now, ss_completedAt = completedAt, ss_retryCount = 0\<rparr>
      in case first_violation
           [(sql_uuid E orderId, invalid_text), (length stepName \<le> 50, too_long),
            (length status \<le> 20, too_long)] of
           Some t \<Rightarrow> (Inl (sql_err t), db)
         | None \<Rightarrow>
             if (\<exists>r\<in>set (od_steps db). is_step orderId stepName r)
             then (Inr (), db\<lparr>od_steps := update_where (is_step orderId stepName)
                     (\<lambda>r. r\<lparr>ss_status := status, ss_error := err, ss_completedAt := completedAt,
                            ss_retryCount := ss_retryCount r + 1\<rparr>) (od_steps db)\<rparr>)
             else case first_violation
               [(orderId \<in> ow_id ` set (od_orders db), foreign_key_violation),
                (ss_id row \<notin> ss_id ` set (od_steps db), unique_violation)] of
               Some t \<Rightarrow> (Inl (sql_err t), db)
             | None \<Rightarrow> (Inr (), db\<lparr>od_steps := od_steps db @ [row]\<rparr>))"

definition knex_saga_findByOrderId :: "sql_env \<Rightarrow> string \<Rightarrow> (order_db, js_error, saga_step list) eff" where
  "knex_saga_findByOrderId E orderId db =
     (if \<not> sql_uuid E orderId then (Inl (sql_err invalid_text), db)
      else (Inr (sort_key ss_startedAt (filter (\<lambda>r. ss_orderId r = orderId) (od_steps db))), db))"

definition KnexSagaStepRepository :: "sql_env \<Rightarrow> order_db saga_repository" where
  "KnexSagaStepRepository E =
     \<lparr>saga_record = knex_saga_record E, saga_findByOrderId = knex_saga_findByOrderId E\<rparr>"

section \<open>Rows and aggregates\<close>

text \<open>The item an item row stands for, and when a row with its items stands for an order.\<close>

definition item_of_row :: "'d decimal_lib \<Rightarrow> string \<Rightarrow> order_item_row \<Rightarrow> js_error + 'd order_item" where
  "item_of_row D c r = res_bind (item_props_of_row D c r) (newOrderItem D)"

lemma item_of_row_id:
  "item_of_row D c r = Inr i \<Longrightarrow> iw_id_update (\<lambda>_. x) r = r' \<Longrightarrow>
   item_of_row D c r' = Inr (i\<lparr>oi_id := Some x\<rparr>)"
  by (auto simp: item_of_row_def res_bind_Inr item_props_of_row_def newOrderItem_Inr split: sum.splits)

lemma map_res_two_stage:
  "(\<exists>ps. map_res f xs = Inr ps \<and> map_res g ps = Inr ys) \<longleftrightarrow> map_res (\<lambda>x. res_bind (f x) g) xs = Inr ys"
proof (induction xs arbitrary: ys)
  case (Cons x xs)
  have "(\<exists>ps. map_res f (x # xs) = Inr ps \<and> map_res g ps = Inr ys) \<longleftrightarrow>
      (\<exists>p y zs. f x = Inr p \<and> g p = Inr y \<and> ys = y # zs \<and>
         (\<exists>ps. map_res f xs = Inr ps \<and> map_res g ps = Inr zs))"
    unfolding map_res_Cons_Inr by (auto simp: map_res_Cons_Inr simp del: map_res.simps(2))
  then show ?case
    unfolding Cons.IH by (auto simp: map_res_Cons_Inr res_bind_Inr simp del: map_res.simps(2))
qed auto

lemma item_of_row_currency: "item_of_row D c r = Inr i \<Longrightarrow> c \<noteq> []"
  by (auto simp: item_of_row_def res_bind_Inr item_props_of_row_def money_of_Inr split: sum.splits)

definition order_of_row :: "order_row \<Rightarrow> 'd order_item list \<Rightarrow> 'd money \<Rightarrow> 'd order" where
  "order_of_row row items tot =
     \<lparr>o_id = ow_id row, o_customerId = ow_customer_id row, o_items = items, o_totalAmount = tot,
      o_currency = ow_currency row, o_idempotencyKey = ow_idempotency_key row,
      o_shippingAddress = ow_shipping_address row, o_metadata = ow_metadata row,
      o_status = ow_status row, o_version = ow_version row, o_initialVersion = ow_version row,
      o_createdAt = ow_created_at row, o_updatedAt = ow_updated_at row\<rparr>"

lemma order_toDomain_Inr:
  "order_toDomain D row items = Inr ord \<longleftrightarrow>
     items \<noteq> [] \<and> ow_customer_id row \<noteq> [] \<and> ow_idempotency_key row \<noteq> [] \<and>
     (\<exists>its tot. map_res (item_of_row D (ow_currency row)) items = Inr its \<and>
        items_total D (ow_currency row) its = Inr tot \<and> ord = order_of_row row its tot)"
  (is "?l \<longleftrightarrow> ?r")
proof -
  have two: "map_res (item_of_row D c) items = Inr its \<longleftrightarrow>
      (\<exists>ps. map_res (item_props_of_row D c) items = Inr ps \<and> map_res (newOrderItem D) ps = Inr its)" for c its
  proof -
    have "item_of_row D c = (\<lambda>x. res_bind (item_props_of_row D c x) (newOrderItem D))"
      by (simp add: fun_eq_iff item_of_row_def)
    then show ?thesis by (simp add: map_res_two_stage)
  qed
  have ne: "ps = [] \<or> ow_currency row \<noteq> []" if "map_res (item_props_of_row D (ow_currency row)) items = Inr ps" for ps
    using that by (cases items)
      (auto simp: map_res_Cons_Inr item_props_of_row_def money_of_Inr simp del: map_res.simps(2) split: sum.splits)
  have len: "length ps = length items" if "map_res (item_props_of_row D (ow_currency row)) items = Inr ps" for ps
    using that by (rule map_res_length)
  show ?thesis
  proof
    assume ?l
    then obtain ps where ps: "map_res (item_props_of_row D (ow_currency row)) items = Inr ps"
      by (auto simp: order_toDomain_def split: sum.splits)
    from \<open>?l\<close> ps len [OF ps] ne [OF ps] show ?r
      by (auto simp: two order_toDomain_def newOrder_def Let_def order_of_row_def split: if_splits sum.splits)
  next
    assume ?r
    then obtain its tot ps where r: "items \<noteq> []" "ow_customer_id row \<noteq> []" "ow_idempotency_key row \<noteq> []"
        "map_res (newOrderItem D) ps = Inr its" "items_total D (ow_currency row) its = Inr tot"
        "ord = order_of_row row its tot"
      and ps: "map_res (item_props_of_row D (ow_currency row)) items = Inr ps"
      by (auto simp: two)
    have "ps \<noteq> []" using len [OF ps] r(1) by auto
    with r ps ne [OF ps] show ?l
      by (simp add: order_toDomain_def newOrder_def Let_def order_of_row_def)
  qed
qed

section \<open>The contract of the order store\<close>

text \<open>
  The state of a store as the handlers see it: a map from ids to orders, and the events written
  to the outbox, oldest first.  Orders that differ in the ids of their line items are not told
  apart (\<open>save\<close> returns placeholders for them).
\<close>

definition forget_item_ids :: "'d order \<Rightarrow> 'd order" where
  "forget_item_ids ord = ord\<lparr>o_items := map (\<lambda>i. i\<lparr>oi_id := None\<rparr>) (o_items ord)\<rparr>"

definition same_order :: "'d order \<Rightarrow> 'd order \<Rightarrow> bool" where
  "same_order a b = (forget_item_ids a = forget_item_ids b)"

text \<open>What \<open>update\<close> stores: the loaded order with the fields the statement writes.\<close>

definition stored_update :: "call_ctx \<Rightarrow> 'd order \<Rightarrow> 'd order \<Rightarrow> 'd order" where
  "stored_update cx old ord =
     old\<lparr>o_status := o_status ord, o_version := o_version ord, o_initialVersion := o_version ord,
         o_metadata := o_metadata ord, o_updatedAt := cx_now cx\<rparr>"

lemma same_order_sel:
  assumes "same_order a b"
  shows "o_id a = o_id b" and "o_idempotencyKey a = o_idempotencyKey b" and "o_status a = o_status b"
    and "o_version a = o_version b" and "o_customerId a = o_customerId b" and "o_totalAmount a = o_totalAmount b"
    and "o_currency a = o_currency b" and "length (o_items a) = length (o_items b)"
proof -
  have eq: "forget_item_ids a = forget_item_ids b" using assms by (simp add: same_order_def)
  show "o_id a = o_id b" using arg_cong [OF eq, of o_id] by (simp add: forget_item_ids_def)
  show "o_idempotencyKey a = o_idempotencyKey b" using arg_cong [OF eq, of o_idempotencyKey] by (simp add: forget_item_ids_def)
  show "o_status a = o_status b" using arg_cong [OF eq, of o_status] by (simp add: forget_item_ids_def)
  show "o_version a = o_version b" using arg_cong [OF eq, of o_version] by (simp add: forget_item_ids_def)
  show "o_customerId a = o_customerId b" using arg_cong [OF eq, of o_customerId] by (simp add: forget_item_ids_def)
  show "o_totalAmount a = o_totalAmount b" using arg_cong [OF eq, of o_totalAmount] by (simp add: forget_item_ids_def)
  show "o_currency a = o_currency b" using arg_cong [OF eq, of o_currency] by (simp add: forget_item_ids_def)
  show "length (o_items a) = length (o_items b)"
    using arg_cong [OF eq, of "\<lambda>x. length (o_items x)"] by (simp add: forget_item_ids_def)
qed

lemma same_order_refl [simp]: "same_order a a"
  by (simp add: same_order_def)

locale order_store =
  fixes repo :: "('s, 'd) order_repository"
    and inv :: "'s \<Rightarrow> bool"
    and abs :: "'s \<Rightarrow> string \<Rightarrow> 'd order option"
    and sent :: "'s \<Rightarrow> outbox_input list"
    and valid_id :: "string \<Rightarrow> bool"
  assumes findById: "inv s \<Longrightarrow> valid_id i \<Longrightarrow> repo_findById repo i s = (Inr (abs s i), s)"
    and findById_invalid: "\<not> valid_id i \<Longrightarrow> \<exists>e. repo_findById repo i s = (Inl e, s)"
    and findByKey: "inv s \<Longrightarrow> \<exists>r. repo_findByIdempotencyKey repo k s = (Inr r, s) \<and>
          (case r of None \<Rightarrow> (\<forall>i ord. abs s i = Some ord \<longrightarrow> o_idempotencyKey ord \<noteq> k)
                   | Some ord \<Rightarrow> abs s (o_id ord) = Some ord \<and> o_idempotencyKey ord = k)"
    and abs_id: "inv s \<Longrightarrow> abs s i = Some ord \<Longrightarrow> o_id ord = i \<and> o_initialVersion ord = o_version ord \<and> valid_id i"
    and abs_key: "inv s \<Longrightarrow> abs s i = Some a \<Longrightarrow> abs s j = Some b \<Longrightarrow> o_idempotencyKey a = o_idempotencyKey b \<Longrightarrow> i = j"
    and update_ok: "inv s \<Longrightarrow> repo_update repo cx ord evs s = (Inr new, t) \<Longrightarrow>
          inv t \<and> sent t = sent s @ evs \<and>
          (\<exists>old. abs s (o_id ord) = Some old \<and> o_version old = o_initialVersion ord \<and>
                 new = stored_update cx old ord \<and> abs t = (abs s)(o_id ord \<mapsto> new))"
    and update_err: "repo_update repo cx ord evs s = (Inl e, t) \<Longrightarrow> t = s"
    and update_conflict: "inv s \<Longrightarrow> valid_id (o_id ord) \<Longrightarrow> o_id ord \<noteq> [] \<Longrightarrow>
          abs s (o_id ord) = None \<or> o_version (the (abs s (o_id ord))) \<noteq> o_initialVersion ord \<Longrightarrow>
          repo_update repo cx ord evs s = (Inl (version_conflict ord), s)"
    and save_ok: "inv s \<Longrightarrow> repo_save repo cx ord evs s = (Inr new, t) \<Longrightarrow>
          inv t \<and> sent t = sent s @ evs \<and> abs s (o_id ord) = None \<and>
          o_id new = o_id ord \<and> o_status new = o_status ord \<and> o_version new = o_version ord \<and>
          o_customerId new = o_customerId ord \<and> o_idempotencyKey new = o_idempotencyKey ord \<and>
          length (o_items new) = length (o_items ord) \<and>
          (\<exists>st. abs t = (abs s)(o_id ord \<mapsto> st) \<and> same_order st new)"
    and save_err: "repo_save repo cx ord evs s = (Inl e, t) \<Longrightarrow> t = s"
begin

text \<open>The store never loses an order, and versions never go back along an update.\<close>

lemma update_keeps: "inv s \<Longrightarrow> repo_update repo cx ord evs s = (r, t) \<Longrightarrow> inv t \<and> dom (abs t) = dom (abs s)"
  by (cases r) (auto dest: update_err update_ok split: if_splits)

lemma find_None: "inv s \<Longrightarrow> repo_findById repo i s = (Inr None, t) \<Longrightarrow> t = s \<and> abs s i = None"
  using findById [of s i] findById_invalid [of i s] by (cases "valid_id i") auto

lemma find_Some:
  "inv s \<Longrightarrow> repo_findById repo i s = (Inr (Some ord), t) \<Longrightarrow>
   t = s \<and> abs s i = Some ord \<and> o_id ord = i \<and> o_initialVersion ord = o_version ord \<and> valid_id i"
  using findById [of s i] findById_invalid [of i s] abs_id [of s i] by (cases "valid_id i") auto

lemma find_err: "inv s \<Longrightarrow> repo_findById repo i s = (Inl e, t) \<Longrightarrow> t = s \<and> \<not> valid_id i"
  using findById [of s i] findById_invalid [of i s] by (cases "valid_id i") auto

text \<open>Of two writers that loaded the same version, the second is refused.\<close>

lemma no_lost_update:
  assumes "inv s" and "repo_update repo cx a evs s = (Inr new, t)"
    and "o_id b = o_id a" "o_initialVersion b = o_initialVersion a" "o_version a \<noteq> o_initialVersion a" "o_id a \<noteq> []"
  shows "repo_update repo cx' b evs' t = (Inl (version_conflict b), t)"
  using update_ok [OF assms(1,2)] assms(3-) abs_id [OF assms(1)]
  by (intro update_conflict) (auto simp: stored_update_def)

lemma find_cases:
  assumes "inv s"
  obtains (err) e where "repo_findById repo i s = (Inl e, s)" "\<not> valid_id i"
  | (missing) "repo_findById repo i s = (Inr None, s)" "abs s i = None" "valid_id i"
  | (found) ord where "repo_findById repo i s = (Inr (Some ord), s)" "abs s i = Some ord"
      "o_id ord = i" "o_initialVersion ord = o_version ord" "valid_id i"
  using findById [OF assms, of i] findById_invalid [of i s] abs_id [OF assms, of i]
  by (cases "valid_id i"; cases "abs s i") auto

end

section \<open>The Knex repository keeps the contract\<close>

definition order_db_ok :: "sql_env \<Rightarrow> 'd decimal_lib \<Rightarrow> order_db \<Rightarrow> bool" where
  "order_db_ok E D db \<longleftrightarrow>
     distinct (map ow_id (od_orders db)) \<and> distinct (map ow_idempotency_key (od_orders db)) \<and>
     distinct (map xw_id (od_outbox db)) \<and>
     (\<forall>i\<in>set (od_items db). iw_order_id i \<in> ow_id ` set (od_orders db)) \<and>
     (\<forall>r\<in>set (od_orders db). sql_uuid E (ow_id r) \<and>
        (\<exists>ord. order_toDomain D r (items_of db (ow_id r)) = Inr ord))"

definition order_db_abs :: "'d decimal_lib \<Rightarrow> order_db \<Rightarrow> string \<Rightarrow> 'd order option" where
  "order_db_abs D db oid =
     (case List.find (\<lambda>r. ow_id r = oid) (od_orders db) of
        None \<Rightarrow> None
      | Some row \<Rightarrow> (case order_toDomain D row (items_of db oid) of Inl e \<Rightarrow> None | Inr ord \<Rightarrow> Some ord))"

definition order_db_sent :: "order_db \<Rightarrow> outbox_input list" where
  "order_db_sent db = map xw_event (od_outbox db)"

definition order_db_empty :: order_db where
  "order_db_empty = \<lparr>od_orders = [], od_items = [], od_outbox = [], od_steps = []\<rparr>"

lemma order_db_empty_ok: "order_db_ok E D order_db_empty"
  by (simp add: order_db_ok_def order_db_empty_def)

lemma order_of_row_sel [simp]:
  "o_id (order_of_row r its tot) = ow_id r" "o_version (order_of_row r its tot) = ow_version r"
  "o_initialVersion (order_of_row r its tot) = ow_version r"
  "o_idempotencyKey (order_of_row r its tot) = ow_idempotency_key r"
  "o_status (order_of_row r its tot) = ow_status r" "o_items (order_of_row r its tot) = its"
  "o_customerId (order_of_row r its tot) = ow_customer_id r"
  by (simp_all add: order_of_row_def)

lemma toDomain_sel:
  "order_toDomain D r items = Inr ord \<Longrightarrow>
     o_id ord = ow_id r \<and> o_version ord = ow_version r \<and> o_initialVersion ord = ow_version r \<and>
     o_idempotencyKey ord = ow_idempotency_key r \<and> o_status ord = ow_status r \<and>
     o_customerId ord = ow_customer_id r \<and> length (o_items ord) = length items"
  by (auto simp: order_toDomain_Inr map_res_length)

lemma toDomain_updated:
  "order_toDomain D r items = Inr old \<Longrightarrow>
   order_toDomain D (updated_row D cx ord r) items = Inr (stored_update cx old ord)"
  by (auto simp: order_toDomain_Inr updated_row_def stored_update_def order_of_row_def)

lemma find_row_unique:
  assumes "distinct (map ow_id rows)" "r \<in> set rows"
  shows "List.find (\<lambda>x. ow_id x = ow_id r) rows = Some r"
  by (rule find_key_distinct [OF assms])

lemma abs_Some_iff:
  assumes "order_db_ok E D db"
  shows "order_db_abs D db i = Some ord \<longleftrightarrow>
    (\<exists>r\<in>set (od_orders db). ow_id r = i \<and> order_toDomain D r (items_of db i) = Inr ord)"
proof
  assume "order_db_abs D db i = Some ord"
  then show "\<exists>r\<in>set (od_orders db). ow_id r = i \<and> order_toDomain D r (items_of db i) = Inr ord"
    by (auto simp: order_db_abs_def dest: find_SomeD split: option.splits sum.splits)
next
  assume "\<exists>r\<in>set (od_orders db). ow_id r = i \<and> order_toDomain D r (items_of db i) = Inr ord"
  then obtain r where r: "r \<in> set (od_orders db)" "ow_id r = i" "order_toDomain D r (items_of db i) = Inr ord"
    by blast
  with assms have "List.find (\<lambda>x. ow_id x = i) (od_orders db) = Some r"
    using find_row_unique [of "od_orders db" r] by (auto simp: order_db_ok_def)
  with r show "order_db_abs D db i = Some ord" by (simp add: order_db_abs_def)
qed

lemma abs_None_iff:
  assumes "order_db_ok E D db"
  shows "order_db_abs D db i = None \<longleftrightarrow> i \<notin> ow_id ` set (od_orders db)"
proof -
  have "order_db_abs D db i \<noteq> None \<longleftrightarrow> i \<in> ow_id ` set (od_orders db)"
    using assms abs_Some_iff [OF assms, of i] by (fastforce simp: order_db_ok_def)
  then show ?thesis by blast
qed

text \<open>The events part of the tables.\<close>

lemma map_event_outbox_rows: "map xw_event (outbox_rows cx evs) = evs"
proof -
  have "xw_event \<circ> (\<lambda>(i, e). \<lparr>xw_id = cx_outboxIds cx i, xw_event = e, xw_published = False,
      xw_created_at = cx_now cx, xw_published_at = None\<rparr>) = snd" by auto
  then show ?thesis by (simp add: outbox_rows_def)
qed

lemma outbox_row_violation_None:
  "outbox_row_violation E rows r = None \<longleftrightarrow>
     length (ob_aggregateType (xw_event r)) \<le> 50 \<and> sql_uuid E (ob_aggregateId (xw_event r)) \<and>
     length (ob_eventType (xw_event r)) \<le> 100 \<and> xw_id r \<notin> xw_id ` set rows"
  by (simp add: outbox_row_violation_def)

lemma order_row_violation_None:
  "order_row_violation E rows r = None \<longleftrightarrow>
     sql_uuid E (ow_id r) \<and> sql_uuid E (ow_customer_id r) \<and> decimal_12_2 E (ow_total_amount r) \<and>
     length (ow_currency r) \<le> 3 \<and> length (ow_idempotency_key r) \<le> 64 \<and> int4 (ow_version r) \<and>
     ow_id r \<notin> ow_id ` set rows \<and> ow_idempotency_key r \<notin> ow_idempotency_key ` set rows"
  by (simp add: order_row_violation_def)

lemma item_row_violation_order:
  "item_row_violation E orders rows r = None \<Longrightarrow> iw_order_id r \<in> ow_id ` set orders"
  by (simp add: item_row_violation_def split: if_splits)

lemma writeOutbox_Inr:
  assumes "writeOutbox E cx evs db = (Inr u, db')"
  shows "order_db_sent db' = order_db_sent db @ evs" and "od_orders db' = od_orders db"
    and "od_items db' = od_items db" and "od_steps db' = od_steps db"
    and "distinct (map xw_id (od_outbox db)) \<Longrightarrow> distinct (map xw_id (od_outbox db'))"
proof -
  consider "evs = []" "db' = db"
    | rows where "evs \<noteq> []" "insert_rows (outbox_row_violation E) (od_outbox db) (outbox_rows cx evs) = Inr rows"
        "db' = db\<lparr>od_outbox := rows\<rparr>"
    using assms by (auto simp: writeOutbox_def split: if_splits sum.splits)
  then have "order_db_sent db' = order_db_sent db @ evs \<and> od_orders db' = od_orders db \<and>
     od_items db' = od_items db \<and> od_steps db' = od_steps db \<and>
     (distinct (map xw_id (od_outbox db)) \<longrightarrow> distinct (map xw_id (od_outbox db')))"
  proof cases
    case 2
    have "distinct (map xw_id (od_outbox db)) \<Longrightarrow> distinct (map xw_id rows)"
      by (rule insert_rows_distinct [OF 2(2)]) (auto simp: outbox_row_violation_None)
    with 2 insert_rows_append [OF 2(2)] show ?thesis
      by (simp add: order_db_sent_def map_event_outbox_rows)
  qed (simp add: order_db_sent_def)
  then show "order_db_sent db' = order_db_sent db @ evs" and "od_orders db' = od_orders db"
    and "od_items db' = od_items db" and "od_steps db' = od_steps db"
    and "distinct (map xw_id (od_outbox db)) \<Longrightarrow> distinct (map xw_id (od_outbox db'))" by auto
qed

lemma abs_cong:
  assumes "od_orders db' = od_orders db" and "od_items db' = od_items db"
  shows "order_db_abs D db' = order_db_abs D db"
  unfolding order_db_abs_def items_of_def assms by (rule refl)

text \<open>Looking a row up by id and version is looking it up by id and comparing the version.\<close>

lemma find_matches_version:
  assumes "distinct (map ow_id rows)"
  shows "List.find (matches_version ord) rows =
    (case List.find (\<lambda>r. ow_id r = o_id ord) rows of
       None \<Rightarrow> None | Some r \<Rightarrow> if ow_version r = o_initialVersion ord then Some r else None)"
  using assms
proof (induction rows)
  case (Cons r rows)
  have "List.find (\<lambda>x. ow_id x = o_id ord) rows = None" if "ow_id r = o_id ord"
    using Cons.prems that by (simp add: find_key_None)
  with Cons show ?case by (auto simp: matches_version_def)
qed simp

lemma updated_row_sel [simp]:
  "ow_id (updated_row D cx ord r) = ow_id r"
  "ow_idempotency_key (updated_row D cx ord r) = ow_idempotency_key r"
  "ow_customer_id (updated_row D cx ord r) = ow_customer_id r"
  "ow_created_at (updated_row D cx ord r) = ow_created_at r"
  "ow_status (updated_row D cx ord r) = o_status ord"
  "ow_version (updated_row D cx ord r) = o_version ord"
  by (simp_all add: updated_row_def)

lemma update_statement:
  assumes ok: "order_db_ok E D db" and upd: "trx_update_order E D cx ord db = (Inr row, db')"
  obtains r old where "r \<in> set (od_orders db)" "matches_version ord r" "row = updated_row D cx ord r"
    and "order_toDomain D r (items_of db (o_id ord)) = Inr old"
    and "order_db_abs D db (o_id ord) = Some old" "o_version old = o_initialVersion ord"
    and "order_db_abs D db' = (order_db_abs D db)(o_id ord \<mapsto> stored_update cx old ord)"
    and "order_db_ok E D db'" "order_db_sent db' = order_db_sent db" "od_items db' = od_items db"
proof -
  let ?rows = "update_where (matches_version ord) (updated_row D cx ord) (od_orders db)"
  from upd obtain r where f: "List.find (matches_version ord) (od_orders db) = Some r"
    and row: "row = updated_row D cx ord r" and db': "db' = db\<lparr>od_orders := ?rows\<rparr>"
    by (auto simp: trx_update_order_def split: if_splits option.splits)
  from find_SomeD [OF f] have r: "r \<in> set (od_orders db)" "matches_version ord r" by auto
  then have id: "ow_id r = o_id ord" and ver: "ow_version r = o_initialVersion ord"
    by (auto simp: matches_version_def)
  from ok r id obtain old where old: "order_toDomain D r (items_of db (o_id ord)) = Inr old"
    by (auto simp: order_db_ok_def)
  with ok r id have absr: "order_db_abs D db (o_id ord) = Some old" using abs_Some_iff by blast
  have items: "items_of db' = items_of db" by (simp add: db' items_of_def fun_eq_iff)
  have key: "map k ?rows = map k (od_orders db)" if "\<And>r. k (updated_row D cx ord r) = k r" for k :: "order_row \<Rightarrow> string"
    by (rule map_update_where) (simp add: that)
  have ids: "map ow_id ?rows = map ow_id (od_orders db)"
    and keys: "map ow_idempotency_key ?rows = map ow_idempotency_key (od_orders db)" by (rule key; simp)+
  have only: "matches_version ord x \<longleftrightarrow> x = r" if "x \<in> set (od_orders db)" for x
    using that ok r distinct_key_inj [of ow_id "od_orders db" x r]
    by (auto simp: order_db_ok_def matches_version_def)
  have rowsI: "x \<in> set ?rows \<longleftrightarrow> x = updated_row D cx ord r \<or> (x \<in> set (od_orders db) \<and> x \<noteq> r)" for x
    using only r(1) by (auto simp: set_update_where image_iff)
  have new: "order_toDomain D (updated_row D cx ord r) (items_of db (o_id ord)) = Inr (stored_update cx old ord)"
    using old by (rule toDomain_updated)
  have ok': "order_db_ok E D db'"
  proof -
    have "sql_uuid E (ow_id x) \<and> (\<exists>o1. order_toDomain D x (items_of db (ow_id x)) = Inr o1)" if "x \<in> set ?rows" for x
      using that ok r(1) new id by (auto simp: rowsI order_db_ok_def)
    moreover have "ow_id ` set ?rows = ow_id ` set (od_orders db)"
      using arg_cong [OF ids, of set] by simp
    ultimately show ?thesis
      using ok unfolding order_db_ok_def items by (simp add: db' ids keys)
  qed
  have "order_db_abs D db' i = ((order_db_abs D db)(o_id ord \<mapsto> stored_update cx old ord)) i" for i
  proof (cases "i = o_id ord")
    case True
    have "updated_row D cx ord r \<in> set (od_orders db')" by (simp add: db' rowsI)
    with new id have "order_db_abs D db' (o_id ord) = Some (stored_update cx old ord)"
      unfolding abs_Some_iff [OF ok'] items by (intro bexI) simp_all
    with True show ?thesis by simp
  next
    case False
    then have "List.find (\<lambda>x. ow_id x = i) ?rows = List.find (\<lambda>x. ow_id x = i) (od_orders db)"
      by (intro find_update_where_other) (auto simp: matches_version_def)
    with False show ?thesis unfolding order_db_abs_def items by (simp add: db')
  qed
  then have "order_db_abs D db' = (order_db_abs D db)(o_id ord \<mapsto> stored_update cx old ord)" by blast
  moreover have "o_version old = o_initialVersion ord" using toDomain_sel [OF old] ver by simp
  ultimately show thesis
    using that r row old absr ok' by (simp add: db' order_db_sent_def)
qed

text \<open>Line items rebuilt from their rows under other row ids.\<close>

lemma length_item_rows [simp]: "length (item_rows_of D ids oid items) = length items"
  by (simp add: item_rows_of_def)

lemma nth_item_rows:
  "n < length items \<Longrightarrow> item_rows_of D ids oid items ! n = item_row_of D (ids n) oid (items ! n)"
  by (simp add: item_rows_of_def nth_enumerate_eq)

lemma items_total_cong:
  assumes "map oi_totalPrice xs = map oi_totalPrice ys"
  shows "items_total D c xs = items_total D c ys"
proof -
  have "fold_res (\<lambda>acc i. money_add D acc (oi_totalPrice i)) z xs =
      fold_res (\<lambda>acc i. money_add D acc (oi_totalPrice i)) z ys" for z
    using assms
  proof (induction xs arbitrary: ys z)
    case (Cons x xs)
    then obtain y ys' where "ys = y # ys'" by (cases ys) auto
    with Cons show ?case by (auto split: sum.split)
  qed simp
  then show ?thesis unfolding items_total_def by (simp split: sum.split)
qed

lemma item_rows_other_ids:
  assumes "map_res (item_of_row D c) (item_rows_of D g oid items) = Inr its"
  obtains its' where "map_res (item_of_row D c) (item_rows_of D h oid items) = Inr its'"
    and "map (oi_id_update (\<lambda>_. None)) its' = map (oi_id_update (\<lambda>_. None)) its"
    and "map oi_totalPrice its' = map oi_totalPrice its"
proof -
  let ?its' = "map (\<lambda>(n, i). i\<lparr>oi_id := Some (h n)\<rparr>) (enumerate 0 its)"
  have len: "length its = length items" using map_res_length [OF assms] by simp
  have step: "item_of_row D c (item_row_of D (h n) oid (items ! n)) = Inr ((its ! n)\<lparr>oi_id := Some (h n)\<rparr>)"
    if n: "n < length items" for n
  proof (rule item_of_row_id)
    show "item_of_row D c (item_row_of D (g n) oid (items ! n)) = Inr (its ! n)"
      using assms n by (auto simp: map_res_Inr list_all2_conv_all_nth nth_item_rows)
    show "iw_id_update (\<lambda>_. h n) (item_row_of D (g n) oid (items ! n)) = item_row_of D (h n) oid (items ! n)"
      by (simp add: item_row_of_def)
  qed
  have "map_res (item_of_row D c) (item_rows_of D h oid items) = Inr ?its'"
    using len step by (simp add: map_res_Inr list_all2_conv_all_nth nth_item_rows nth_enumerate_eq)
  moreover have "map (oi_id_update (\<lambda>_. None)) ?its' = map (oi_id_update (\<lambda>_. None)) its"
    and "map oi_totalPrice ?its' = map oi_totalPrice its"
    by (simp_all add: list_eq_iff_nth_eq nth_enumerate_eq)
  ultimately show thesis by (rule that)
qed

lemma items_of_item_rows:
  "filter (\<lambda>i. iw_order_id i = oid') (item_rows_of D ids oid items) =
     (if oid' = oid then item_rows_of D ids oid items else [])"
  by (auto simp: item_rows_of_def filter_empty_conv filter_id_conv item_row_of_def)

text \<open>The three inserts of \<open>save\<close>.\<close>

lemma save_statements:
  assumes "knex_order_save E D cx ord evs db = (Inr new, db')"
  shows "order_row_violation E (od_orders db) (row_of_order D cx ord) = None"
    and "od_orders db' = od_orders db @ [row_of_order D cx ord]"
    and "od_items db' = od_items db @ item_rows_of D (cx_itemIds cx) (o_id ord) (o_items ord)"
    and "order_db_sent db' = order_db_sent db @ evs"
    and "distinct (map xw_id (od_outbox db)) \<Longrightarrow> distinct (map xw_id (od_outbox db'))"
    and "order_toDomain D (row_of_order D cx ord) (item_rows_of D generated_id (o_id ord) (o_items ord)) = Inr new"
proof -
  let ?row = "row_of_order D cx ord"
  let ?irows = "item_rows_of D (cx_itemIds cx) (o_id ord) (o_items ord)"
  have rid: "ow_id ?row = o_id ord" by (simp add: row_of_order_def)
  from assms obtain r0 db1 u1 db2 u2 db3 where
    1: "trx_insert_order E ?row db = (Inr r0, db1)" and
    2: "(if o_items ord = [] then ret () else trx_insert_items E (item_rows_of D (cx_itemIds cx) (ow_id r0) (o_items ord))) db1
        = (Inr u1, db2)" and
    3: "writeOutbox E cx evs db2 = (Inr u2, db3)" and
    4: "lift_res (order_toDomain D r0 (item_rows_of D generated_id (ow_id r0) (o_items ord))) db3 = (Inr new, db')"
    unfolding knex_order_save_def transaction_commit bind_eff_Inr by blast
  from 1 have v: "order_row_violation E (od_orders db) ?row = None" and r0: "r0 = ?row"
    and db1: "db1 = db\<lparr>od_orders := od_orders db @ [?row]\<rparr>"
    by (auto simp: trx_insert_order_def split: option.splits)
  have db2: "db2 = db1\<lparr>od_items := od_items db1 @ ?irows\<rparr>"
  proof (cases "o_items ord = []")
    case True
    with 2 show ?thesis by (simp add: ret_def item_rows_of_def enumerate_eq_zip)
  next
    case False
    with 2 r0 rid obtain rows where "insert_rows (item_row_violation E (od_orders db1)) (od_items db1) ?irows = Inr rows"
      and "db2 = db1\<lparr>od_items := rows\<rparr>"
      by (auto simp: trx_insert_items_def split: sum.splits)
    then show ?thesis using insert_rows_append by fastforce
  qed
  from 4 r0 rid have "db' = db3"
    "order_toDomain D ?row (item_rows_of D generated_id (o_id ord) (o_items ord)) = Inr new"
    by (auto simp: lift_res_def)
  with v db1 db2 writeOutbox_Inr [OF 3] show "order_row_violation E (od_orders db) ?row = None"
    and "od_orders db' = od_orders db @ [?row]" and "od_items db' = od_items db @ ?irows"
    and "order_db_sent db' = order_db_sent db @ evs"
    and "distinct (map xw_id (od_outbox db)) \<Longrightarrow> distinct (map xw_id (od_outbox db'))"
    and "order_toDomain D ?row (item_rows_of D generated_id (o_id ord) (o_items ord)) = Inr new"
    by (auto simp: order_db_sent_def)
qed

lemma save_effect:
  assumes ok: "order_db_ok E D db" and sv: "knex_order_save E D cx ord evs db = (Inr new, db')"
  shows "order_db_ok E D db'" and "order_db_sent db' = order_db_sent db @ evs"
    and "order_db_abs D db (o_id ord) = None"
    and "order_toDomain D (row_of_order D cx ord) (item_rows_of D generated_id (o_id ord) (o_items ord)) = Inr new"
    and "\<exists>st. order_db_abs D db' = (order_db_abs D db)(o_id ord \<mapsto> st) \<and> same_order st new"
proof -
  let ?row = "row_of_order D cx ord"
  let ?irows = "item_rows_of D (cx_itemIds cx) (o_id ord) (o_items ord)"
  note saved = save_statements [OF sv]
  note v = saved(1) and orders = saved(2) and items = saved(3) and sent = saved(4) and ob = saved(5)
    and new = saved(6)
  have rid: "ow_id ?row = o_id ord" by (simp add: row_of_order_def)
  from v rid have fresh: "o_id ord \<notin> ow_id ` set (od_orders db)" and uu: "sql_uuid E (o_id ord)"
    and key: "ow_idempotency_key ?row \<notin> ow_idempotency_key ` set (od_orders db)"
    by (auto simp: order_row_violation_None)
  from ok fresh have none: "filter (\<lambda>i. iw_order_id i = o_id ord) (od_items db) = []"
    unfolding order_db_ok_def filter_empty_conv by metis
  have io: "items_of db' i = (if i = o_id ord then ?irows else items_of db i)" for i
    by (simp add: items_of_def items items_of_item_rows none)
  from new obtain its tot where its: "map_res (item_of_row D (ow_currency ?row)) (item_rows_of D generated_id (o_id ord) (o_items ord)) = Inr its"
    and tot: "items_total D (ow_currency ?row) its = Inr tot" and newv: "new = order_of_row ?row its tot"
    and ne: "o_items ord \<noteq> []" "ow_customer_id ?row \<noteq> []" "ow_idempotency_key ?row \<noteq> []"
    by (auto simp: order_toDomain_Inr item_rows_of_def enumerate_eq_zip)
  obtain its' where its': "map_res (item_of_row D (ow_currency ?row)) ?irows = Inr its'"
    and forget: "map (oi_id_update (\<lambda>_. None)) its' = map (oi_id_update (\<lambda>_. None)) its"
    and tp: "map oi_totalPrice its' = map oi_totalPrice its"
    by (rule item_rows_other_ids [OF its])
  let ?st = "order_of_row ?row its' tot"
  have irne: "?irows \<noteq> []" using ne length_item_rows [of D "cx_itemIds cx" "o_id ord" "o_items ord"]
    by (metis length_0_conv)
  have st: "order_toDomain D ?row ?irows = Inr ?st"
    unfolding order_toDomain_Inr using ne irne its' tot items_total_cong [OF tp, of D "ow_currency ?row"] by auto
  show ok': "order_db_ok E D db'"
  proof -
    have "sql_uuid E (ow_id r) \<and> (\<exists>o1. order_toDomain D r (items_of db' (ow_id r)) = Inr o1)"
      if "r \<in> set (od_orders db')" for r
    proof -
      from that fresh orders consider "r = ?row" | "r \<in> set (od_orders db)" "ow_id r \<noteq> o_id ord"
        by (fastforce simp: image_iff)
      then show ?thesis
      proof cases
        case 1
        with st uu rid show ?thesis by (simp add: io)
      next
        case 2
        with ok show ?thesis by (simp add: io order_db_ok_def)
      qed
    qed
    moreover have "\<forall>i\<in>set (od_items db'). iw_order_id i \<in> ow_id ` set (od_orders db')"
      using ok rid by (auto simp: items orders order_db_ok_def item_rows_of_def item_row_of_def)
    moreover have "distinct (map ow_id (od_orders db'))" "distinct (map ow_idempotency_key (od_orders db'))"
      and "distinct (map xw_id (od_outbox db'))"
      using ok fresh key rid ob by (simp_all add: orders order_db_ok_def)
    ultimately show ?thesis by (simp add: order_db_ok_def)
  qed
  have "order_db_abs D db' i = ((order_db_abs D db)(o_id ord \<mapsto> ?st)) i" for i
  proof (cases "i = o_id ord")
    case True
    have "order_db_abs D db' (o_id ord) = Some ?st"
      unfolding abs_Some_iff [OF ok'] using st rid orders by (intro bexI [of _ ?row]) (auto simp: io)
    with True show ?thesis by simp
  next
    case False
    then have "List.find (\<lambda>x. ow_id x = i) (od_orders db') = List.find (\<lambda>x. ow_id x = i) (od_orders db)"
      using rid by (simp add: orders find_append split: option.split)
    with False show ?thesis unfolding order_db_abs_def io by simp
  qed
  then have "order_db_abs D db' = (order_db_abs D db)(o_id ord \<mapsto> ?st)" by blast
  moreover have "same_order ?st new"
    using forget by (simp add: same_order_def forget_item_ids_def newv order_of_row_def)
  ultimately show "\<exists>st. order_db_abs D db' = (order_db_abs D db)(o_id ord \<mapsto> st) \<and> same_order st new" by blast
  show "order_db_sent db' = order_db_sent db @ evs" by (rule sent)
  show "order_db_abs D db (o_id ord) = None" using fresh abs_None_iff [OF ok] by blast
  show "order_toDomain D ?row (item_rows_of D generated_id (o_id ord) (o_items ord)) = Inr new" by (rule new)
qed

text \<open>The update of one order, as the contract states it.\<close>

lemma knex_update_effect:
  assumes ok: "order_db_ok E D db" and upd: "knex_order_update E D cx ord evs db = (Inr new, db')"
  shows "order_db_ok E D db' \<and> order_db_sent db' = order_db_sent db @ evs \<and>
    (\<exists>old. order_db_abs D db (o_id ord) = Some old \<and> o_version old = o_initialVersion ord \<and>
       new = stored_update cx old ord \<and> order_db_abs D db' = (order_db_abs D db)(o_id ord \<mapsto> new))"
proof -
  from upd obtain row db1 u db2 where 1: "trx_update_order E D cx ord db = (Inr row, db1)"
    and 2: "writeOutbox E cx evs db1 = (Inr u, db2)" and db': "db' = db2"
    and new: "order_toDomain D row (items_of db2 (o_id ord)) = Inr new"
    by (auto simp: knex_order_update_def transaction_commit bind_eff_Inr throw_def split: if_splits)
  note w = writeOutbox_Inr [OF 2]
  show ?thesis
  proof (rule update_statement [OF ok 1])
    fix r old
    assume r: "row = updated_row D cx ord r" "order_toDomain D r (items_of db (o_id ord)) = Inr old"
      and old: "order_db_abs D db (o_id ord) = Some old" "o_version old = o_initialVersion ord"
      and abs1: "order_db_abs D db1 = (order_db_abs D db)(o_id ord \<mapsto> stored_update cx old ord)"
      and ok1: "order_db_ok E D db1" and sent1: "order_db_sent db1 = order_db_sent db"
      and it1: "od_items db1 = od_items db"
    have io: "items_of db2 = items_of db" by (simp add: items_of_def fun_eq_iff w(3) it1)
    have "new = stored_update cx old ord" using new toDomain_updated [OF r(2), of cx ord] r(1) by (simp add: io)
    moreover have "order_db_abs D db2 = order_db_abs D db1" by (rule abs_cong [OF w(2,3)])
    moreover have "order_db_ok E D db2"
      using ok1 w(5) unfolding order_db_ok_def items_of_def w(2,3) by blast
    ultimately show ?thesis using old abs1 w(1) sent1 db' by auto
  qed
qed

lemma transaction_Inl: "transaction m s = (Inl e, t) \<Longrightarrow> t = s"
  by (rule transaction_rollback)

lemma knex_findById_ok:
  assumes "order_db_ok E D db" and "sql_uuid E i"
  shows "knex_order_findById E D i db = (Inr (order_db_abs D db i), db)"
proof (cases "List.find (\<lambda>r. ow_id r = i) (od_orders db)")
  case None
  with assms show ?thesis by (simp add: knex_order_findById_def order_db_abs_def)
next
  case (Some r)
  then have "r \<in> set (od_orders db)" "ow_id r = i" by (auto dest: find_SomeD)
  with assms obtain ord where "order_toDomain D r (items_of db i) = Inr ord"
    by (auto simp: order_db_ok_def)
  with Some assms show ?thesis by (simp add: knex_order_findById_def order_db_abs_def)
qed

lemma knex_findByKey_ok:
  assumes ok: "order_db_ok E D db"
  shows "\<exists>r. knex_order_findByIdempotencyKey D k db = (Inr r, db) \<and>
    (case r of None \<Rightarrow> (\<forall>i ord. order_db_abs D db i = Some ord \<longrightarrow> o_idempotencyKey ord \<noteq> k)
     | Some ord \<Rightarrow> order_db_abs D db (o_id ord) = Some ord \<and> o_idempotencyKey ord = k)"
proof (cases "List.find (\<lambda>r. ow_idempotency_key r = k) (od_orders db)")
  case None
  then have "\<forall>i ord. order_db_abs D db i = Some ord \<longrightarrow> o_idempotencyKey ord \<noteq> k"
    by (auto simp: abs_Some_iff [OF ok] find_None_iff dest!: toDomain_sel)
  with None show ?thesis by (simp add: knex_order_findByIdempotencyKey_def)
next
  case (Some r)
  then have r: "r \<in> set (od_orders db)" "ow_idempotency_key r = k" by (auto dest: find_SomeD)
  with ok obtain ord where o: "order_toDomain D r (items_of db (ow_id r)) = Inr ord"
    by (auto simp: order_db_ok_def)
  with r toDomain_sel [OF o] have "order_db_abs D db (o_id ord) = Some ord"
    unfolding abs_Some_iff [OF ok] by (intro bexI [of _ r]) auto
  with Some o r toDomain_sel [OF o] show ?thesis by (simp add: knex_order_findByIdempotencyKey_def)
qed

lemma knex_update_conflict:
  assumes ok: "order_db_ok E D db" and i: "sql_uuid E (o_id ord)" "o_id ord \<noteq> []"
    and stale: "order_db_abs D db (o_id ord) = None \<or>
      o_version (the (order_db_abs D db (o_id ord))) \<noteq> o_initialVersion ord"
  shows "knex_order_update E D cx ord evs db = (Inl (version_conflict ord), db)"
proof -
  have dist: "distinct (map ow_id (od_orders db))" using ok by (simp add: order_db_ok_def)
  have "List.find (matches_version ord) (od_orders db) = None"
  proof (cases "List.find (\<lambda>r. ow_id r = o_id ord) (od_orders db)")
    case (Some r)
    then have r: "r \<in> set (od_orders db)" "ow_id r = o_id ord" by (auto dest: find_SomeD)
    with ok obtain old where old: "order_toDomain D r (items_of db (o_id ord)) = Inr old"
      by (auto simp: order_db_ok_def)
    with Some have "order_db_abs D db (o_id ord) = Some old" by (simp add: order_db_abs_def)
    with stale toDomain_sel [OF old] Some show ?thesis by (simp add: find_matches_version [OF dist])
  qed (simp add: find_matches_version [OF dist])
  with i show ?thesis
    by (simp add: knex_order_update_def transaction_def bind_eff_def trx_update_order_def)
qed

interpretation knex_orders: order_store "KnexOrderRepository E D C" "order_db_ok E D" "order_db_abs D" order_db_sent "sql_uuid E"
  for E :: sql_env and D :: "'d decimal_lib" and C :: cursor_codec
proof (unfold_locales, goal_cases)
  case (1 s i)
  then show ?case by (simp add: KnexOrderRepository_def knex_findById_ok)
next
  case (2 i s)
  then show ?case by (simp add: KnexOrderRepository_def knex_order_findById_def)
next
  case (3 s k)
  then show ?case by (simp add: KnexOrderRepository_def knex_findByKey_ok)
next
  case (4 s i ord)
  then show ?case by (auto simp: abs_Some_iff [OF 4(1)] order_db_ok_def dest!: toDomain_sel)
next
  case (5 s i a j b)
  then obtain r r' where r: "r \<in> set (od_orders s)" "ow_id r = i" "ow_idempotency_key r = o_idempotencyKey a"
    and r': "r' \<in> set (od_orders s)" "ow_id r' = j" "ow_idempotency_key r' = o_idempotencyKey b"
    by (auto simp: abs_Some_iff [OF 5(1)] dest!: toDomain_sel)
  moreover have "distinct (map ow_idempotency_key (od_orders s))" using 5(1) by (simp add: order_db_ok_def)
  ultimately have "r = r'" using 5(4) distinct_key_inj by metis
  with r r' show ?case by simp
next
  case (6 s cx ord evs new t)
  then show ?case using knex_update_effect [of E D s cx ord evs new t] by (simp add: KnexOrderRepository_def)
next
  case (7 cx ord evs s e t)
  then show ?case
    by (auto simp: KnexOrderRepository_def knex_order_update_def throw_def dest: transaction_rollback split: if_splits)
next
  case (8 s ord cx evs)
  then show ?case by (simp add: KnexOrderRepository_def knex_update_conflict)
next
  case (9 s cx ord evs new t)
  then have sv: "knex_order_save E D cx ord evs s = (Inr new, t)" by (simp add: KnexOrderRepository_def)
  note e = save_effect [OF 9(1) sv]
  from toDomain_sel [OF e(4)] e show ?case by (simp add: row_of_order_def)
next
  case (10 cx ord evs s e t)
  then show ?case by (auto simp: KnexOrderRepository_def knex_order_save_def dest: transaction_rollback)
qed

section \<open>Following the cursor\<close>

text \<open>All rows of the listing, newest first, and a client that follows \<open>nextCursor\<close>.\<close>

definition order_listing :: "string \<Rightarrow> string option \<Rightarrow> order_db \<Rightarrow> order_row list" where
  "order_listing customerId status db =
     sort_key (\<lambda>r. - ow_created_at r) (filter (order_page_filter customerId status None) (od_orders db))"

fun follow_cursor ::
    "nat \<Rightarrow> (page_options \<Rightarrow> js_error + 'a page) \<Rightarrow> page_options \<Rightarrow> (js_error + 'a list) option" where
  "follow_cursor 0 fetch opts = None"
| "follow_cursor (Suc fuel) fetch opts =
     (case fetch opts of
        Inl e \<Rightarrow> Some (Inl e)
      | Inr page \<Rightarrow>
          (case pr_nextCursor page of
             None \<Rightarrow> Some (Inr (pr_data page))
           | Some c \<Rightarrow> map_option (map_sum id (\<lambda>rest. pr_data page @ rest))
                         (follow_cursor fuel fetch (opts\<lparr>pg_cursor := Some c\<rparr>))))"

lemma order_page_rows_listing:
  "order_page_rows cust st bound limit db =
     take (limit + 1) (filter (\<lambda>r. case bound of Some t \<Rightarrow> ow_created_at r < t | None \<Rightarrow> True) (order_listing cust st db))"
proof -
  have "order_page_filter cust st bound =
      (\<lambda>r. order_page_filter cust st None r \<and> (case bound of Some t \<Rightarrow> ow_created_at r < t | None \<Rightarrow> True))"
    by (auto simp: order_page_filter_def fun_eq_iff)
  then show ?thesis
    unfolding order_page_rows_def order_listing_def order_limit_def filter_sort by (simp add: filter_filter conj_commute)
qed

lemma cursor_position:
  assumes sorted: "sorted_wrt (\<lambda>a b. ow_created_at b < ow_created_at a) L"
    and n: "n \<le> length L"
    and b: "bound = (if n = 0 then None else Some (ow_created_at (L ! (n - 1))))"
  shows "filter (\<lambda>r. case bound of Some t \<Rightarrow> ow_created_at r < t | None \<Rightarrow> True) L = drop n L"
proof (cases n)
  case 0
  then show ?thesis by (simp add: b)
next
  case (Suc m)
  then show ?thesis using filter_below_nth [OF sorted, of m] n by (simp add: b)
qed

lemma follow_cursor_from:
  assumes sorted: "sorted_wrt (\<lambda>a b. ow_created_at b < ow_created_at a) (order_listing cust st db)"
    and uu: "sql_uuid E cust" and lim: "0 < limit"
    and codec: "\<And>t. cur_decode C (cur_encode C t) = Inr t" "\<And>t. cur_encode C t \<noteq> []"
    and all: "map_res (\<lambda>row. order_toDomain D row (items_of db (ow_id row))) (order_listing cust st db) = Inr orders"
    and n: "n \<le> length (order_listing cust st db)"
    and cur: "cursor_bound C cursor =
      Inr (if n = 0 then None else Some (ow_created_at (order_listing cust st db ! (n - 1))))"
    and fuel: "length (order_listing cust st db) - n < fuel"
  shows "follow_cursor fuel (\<lambda>o'. fst (knex_order_findByCustomerId E D C cust o' db))
      \<lparr>pg_cursor = cursor, pg_limit = limit, pg_status = st\<rparr> = Some (Inr (drop n orders))"
  using n cur fuel
proof (induction fuel arbitrary: n cursor)
  case 0
  then show ?case by simp
next
  case (Suc fuel)
  let ?L = "order_listing cust st db"
  let ?f = "\<lambda>row. order_toDomain D row (items_of db (ow_id row))"
  let ?b = "if n = 0 then None else Some (ow_created_at (?L ! (n - 1)))"
  have len: "length orders = length ?L" by (rule map_res_length [OF all])
  have rows: "order_page_rows cust st ?b limit db = take (limit + 1) (drop n ?L)"
    unfolding order_page_rows_listing by (subst cursor_position [OF sorted Suc.prems(1) refl]) (rule refl)
  have data: "map_res ?f (take limit (drop n ?L)) = Inr (take limit (drop n orders))"
    using all by (simp add: map_res_Inr list_all2_dropI list_all2_takeI)
  show ?case
  proof (cases "limit < length ?L - n")
    case False
    with rows data Suc.prems uu show ?thesis
      by (simp add: knex_order_findByCustomerId_def Let_def len)
  next
    case True
    let ?c = "cur_encode C (ow_created_at (?L ! (n + limit - 1)))"
    have ne: "take limit (drop n ?L) \<noteq> []" using True lim by auto
    have last: "last (take limit (drop n ?L)) = ?L ! (n + limit - 1)"
      using True lim ne by (simp add: last_conv_nth min_def)
    have ih: "follow_cursor fuel (\<lambda>o'. fst (knex_order_findByCustomerId E D C cust o' db))
      \<lparr>pg_cursor = Some ?c, pg_limit = limit, pg_status = st\<rparr> = Some (Inr (drop (n + limit) orders))"
      using True lim Suc.prems codec by (intro Suc.IH) (auto simp: cursor_bound_def)
    have "take limit (drop n orders) @ drop (n + limit) orders = drop n orders"
      by (metis append_take_drop_id add.commute drop_drop)
    with True rows data Suc.prems uu ne last ih lim show ?thesis
      by (simp add: knex_order_findByCustomerId_def Let_def min_def)
  qed
qed

end
