(* ===== verification/Domain_Event.thy ===== *)
theory Domain_Event
  imports Trace_Context
begin

text \<open>
  Domain events (\<open>packages/shared/src/events/DomainEvent.ts\<close>): the envelope every service
  exchanges, the event types used as routing keys, and the JSON form of the envelope.
  Instants (\<open>Date\<close>, ISO timestamps) are milliseconds since the epoch.
\<close>

named_theorems event_types "definitions of the event type constants"

definition ORDER_CREATED :: string where [event_types]: "ORDER_CREATED = ''order.created''"
definition ORDER_CONFIRMED :: string where [event_types]: "ORDER_CONFIRMED = ''order.confirmed''"
definition ORDER_CANCELLED :: string where [event_types]: "ORDER_CANCELLED = ''order.cancelled''"
definition ORDER_EXPIRED :: string where [event_types]: "ORDER_EXPIRED = ''order.expired''"
definition INVENTORY_RESERVED :: string where [event_types]: "INVENTORY_RESERVED = ''inventory.reserved''"
definition INVENTORY_RELEASED :: string where [event_types]: "INVENTORY_RELEASED = ''inventory.released''"
definition INVENTORY_FAILED :: string where [event_types]: "INVENTORY_FAILED = ''inventory.failed''"
definition PAYMENT_PROCESSING :: string where [event_types]: "PAYMENT_PROCESSING = ''payment.processing''"
definition PAYMENT_COMPLETED :: string where [event_types]: "PAYMENT_COMPLETED = ''payment.completed''"
definition PAYMENT_FAILED :: string where [event_types]: "PAYMENT_FAILED = ''payment.failed''"
definition PAYMENT_REFUNDED :: string where [event_types]: "PAYMENT_REFUNDED = ''payment.refunded''"
definition NOTIFICATION_SENT :: string where [event_types]: "NOTIFICATION_SENT = ''notification.sent''"
definition NOTIFICATION_FAILED :: string where [event_types]: "NOTIFICATION_FAILED = ''notification.failed''"

definition EventType :: "string list" where
  "EventType =
     [ORDER_CREATED, ORDER_CONFIRMED, ORDER_CANCELLED, ORDER_EXPIRED,
      INVENTORY_RESERVED, INVENTORY_RELEASED, INVENTORY_FAILED,
      PAYMENT_PROCESSING, PAYMENT_COMPLETED, PAYMENT_FAILED, PAYMENT_REFUNDED,
      NOTIFICATION_SENT, NOTIFICATION_FAILED]"

lemma EventType_distinct: "distinct EventType"
  by (simp add: EventType_def event_types)

section \<open>The envelope\<close>

record event_metadata =
  em_version :: int
  em_userId :: "string option"
  em_traceparent :: "string option"

record domain_event =
  ev_id :: string
  ev_type :: string
  ev_source :: string
  ev_timestamp :: int
  ev_correlationId :: string
  ev_causationId :: string
  ev_data :: json
  ev_metadata :: event_metadata

text \<open>\<open>JSON.stringify(event)\<close> as a value, and reading the fields back from a parsed body.\<close>

definition metadata_to_json :: "event_metadata \<Rightarrow> json" where
  "metadata_to_json m = JObj (
     [(''version'', JNum (of_int (em_version m)))]
     @ opt_member ''userId'' JStr (em_userId m)
     @ opt_member ''traceparent'' JStr (em_traceparent m))"

definition event_to_json :: "domain_event \<Rightarrow> json" where
  "event_to_json e = JObj
     [(''id'', JStr (ev_id e)), (''type'', JStr (ev_type e)), (''source'', JStr (ev_source e)),
      (''timestamp'', JNum (of_int (ev_timestamp e))),
      (''correlationId'', JStr (ev_correlationId e)), (''causationId'', JStr (ev_causationId e)),
      (''data'', ev_data e), (''metadata'', metadata_to_json (ev_metadata e))]"

definition metadata_of_json :: "json \<Rightarrow> event_metadata option" where
  "metadata_of_json v =
     (case get_num v ''version'' of
        None \<Rightarrow> None
      | Some n \<Rightarrow> Some \<lparr>em_version = \<lfloor>n\<rfloor>, em_userId = get_str v ''userId'',
                        em_traceparent = get_str v ''traceparent''\<rparr>)"

definition event_of_json :: "json \<Rightarrow> domain_event option" where
  "event_of_json v =
     (case (get_str v ''id'', get_str v ''type'', get_str v ''source'', get_num v ''timestamp'',
            get_str v ''correlationId'', get_str v ''causationId'', json_get v ''data'',
            Option.bind (json_get v ''metadata'') metadata_of_json) of
        (Some i, Some t, Some s, Some ts, Some co, Some ca, Some d, Some m) \<Rightarrow>
          Some \<lparr>ev_id = i, ev_type = t, ev_source = s, ev_timestamp = \<lfloor>ts\<rfloor>, ev_correlationId = co,
                ev_causationId = ca, ev_data = d, ev_metadata = m\<rparr>
      | _ \<Rightarrow> None)"

lemma opt_member_last [simp]: "map_of (opt_member k f x) k' = (if k = k' \<and> x \<noteq> None then map_option f x else None)"
  by (auto simp: opt_member_def split: option.splits)

lemma metadata_roundtrip: "metadata_of_json (metadata_to_json m) = Some m"
proof -
  have u: "get_str (metadata_to_json m) ''userId'' = em_userId m"
    by (cases "em_userId m") (simp_all add: get_str_def metadata_to_json_def opt_member_def split: option.split)
  have t: "get_str (metadata_to_json m) ''traceparent'' = em_traceparent m"
    by (cases "em_traceparent m"; cases "em_userId m")
      (simp_all add: get_str_def metadata_to_json_def opt_member_def)
  have v: "get_num (metadata_to_json m) ''version'' = Some (of_int (em_version m))"
    by (simp add: get_num_def metadata_to_json_def)
  show ?thesis by (simp add: metadata_of_json_def u t v)
qed

lemma event_roundtrip: "event_of_json (event_to_json e) = Some e"
  by (simp add: event_of_json_def event_to_json_def get_str_def get_num_def metadata_roundtrip)

section \<open>Payloads\<close>

text \<open>The payload interfaces as predicates: which members a value must have, and of which type.\<close>

definition has_str :: "json \<Rightarrow> string \<Rightarrow> bool" where
  "has_str v k \<longleftrightarrow> get_str v k \<noteq> None"

definition has_num :: "json \<Rightarrow> string \<Rightarrow> bool" where
  "has_num v k \<longleftrightarrow> get_num v k \<noteq> None"

definition has_bool :: "json \<Rightarrow> string \<Rightarrow> bool" where
  "has_bool v k \<longleftrightarrow> (case json_get v k of Some (JBool b) \<Rightarrow> True | _ \<Rightarrow> False)"

definition has_array :: "json \<Rightarrow> string \<Rightarrow> (json \<Rightarrow> bool) \<Rightarrow> bool" where
  "has_array v k P \<longleftrightarrow> (case json_get v k of Some (JArr xs) \<Rightarrow> list_all P xs | _ \<Rightarrow> False)"

definition OrderCreatedPayload :: "json \<Rightarrow> bool" where
  "OrderCreatedPayload d \<longleftrightarrow> has_str d ''orderId'' \<and> has_str d ''customerId'' \<and>
     has_array d ''items'' (\<lambda>i. has_str i ''productId'' \<and> has_str i ''sku'' \<and> has_num i ''quantity'' \<and> has_num i ''unitPrice'') \<and>
     has_num d ''totalAmount'' \<and> has_str d ''currency''"

definition OrderConfirmedPayload :: "json \<Rightarrow> bool" where
  "OrderConfirmedPayload d \<longleftrightarrow>
     has_str d ''orderId'' \<and> has_str d ''customerId'' \<and> has_num d ''totalAmount'' \<and> has_str d ''currency''"

definition OrderCancelledPayload :: "json \<Rightarrow> bool" where
  "OrderCancelledPayload d \<longleftrightarrow> has_str d ''orderId'' \<and> has_str d ''customerId'' \<and> has_str d ''reason''"

definition InventoryReservedPayload :: "json \<Rightarrow> bool" where
  "InventoryReservedPayload d \<longleftrightarrow> has_str d ''orderId'' \<and>
     has_array d ''reservations''
       (\<lambda>r. has_str r ''productId'' \<and> has_str r ''sku'' \<and> has_num r ''quantity'' \<and> has_str r ''reservationId'')"

definition InventoryFailedPayload :: "json \<Rightarrow> bool" where
  "InventoryFailedPayload d \<longleftrightarrow> has_str d ''orderId'' \<and> has_str d ''reason'' \<and>
     has_array d ''failedItems'' (\<lambda>i. has_str i ''sku'' \<and> has_num i ''requested'' \<and> has_num i ''available'')"

definition PaymentCompletedPayload :: "json \<Rightarrow> bool" where
  "PaymentCompletedPayload d \<longleftrightarrow> has_str d ''orderId'' \<and> has_str d ''paymentId'' \<and> has_num d ''amount'' \<and>
     has_str d ''currency'' \<and> has_str d ''gatewayTransactionId''"

definition PaymentFailedPayload :: "json \<Rightarrow> bool" where
  "PaymentFailedPayload d \<longleftrightarrow>
     has_str d ''orderId'' \<and> has_str d ''paymentId'' \<and> has_str d ''reason'' \<and> has_bool d ''retryable''"

text \<open>The interface of a type; the other types declare none.\<close>

definition declared_payload :: "string \<Rightarrow> json \<Rightarrow> bool" where
  "declared_payload ty d \<longleftrightarrow>
     (ty = ORDER_CREATED \<longrightarrow> OrderCreatedPayload d) \<and> (ty = ORDER_CONFIRMED \<longrightarrow> OrderConfirmedPayload d) \<and>
     (ty = ORDER_CANCELLED \<longrightarrow> OrderCancelledPayload d) \<and> (ty = INVENTORY_RESERVED \<longrightarrow> InventoryReservedPayload d) \<and>
     (ty = INVENTORY_FAILED \<longrightarrow> InventoryFailedPayload d) \<and> (ty = PAYMENT_COMPLETED \<longrightarrow> PaymentCompletedPayload d) \<and>
     (ty = PAYMENT_FAILED \<longrightarrow> PaymentFailedPayload d)"

lemma has_member_intros:
  "json_get v k = Some (JStr s) \<Longrightarrow> has_str v k" "json_get v k = Some (JNum n) \<Longrightarrow> has_num v k"
  "json_get v k = Some (JBool b) \<Longrightarrow> has_bool v k" "json_get v k = Some (JArr xs) \<Longrightarrow> list_all P xs \<Longrightarrow> has_array v k P"
  by (simp_all add: has_str_def get_str_def has_num_def get_num_def has_bool_def has_array_def)

end
