(* ===== verification/Order_Service.thy ===== *)
theory Order_Service
  imports Order_Store Domain_Event
begin

text \<open>
  The application layer of the order service: the event builders
  (\<open>application/events/orderEvents.ts\<close>), the command and query handlers, the saga's event
  handlers (\<open>interfaces/messaging/eventHandlers.ts\<close>), the business counters and the HTTP
  controller.  Handlers are parametric in the ports; their laws are proved in the locale
  \<open>order_saga\<close> and hold of the Knex repositories by its interpretation.
\<close>

section \<open>Metrics\<close>

record order_counters =
  oc_created :: int
  oc_confirmed :: int
  oc_cancelled :: "string \<Rightarrow> int"

type_synonym ('s, 'a) order_op = "('s \<times> order_counters, js_error, 'a) eff"

definition recordCreated :: "('s, unit) order_op" where
  "recordCreated s = (Inr (), (fst s, (snd s)\<lparr>oc_created := oc_created (snd s) + 1\<rparr>))"

definition recordConfirmed :: "('s, unit) order_op" where
  "recordConfirmed s = (Inr (), (fst s, (snd s)\<lparr>oc_confirmed := oc_confirmed (snd s) + 1\<rparr>))"

definition recordCancelled :: "string \<Rightarrow> ('s, unit) order_op" where
  "recordCancelled reason s =
     (Inr (), (fst s, (snd s)\<lparr>oc_cancelled := (oc_cancelled (snd s))(reason := oc_cancelled (snd s) reason + 1)\<rparr>))"

text \<open>A repository call: it sees the store and leaves the counters.\<close>

definition on_store :: "('s, js_error, 'a) eff \<Rightarrow> ('s, 'a) order_op" where
  "on_store m s = (case m (fst s) of (r, t) \<Rightarrow> (r, (t, snd s)))"

section \<open>Events\<close>

definition traceMetadata :: "request_context option \<Rightarrow> json option" where
  "traceMetadata req =
     (case currentTraceparent req of None \<Rightarrow> None | Some t \<Rightarrow> Some (JObj [(''traceparent'', JStr t)]))"

definition item_payload :: "'d decimal_lib \<Rightarrow> 'd order_item \<Rightarrow> json" where
  "item_payload D i = JObj
     [(''productId'', JStr (oi_productId i)), (''sku'', JStr (oi_sku i)),
      (''quantity'', JNum (of_int (oi_quantity i))), (''unitPrice'', JNum (money_toNumber D (oi_unitPrice i)))]"

definition orderCreatedEvent :: "'d decimal_lib \<Rightarrow> request_context option \<Rightarrow> 'd order \<Rightarrow> outbox_input" where
  "orderCreatedEvent D req ord =
     \<lparr>ob_aggregateType = ''order'', ob_aggregateId = o_id ord, ob_eventType = ORDER_CREATED,
      ob_payload = JObj
        [(''orderId'', JStr (o_id ord)), (''customerId'', JStr (o_customerId ord)),
         (''items'', JArr (map (item_payload D) (o_items ord))),
         (''totalAmount'', JNum (money_toNumber D (o_totalAmount ord))), (''currency'', JStr (o_currency ord))],
      ob_metadata = traceMetadata req\<rparr>"

definition orderCancelledEvent :: "request_context option \<Rightarrow> 'd order \<Rightarrow> string \<Rightarrow> outbox_input" where
  "orderCancelledEvent req ord reason =
     \<lparr>ob_aggregateType = ''order'', ob_aggregateId = o_id ord, ob_eventType = ORDER_CANCELLED,
      ob_payload = JObj [(''orderId'', JStr (o_id ord)), (''customerId'', JStr (o_customerId ord)),
                         (''reason'', JStr reason)],
      ob_metadata = traceMetadata req\<rparr>"

definition orderConfirmedEvent :: "'d decimal_lib \<Rightarrow> request_context option \<Rightarrow> 'd order \<Rightarrow> outbox_input" where
  "orderConfirmedEvent D req ord =
     \<lparr>ob_aggregateType = ''order'', ob_aggregateId = o_id ord, ob_eventType = ORDER_CONFIRMED,
      ob_payload = JObj
        [(''orderId'', JStr (o_id ord)), (''customerId'', JStr (o_customerId ord)),
         (''totalAmount'', JNum (money_toNumber D (o_totalAmount ord))), (''currency'', JStr (o_currency ord))],
      ob_metadata = traceMetadata req\<rparr>"

section \<open>Commands\<close>

record create_item =
  ci_productId :: string
  ci_sku :: string
  ci_quantity :: int
  ci_unitPrice :: rat

record create_command =
  cc_customerId :: string
  cc_idempotencyKey :: string
  cc_currency :: string
  cc_items :: "create_item list"
  cc_shippingAddress :: json

definition create_item_props :: "'d decimal_lib \<Rightarrow> string \<Rightarrow> create_item \<Rightarrow> js_error + 'd order_item_props" where
  "create_item_props D currency item =
     (case money_of D (ANum (ci_unitPrice item)) currency of
        Inl e \<Rightarrow> Inl e
      | Inr price \<Rightarrow> Inr \<lparr>ip_id = None, ip_productId = ci_productId item, ip_sku = ci_sku item,
                         ip_quantity = ci_quantity item, ip_unitPrice = price\<rparr>)"

definition order_of_command :: "'d decimal_lib \<Rightarrow> call_ctx \<Rightarrow> create_command \<Rightarrow> js_error + 'd order" where
  "order_of_command D cx c =
     (case map_res (create_item_props D (cc_currency c)) (cc_items c) of
        Inl e \<Rightarrow> Inl e
      | Inr items \<Rightarrow> newOrder D (cx_uuid cx) (cx_now cx)
          \<lparr>op_id = None, op_customerId = cc_customerId c, op_items = items, op_currency = cc_currency c,
           op_idempotencyKey = cc_idempotencyKey c, op_shippingAddress = Some (cc_shippingAddress c),
           op_metadata = None, op_status = None, op_version = None, op_createdAt = None, op_updatedAt = None\<rparr>)"

definition CreateOrder_execute ::
    "'d decimal_lib \<Rightarrow> ('s, 'd) order_repository \<Rightarrow> call_ctx \<Rightarrow> create_command \<Rightarrow>
     ('s, 'd order \<times> bool) order_op" where
  "CreateOrder_execute D repo cx c =
     bind_eff (on_store (repo_findByIdempotencyKey repo (cc_idempotencyKey c))) (\<lambda>existing.
       case existing of
         Some ord \<Rightarrow> ret (ord, True)
       | None \<Rightarrow>
           bind_eff (lift_res (order_of_command D cx c)) (\<lambda>ord.
           bind_eff (on_store (repo_save repo cx ord [orderCreatedEvent D (cx_request cx) ord])) (\<lambda>saved.
           bind_eff recordCreated (\<lambda>_. ret (saved, False)))))"

definition order_not_found :: "string \<Rightarrow> string \<Rightarrow> js_error" where
  "order_not_found oid path =
     App ((new_error NotFoundError (''Order '' @ oid @ '' not found''))
          \<lparr>ae_instance := Some (''/api/v1/orders/'' @ oid @ path)\<rparr>)"

record cancel_command =
  xc_orderId :: string
  xc_customerId :: string
  xc_reason :: "string option"

definition CancelOrder_execute ::
    "('s, 'd) order_repository \<Rightarrow> call_ctx \<Rightarrow> cancel_command \<Rightarrow> ('s, 'd order) order_op" where
  "CancelOrder_execute repo cx c =
     bind_eff (on_store (repo_findById repo (xc_orderId c))) (\<lambda>found.
       case found of
         None \<Rightarrow> throw (order_not_found (xc_orderId c) [])
       | Some ord \<Rightarrow>
           if o_customerId ord \<noteq> xc_customerId c then throw (order_not_found (xc_orderId c) [])
           else
             bind_eff (lift_res (order_cancel (cx_now cx) ord)) (\<lambda>ord'.
             bind_eff (on_store (repo_update repo cx ord'
               [orderCancelledEvent (cx_request cx) ord'
                  (case xc_reason c of Some r \<Rightarrow> r | None \<Rightarrow> ''cancelled by customer'')])) (\<lambda>updated.
             bind_eff (recordCancelled ''customer'') (\<lambda>_. ret updated))))"

section \<open>Queries\<close>

definition GetOrder_execute ::
    "('s, 'd) order_repository \<Rightarrow> string \<Rightarrow> string \<Rightarrow> ('s, js_error, 'd order) eff" where
  "GetOrder_execute repo orderId customerId =
     bind_eff (repo_findById repo orderId) (\<lambda>found.
       case found of
         None \<Rightarrow> throw (order_not_found orderId [])
       | Some ord \<Rightarrow> if o_customerId ord \<noteq> customerId then throw (order_not_found orderId []) else ret ord)"

record order_timeline =
  ot_orderId :: string
  ot_status :: order_status
  ot_steps :: "saga_step list"

definition GetTimeline_execute ::
    "('s, 'd) order_repository \<Rightarrow> 's saga_repository \<Rightarrow> string \<Rightarrow> string \<Rightarrow> ('s, js_error, order_timeline) eff" where
  "GetTimeline_execute repo saga orderId customerId =
     bind_eff (repo_findById repo orderId) (\<lambda>found.
       case found of
         None \<Rightarrow> throw (order_not_found orderId ''/timeline'')
       | Some ord \<Rightarrow>
           if o_customerId ord \<noteq> customerId then throw (order_not_found orderId ''/timeline'')
           else bind_eff (saga_findByOrderId saga orderId) (\<lambda>steps.
             ret \<lparr>ot_orderId = orderId, ot_status = o_status ord, ot_steps = steps\<rparr>))"

record list_options =
  lo_customerId :: string
  lo_cursor :: "string option"
  lo_limit :: "nat option"
  lo_status :: "string option"

definition ListOrders_execute ::
    "('s, 'd) order_repository \<Rightarrow> list_options \<Rightarrow> ('s, js_error, 'd order page) eff" where
  "ListOrders_execute repo opts =
     (let limit = min (case lo_limit opts of Some l \<Rightarrow> l | None \<Rightarrow> 20) 100
      in repo_findByCustomerId repo (lo_customerId opts)
           \<lparr>pg_cursor = lo_cursor opts, pg_limit = limit, pg_status = lo_status opts\<rparr>)"

section \<open>The saga's event handlers\<close>

text \<open>
  \<open>const { orderId } = event.data\<close> and its use as the key of a query: a missing value is
  rejected by the query builder.
\<close>

definition event_orderId :: "json \<Rightarrow> js_error + string" where
  "event_orderId event =
     (case Option.bind (json_get event ''data'') (\<lambda>d. get_str d ''orderId'') of
        Some i \<Rightarrow> Inr i
      | None \<Rightarrow> Inl (LibraryError ''undefined binding orderId''))"

definition with_order ::
    "('s, 'd) order_repository \<Rightarrow> json \<Rightarrow> (string \<Rightarrow> 'd order \<Rightarrow> ('s, unit) order_op) \<Rightarrow> ('s, unit) order_op" where
  "with_order repo event body =
     bind_eff (lift_res (event_orderId event)) (\<lambda>orderId.
     bind_eff (on_store (repo_findById repo orderId)) (\<lambda>found.
       case found of None \<Rightarrow> ret () | Some ord \<Rightarrow> body orderId ord))"

definition onInventoryReserved ::
    "('s, 'd) order_repository \<Rightarrow> 's saga_repository \<Rightarrow> call_ctx \<Rightarrow> json \<Rightarrow> ('s, unit) order_op" where
  "onInventoryReserved repo saga cx event = with_order repo event (\<lambda>orderId ord.
     if o_status ord \<noteq> OS_CREATED then ret ()
     else
       bind_eff (lift_res (order_transitionTo (cx_now cx) OS_INVENTORY_RESERVED ord)) (\<lambda>ord1.
       bind_eff (lift_res (order_transitionTo (cx_now cx) OS_PAYMENT_PENDING ord1)) (\<lambda>ord2.
       bind_eff (on_store (repo_update repo cx ord2 [])) (\<lambda>_.
       on_store (saga_record saga cx orderId ''inventory_reserved'' ''COMPLETED'' None)))))"

definition onPaymentCompleted ::
    "'d decimal_lib \<Rightarrow> ('s, 'd) order_repository \<Rightarrow> 's saga_repository \<Rightarrow> call_ctx \<Rightarrow> json \<Rightarrow> ('s, unit) order_op" where
  "onPaymentCompleted D repo saga cx event = with_order repo event (\<lambda>orderId ord.
     if o_status ord = OS_CONFIRMED then ret ()
     else if o_status ord \<noteq> OS_PAYMENT_PENDING then ret ()
     else
       bind_eff (lift_res (order_transitionTo (cx_now cx) OS_CONFIRMED ord)) (\<lambda>ord1.
       bind_eff (on_store (repo_update repo cx ord1 [orderConfirmedEvent D (cx_request cx) ord1])) (\<lambda>_.
       bind_eff recordConfirmed (\<lambda>_.
       on_store (saga_record saga cx orderId ''payment_completed'' ''COMPLETED'' None)))))"

definition onPaymentFailed ::
    "('s, 'd) order_repository \<Rightarrow> 's saga_repository \<Rightarrow> call_ctx \<Rightarrow> json \<Rightarrow> ('s, unit) order_op" where
  "onPaymentFailed repo saga cx event = with_order repo event (\<lambda>orderId ord.
     if o_status ord = OS_CANCELLED then ret ()
     else
       bind_eff (if o_status ord = OS_PAYMENT_PENDING
                 then lift_res (order_transitionTo (cx_now cx) OS_PAYMENT_FAILED ord) else ret ord) (\<lambda>ord1.
       if \<not> order_isCancellable ord1 then ret ()
       else
         bind_eff (lift_res (order_cancel (cx_now cx) ord1)) (\<lambda>ord2.
         bind_eff (on_store (repo_update repo cx ord2 [orderCancelledEvent (cx_request cx) ord2 ''payment failed''])) (\<lambda>_.
         bind_eff (recordCancelled ''payment_failed'') (\<lambda>_.
         on_store (saga_record saga cx orderId ''payment_failed'' ''FAILED'' (Some ''payment failed'')))))))"

definition onInventoryFailed ::
    "('s, 'd) order_repository \<Rightarrow> 's saga_repository \<Rightarrow> call_ctx \<Rightarrow> json \<Rightarrow> ('s, unit) order_op" where
  "onInventoryFailed repo saga cx event = with_order repo event (\<lambda>orderId ord.
     if o_status ord = OS_CANCELLED then ret ()
     else
       bind_eff (if o_status ord = OS_CREATED
                 then lift_res (order_transitionTo (cx_now cx) OS_INVENTORY_FAILED ord) else ret ord) (\<lambda>ord1.
       if \<not> order_isCancellable ord1 then ret ()
       else
         bind_eff (lift_res (order_cancel (cx_now cx) ord1)) (\<lambda>ord2.
         bind_eff (on_store (repo_update repo cx ord2 [])) (\<lambda>_.
         bind_eff (recordCancelled ''inventory_failed'') (\<lambda>_.
         on_store (saga_record saga cx orderId ''inventory_failed'' ''FAILED'' (Some ''inventory failed'')))))))"

definition order_handle ::
    "'d decimal_lib \<Rightarrow> ('s, 'd) order_repository \<Rightarrow> 's saga_repository \<Rightarrow> call_ctx \<Rightarrow> json \<Rightarrow> ('s, unit) order_op" where
  "order_handle D repo saga cx event =
     (let type = get_str event ''type'' in
      if type = Some INVENTORY_RESERVED then onInventoryReserved repo saga cx event
      else if type = Some PAYMENT_COMPLETED then onPaymentCompleted D repo saga cx event
      else if type = Some PAYMENT_FAILED then onPaymentFailed repo saga cx event
      else if type = Some INVENTORY_FAILED then onInventoryFailed repo saga cx event
      else ret ())"

section \<open>The saga's specification\<close>

text \<open>
  What an event does to an order, as a table: the statuses it passes through in one update
  (none: the event is ignored), the events that go to the outbox with the update, the saga step
  that is recorded.
\<close>

datatype saga_event = InventoryReserved | PaymentCompleted | PaymentFailed | InventoryFailed

fun saga_event_type :: "saga_event \<Rightarrow> string" where
  "saga_event_type InventoryReserved = INVENTORY_RESERVED"
| "saga_event_type PaymentCompleted = PAYMENT_COMPLETED"
| "saga_event_type PaymentFailed = PAYMENT_FAILED"
| "saga_event_type InventoryFailed = INVENTORY_FAILED"

fun saga_plan :: "saga_event \<Rightarrow> order_status \<Rightarrow> order_status list" where
  "saga_plan InventoryReserved st = (if st = OS_CREATED then [OS_INVENTORY_RESERVED, OS_PAYMENT_PENDING] else [])"
| "saga_plan PaymentCompleted st = (if st = OS_PAYMENT_PENDING then [OS_CONFIRMED] else [])"
| "saga_plan PaymentFailed st =
     (if st = OS_PAYMENT_PENDING then [OS_PAYMENT_FAILED, OS_CANCELLED]
      else if status_isCancellable st then [OS_CANCELLED] else [])"
| "saga_plan InventoryFailed st =
     (if st = OS_CREATED then [OS_INVENTORY_FAILED, OS_CANCELLED]
      else if status_isCancellable st then [OS_CANCELLED] else [])"

fun saga_outbox :: "'d decimal_lib \<Rightarrow> request_context option \<Rightarrow> saga_event \<Rightarrow> 'd order \<Rightarrow> outbox_input list" where
  "saga_outbox D req PaymentCompleted ord = [orderConfirmedEvent D req ord]"
| "saga_outbox D req PaymentFailed ord = [orderCancelledEvent req ord ''payment failed'']"
| "saga_outbox D req _ ord = []"

fun saga_count :: "saga_event \<Rightarrow> ('s, unit) order_op" where
  "saga_count InventoryReserved = ret ()"
| "saga_count PaymentCompleted = recordConfirmed"
| "saga_count PaymentFailed = recordCancelled ''payment_failed''"
| "saga_count InventoryFailed = recordCancelled ''inventory_failed''"

fun saga_note :: "'s saga_repository \<Rightarrow> call_ctx \<Rightarrow> saga_event \<Rightarrow> string \<Rightarrow> ('s, js_error, unit) eff" where
  "saga_note saga cx InventoryReserved i = saga_record saga cx i ''inventory_reserved'' ''COMPLETED'' None"
| "saga_note saga cx PaymentCompleted i = saga_record saga cx i ''payment_completed'' ''COMPLETED'' None"
| "saga_note saga cx PaymentFailed i = saga_record saga cx i ''payment_failed'' ''FAILED'' (Some ''payment failed'')"
| "saga_note saga cx InventoryFailed i = saga_record saga cx i ''inventory_failed'' ''FAILED'' (Some ''inventory failed'')"

definition advance :: "int \<Rightarrow> order_status list \<Rightarrow> 'd order \<Rightarrow> 'd order" where
  "advance now ts ord = ord\<lparr>o_status := last (o_status ord # ts),
     o_version := o_version ord + int (length ts), o_updatedAt := now\<rparr>"

definition saga_commit ::
    "'d decimal_lib \<Rightarrow> ('s, 'd) order_repository \<Rightarrow> 's saga_repository \<Rightarrow> call_ctx \<Rightarrow> saga_event \<Rightarrow> string \<Rightarrow>
     'd order \<Rightarrow> ('s, unit) order_op" where
  "saga_commit D repo saga cx ev i ord =
     bind_eff (on_store (repo_update repo cx ord (saga_outbox D (cx_request cx) ev ord))) (\<lambda>_.
     bind_eff (saga_count ev) (\<lambda>_. on_store (saga_note saga cx ev i)))"

lemma on_store_find:
  "repo_findById repo i (fst s) = (r, fst s) \<Longrightarrow> on_store (repo_findById repo i) s = (r, s)"
  by (simp add: on_store_def)

lemma transitionTo_ok:
  "order_canTransition (o_status ord) t \<Longrightarrow>
   order_transitionTo now t ord = Inr (advance now [t] ord)"
  by (simp add: order_transitionTo_def advance_def)

lemma cancel_ok: "status_isCancellable (o_status ord) \<Longrightarrow> order_cancel now ord = Inr (advance now [OS_CANCELLED] ord)"
  by (auto simp: order_cancel_def order_transitionTo_def advance_def status_isCancellable_def)

lemma advance_advance: "advance now us (advance now ts ord) = advance now (ts @ us) ord"
  by (simp add: advance_def)

lemma advance_sel [simp]:
  "o_status (advance now ts ord) = last (o_status ord # ts)"
  "o_version (advance now ts ord) = o_version ord + int (length ts)"
  "o_id (advance now ts ord) = o_id ord" "o_initialVersion (advance now ts ord) = o_initialVersion ord"
  "o_items (advance now ts ord) = o_items ord" "o_totalAmount (advance now ts ord) = o_totalAmount ord"
  "o_customerId (advance now ts ord) = o_customerId ord"
  "o_metadata (advance now ts ord) = o_metadata ord"
  by (simp_all add: advance_def)

lemma event_types_neq [simp]:
  "INVENTORY_RESERVED \<noteq> PAYMENT_COMPLETED" "INVENTORY_RESERVED \<noteq> PAYMENT_FAILED"
  "INVENTORY_RESERVED \<noteq> INVENTORY_FAILED" "PAYMENT_COMPLETED \<noteq> PAYMENT_FAILED"
  "PAYMENT_COMPLETED \<noteq> INVENTORY_FAILED" "PAYMENT_FAILED \<noteq> INVENTORY_FAILED"
  "PAYMENT_COMPLETED \<noteq> INVENTORY_RESERVED" "PAYMENT_FAILED \<noteq> INVENTORY_RESERVED"
  "INVENTORY_FAILED \<noteq> INVENTORY_RESERVED" "PAYMENT_FAILED \<noteq> PAYMENT_COMPLETED"
  "INVENTORY_FAILED \<noteq> PAYMENT_COMPLETED" "INVENTORY_FAILED \<noteq> PAYMENT_FAILED"
  by (simp_all add: event_types)

text \<open>Every handler is the table's entry followed by one commit.\<close>

lemma handle_found:
  assumes ty: "get_str event ''type'' = Some (saga_event_type ev)"
    and oid: "event_orderId event = Inr i"
    and find: "repo_findById repo i (fst s) = (Inr (Some ord), fst s)"
  shows "order_handle D repo saga cx event s =
    (if saga_plan ev (o_status ord) = [] then (Inr (), s)
     else saga_commit D repo saga cx ev i (advance (cx_now cx) (saga_plan ev (o_status ord)) ord) s)"
proof -
  have w: "with_order repo event body s = body i ord s" for body
    using oid find
    by (simp add: with_order_def) (simp add: bind_eff_def on_store_def)
  show ?thesis
  proof (cases ev)
    case InventoryReserved
    with ty show ?thesis
      by (simp add: order_handle_def onInventoryReserved_def w transitionTo_ok order_canTransition_def
          advance_advance saga_commit_def ret_def)
  next
    case PaymentCompleted
    with ty show ?thesis
      by (simp add: order_handle_def onPaymentCompleted_def w transitionTo_ok order_canTransition_def
          saga_commit_def ret_def)
  next
    case PaymentFailed
    with ty show ?thesis
      by (cases "o_status ord")
        (simp_all add: order_handle_def onPaymentFailed_def w transitionTo_ok cancel_ok order_canTransition_def
          status_isCancellable_def order_isCancellable_def advance_advance saga_commit_def, simp_all add: ret_def)
  next
    case InventoryFailed
    with ty show ?thesis
      by (cases "o_status ord")
        (simp_all add: order_handle_def onInventoryFailed_def w transitionTo_ok cancel_ok order_canTransition_def
          status_isCancellable_def order_isCancellable_def advance_advance saga_commit_def, simp_all add: ret_def)
  qed
qed

lemma handle_other:
  assumes "\<And>ev. get_str event ''type'' \<noteq> Some (saga_event_type ev)"
  shows "order_handle D repo saga cx event s = (Inr (), s)"
  using assms [of InventoryReserved] assms [of PaymentCompleted] assms [of PaymentFailed]
    assms [of InventoryFailed]
  by (simp add: order_handle_def ret_def)

lemma saga_plan_path: "status_path order_canTransition st (saga_plan ev st)"
  by (cases ev; cases st) (simp_all add: order_canTransition_def status_isCancellable_def)

lemma saga_plan_done: "saga_plan ev (last (st # saga_plan ev st)) = []"
  by (cases ev; cases st) (simp_all add: order_canTransition_def status_isCancellable_def)

lemma saga_plan_terminal: "order_status_isTerminal st \<Longrightarrow> saga_plan ev st = []"
  by (cases ev; cases st) (simp_all add: order_canTransition_def status_isCancellable_def isTerminal_iff)

section \<open>The handlers over any store that keeps the contract\<close>

lemma order_of_command_new:
  assumes "order_of_command D cx c = Inr ord"
  shows "o_idempotencyKey ord = cc_idempotencyKey c" and "o_customerId ord = cc_customerId c"
    and "o_id ord = cx_uuid cx" and "o_status ord = OS_CREATED" and "o_version ord = 1"
    and "length (o_items ord) = length (cc_items c)" and "order_ok D ord"
proof -
  from assms obtain items p where items: "map_res (create_item_props D (cc_currency c)) (cc_items c) = Inr items"
    and new: "newOrder D (cx_uuid cx) (cx_now cx) p = Inr ord" and p: "op_items p = items" "op_id p = None"
      "op_customerId p = cc_customerId c" "op_idempotencyKey p = cc_idempotencyKey c" "op_status p = None"
      "op_version p = None"
    by (auto simp: order_of_command_def split: sum.splits)
  note f = newOrder_Inr [OF new]
  show "o_idempotencyKey ord = cc_idempotencyKey c" "o_customerId ord = cc_customerId c"
    "o_id ord = cx_uuid cx" "o_status ord = OS_CREATED" "o_version ord = 1"
    using f p by simp_all
  show "length (o_items ord) = length (cc_items c)"
    using map_res_length [OF items] map_res_length [OF f(4)] p by simp
  show "order_ok D ord" by (rule newOrder_ok [OF new])
qed

context order_store
begin

lemma create_cases:
  assumes inv: "inv (fst s)" and ex: "CreateOrder_execute D repo cx c s = (r, t)"
  obtains (existing) ord where "r = Inr (ord, True)" "t = s" "abs (fst s) (o_id ord) = Some ord"
      "o_idempotencyKey ord = cc_idempotencyKey c"
      "repo_findByIdempotencyKey repo (cc_idempotencyKey c) (fst s) = (Inr (Some ord), fst s)"
  | (refused) e where "r = Inl e" "t = s"
  | (created) ord saved st where "r = Inr (saved, False)" "order_of_command D cx c = Inr ord"
      "inv (fst t)" "abs (fst s) (o_id ord) = None" "abs (fst t) = (abs (fst s))(o_id ord \<mapsto> st)"
      "same_order st saved" "o_id saved = o_id ord" "o_status saved = OS_CREATED" "o_version saved = 1"
      "o_customerId saved = cc_customerId c" "o_idempotencyKey saved = cc_idempotencyKey c"
      "sent (fst t) = sent (fst s) @ [orderCreatedEvent D (cx_request cx) ord]"
      "oc_created (snd t) = oc_created (snd s) + 1"
proof -
  obtain x where f: "repo_findByIdempotencyKey repo (cc_idempotencyKey c) (fst s) = (Inr x, fst s)"
    and x: "case x of None \<Rightarrow> (\<forall>i ord. abs (fst s) i = Some ord \<longrightarrow> o_idempotencyKey ord \<noteq> cc_idempotencyKey c)
       | Some ord \<Rightarrow> abs (fst s) (o_id ord) = Some ord \<and> o_idempotencyKey ord = cc_idempotencyKey c"
    using findByKey [OF inv, of "cc_idempotencyKey c"] by blast
  show thesis
  proof (cases x)
    case (Some ord)
    with ex f x show ?thesis
      by (intro existing [of ord]) (auto simp: CreateOrder_execute_def eff_defs on_store_def)
  next
    case None
    show ?thesis
    proof (cases "order_of_command D cx c")
      case (Inl e)
      with ex f None show ?thesis
        by (intro refused [of e]) (auto simp: CreateOrder_execute_def eff_defs on_store_def)
    next
      case (Inr ord)
      obtain u s1 where u: "repo_save repo cx ord [orderCreatedEvent D (cx_request cx) ord] (fst s) = (u, s1)"
        by fastforce
      show ?thesis
      proof (cases u)
        case (Inl e)
        with ex f None Inr u save_err show ?thesis
          by (intro refused [of e])
            (auto simp: CreateOrder_execute_def bind_eff_def ret_def on_store_def prod_eq_iff)
      next
        case s: (Inr saved)
        with ex f None Inr u have t: "r = Inr (saved, False)" "fst t = s1"
          "oc_created (snd t) = oc_created (snd s) + 1"
          by (auto simp: CreateOrder_execute_def bind_eff_def ret_def on_store_def recordCreated_def)
        from save_ok [OF inv u [unfolded s]] order_of_command_new [OF Inr] t Inr show ?thesis
          by (auto intro: created)
      qed
    qed
  qed
qed

text \<open>A retried creation returns the first order and writes nothing.\<close>

lemma create_idempotent:
  assumes inv: "inv (fst s)" and ex: "CreateOrder_execute D repo cx c s = (Inr (ord, b), t)"
    and key: "cc_idempotencyKey c' = cc_idempotencyKey c"
  shows "\<exists>ord'. CreateOrder_execute D repo cx' c' t = (Inr (ord', True), t) \<and> same_order ord' ord"
  using inv ex
proof (cases rule: create_cases)
  case (existing ord1)
  with key show ?thesis by (auto simp: CreateOrder_execute_def eff_defs on_store_def)
next
  case (created ord1 saved st)
  note sel = same_order_sel [OF created(6)]
  have st: "abs (fst t) (o_id ord1) = Some st" using created by simp
  obtain x where f: "repo_findByIdempotencyKey repo (cc_idempotencyKey c') (fst t) = (Inr x, fst t)"
    and x: "case x of None \<Rightarrow> (\<forall>i ord. abs (fst t) i = Some ord \<longrightarrow> o_idempotencyKey ord \<noteq> cc_idempotencyKey c')
       | Some ord \<Rightarrow> abs (fst t) (o_id ord) = Some ord \<and> o_idempotencyKey ord = cc_idempotencyKey c'"
    using findByKey [OF created(3), of "cc_idempotencyKey c'"] by blast
  show ?thesis
  proof (cases x)
    case None
    with x have "\<forall>i ord. abs (fst t) i = Some ord \<longrightarrow> o_idempotencyKey ord \<noteq> cc_idempotencyKey c'" by simp
    with st have "o_idempotencyKey st \<noteq> cc_idempotencyKey c'" by blast
    with sel created key show ?thesis by simp
  next
    case (Some o2)
    with x have o2: "abs (fst t) (o_id o2) = Some o2" "o_idempotencyKey o2 = cc_idempotencyKey c'" by auto
    with abs_key [OF created(3) o2(1) st] key sel created have "o_id o2 = o_id ord1" by simp
    with o2 st have "o2 = st" by simp
    with f Some created show ?thesis
      by (auto simp: CreateOrder_execute_def eff_defs on_store_def)
  qed
qed auto

lemma cancel_cases:
  assumes inv: "inv (fst s)" and ex: "CancelOrder_execute repo cx c s = (r, t)"
  obtains (refused) e where "r = Inl e" "t = s"
  | (cancelled) old new reason where "r = Inr new" "abs (fst s) (xc_orderId c) = Some old"
      "o_customerId old = xc_customerId c" "order_isCancellable old"
      "new = stored_update cx old (advance (cx_now cx) [OS_CANCELLED] old)" "inv (fst t)"
      "abs (fst t) = (abs (fst s))(xc_orderId c \<mapsto> new)"
      "reason = (case xc_reason c of Some r \<Rightarrow> r | None \<Rightarrow> ''cancelled by customer'')"
      "sent (fst t) = sent (fst s) @ [orderCancelledEvent (cx_request cx) (advance (cx_now cx) [OS_CANCELLED] old) reason]"
  using inv
proof (cases rule: find_cases [where i = "xc_orderId c"])
  case (err e)
  with ex show ?thesis by (intro refused [of e]) (auto simp: CancelOrder_execute_def eff_defs on_store_def)
next
  case missing
  with ex show ?thesis
    by (intro refused [of "order_not_found (xc_orderId c) []"])
      (auto simp: CancelOrder_execute_def eff_defs on_store_def)
next
  case (found old)
  let ?new = "advance (cx_now cx) [OS_CANCELLED] old"
  let ?reason = "case xc_reason c of Some r \<Rightarrow> r | None \<Rightarrow> ''cancelled by customer''"
  let ?ev = "orderCancelledEvent (cx_request cx) ?new ?reason"
  show ?thesis
  proof (cases "o_customerId old = xc_customerId c \<and> status_isCancellable (o_status old)")
    case False
    have "\<exists>e. CancelOrder_execute repo cx c s = (Inl e, s)"
    proof (cases "o_customerId old = xc_customerId c")
      case True
      with False have "\<exists>e. order_cancel (cx_now cx) old = Inl e" by (simp add: order_cancel_def)
      with True found show ?thesis by (auto simp: CancelOrder_execute_def eff_defs on_store_def)
    qed (use found in \<open>simp add: CancelOrder_execute_def eff_defs on_store_def\<close>)
    with ex show ?thesis using refused by auto
  next
    case True
    obtain u s1 where u: "repo_update repo cx ?new [?ev] (fst s) = (u, s1)" by fastforce
    show ?thesis
    proof (cases u)
      case (Inl e)
      with ex found True u update_err [of cx ?new "[?ev]" "fst s" e s1] show ?thesis
        by (intro refused [of e])
          (auto simp: CancelOrder_execute_def bind_eff_def on_store_def cancel_ok lift_res_def prod_eq_iff)
    next
      case (Inr new)
      from ex found True u Inr have "r = Inr new" "fst t = s1"
        by (auto simp: CancelOrder_execute_def bind_eff_def on_store_def cancel_ok lift_res_def
            recordCancelled_def ret_def)
      with update_ok [OF inv u [unfolded Inr]] found True show ?thesis
        by (intro cancelled) (auto simp: order_isCancellable_def)
    qed
  qed
qed

lemma get_order_owner:
  "inv s \<Longrightarrow> GetOrder_execute repo i cust s = (Inr ord, t) \<Longrightarrow>
     t = s \<and> abs s i = Some ord \<and> o_customerId ord = cust \<and> o_id ord = i"
  by (cases rule: find_cases [of s i]) (auto simp: GetOrder_execute_def eff_defs split: if_splits)

end

locale order_saga = order_store repo inv abs sent valid_id
  for repo :: "('s, 'd) order_repository" and inv and abs and sent and valid_id +
  fixes saga :: "'s saga_repository"
  assumes record_keeps: "inv s \<Longrightarrow> saga_record saga cx i step status err s = (r, t) \<Longrightarrow>
      inv t \<and> abs t = abs s \<and> sent t = sent s"
begin

lemma note_keeps:
  "inv s \<Longrightarrow> saga_note saga cx ev i s = (r, t) \<Longrightarrow> inv t \<and> abs t = abs s \<and> sent t = sent s"
  by (cases ev) (auto dest: record_keeps)

lemma count_store: "saga_count ev s = (r, t) \<Longrightarrow> r = Inr () \<and> fst t = fst s"
  by (cases ev) (auto simp: ret_def recordConfirmed_def recordCancelled_def)

text \<open>A commit either leaves the store alone or performs the whole update with its events.\<close>

lemma commit_effect:
  assumes inv: "inv (fst s)" and ex: "saga_commit D repo saga cx ev i ord s = (r, t)"
  obtains (failed) e where "r = Inl e" "t = s" "repo_update repo cx ord (saga_outbox D (cx_request cx) ev ord) (fst s) = (Inl e, fst s)"
  | (applied) old new where "abs (fst s) (o_id ord) = Some old" "o_version old = o_initialVersion ord"
      "new = stored_update cx old ord" "inv (fst t)" "abs (fst t) = (abs (fst s))(o_id ord \<mapsto> new)"
      "sent (fst t) = sent (fst s) @ saga_outbox D (cx_request cx) ev ord"
proof -
  obtain u s1 where u: "repo_update repo cx ord (saga_outbox D (cx_request cx) ev ord) (fst s) = (u, s1)"
    by fastforce
  show thesis
  proof (cases u)
    case (Inl e)
    with u have "s1 = fst s" by (auto dest: update_err)
    with ex u Inl show ?thesis
      by (intro failed) (auto simp: saga_commit_def bind_eff_def on_store_def)
  next
    case (Inr new)
    obtain c s2 where c: "saga_count ev (s1, snd s) = (c, s2)" by (cases "saga_count ev (s1, snd s)")
    with count_store [OF c] ex u Inr have n: "saga_note saga cx ev i s1 = (r, fst t)"
      by (auto simp: saga_commit_def bind_eff_def on_store_def split: prod.splits)
    from update_ok [OF inv u [unfolded Inr]] note_keeps [OF _ n] applied show ?thesis by auto
  qed
qed

lemma handle_cases:
  assumes inv: "inv (fst s)" and ex: "order_handle D repo saga cx event s = (r, t)"
  obtains (unchanged) "t = s" "r = Inr () \<longrightarrow> (\<forall>cx'. order_handle D repo saga cx' event s = (Inr (), s))"
  | (applied) ev i old new where "get_str event ''type'' = Some (saga_event_type ev)"
      "event_orderId event = Inr i" "abs (fst s) i = Some old" "saga_plan ev (o_status old) \<noteq> []"
      "new = stored_update cx old (advance (cx_now cx) (saga_plan ev (o_status old)) old)"
      "inv (fst t)" "abs (fst t) = (abs (fst s))(i \<mapsto> new)"
      "sent (fst t) = sent (fst s) @ saga_outbox D (cx_request cx) ev (advance (cx_now cx) (saga_plan ev (o_status old)) old)"
proof (cases "\<exists>ev. get_str event ''type'' = Some (saga_event_type ev)")
  case False
  with handle_other [of event D repo saga _ s] ex show ?thesis by (intro unchanged) auto
next
  case True
  then obtain ev where ty: "get_str event ''type'' = Some (saga_event_type ev)" by blast
  have stop: thesis if "\<And>body. with_order repo event body s = (x, s)" for x
  proof -
    have "order_handle D repo saga cx' event s = (x, s)" for cx'
      using ty that
      by (cases ev) (simp_all add: order_handle_def onInventoryReserved_def onPaymentCompleted_def
          onPaymentFailed_def onInventoryFailed_def)
    with ex show thesis by (intro unchanged) auto
  qed
  show ?thesis
  proof (cases "event_orderId event")
    case (Inl e)
    then show ?thesis by (intro stop [of "Inl e"]) (simp add: with_order_def eff_defs)
  next
    case (Inr i)
    from inv show ?thesis
    proof (cases rule: find_cases [where i = i])
      case (err e)
      with Inr show ?thesis
        by (intro stop [of "Inl e"]) (simp add: with_order_def eff_defs on_store_def)
    next
      case missing
      with Inr show ?thesis
        by (intro stop [of "Inr ()"]) (simp add: with_order_def eff_defs on_store_def)
    next
      case (found ord)
      note h = handle_found [OF ty Inr found(1), of D saga]
      show ?thesis
      proof (cases "saga_plan ev (o_status ord) = []")
        case True
        with h ex show ?thesis by (intro unchanged) auto
      next
        case False
        with h ex have "saga_commit D repo saga cx ev i (advance (cx_now cx) (saga_plan ev (o_status ord)) ord) s = (r, t)"
          by simp
        from inv this show ?thesis
        proof (cases rule: commit_effect)
          case (failed e)
          then show ?thesis by (intro unchanged) auto
        next
          case (applied old new)
          with found False ty Inr show ?thesis
            by (intro that(2) [of ev i ord new]) auto
        qed
      qed
    qed
  qed
qed

lemma handle_inv:
  assumes "inv (fst s)" and "order_handle D repo saga cx event s = (r, t)"
  shows "inv (fst t)"
  using assms by (cases rule: handle_cases) (auto simp: assms)

text \<open>Handling an event a second time changes nothing and succeeds.\<close>

lemma handle_idempotent:
  assumes inv: "inv (fst s)" and ex: "order_handle D repo saga cx event s = (Inr (), t)"
  shows "order_handle D repo saga cx' event t = (Inr (), t)"
  using inv ex
proof (cases rule: handle_cases)
  case unchanged
  then show ?thesis by simp
next
  case (applied ev i old new)
  have "abs (fst t) i = Some new" using applied by simp
  with abs_id [OF inv] applied have "repo_findById repo i (fst t) = (Inr (Some new), fst t)"
    using findById [of "fst t" i] by auto
  from handle_found [OF applied(1,2) this, of D saga cx'] applied(5) saga_plan_done [of ev "o_status old"]
  show ?thesis by (simp add: stored_update_def)
qed

text \<open>An order in a terminal status is never touched again.\<close>

lemma handle_terminal:
  assumes "inv (fst s)" and "order_handle D repo saga cx event s = (r, t)"
    and "abs (fst s) i = Some ord" and "order_status_isTerminal (o_status ord)"
  shows "abs (fst t) i = Some ord"
  using assms(1,2)
proof (cases rule: handle_cases)
  case (applied ev j old new)
  with assms saga_plan_terminal show ?thesis by fastforce
qed (use assms in simp)

end

interpretation knex_saga: order_saga "KnexOrderRepository E D C" "order_db_ok E D" "order_db_abs D"
    order_db_sent "sql_uuid E" "KnexSagaStepRepository E"
  for E :: sql_env and D :: "'d decimal_lib" and C :: cursor_codec
proof unfold_locales
  fix s cx i step status err r t
  assume ok: "order_db_ok E D s"
    and rec: "saga_record (KnexSagaStepRepository E) cx i step status err s = (r, t)"
  have same: "od_orders t = od_orders s" "od_items t = od_items s" "od_outbox t = od_outbox s"
    using rec by (auto simp: KnexSagaStepRepository_def knex_saga_record_def Let_def
        split: option.splits if_splits)
  then show "order_db_ok E D t \<and> order_db_abs D t = order_db_abs D s \<and> order_db_sent t = order_db_sent s"
    using ok abs_cong [OF same(1,2)] by (simp add: order_db_ok_def order_db_sent_def items_of_def)
qed

end
