(* ===== verification/Fixtures.thy ===== *)
theory Fixtures
  imports Money Sql "HOL-Library.Code_Target_Nat"
begin

text \<open>
  The database environment shared by the concrete inputs of the witnesses: every non-empty text
  is a uuid, numeric texts are parsed by the concrete decimal library.  Nothing here models code
  of the repository.
\<close>

definition demo_env :: sql_env where
  "demo_env = \<lparr>sql_uuid = (\<lambda>s. s \<noteq> []), sql_numeric = parse_rat\<rparr>"

end
