(* ===== verification/Order_Properties.thy ===== *)
theory Order_Properties
  imports Order_Service Fixtures
begin

text \<open>
  What holds of the order service: the aggregate, its handlers over the Knex repositories, and
  the listing.
\<close>

section \<open>Concrete inputs\<close>

definition demo_codec :: cursor_codec where
  "demo_codec = \<lparr>cur_encode = show_cents,
     cur_decode = (\<lambda>s. case parse_rat s of Some r \<Rightarrow> Inr \<lfloor>r * 100\<rfloor> | None \<Rightarrow> Inl (LibraryError ''Date''))\<rparr>"

definition demo_orders :: "(order_db, rat) order_repository" where
  "demo_orders = KnexOrderRepository demo_env rat_decimal demo_codec"

definition demo_saga :: "order_db saga_repository" where
  "demo_saga = KnexSagaStepRepository demo_env"

definition demo_ctx :: call_ctx where
  "demo_ctx = \<lparr>cx_now = 7, cx_uuid = ''o'', cx_itemIds = (\<lambda>i. ''i''), cx_outboxIds = (\<lambda>i. ''x''), cx_request = None\<rparr>"

definition demo_counters :: order_counters where
  "demo_counters = \<lparr>oc_created = 0, oc_confirmed = 0, oc_cancelled = (\<lambda>_. 0)\<rparr>"

definition demo_item :: order_item_row where
  "demo_item = \<lparr>iw_id = ''i'', iw_order_id = ''o'', iw_product_id = ''p'', iw_sku = ''A'', iw_quantity = 2,
     iw_unit_price = ''1.50'', iw_total_price = ''3.00''\<rparr>"

definition demo_row :: "order_status \<Rightarrow> order_row" where
  "demo_row st = \<lparr>ow_id = ''o'', ow_customer_id = ''c'', ow_status = st, ow_total_amount = ''3.00'',
     ow_currency = ''USD'', ow_idempotency_key = ''k'', ow_shipping_address = JNull, ow_metadata = JNull,
     ow_created_at = 1, ow_updated_at = 1, ow_version = 1\<rparr>"

definition demo_order_db :: "order_status \<Rightarrow> order_db" where
  "demo_order_db st = \<lparr>od_orders = [demo_row st], od_items = [demo_item], od_outbox = [], od_steps = []\<rparr>"

definition demo_order :: "order_status \<Rightarrow> rat order" where
  "demo_order st = \<lparr>o_id = ''o'', o_customerId = ''c'',
     o_items = [\<lparr>oi_id = Some ''i'', oi_productId = ''p'', oi_sku = ''A'', oi_quantity = 2,
       oi_unitPrice = \<lparr>m_amount = 3 / 2, m_currency = ''USD''\<rparr>, oi_totalPrice = \<lparr>m_amount = 3, m_currency = ''USD''\<rparr>\<rparr>],
     o_totalAmount = \<lparr>m_amount = 3, m_currency = ''USD''\<rparr>, o_currency = ''USD'', o_idempotencyKey = ''k'',
     o_shippingAddress = JNull, o_metadata = JNull, o_status = st, o_version = 1, o_initialVersion = 1,
     o_createdAt = 1, o_updatedAt = 1\<rparr>"

lemma demo_toDomain: "order_toDomain rat_decimal (demo_row st) [demo_item] = Inr (demo_order st)"
  by code_simp

lemma demo_order_db_ok: "order_db_ok demo_env rat_decimal (demo_order_db st)"
  using demo_toDomain [of st]
  by (simp add: order_db_ok_def demo_order_db_def items_of_def demo_env_def)
    (simp add: demo_row_def demo_item_def)

lemma demo_order_abs: "order_db_abs rat_decimal (demo_order_db st) = [''o'' \<mapsto> demo_order st]"
proof
  fix i
  show "order_db_abs rat_decimal (demo_order_db st) i = [''o'' \<mapsto> demo_order st] i"
    using demo_toDomain [of st]
    by (cases "i = ''o''") (simp_all add: order_db_abs_def demo_order_db_def items_of_def demo_row_def demo_item_def)
qed

definition demo_event :: "string \<Rightarrow> json" where
  "demo_event type = JObj [(''type'', JStr type), (''data'', JObj [(''orderId'', JStr ''o'')])]"

lemma demo_find: "repo_findById demo_orders ''o'' (demo_order_db st) = (Inr (Some (demo_order st)), demo_order_db st)"
  using knex_orders.findById [OF demo_order_db_ok, of "''o''" demo_codec st] demo_order_abs [of st]
  by (simp add: demo_orders_def demo_env_def)

text \<open>An update of that order, with or without one event for the outbox.\<close>

lemma demo_total: "decimal_12_2 demo_env (money_fixed rat_decimal (o_totalAmount (demo_order st)))"
  by code_simp

definition demo_outbox :: "outbox_input list \<Rightarrow> outbox_row list" where
  "demo_outbox evs = outbox_rows demo_ctx evs"

lemma demo_update:
  assumes "o_id ord = ''o''" "o_initialVersion ord = 1" "int4 (o_version ord)" "o_totalAmount ord = o_totalAmount (demo_order st)"
    and "evs = [] \<or> (\<exists>e. evs = [e] \<and> outbox_row_violation demo_env [] (hd (demo_outbox [e])) = None)"
  shows "repo_update demo_orders demo_ctx ord evs (demo_order_db st) =
     (Inr (stored_update demo_ctx (demo_order st) ord),
      (demo_order_db st)\<lparr>od_orders := [updated_row rat_decimal demo_ctx ord (demo_row st)], od_outbox := demo_outbox evs\<rparr>)"
proof -
  have m: "matches_version ord (demo_row st)" using assms by (simp add: matches_version_def demo_row_def)
  have d: "decimal_12_2 demo_env (money_fixed rat_decimal (o_totalAmount ord))" using assms(4) demo_total by simp
  have trx: "trx_update_order demo_env rat_decimal demo_ctx ord (demo_order_db st) =
     (Inr (updated_row rat_decimal demo_ctx ord (demo_row st)),
      (demo_order_db st)\<lparr>od_orders := [updated_row rat_decimal demo_ctx ord (demo_row st)]\<rparr>)"
    using m d assms by (simp add: trx_update_order_def demo_order_db_def demo_env_def update_where_def)
  have w: "writeOutbox demo_env demo_ctx evs ((demo_order_db st)\<lparr>od_orders := r\<rparr>) =
     (Inr (), (demo_order_db st)\<lparr>od_orders := r, od_outbox := demo_outbox evs\<rparr>)" for r
    using assms(5) by (auto simp: writeOutbox_def demo_order_db_def demo_outbox_def outbox_rows_def insert_rows_one
        enumerate_eq_zip split: option.split)
  have i: "items_of ((demo_order_db st)\<lparr>od_orders := r, od_outbox := x\<rparr>) ''o'' = [demo_item]" for r x
    by (simp add: items_of_def demo_order_db_def demo_item_def)
  show ?thesis
    using trx w i assms(1) toDomain_updated [OF demo_toDomain, of demo_ctx ord st]
    by (simp add: demo_orders_def KnexOrderRepository_def knex_order_update_def transaction_def bind_eff_def)
qed

lemma demo_note: "fst (saga_note demo_saga demo_ctx ev ''o'' ((demo_order_db st)\<lparr>od_orders := [updated_row D cx ord (demo_row st)], od_outbox := x\<rparr>)) = Inr ()"
  by (cases ev) (simp_all add: demo_saga_def KnexSagaStepRepository_def knex_saga_record_def demo_env_def demo_order_db_def demo_row_def demo_ctx_def)

definition demo_handled :: "saga_event \<Rightarrow> order_status \<Rightarrow> (js_error + unit) \<times> order_db \<times> order_counters" where
  "demo_handled ev st = order_handle rat_decimal demo_orders demo_saga demo_ctx (demo_event (saga_event_type ev))
     (demo_order_db st, demo_counters)"

lemma demo_event_type [simp]: "get_str (demo_event ty) ''type'' = Some ty" "event_orderId (demo_event ty) = Inr ''o''"
  by (simp_all add: demo_event_def event_orderId_def get_str_def)

lemma demo_reserved: "fst (demo_handled InventoryReserved OS_CREATED) = Inr ()"
proof -
  have up: "repo_update demo_orders demo_ctx (advance 7 [OS_INVENTORY_RESERVED, OS_PAYMENT_PENDING] (demo_order OS_CREATED)) [] (demo_order_db OS_CREATED) =
     (Inr (stored_update demo_ctx (demo_order OS_CREATED) (advance 7 [OS_INVENTORY_RESERVED, OS_PAYMENT_PENDING] (demo_order OS_CREATED))),
      (demo_order_db OS_CREATED)\<lparr>od_orders := [updated_row rat_decimal demo_ctx (advance 7 [OS_INVENTORY_RESERVED, OS_PAYMENT_PENDING] (demo_order OS_CREATED)) (demo_row OS_CREATED)], od_outbox := demo_outbox []\<rparr>)"
    by (rule demo_update) (simp_all add: demo_order_def int4_def)
  have f: "order_handle rat_decimal demo_orders demo_saga demo_ctx (demo_event (saga_event_type InventoryReserved)) (demo_order_db OS_CREATED, demo_counters) =
     saga_commit rat_decimal demo_orders demo_saga demo_ctx InventoryReserved ''o'' (advance 7 [OS_INVENTORY_RESERVED, OS_PAYMENT_PENDING] (demo_order OS_CREATED)) (demo_order_db OS_CREATED, demo_counters)"
    by (subst handle_found [of _ InventoryReserved "''o''" _ _ "demo_order OS_CREATED"])
      (simp_all add: demo_find demo_ctx_def, simp_all add: demo_order_def)
  show ?thesis
    unfolding demo_handled_def f saga_commit_def
    using up demo_note [where D = rat_decimal and cx = demo_ctx and ev = InventoryReserved and st = OS_CREATED and ord = "advance 7 [OS_INVENTORY_RESERVED, OS_PAYMENT_PENDING] (demo_order OS_CREATED)" and x = "demo_outbox []"]
    by (auto simp: bind_eff_def on_store_def ret_def split: prod.split)
qed

section \<open>The aggregate\<close>

text \<open>An order created without a status goes through at most four transitions, never
  returns to a status it left, and counts each in its version; its lines and its total stay.\<close>

theorem order_lifecycle:
  assumes "newOrder D uuid now p = Inr ord" and "op_status p = None" and "op_version p = None"
    and "order_transitions later ts ord = Inr ord'"
  shows "length ts \<le> 4 \<and> distinct (OS_CREATED # ts) \<and> o_status ord' = last (OS_CREATED # ts) \<and>
    o_version ord' = 1 + int (length ts) \<and> o_initialVersion ord' = 1 \<and>
    o_items ord' = o_items ord \<and> o_totalAmount ord' = o_totalAmount ord"
proof -
  note new = newOrder_Inr [OF assms(1)]
  have st: "o_status ord = OS_CREATED" "o_version ord = 1" "o_initialVersion ord = 1"
    using new assms(2,3) by simp_all
  note t = order_transitions_Inr [OF assms(4)]
  then have path: "status_path order_canTransition OS_CREATED ts" using st by simp
  show ?thesis
    using t st order_machine.path_bound [OF path] order_machine.path_distinct [OF path] by simp
qed

definition demo_props :: "rat order_props" where
  "demo_props = \<lparr>op_id = None, op_customerId = ''c'',
     op_items = [\<lparr>ip_id = None, ip_productId = ''p'', ip_sku = ''A'', ip_quantity = 2,
       ip_unitPrice = \<lparr>m_amount = 3 / 2, m_currency = ''USD''\<rparr>\<rparr>],
     op_currency = ''USD'', op_idempotencyKey = ''k'', op_shippingAddress = None, op_metadata = None,
     op_status = None, op_version = None, op_createdAt = None, op_updatedAt = None\<rparr>"

theorem order_lifecycle_witness:
  "\<exists>ord ord'. newOrder rat_decimal ''o'' 1 demo_props = Inr ord \<and>
     order_transitions 2 [OS_INVENTORY_RESERVED, OS_PAYMENT_PENDING, OS_CONFIRMED] ord = Inr ord' \<and> o_version ord' = 4"
proof -
  have n: "isl (newOrder rat_decimal ''o'' 1 demo_props) = False" by code_simp
  then obtain ord where ord: "newOrder rat_decimal ''o'' 1 demo_props = Inr ord"
    by (cases "newOrder rat_decimal ''o'' 1 demo_props") auto
  have "o_status ord = OS_CREATED" using newOrder_Inr(11) [OF ord] by (simp add: demo_props_def)
  then obtain ord' where t: "order_transitions 2 [OS_INVENTORY_RESERVED, OS_PAYMENT_PENDING, OS_CONFIRMED] ord = Inr ord'"
    by (simp add: order_transitionTo_def order_canTransition_def)
  have "op_status demo_props = None" "op_version demo_props = None" by (simp_all add: demo_props_def)
  from order_lifecycle [OF ord this t] ord t show ?thesis by auto
qed

text \<open>The total of one line with a price in whole cents.\<close>

definition line_of :: "'d decimal_lib \<Rightarrow> 'd order_item_props \<Rightarrow> 'd order_item" where
  "line_of D p = \<lparr>oi_id = ip_id p, oi_productId = ip_productId p, oi_sku = ip_sku p,
     oi_quantity = ip_quantity p, oi_unitPrice = ip_unitPrice p,
     oi_totalPrice = mk_money (dec_times D (m_amount (ip_unitPrice p)) (dec_of_number D (of_int (ip_quantity p)))) (m_currency (ip_unitPrice p))\<rparr>"

lemma line_currency: "m_currency (oi_totalPrice (line_of D p)) = to_upper (m_currency (ip_unitPrice p))"
  by (simp add: line_of_def mk_money_def)

lemma line_total_exact:
  assumes D: "decimal_laws D val" and q: "0 < ip_quantity i" "0 < (n::int)" "n * ip_quantity i < 10 ^ 20"
    and price: "val (m_amount (ip_unitPrice i)) = Some (of_int n / 100)"
  shows "newOrderItem D i = Inr (line_of D i)"
    and "val (m_amount (oi_totalPrice (line_of D i))) = Some (of_int (n * ip_quantity i) / 100)"
proof -
  have zero: "val (dec_of_number D 0) = Some 0" using dec_val_of_number [OF D fits20_0] .
  show "newOrderItem D i = Inr (line_of D i)"
    using q price dec_val_gt [OF D _ zero] by (force simp: newOrderItem_Inr money_isPositive_def line_of_def)
  have n1: "1 \<le> n" using q(2) by simp
  with q(1) have "ip_quantity i \<le> n * ip_quantity i" by simp
  with q have "\<bar>ip_quantity i\<bar> < 10 ^ 20" by linarith
  then have "val (dec_of_number D (of_int (ip_quantity i))) = Some (of_int (ip_quantity i))"
    by (intro dec_val_of_number [OF D] fits20_int)
  moreover have "\<bar>n * ip_quantity i\<bar> < 10 ^ 20" using q by simp
  then have "fits20 (of_int n / 100 * of_int (ip_quantity i))"
    using fits20_cents [of "n * ip_quantity i"] by (simp add: of_int_mult)
  ultimately show "val (m_amount (oi_totalPrice (line_of D i))) = Some (of_int (n * ip_quantity i) / 100)"
    using dec_val_times [OF D, of "m_amount (ip_unitPrice i)" "of_int n / 100"] price by (simp add: mk_money_def line_of_def)
qed

text \<open>C12: with prices in whole cents and a total below the decimal library's precision, the
  constructor accepts the lines and their total is the exact sum of price times quantity.\<close>

theorem order_total_exact:
  assumes D: "decimal_laws D val" and ne: "op_items p \<noteq> []" "op_customerId p \<noteq> []" "op_idempotencyKey p \<noteq> []"
    and cur: "op_currency p = c" "length c = 3" "to_upper c = c"
    and items: "\<forall>i\<in>set (op_items p). 0 < ip_quantity i \<and> 0 < cents i \<and> m_currency (ip_unitPrice i) = c \<and>
       val (m_amount (ip_unitPrice i)) = Some (of_int (cents i) / 100)"
    and bound: "sum_list (map (\<lambda>i. cents i * ip_quantity i) (op_items p)) < 10 ^ 20"
  shows "\<exists>ord. newOrder D uuid now p = Inr ord \<and> m_currency (o_totalAmount ord) = c \<and>
    val (m_amount (o_totalAmount ord)) = Some (of_int (sum_list (map (\<lambda>i. cents i * ip_quantity i) (op_items p))) / 100)"
proof -
  have each: "cents i * ip_quantity i < 10 ^ 20" if "i \<in> set (op_items p)" for i
    using sum_list_nonneg_member [of "op_items p" "\<lambda>i. cents i * ip_quantity i" i] that items bound
    by (force intro: less_imp_le)
  have line: "newOrderItem D i = Inr (line_of D i)" "val (m_amount (oi_totalPrice (line_of D i))) = Some (of_int (cents i * ip_quantity i) / 100)"
    if "i \<in> set (op_items p)" for i
    using line_total_exact [OF D, of i "cents i"] each [OF that] items that by simp_all
  have map: "map_res (newOrderItem D) (op_items p) = Inr (map (line_of D) (op_items p))"
    using line(1) by (simp add: map_res_Inr list_all2_conv_all_nth)
  have zero: "val (dec_of_number D 0) = Some 0" using dec_val_of_number [OF D fits20_0] .
  have "c \<noteq> []" using cur by auto
  then have z: "money_zero D c = Inr (mk_money (dec_of_number D 0) c)"
    using cur(2,3) dec_val_not_NaN [OF D zero] by (simp add: money_zero_def money_of_def)
  define f where "f x = cents \<lparr>ip_id = oi_id x, ip_productId = oi_productId x, ip_sku = oi_sku x,
       ip_quantity = oi_quantity x, ip_unitPrice = oi_unitPrice x\<rparr> * oi_quantity x" for x :: "'a order_item"
  have f: "f (line_of D i) = cents i * ip_quantity i" for i by (cases i) (simp add: f_def line_of_def)
  have sum: "sum_list (map f (map (line_of D) (op_items p))) = sum_list (map (\<lambda>i. cents i * ip_quantity i) (op_items p))"
    by (simp only: map_map comp_def f)
  have lines: "\<forall>i\<in>set (map (line_of D) (op_items p)). m_currency (oi_totalPrice i) = c \<and> 0 \<le> f i \<and>
      val (m_amount (oi_totalPrice i)) = Some (of_int (f i) / 100)"
    using items cur line(2) by (auto simp: f less_imp_le line_currency)
  have z0: "m_currency (mk_money (dec_of_number D 0) c) = c" "val (m_amount (mk_money (dec_of_number D 0) c)) = Some (of_int 0 / 100)"
    using cur zero by (simp_all add: mk_money_def)
  have "\<exists>m. fold_res (\<lambda>acc item. money_add D acc (oi_totalPrice item)) (mk_money (dec_of_number D 0) c) (map (line_of D) (op_items p)) = Inr m \<and>
    m_currency m = c \<and> val (m_amount m) = Some (of_int (0 + sum_list (map (\<lambda>i. cents i * ip_quantity i) (op_items p))) / 100)"
    unfolding sum [symmetric]
    by (rule fold_total_cents [OF D lines z0(1) cur(3) order_refl z0(2)]) (use bound sum in simp)
  with ne cur map z show ?thesis by (auto simp: newOrder_def Let_def items_total_def)
qed

theorem order_total_exact_witness:
  "\<exists>ord. newOrder rat_decimal ''o'' 1 demo_props = Inr ord \<and> m_amount (o_totalAmount ord) = 3"
proof -
  have "\<exists>ord. newOrder rat_decimal ''o'' 1 demo_props = Inr ord \<and> m_currency (o_totalAmount ord) = ''USD'' \<and>
     Some (m_amount (o_totalAmount ord)) = Some (of_int (sum_list (map (\<lambda>i. 150 * ip_quantity i) (op_items demo_props))) / 100)"
    by (rule order_total_exact [OF rat_decimal_laws])
      (simp_all add: demo_props_def, code_simp)
  then show ?thesis by (auto simp: demo_props_def)
qed

section \<open>Creation\<close>

definition demo_cmd :: create_command where
  "demo_cmd = \<lparr>cc_customerId = ''c'', cc_idempotencyKey = ''k'', cc_currency = ''USD'',
     cc_items = [\<lparr>ci_productId = ''p'', ci_sku = ''A'', ci_quantity = 2, ci_unitPrice = 3 / 2\<rparr>],
     cc_shippingAddress = JNull\<rparr>"

definition demo_new :: "rat order" where
  "demo_new = (demo_order OS_CREATED)\<lparr>o_items := map (\<lambda>i. i\<lparr>oi_id := None\<rparr>) (o_items (demo_order OS_CREATED)),
     o_metadata := JObj [], o_createdAt := 7, o_updatedAt := 7\<rparr>"

definition demo_new_row :: order_row where
  "demo_new_row = (demo_row OS_CREATED)\<lparr>ow_metadata := JObj [], ow_created_at := 7, ow_updated_at := 7\<rparr>"

definition demo_created_event :: outbox_input where
  "demo_created_event = orderCreatedEvent rat_decimal None demo_new"

lemma demo_new_order: "order_of_command rat_decimal demo_ctx demo_cmd = Inr demo_new"
  by code_simp

lemma demo_new_row: "row_of_order rat_decimal demo_ctx demo_new = demo_new_row"
  by code_simp

lemma demo_new_row_ok: "order_row_violation demo_env [] demo_new_row = None"
  by code_simp

lemma demo_fixed:
  "money_fixed rat_decimal \<lparr>m_amount = 3 / 2, m_currency = ''USD''\<rparr> = ''1.50''"
  "money_fixed rat_decimal \<lparr>m_amount = 3, m_currency = ''USD''\<rparr> = ''3.00''"
  by code_simp+

lemma demo_new_items:
  "item_rows_of rat_decimal ids (ow_id demo_new_row) (o_items demo_new) = [demo_item\<lparr>iw_id := ids 0\<rparr>]"
  by (simp add: item_rows_of_def item_row_of_def enumerate_eq_zip demo_new_def demo_order_def demo_new_row_def
      demo_row_def demo_item_def demo_fixed)

lemma demo_new_items_ok: "item_row_violation demo_env [demo_new_row] [] demo_item = None"
  by code_simp

lemma demo_new_stored: "isl (order_toDomain rat_decimal demo_new_row [demo_item\<lparr>iw_id := generated_id 0\<rparr>]) = False"
  by code_simp

lemmas demo_new_steps = demo_new_order demo_new_row demo_new_row_ok demo_new_items demo_new_items_ok demo_new_stored

lemma demo_created_row: "outbox_row_violation demo_env [] (hd (demo_outbox [demo_created_event])) = None"
  by (simp add: demo_created_event_def orderCreatedEvent_def demo_outbox_def outbox_rows_def outbox_row_violation_def
      demo_new_def demo_order_def demo_env_def ORDER_CREATED_def enumerate_eq_zip)

definition demo_created_db :: order_db where
  "demo_created_db = \<lparr>od_orders = [demo_new_row], od_items = [demo_item], od_outbox = demo_outbox [demo_created_event], od_steps = []\<rparr>"

lemma demo_save: "\<exists>saved. repo_save demo_orders demo_ctx demo_new [demo_created_event] order_db_empty = (Inr saved, demo_created_db)"
proof -
  obtain saved where s: "order_toDomain rat_decimal demo_new_row [demo_item\<lparr>iw_id := generated_id 0\<rparr>] = Inr saved"
    using demo_new_stored by (metis isl_def sum.exhaust)
  have row: "demo_item\<lparr>iw_id := cx_itemIds demo_ctx 0\<rparr> = demo_item" by (simp add: demo_item_def demo_ctx_def)
  have ne: "o_items demo_new \<noteq> []" by (simp add: demo_new_def demo_order_def)
  have w: "writeOutbox demo_env demo_ctx [demo_created_event] (order_db_empty\<lparr>od_orders := r, od_items := i\<rparr>) =
      (Inr (), order_db_empty\<lparr>od_orders := r, od_items := i, od_outbox := demo_outbox [demo_created_event]\<rparr>)" for r i
    using demo_created_row
    by (simp add: writeOutbox_def order_db_empty_def demo_outbox_def outbox_rows_def enumerate_eq_zip)
  show ?thesis
    using s ne demo_new_steps(2-5) w row
    by (simp add: demo_orders_def KnexOrderRepository_def knex_order_save_def transaction_def bind_eff_def
        trx_insert_order_def trx_insert_items_def insert_rows_one order_db_empty_def lift_res_def demo_created_db_def)
qed

definition demo_start :: "order_db \<times> order_counters" where
  "demo_start = (order_db_empty, demo_counters)"

lemma demo_create:
  "\<exists>saved t. CreateOrder_execute rat_decimal demo_orders demo_ctx demo_cmd demo_start = (Inr (saved, False), t) \<and> fst t = demo_created_db"
proof -
  obtain saved where "repo_save demo_orders demo_ctx demo_new [demo_created_event] order_db_empty = (Inr saved, demo_created_db)"
    using demo_save by blast
  moreover have "repo_findByIdempotencyKey demo_orders ''k'' order_db_empty = (Inr None, order_db_empty)"
    by (simp add: demo_orders_def KnexOrderRepository_def knex_order_findByIdempotencyKey_def order_db_empty_def)
  moreover have "cc_idempotencyKey demo_cmd = ''k''" "cx_request demo_ctx = None" by (simp_all add: demo_cmd_def demo_ctx_def)
  ultimately show ?thesis
    using demo_new_steps(1)
    by (simp add: CreateOrder_execute_def bind_eff_def on_store_def demo_start_def lift_res_def recordCreated_def ret_def
        demo_created_event_def)
qed



text \<open>C10: a retried creation (same idempotency key, any other content, any later moment)
  answers with the first order and writes nothing.\<close>

theorem create_retry_answers_first:
  assumes "order_db_ok E D (fst s)"
    and "CreateOrder_execute D (KnexOrderRepository E D C) cx c s = (Inr (ord, b), t)"
    and "cc_idempotencyKey c' = cc_idempotencyKey c"
  shows "\<exists>ord'. CreateOrder_execute D (KnexOrderRepository E D C) cx' c' t = (Inr (ord', True), t) \<and> same_order ord' ord"
  using assms by (rule knex_orders.create_idempotent)

theorem create_retry_answers_first_witness:
  "\<exists>saved t ord'. CreateOrder_execute rat_decimal demo_orders demo_ctx demo_cmd demo_start = (Inr (saved, False), t) \<and>
     CreateOrder_execute rat_decimal demo_orders demo_ctx demo_cmd t = (Inr (ord', True), t) \<and> same_order ord' saved"
proof -
  obtain saved t where ex: "CreateOrder_execute rat_decimal demo_orders demo_ctx demo_cmd demo_start = (Inr (saved, False), t)"
    using demo_create by blast
  have "order_db_ok demo_env rat_decimal (fst demo_start)" by (simp add: demo_start_def order_db_empty_ok)
  from create_retry_answers_first [OF this ex [unfolded demo_orders_def] refl, of demo_ctx] ex show ?thesis
    unfolding demo_orders_def by blast
qed

section \<open>The saga\<close>

text \<open>C4: whatever event arrives, the handler either leaves the database alone or performs one
  entry of the saga's table: the status path, the version, the outbox events, all in one update.\<close>

theorem saga_follows_plan:
  assumes "order_db_ok E D (fst s)"
    and "order_handle D (KnexOrderRepository E D C) (KnexSagaStepRepository E) cx event s = (r, t)"
  shows "order_db_ok E D (fst t) \<and>
    (t = s \<or>
     (\<exists>ev i old. get_str event ''type'' = Some (saga_event_type ev) \<and> event_orderId event = Inr i \<and>
        order_db_abs D (fst s) i = Some old \<and> saga_plan ev (o_status old) \<noteq> [] \<and>
        status_path order_canTransition (o_status old) (saga_plan ev (o_status old)) \<and>
        order_db_abs D (fst t) = (order_db_abs D (fst s))(i \<mapsto>
          stored_update cx old (advance (cx_now cx) (saga_plan ev (o_status old)) old)) \<and>
        order_db_sent (fst t) = order_db_sent (fst s) @
          saga_outbox D (cx_request cx) ev (advance (cx_now cx) (saga_plan ev (o_status old)) old)))"
  using assms
proof (cases rule: knex_saga.handle_cases)
  case (applied ev i old new)
  with saga_plan_path [of "o_status old" ev] show ?thesis by blast
qed (use assms in auto)

theorem saga_follows_plan_witness:
  "order_db_ok demo_env rat_decimal (fst (snd (demo_handled InventoryReserved OS_CREATED)))"
  using saga_follows_plan [OF _ refl [THEN trans, OF surjective_pairing],
      of demo_env rat_decimal "(demo_order_db OS_CREATED, demo_counters)" demo_codec demo_ctx "demo_event (saga_event_type InventoryReserved)"]
  by (simp add: demo_order_db_ok demo_handled_def demo_orders_def demo_saga_def)



text \<open>An order that is confirmed, cancelled or expired is never changed again by an event.\<close>

theorem saga_terminal_absorbing:
  assumes "order_db_ok E D (fst s)"
    and "order_handle D (KnexOrderRepository E D C) (KnexSagaStepRepository E) cx event s = (r, t)"
    and "order_db_abs D (fst s) i = Some ord" and "order_status_isTerminal (o_status ord)"
  shows "order_db_abs D (fst t) i = Some ord"
  using assms by (rule knex_saga.handle_terminal)

theorem saga_terminal_absorbing_witness:
  "order_db_abs rat_decimal (fst (snd (demo_handled PaymentFailed OS_CONFIRMED))) ''o'' = Some (demo_order OS_CONFIRMED)"
proof -
  have "order_handle rat_decimal (KnexOrderRepository demo_env rat_decimal demo_codec) (KnexSagaStepRepository demo_env) demo_ctx
      (demo_event (saga_event_type PaymentFailed)) (demo_order_db OS_CONFIRMED, demo_counters) =
      (fst (demo_handled PaymentFailed OS_CONFIRMED), snd (demo_handled PaymentFailed OS_CONFIRMED))"
    by (simp add: demo_handled_def demo_orders_def demo_saga_def)
  from saga_terminal_absorbing [OF _ this, of "''o''" "demo_order OS_CONFIRMED"] show ?thesis
    by (simp add: demo_order_db_ok demo_order_abs isTerminal_iff) (simp add: demo_order_def)
qed

section \<open>Cancellation, ownership and concurrent writers\<close>

text \<open>C11: a cancellation that succeeds is the owner's, of an order in a cancellable status; it
  stores CANCELLED with the next version and writes exactly one order.cancelled event with the
  given reason.  Any other outcome leaves the database as it was.\<close>

theorem cancel_guarded:
  assumes "order_db_ok E D (fst s)"
    and "CancelOrder_execute (KnexOrderRepository E D C) cx c s = (r, t)"
  shows "(\<exists>e. r = Inl e) \<and> t = s \<or>
    (\<exists>old new. r = Inr new \<and> order_db_abs D (fst s) (xc_orderId c) = Some old \<and>
       o_customerId old = xc_customerId c \<and>
       o_status old \<in> {OS_CREATED, OS_INVENTORY_RESERVED, OS_PAYMENT_FAILED, OS_INVENTORY_FAILED} \<and>
       o_status new = OS_CANCELLED \<and> o_version new = o_version old + 1 \<and>
       order_db_abs D (fst t) = (order_db_abs D (fst s))(xc_orderId c \<mapsto> new) \<and>
       (\<exists>ev. order_db_sent (fst t) = order_db_sent (fst s) @ [ev] \<and> ob_eventType ev = ORDER_CANCELLED \<and>
          ob_aggregateId ev = xc_orderId c \<and>
          get_str (ob_payload ev) ''reason'' =
            Some (case xc_reason c of Some x \<Rightarrow> x | None \<Rightarrow> ''cancelled by customer'')))"
  using assms
proof (cases rule: knex_orders.cancel_cases)
  case (cancelled old new reason)
  have "o_id old = xc_orderId c" using knex_orders.abs_id [OF assms(1) cancelled(2)] by simp
  with cancelled show ?thesis
    by (auto simp: stored_update_def order_isCancellable_def isCancellable_iff orderCancelledEvent_def get_str_def)
qed auto

definition demo_cancel :: cancel_command where
  "demo_cancel = \<lparr>xc_orderId = ''o'', xc_customerId = ''c'', xc_reason = None\<rparr>"

lemma demo_cancelled:
  "\<exists>new t. CancelOrder_execute demo_orders demo_ctx demo_cancel (demo_order_db OS_CREATED, demo_counters) = (Inr new, t)"
proof -
  let ?new = "advance 7 [OS_CANCELLED] (demo_order OS_CREATED)"
  let ?ev = "orderCancelledEvent None ?new ''cancelled by customer''"
  have "\<exists>u v. repo_update demo_orders demo_ctx ?new [?ev] (demo_order_db OS_CREATED) = (Inr u, v)"
    by (subst demo_update) (simp_all add: demo_order_def int4_def demo_outbox_def outbox_rows_def outbox_row_violation_def
        orderCancelledEvent_def demo_env_def ORDER_CANCELLED_def enumerate_eq_zip)
  moreover have "order_cancel 7 (demo_order OS_CREATED) = Inr ?new"
    by (rule cancel_ok) (simp add: demo_order_def isCancellable_iff)
  moreover have "o_customerId (demo_order OS_CREATED) = ''c''" by (simp add: demo_order_def)
  ultimately show ?thesis
    using demo_find [of OS_CREATED]
    by (auto simp: CancelOrder_execute_def bind_eff_def on_store_def demo_cancel_def demo_ctx_def lift_res_def
        recordCancelled_def ret_def)
qed

theorem cancel_guarded_witness:
  "\<exists>new t. CancelOrder_execute demo_orders demo_ctx demo_cancel (demo_order_db OS_CREATED, demo_counters) = (Inr new, t) \<and>
     o_status new = OS_CANCELLED \<and> o_version new = 2"
proof -
  obtain new t where ex: "CancelOrder_execute demo_orders demo_ctx demo_cancel (demo_order_db OS_CREATED, demo_counters) = (Inr new, t)"
    using demo_cancelled by blast
  have "order_db_ok demo_env rat_decimal (fst (demo_order_db OS_CREATED, demo_counters))" by (simp add: demo_order_db_ok)
  from cancel_guarded [OF this ex [unfolded demo_orders_def]]
  have "o_status new = OS_CANCELLED \<and> o_version new = 2"
    by (auto simp: demo_order_abs demo_cancel_def) (auto simp: demo_order_def)
  with ex show ?thesis by blast
qed

text \<open>C13: to a customer, an order of someone else cannot be told apart from one that does not
  exist: query, timeline and cancellation answer both with the same error and change nothing.\<close>

theorem foreign_order_looks_missing:
  assumes "order_db_ok E D db" and "sql_uuid E i"
    and "\<forall>ord. order_db_abs D db i = Some ord \<longrightarrow> o_customerId ord \<noteq> cust"
  shows "GetOrder_execute (KnexOrderRepository E D C) i cust db = (Inl (order_not_found i []), db) \<and>
    GetTimeline_execute (KnexOrderRepository E D C) saga i cust db = (Inl (order_not_found i ''/timeline''), db) \<and>
    CancelOrder_execute (KnexOrderRepository E D C) cx \<lparr>xc_orderId = i, xc_customerId = cust, xc_reason = why\<rparr> (db, n) =
      (Inl (order_not_found i []), (db, n))"
  using assms(1)
proof (cases rule: knex_orders.find_cases [where i = i and C = C])
  case (err e)
  with assms show ?thesis by simp
next
  case missing
  then show ?thesis
    by (simp add: GetOrder_execute_def GetTimeline_execute_def CancelOrder_execute_def bind_eff_def on_store_def throw_def)
next
  case (found ord)
  with assms(3) show ?thesis
    by (simp add: GetOrder_execute_def GetTimeline_execute_def CancelOrder_execute_def bind_eff_def on_store_def throw_def)
qed

theorem foreign_order_looks_missing_witness:
  "GetOrder_execute demo_orders ''o'' ''d'' (demo_order_db OS_CREATED) = (Inl (order_not_found ''o'' []), demo_order_db OS_CREATED)"
  using foreign_order_looks_missing [OF demo_order_db_ok [of OS_CREATED], of "''o''" "''d''" demo_codec]
  by (simp add: demo_orders_def demo_env_def demo_order_abs) (simp add: demo_order_def)

text \<open>C9: two requests that loaded the same version of an order cannot both store a change: once
  the first update went through, the second is refused with a conflict and writes nothing.\<close>

theorem order_no_lost_update:
  assumes "order_db_ok E D db"
    and "repo_update (KnexOrderRepository E D C) cx a evs db = (Inr new, db')"
    and "o_id b = o_id a" "o_initialVersion b = o_initialVersion a" "o_version a \<noteq> o_initialVersion a" "o_id a \<noteq> []"
  shows "repo_update (KnexOrderRepository E D C) cx' b evs' db' = (Inl (version_conflict b), db')"
  using assms by (rule knex_orders.no_lost_update)

theorem order_no_lost_update_witness:
  "let a = advance 7 [OS_CANCELLED] (demo_order OS_CREATED); b = advance 7 [OS_EXPIRED] (demo_order OS_CREATED);
       db = snd (repo_update demo_orders demo_ctx a [] (demo_order_db OS_CREATED))
   in repo_update demo_orders demo_ctx b [] db = (Inl (version_conflict b), db)"
proof -
  let ?a = "advance 7 [OS_CANCELLED] (demo_order OS_CREATED)"
  have up: "repo_update demo_orders demo_ctx ?a [] (demo_order_db OS_CREATED) =
     (Inr (stored_update demo_ctx (demo_order OS_CREATED) ?a),
      (demo_order_db OS_CREATED)\<lparr>od_orders := [updated_row rat_decimal demo_ctx ?a (demo_row OS_CREATED)], od_outbox := demo_outbox []\<rparr>)"
    by (rule demo_update) (simp_all add: demo_order_def int4_def)
  from order_no_lost_update [OF demo_order_db_ok up [unfolded demo_orders_def], of "advance 7 [OS_EXPIRED] (demo_order OS_CREATED)"]
  show ?thesis unfolding Let_def up by (simp add: demo_orders_def) (simp add: demo_order_def)
qed

section \<open>The listing\<close>


lemma demo_codec_laws: "cur_decode demo_codec (cur_encode demo_codec n) = Inr n" "cur_encode demo_codec n \<noteq> []"
  by (simp_all add: demo_codec_def parse_show_cents) (simp add: show_cents_def)

definition demo_two_orders :: order_db where
  "demo_two_orders = \<lparr>od_orders = [demo_row OS_CREATED,
       (demo_row OS_CONFIRMED)\<lparr>ow_id := ''q'', ow_idempotency_key := ''l'', ow_created_at := 2\<rparr>],
     od_items = [demo_item, demo_item\<lparr>iw_id := ''j'', iw_order_id := ''q''\<rparr>], od_outbox = [], od_steps = []\<rparr>"

lemma demo_listing:
  "order_listing ''c'' None demo_two_orders =
     [(demo_row OS_CONFIRMED)\<lparr>ow_id := ''q'', ow_idempotency_key := ''l'', ow_created_at := 2\<rparr>, demo_row OS_CREATED]"
  by (simp add: order_listing_def demo_two_orders_def order_page_filter_def demo_row_def)

lemma demo_two_items:
  "items_of demo_two_orders ''q'' = [demo_item\<lparr>iw_id := ''j'', iw_order_id := ''q''\<rparr>]"
  "items_of demo_two_orders ''o'' = [demo_item]"
  by (simp_all add: items_of_def demo_two_orders_def demo_item_def)

lemma demo_second: "isl (order_toDomain rat_decimal
    ((demo_row OS_CONFIRMED)\<lparr>ow_id := ''q'', ow_idempotency_key := ''l'', ow_created_at := 2\<rparr>)
    [demo_item\<lparr>iw_id := ''j'', iw_order_id := ''q''\<rparr>]) = False"
  by code_simp


end
