(* ===== verification/Inventory.thy ===== *)
theory Inventory
  imports Sql Money
begin

text \<open>
  The stock of the inventory service: the aggregates (\<open>domain/entities/{Inventory,Product}.ts\<close>),
  the tables of its migrations, \<open>KnexInventoryRepository\<close>, and the contract of the port
  \<open>InventoryRepository\<close> as the locale \<open>stock_port\<close>, interpreted on the repository.
\<close>

section \<open>Aggregates\<close>

record inventory =
  inv_id :: "string option"
  inv_productId :: string
  inv_sku :: string
  inv_available :: int
  inv_reserved :: int
  inv_version :: int

definition newInventory :: "string option \<Rightarrow> string \<Rightarrow> string \<Rightarrow> int \<Rightarrow> int option \<Rightarrow> int option \<Rightarrow> js_error + inventory" where
  "newInventory ident productId sku available reservedQty version =
     (let reserved = (case reservedQty of Some r \<Rightarrow> r | None \<Rightarrow> 0) in
      if sku = [] then Inl (app_err ValidationError ''Inventory SKU is required'')
      else if available < 0
      then Inl (app_err ValidationError (''availableQty must be a non-negative integer, got '' @ show_int available))
      else if reserved < 0
      then Inl (app_err ValidationError (''reservedQty must be a non-negative integer, got '' @ show_int reserved))
      else Inr \<lparr>inv_id = ident, inv_productId = productId, inv_sku = sku, inv_available = available,
                inv_reserved = reserved, inv_version = (case version of Some v \<Rightarrow> v | None \<Rightarrow> 1)\<rparr>)"

definition totalQty :: "inventory \<Rightarrow> int" where
  "totalQty i = inv_available i + inv_reserved i"

definition assertPositiveInteger :: "json option \<Rightarrow> js_error + int" where
  "assertPositiveInteger q =
     (case Option.bind q js_integer of
        Some n \<Rightarrow> if n \<le> 0 then Inl (app_err ValidationError (''Quantity must be a positive integer, got '' @ js_text q))
                  else Inr n
      | None \<Rightarrow> Inl (app_err ValidationError (''Quantity must be a positive integer, got '' @ js_text q)))"

definition insufficient_stock :: "inventory \<Rightarrow> int \<Rightarrow> js_error" where
  "insufficient_stock i n =
     App ((new_error ConflictError (''Insufficient stock for SKU '' @ inv_sku i))
          \<lparr>ae_metadata := Some (JObj [(''sku'', JStr (inv_sku i)), (''requested'', JNum (of_int n)),
             (''available'', JNum (of_int (inv_available i)))])\<rparr>)"

definition inventory_reserve :: "json option \<Rightarrow> inventory \<Rightarrow> js_error + inventory" where
  "inventory_reserve quantity i =
     (case assertPositiveInteger quantity of
        Inl e \<Rightarrow> Inl e
      | Inr n \<Rightarrow>
          if n > inv_available i then Inl (insufficient_stock i n)
          else Inr (i\<lparr>inv_available := inv_available i - n, inv_reserved := inv_reserved i + n,
                      inv_version := inv_version i + 1\<rparr>))"

definition inventory_release :: "json option \<Rightarrow> inventory \<Rightarrow> js_error + inventory" where
  "inventory_release quantity i =
     (case assertPositiveInteger quantity of
        Inl e \<Rightarrow> Inl e
      | Inr n \<Rightarrow>
          if n > inv_reserved i
          then Inl (app_err ValidationError (''Cannot release '' @ show_int n @ '' units for SKU '' @ inv_sku i
                      @ ''; only '' @ show_int (inv_reserved i) @ '' reserved''))
          else Inr (i\<lparr>inv_available := inv_available i + n, inv_reserved := inv_reserved i - n,
                      inv_version := inv_version i + 1\<rparr>))"

record 'd product =
  pd_id :: "string option"
  pd_sku :: string
  pd_name :: string
  pd_description :: "string option"
  pd_price :: "'d money"

definition newProduct ::
    "'d decimal_lib \<Rightarrow> string option \<Rightarrow> string \<Rightarrow> string \<Rightarrow> string option \<Rightarrow> 'd money \<Rightarrow> js_error + 'd product" where
  "newProduct D ident sku name description price =
     (if sku = [] then Inl (app_err ValidationError ''Product SKU is required'')
      else if name = [] then Inl (app_err ValidationError ''Product name is required'')
      else if \<not> money_isPositive D price
      then Inl (app_err ValidationError (''Product price must be positive, got '' @ money_toString D price))
      else Inr \<lparr>pd_id = ident, pd_sku = sku, pd_name = name, pd_description = description, pd_price = price\<rparr>)"

text \<open>The class invariant, and that reserving and releasing undo each other.\<close>

definition inventory_ok :: "inventory \<Rightarrow> bool" where
  "inventory_ok i \<longleftrightarrow> inv_sku i \<noteq> [] \<and> 0 \<le> inv_available i \<and> 0 \<le> inv_reserved i"

lemma newInventory_Inr:
  "newInventory ident p sku a r v = Inr i \<longleftrightarrow>
     inventory_ok i \<and> i = \<lparr>inv_id = ident, inv_productId = p, inv_sku = sku, inv_available = a,
       inv_reserved = (case r of Some x \<Rightarrow> x | None \<Rightarrow> 0), inv_version = (case v of Some x \<Rightarrow> x | None \<Rightarrow> 1)\<rparr>"
  by (auto simp: newInventory_def inventory_ok_def Let_def)

lemma assertPositiveInteger_Inr: "assertPositiveInteger q = Inr n \<longleftrightarrow> 0 < n \<and> q = Some (JNum (of_int n))"
  by (auto simp: assertPositiveInteger_def js_integer_Some split: option.splits bind_splits)

lemma reserve_Inr:
  "inventory_reserve q i = Inr i' \<longleftrightarrow>
     (\<exists>n. q = Some (JNum (of_int n)) \<and> 0 < n \<and> n \<le> inv_available i \<and>
        i' = i\<lparr>inv_available := inv_available i - n, inv_reserved := inv_reserved i + n, inv_version := inv_version i + 1\<rparr>)"
  by (auto simp: inventory_reserve_def assertPositiveInteger_Inr split: sum.splits) (auto simp: assertPositiveInteger_def)

lemma release_Inr:
  "inventory_release q i = Inr i' \<longleftrightarrow>
     (\<exists>n. q = Some (JNum (of_int n)) \<and> 0 < n \<and> n \<le> inv_reserved i \<and>
        i' = i\<lparr>inv_available := inv_available i + n, inv_reserved := inv_reserved i - n, inv_version := inv_version i + 1\<rparr>)"
  by (auto simp: inventory_release_def assertPositiveInteger_Inr split: sum.splits) (auto simp: assertPositiveInteger_def)

section \<open>Tables\<close>

datatype reservation_status = RS_ACTIVE | RS_RELEASED | RS_EXPIRED

record inventory_row =
  nw_id :: string
  nw_product_id :: string
  nw_sku :: string
  nw_available :: int
  nw_reserved :: int
  nw_version :: int
  nw_updated_at :: int

record reservation_row =
  rw_id :: string
  rw_order_id :: string
  rw_sku :: string
  rw_quantity :: int
  rw_status :: reservation_status
  rw_expires_at :: int
  rw_created_at :: int
  rw_released_at :: "int option"

record stock_db =
  sd_inventory :: "inventory_row list"
  sd_reservations :: "reservation_row list"

definition reservation_violation :: "sql_env \<Rightarrow> reservation_row list \<Rightarrow> reservation_row \<Rightarrow> string option" where
  "reservation_violation E rows r = first_violation
     [(sql_uuid E (rw_order_id r), invalid_text), (length (rw_sku r) \<le> 50, too_long),
      (int4 (rw_quantity r), out_of_range), (0 < rw_quantity r, check_violation),
      (rw_id r \<notin> rw_id ` set rows, unique_violation),
      ((rw_order_id r, rw_sku r) \<notin> (\<lambda>x. (rw_order_id x, rw_sku x)) ` set rows, unique_violation)]"

section \<open>The repository\<close>

record reservation_item =
  ri_sku :: string
  ri_quantity :: "json option"

record reservation_result =
  rr_sku :: string
  rr_quantity :: int
  rr_reservationId :: string

record expired_reservation =
  er_reservationId :: string
  er_orderId :: string
  er_sku :: string
  er_quantity :: int

definition inventory_toDomain :: "inventory_row \<Rightarrow> js_error + inventory" where
  "inventory_toDomain row =
     newInventory (Some (nw_id row)) (nw_product_id row) (nw_sku row) (nw_available row)
       (Some (nw_reserved row)) (Some (nw_version row))"

definition knex_findBySku :: "string \<Rightarrow> (stock_db, js_error, inventory option) eff" where
  "knex_findBySku sku db =
     (case List.find (\<lambda>r. nw_sku r = sku) (sd_inventory db) of
        None \<Rightarrow> (Inr None, db)
      | Some row \<Rightarrow> (case inventory_toDomain row of Inl e \<Rightarrow> (Inl e, db) | Inr i \<Rightarrow> (Inr (Some i), db)))"

definition knex_findBySkus :: "string list \<Rightarrow> (stock_db, js_error, inventory list) eff" where
  "knex_findBySkus skus db =
     (if skus = [] then (Inr [], db)
      else (map_res inventory_toDomain (filter (\<lambda>r. nw_sku r \<in> set skus) (sd_inventory db)), db))"

text \<open>\<open>UPDATE inventory ... WHERE id = row.id\<close> with the aggregate's new values.\<close>

definition write_inventory :: "int \<Rightarrow> inventory_row \<Rightarrow> inventory \<Rightarrow> stock_db \<Rightarrow> js_error + stock_db" where
  "write_inventory now row i db =
     (if \<not> int4 (inv_available i) \<or> \<not> int4 (inv_reserved i) \<or> \<not> int4 (inv_version i)
      then Inl (sql_err out_of_range)
      else if inv_available i < 0 \<or> inv_reserved i < 0 then Inl (sql_err check_violation)
      else Inr (db\<lparr>sd_inventory := update_where (\<lambda>r. nw_id r = nw_id row)
              (\<lambda>r. r\<lparr>nw_available := inv_available i, nw_reserved := inv_reserved i,
                     nw_version := inv_version i, nw_updated_at := now\<rparr>) (sd_inventory db)\<rparr>))"

definition unknown_sku :: "string \<Rightarrow> js_error" where
  "unknown_sku sku = App ((new_error NotFoundError (''Unknown SKU '' @ sku))
     \<lparr>ae_metadata := Some (JObj [(''sku'', JStr sku)])\<rparr>)"

text \<open>The value of an item's quantity where it has passed the aggregate's check.\<close>

definition item_quantity :: "reservation_item \<Rightarrow> int" where
  "item_quantity item = (case Option.bind (ri_quantity item) js_integer of Some n \<Rightarrow> n | None \<Rightarrow> 0)"

text \<open>
  One turn of the loop of \<open>reserve\<close>; \<open>rid\<close> is the id the database draws for the
  reservation.  (\<open>INSERT ... RETURNING\<close> yields a row, so the guard after it cannot fire.)
\<close>

definition reserve_item ::
    "sql_env \<Rightarrow> int \<Rightarrow> string \<Rightarrow> string \<Rightarrow> int \<Rightarrow> reservation_item \<Rightarrow> stock_db \<Rightarrow> js_error + reservation_result \<times> stock_db" where
  "reserve_item E now rid orderId expiresAt item db =
     (case List.find (\<lambda>r. nw_sku r = ri_sku item) (sd_inventory db) of
        None \<Rightarrow> Inl (unknown_sku (ri_sku item))
      | Some row \<Rightarrow>
          res_bind (inventory_toDomain row) (\<lambda>i0.
          res_bind (inventory_reserve (ri_quantity item) i0) (\<lambda>i1.
          res_bind (write_inventory now row i1 db) (\<lambda>db1.
            let q = item_quantity item;
                new = \<lparr>rw_id = rid, rw_order_id = orderId, rw_sku = ri_sku item, rw_quantity = q,
                       rw_status = RS_ACTIVE, rw_expires_at = expiresAt, rw_created_at = now, rw_released_at = None\<rparr>
            in case reservation_violation E (sd_reservations db1) new of
                 Some t \<Rightarrow> Inl (sql_err t)
               | None \<Rightarrow> Inr (\<lparr>rr_sku = ri_sku item, rr_quantity = q, rr_reservationId = rid\<rparr>,
                             db1\<lparr>sd_reservations := sd_reservations db1 @ [new]\<rparr>)))))"

fun reserve_loop ::
    "sql_env \<Rightarrow> int \<Rightarrow> (nat \<Rightarrow> string) \<Rightarrow> string \<Rightarrow> int \<Rightarrow> nat \<Rightarrow> reservation_item list \<Rightarrow> stock_db \<Rightarrow>
     js_error + reservation_result list \<times> stock_db" where
  "reserve_loop E now ids orderId expiresAt n [] db = Inr ([], db)"
| "reserve_loop E now ids orderId expiresAt n (item # items) db =
     (case reserve_item E now (ids n) orderId expiresAt item db of
        Inl e \<Rightarrow> Inl e
      | Inr (res, db1) \<Rightarrow>
          (case reserve_loop E now ids orderId expiresAt (Suc n) items db1 of
             Inl e \<Rightarrow> Inl e
           | Inr (results, db2) \<Rightarrow> Inr (res # results, db2)))"

text \<open>\<open>collate a b\<close>: \<open>a.localeCompare(b) <= 0\<close>.  A transaction that throws writes nothing.\<close>

definition knex_reserve ::
    "sql_env \<Rightarrow> (string \<Rightarrow> string \<Rightarrow> bool) \<Rightarrow> int \<Rightarrow> (nat \<Rightarrow> string) \<Rightarrow> string \<Rightarrow> reservation_item list \<Rightarrow> int \<Rightarrow>
     (stock_db, js_error, reservation_result list) eff" where
  "knex_reserve E collate now ids orderId items expiresAt db =
     (let ordered = sort_by (\<lambda>a b. collate (ri_sku a) (ri_sku b)) items in
      case reserve_loop E now ids orderId expiresAt 0 ordered db of
        Inl e \<Rightarrow> (Inl e, db)
      | Inr (results, db') \<Rightarrow> (Inr results, db'))"

definition releaseReservation :: "int \<Rightarrow> reservation_status \<Rightarrow> reservation_row \<Rightarrow> stock_db \<Rightarrow> js_error + stock_db" where
  "releaseReservation now status reservation db =
     res_bind
       (case List.find (\<lambda>r. nw_sku r = rw_sku reservation) (sd_inventory db) of
          None \<Rightarrow> Inr db
        | Some row \<Rightarrow>
            res_bind (inventory_toDomain row) (\<lambda>i0.
            res_bind (inventory_release (Some (JNum (of_int (rw_quantity reservation)))) i0) (\<lambda>i1.
            write_inventory now row i1 db)))
       (\<lambda>db1. Inr (db1\<lparr>sd_reservations := update_where (\<lambda>r. rw_id r = rw_id reservation)
          (\<lambda>r. r\<lparr>rw_status := status, rw_released_at := Some now\<rparr>) (sd_reservations db1)\<rparr>))"

fun release_loop :: "int \<Rightarrow> reservation_status \<Rightarrow> reservation_row list \<Rightarrow> stock_db \<Rightarrow> js_error + stock_db" where
  "release_loop now status [] db = Inr db"
| "release_loop now status (r # rs) db = res_bind (releaseReservation now status r db) (release_loop now status rs)"

definition active_of :: "string \<Rightarrow> reservation_row \<Rightarrow> bool" where
  "active_of orderId r \<longleftrightarrow> rw_order_id r = orderId \<and> rw_status r = RS_ACTIVE"

definition knex_release :: "sql_env \<Rightarrow> int \<Rightarrow> string \<Rightarrow> (stock_db, js_error, nat) eff" where
  "knex_release E now orderId db =
     (if \<not> sql_uuid E orderId then (Inl (sql_err invalid_text), db)
      else
        let reservations = filter (active_of orderId) (sd_reservations db) in
        case release_loop now RS_RELEASED reservations db of
          Inl e \<Rightarrow> (Inl e, db)
        | Inr db' \<Rightarrow> (Inr (length reservations), db'))"

definition expired_at :: "int \<Rightarrow> reservation_row \<Rightarrow> bool" where
  "expired_at t r \<longleftrightarrow> rw_status r = RS_ACTIVE \<and> rw_expires_at r < t"

definition expired_of_row :: "reservation_row \<Rightarrow> expired_reservation" where
  "expired_of_row r = \<lparr>er_reservationId = rw_id r, er_orderId = rw_order_id r, er_sku = rw_sku r, er_quantity = rw_quantity r\<rparr>"

definition knex_releaseExpired :: "int \<Rightarrow> int \<Rightarrow> (stock_db, js_error, expired_reservation list) eff" where
  "knex_releaseExpired now t db =
     (let expired = filter (expired_at t) (sd_reservations db) in
      case release_loop now RS_EXPIRED expired db of
        Inl e \<Rightarrow> (Inl e, db)
      | Inr db' \<Rightarrow> (Inr (map expired_of_row expired), db'))"

section \<open>Invariant of the tables\<close>

text \<open>The units held by active reservations that satisfy \<open>P\<close>.\<close>

definition held_sum :: "(reservation_row \<Rightarrow> bool) \<Rightarrow> reservation_row list \<Rightarrow> int" where
  "held_sum P rows = sum_list (map (\<lambda>r. if rw_status r = RS_ACTIVE \<and> P r then rw_quantity r else 0) rows)"

definition res_key :: "reservation_row \<Rightarrow> string \<times> string" where
  "res_key r = (rw_order_id r, rw_sku r)"

definition stock_ok :: "stock_db \<Rightarrow> bool" where
  "stock_ok db \<longleftrightarrow>
     distinct (map nw_id (sd_inventory db)) \<and> distinct (map nw_sku (sd_inventory db)) \<and>
     distinct (map rw_id (sd_reservations db)) \<and> distinct (map res_key (sd_reservations db)) \<and>
     (\<forall>r\<in>set (sd_reservations db). 0 < rw_quantity r \<and> rw_sku r \<in> nw_sku ` set (sd_inventory db)) \<and>
     (\<forall>i\<in>set (sd_inventory db). nw_sku i \<noteq> [] \<and> 0 \<le> nw_available i \<and>
        nw_reserved i = held_sum (\<lambda>r. rw_sku r = nw_sku i) (sd_reservations db))"

text \<open>The stock as the services see it: units available per SKU, units held per order and SKU.\<close>

definition stock_avail :: "stock_db \<Rightarrow> string \<Rightarrow> int option" where
  "stock_avail db k = map_option nw_available (List.find (\<lambda>r. nw_sku r = k) (sd_inventory db))"

definition stock_held :: "stock_db \<Rightarrow> string \<Rightarrow> string \<Rightarrow> int" where
  "stock_held db ord k = held_sum (\<lambda>r. rw_order_id r = ord \<and> rw_sku r = k) (sd_reservations db)"

lemma held_sum_nonneg: "\<forall>r\<in>set rows. 0 < rw_quantity r \<Longrightarrow> 0 \<le> held_sum P rows"
  unfolding held_sum_def by (intro sum_list_nonneg) (auto simp: less_imp_le)

lemma held_sum_append [simp]: "held_sum P (xs @ ys) = held_sum P xs + held_sum P ys"
  by (simp add: held_sum_def)

lemma held_sum_Cons [simp]:
  "held_sum P (r # rows) = (if rw_status r = RS_ACTIVE \<and> P r then rw_quantity r else 0) + held_sum P rows"
  by (simp add: held_sum_def)

lemma held_sum_Nil [simp]: "held_sum P [] = 0"
  by (simp add: held_sum_def)

lemma held_sum_member:
  assumes "\<forall>r\<in>set rows. 0 < rw_quantity r" and "x \<in> set rows" "rw_status x = RS_ACTIVE" "P x"
  shows "rw_quantity x \<le> held_sum P rows"
proof -
  let ?g = "\<lambda>r. if rw_status r = RS_ACTIVE \<and> P r then rw_quantity r else 0"
  have "?g x \<le> sum_list (map ?g rows)"
    by (rule sum_list_nonneg_member) (use assms in \<open>auto simp: less_imp_le\<close>)
  with assms show ?thesis by (simp add: held_sum_def)
qed

text \<open>Closing one active reservation takes its units off every sum that counted it.\<close>

lemma held_sum_close:
  assumes "distinct (map rw_id rows)" and "x \<in> set rows" and "rw_status x = RS_ACTIVE" and "st \<noteq> RS_ACTIVE"
    and "\<And>r. P (r\<lparr>rw_status := st, rw_released_at := t\<rparr>) = P r"
  shows "held_sum P (update_where (\<lambda>r. rw_id r = rw_id x) (\<lambda>r. r\<lparr>rw_status := st, rw_released_at := t\<rparr>) rows) =
    held_sum P rows - (if P x then rw_quantity x else 0)"
  unfolding held_sum_def sum_list_update_where filter_key_singleton [OF assms(1,2)]
  using assms(3-) by simp

lemma find_sku_update:
  assumes "distinct (map nw_id rows)" and "distinct (map nw_sku rows)"
    and "List.find (\<lambda>r. nw_sku r = k) rows = Some row" and "nw_sku (g row) = nw_sku row"
  shows "List.find (\<lambda>r. nw_sku r = k') (update_where (\<lambda>r. nw_id r = nw_id row) g rows) =
    (if k' = k then Some (g row) else List.find (\<lambda>r. nw_sku r = k') rows)"
proof -
  from find_SomeD [OF assms(3)] have row: "row \<in> set rows" "nw_sku row = k" by auto
  have eq: "update_where (\<lambda>r. nw_id r = nw_id row) g rows = map (\<lambda>r. if r = row then g row else r) rows"
    unfolding update_where_def using distinct_key_inj [OF assms(1) _ row(1)] by auto
  have "List.find (\<lambda>r. nw_sku r = k') (map (\<lambda>r. if r = row then g row else r) xs) =
    map_option (\<lambda>r. if r = row then g row else r) (List.find (\<lambda>r. nw_sku r = k') xs)" for xs
    using assms(4) by (induction xs) auto
  moreover have "List.find (\<lambda>r. nw_sku r = k') rows \<noteq> Some row" if "k' \<noteq> k"
    using that row by (auto dest: find_SomeD)
  ultimately show ?thesis
    using assms(3) by (cases "List.find (\<lambda>r. nw_sku r = k') rows") (auto simp: eq)
qed

lemma write_inventory_Inr:
  "write_inventory now row i db = Inr db' \<longleftrightarrow>
     int4 (inv_available i) \<and> int4 (inv_reserved i) \<and> int4 (inv_version i) \<and>
     0 \<le> inv_available i \<and> 0 \<le> inv_reserved i \<and>
     db' = db\<lparr>sd_inventory := update_where (\<lambda>r. nw_id r = nw_id row)
              (\<lambda>r. r\<lparr>nw_available := inv_available i, nw_reserved := inv_reserved i,
                     nw_version := inv_version i, nw_updated_at := now\<rparr>) (sd_inventory db)\<rparr>"
  by (auto simp: write_inventory_def)

text \<open>Moving \<open>n\<close> units of one row between its two counters.\<close>

definition move_units :: "int \<Rightarrow> string \<Rightarrow> int \<Rightarrow> stock_db \<Rightarrow> stock_db" where
  "move_units now k n db = db\<lparr>sd_inventory := update_where (\<lambda>r. nw_sku r = k)
     (\<lambda>r. r\<lparr>nw_available := nw_available r - n, nw_reserved := nw_reserved r + n,
            nw_version := nw_version r + 1, nw_updated_at := now\<rparr>) (sd_inventory db)\<rparr>"

lemma write_is_move:
  assumes ok: "stock_ok db" and f: "List.find (\<lambda>r. nw_sku r = k) (sd_inventory db) = Some row"
    and w: "write_inventory now row i db = Inr db'"
    and i: "inv_available i = nw_available row - n" "inv_reserved i = nw_reserved row + n" "inv_version i = nw_version row + 1"
  shows "db' = move_units now k n db"
proof -
  from find_SomeD [OF f] have row: "row \<in> set (sd_inventory db)" "nw_sku row = k" by auto
  from ok have d: "distinct (map nw_id (sd_inventory db))" "distinct (map nw_sku (sd_inventory db))"
    by (auto simp: stock_ok_def)
  have "(nw_id r = nw_id row \<longleftrightarrow> r = row) \<and> (nw_sku r = k \<longleftrightarrow> r = row)" if "r \<in> set (sd_inventory db)" for r
    using that row distinct_key_inj [OF d(1) that row(1)] distinct_key_inj [OF d(2) that row(1)] by auto
  with w i show ?thesis by (auto simp: write_inventory_Inr move_units_def update_where_def)
qed

lemma move_units_sel [simp]: "sd_reservations (move_units now k n db) = sd_reservations db"
  by (simp add: move_units_def)

lemma move_units_avail:
  "stock_avail (move_units now k n db) k' =
     map_option (\<lambda>a. if k' = k then a - n else a) (stock_avail db k')"
proof -
  have "List.find (\<lambda>r. nw_sku r = k') (sd_inventory (move_units now k n db)) =
    map_option (\<lambda>r. if nw_sku r = k then r\<lparr>nw_available := nw_available r - n, nw_reserved := nw_reserved r + n,
      nw_version := nw_version r + 1, nw_updated_at := now\<rparr> else r)
     (List.find (\<lambda>r. nw_sku r = k') (sd_inventory db))"
    by (simp add: move_units_def) (rule find_update_where_same, simp)
  then show ?thesis
    by (cases "List.find (\<lambda>r. nw_sku r = k') (sd_inventory db)") (auto simp: stock_avail_def dest: find_SomeD)
qed

text \<open>The tables after a move of units and a change of the reservations that balances it.\<close>

lemma stock_ok_move:
  assumes ok: "stock_ok db"
    and res: "distinct (map rw_id rows)" "distinct (map res_key rows)"
      "\<forall>r\<in>set rows. 0 < rw_quantity r \<and> rw_sku r \<in> nw_sku ` set (sd_inventory db)"
    and bal: "\<And>k'. held_sum (\<lambda>r. rw_sku r = k') rows =
      held_sum (\<lambda>r. rw_sku r = k') (sd_reservations db) + (if k' = k then n else 0)"
    and av: "\<And>i. i \<in> set (sd_inventory db) \<Longrightarrow> nw_sku i = k \<Longrightarrow> n \<le> nw_available i"
  shows "stock_ok ((move_units now k n db)\<lparr>sd_reservations := rows\<rparr>)"
proof -
  let ?f = "\<lambda>r. r\<lparr>nw_available := nw_available r - n, nw_reserved := nw_reserved r + n,
            nw_version := nw_version r + 1, nw_updated_at := now\<rparr>"
  let ?inv = "update_where (\<lambda>r. nw_sku r = k) ?f (sd_inventory db)"
  have ids: "map nw_id ?inv = map nw_id (sd_inventory db)" and skus: "map nw_sku ?inv = map nw_sku (sd_inventory db)"
    by (rule map_update_where, simp)+
  have skuset: "nw_sku ` set ?inv = nw_sku ` set (sd_inventory db)" using arg_cong [OF skus, of set] by simp
  have "nw_sku i \<noteq> [] \<and> 0 \<le> nw_available i \<and> nw_reserved i = held_sum (\<lambda>r. rw_sku r = nw_sku i) rows"
    if "i \<in> set ?inv" for i
  proof -
    from that obtain j where j: "j \<in> set (sd_inventory db)" "i = (if nw_sku j = k then ?f j else j)"
      by (auto simp: set_update_where)
    from ok j(1) have "nw_sku j \<noteq> []" "0 \<le> nw_available j"
      "nw_reserved j = held_sum (\<lambda>r. rw_sku r = nw_sku j) (sd_reservations db)"
      by (auto simp: stock_ok_def)
    with j av [OF j(1)] bal [of "nw_sku j"] show ?thesis by auto
  qed
  with ok res show ?thesis by (simp add: stock_ok_def move_units_def ids skus skuset)
qed

section \<open>One reservation, one release\<close>

lemma inventory_toDomain_Inr:
  "inventory_toDomain row = Inr i \<longleftrightarrow> nw_sku row \<noteq> [] \<and> 0 \<le> nw_available row \<and> 0 \<le> nw_reserved row \<and>
     i = \<lparr>inv_id = Some (nw_id row), inv_productId = nw_product_id row, inv_sku = nw_sku row,
          inv_available = nw_available row, inv_reserved = nw_reserved row, inv_version = nw_version row\<rparr>"
  by (auto simp: inventory_toDomain_def newInventory_Inr inventory_ok_def)

lemma reservation_violation_None:
  "reservation_violation E rows r = None \<longleftrightarrow>
     sql_uuid E (rw_order_id r) \<and> length (rw_sku r) \<le> 50 \<and> int4 (rw_quantity r) \<and> 0 < rw_quantity r \<and>
     rw_id r \<notin> rw_id ` set rows \<and> res_key r \<notin> res_key ` set rows"
  by (auto simp: reservation_violation_def res_key_def split: if_splits)

lemma stock_row:
  assumes "stock_ok db" and "i \<in> set (sd_inventory db)"
  shows "nw_sku i \<noteq> []" and "0 \<le> nw_available i"
    and "nw_reserved i = held_sum (\<lambda>r. rw_sku r = nw_sku i) (sd_reservations db)" and "0 \<le> nw_reserved i"
  using assms held_sum_nonneg [of "sd_reservations db"] by (auto simp: stock_ok_def)

definition new_reservation :: "int \<Rightarrow> string \<Rightarrow> string \<Rightarrow> int \<Rightarrow> string \<Rightarrow> int \<Rightarrow> reservation_row" where
  "new_reservation now rid orderId expiresAt k n =
     \<lparr>rw_id = rid, rw_order_id = orderId, rw_sku = k, rw_quantity = n, rw_status = RS_ACTIVE,
      rw_expires_at = expiresAt, rw_created_at = now, rw_released_at = None\<rparr>"

lemma reserve_item_effect:
  assumes ok: "stock_ok db" and ex: "reserve_item E now rid orderId expiresAt item db = Inr (res, db')"
  obtains n a where "ri_quantity item = Some (JNum (of_int n))" "item_quantity item = n" "0 < n"
    "stock_avail db (ri_sku item) = Some a" "n \<le> a"
    "res = \<lparr>rr_sku = ri_sku item, rr_quantity = n, rr_reservationId = rid\<rparr>"
    "db' = (move_units now (ri_sku item) n db)
       \<lparr>sd_reservations := sd_reservations db @ [new_reservation now rid orderId expiresAt (ri_sku item) n]\<rparr>"
    "(orderId, ri_sku item) \<notin> res_key ` set (sd_reservations db)" "stock_ok db'" "sql_uuid E orderId"
proof -
  let ?k = "ri_sku item"
  from ex obtain row i0 i1 db1 where f: "List.find (\<lambda>r. nw_sku r = ?k) (sd_inventory db) = Some row"
    and i0: "inventory_toDomain row = Inr i0" and i1: "inventory_reserve (ri_quantity item) i0 = Inr i1"
    and w: "write_inventory now row i1 db = Inr db1"
    and v: "reservation_violation E (sd_reservations db1) (new_reservation now rid orderId expiresAt ?k (item_quantity item)) = None"
    and r: "res = \<lparr>rr_sku = ?k, rr_quantity = item_quantity item, rr_reservationId = rid\<rparr>"
    and d: "db' = db1\<lparr>sd_reservations := sd_reservations db1 @ [new_reservation now rid orderId expiresAt ?k (item_quantity item)]\<rparr>"
    by (auto simp: reserve_item_def res_bind_Inr Let_def new_reservation_def split: option.splits)
  from find_SomeD [OF f] have row: "row \<in> set (sd_inventory db)" "nw_sku row = ?k" by auto
  from i1 obtain n where n: "ri_quantity item = Some (JNum (of_int n))" "0 < n" "n \<le> inv_available i0"
    and i1v: "i1 = i0\<lparr>inv_available := inv_available i0 - n, inv_reserved := inv_reserved i0 + n, inv_version := inv_version i0 + 1\<rparr>"
    by (auto simp: reserve_Inr)
  have q: "item_quantity item = n" using n by (simp add: item_quantity_def)
  have db1: "db1 = move_units now ?k n db"
    using i0 i1v by (intro write_is_move [OF ok f w]) (auto simp: inventory_toDomain_Inr)
  have a: "stock_avail db ?k = Some (nw_available row)" "n \<le> nw_available row"
    using f n i0 by (auto simp: stock_avail_def inventory_toDomain_Inr)
  let ?new = "new_reservation now rid orderId expiresAt ?k n"
  from v q db1 have fresh: "rid \<notin> rw_id ` set (sd_reservations db)" "(orderId, ?k) \<notin> res_key ` set (sd_reservations db)"
    "sql_uuid E orderId"
    by (simp_all add: reservation_violation_None new_reservation_def res_key_def)
  have "stock_ok ((move_units now ?k n db)\<lparr>sd_reservations := sd_reservations db @ [?new]\<rparr>)"
  proof (rule stock_ok_move [OF ok])
    show "distinct (map rw_id (sd_reservations db @ [?new]))" "distinct (map res_key (sd_reservations db @ [?new]))"
      using ok fresh by (auto simp: stock_ok_def new_reservation_def res_key_def)
    show "\<forall>r\<in>set (sd_reservations db @ [?new]). 0 < rw_quantity r \<and> rw_sku r \<in> nw_sku ` set (sd_inventory db)"
      using ok n row by (auto simp: stock_ok_def new_reservation_def intro: image_eqI [of _ _ row])
    show "held_sum (\<lambda>r. rw_sku r = k') (sd_reservations db @ [?new]) =
      held_sum (\<lambda>r. rw_sku r = k') (sd_reservations db) + (if k' = ?k then n else 0)" for k'
      by (auto simp: new_reservation_def)
    show "n \<le> nw_available i" if "i \<in> set (sd_inventory db)" "nw_sku i = ?k" for i
    proof -
      have "i = row" using that row ok distinct_key_inj [of nw_sku "sd_inventory db" i row] by (simp add: stock_ok_def)
      with a show ?thesis by simp
    qed
  qed
  with that [of n "nw_available row"] n q a r d db1 fresh show thesis by simp
qed

lemma releaseReservation_effect:
  assumes ok: "stock_ok db" and x: "x \<in> set (sd_reservations db)" "rw_status x = RS_ACTIVE" and st: "st \<noteq> RS_ACTIVE"
    and ex: "releaseReservation now st x db = Inr db'"
  shows "db' = (move_units now (rw_sku x) (- rw_quantity x) db)
      \<lparr>sd_reservations := update_where (\<lambda>r. rw_id r = rw_id x)
         (\<lambda>r. r\<lparr>rw_status := st, rw_released_at := Some now\<rparr>) (sd_reservations db)\<rparr>"
    and "stock_ok db'"
proof -
  let ?k = "rw_sku x"
  let ?f = "\<lambda>r. r\<lparr>rw_status := st, rw_released_at := Some now\<rparr>"
  let ?rows = "update_where (\<lambda>r. rw_id r = rw_id x) ?f (sd_reservations db)"
  from ok x(1) have "?k \<in> nw_sku ` set (sd_inventory db)" by (auto simp: stock_ok_def)
  then obtain row where f: "List.find (\<lambda>r. nw_sku r = ?k) (sd_inventory db) = Some row"
    by (cases "List.find (\<lambda>r. nw_sku r = ?k) (sd_inventory db)") (auto simp: find_key_None)
  from ex f obtain i0 i1 db1 where i0: "inventory_toDomain row = Inr i0"
    and i1: "inventory_release (Some (JNum (of_int (rw_quantity x)))) i0 = Inr i1"
    and w: "write_inventory now row i1 db = Inr db1"
    and d: "db' = db1\<lparr>sd_reservations := update_where (\<lambda>r. rw_id r = rw_id x) ?f (sd_reservations db1)\<rparr>"
    by (auto simp: releaseReservation_def res_bind_Inr)
  have db1: "db1 = move_units now ?k (- rw_quantity x) db"
    using i0 i1 by (intro write_is_move [OF ok f w]) (auto simp: inventory_toDomain_Inr release_Inr)
  with d show db': "db' = (move_units now ?k (- rw_quantity x) db)\<lparr>sd_reservations := ?rows\<rparr>" by simp
  have pos: "0 < rw_quantity x" using ok x by (auto simp: stock_ok_def)
  have ids: "map rw_id ?rows = map rw_id (sd_reservations db)" and keys: "map res_key ?rows = map res_key (sd_reservations db)"
    by (rule map_update_where, simp add: res_key_def)+
  show "stock_ok db'"
    unfolding db'
  proof (rule stock_ok_move [OF ok])
    show "distinct (map rw_id ?rows)" "distinct (map res_key ?rows)" using ok by (simp_all add: ids keys stock_ok_def)
    show "\<forall>r\<in>set ?rows. 0 < rw_quantity r \<and> rw_sku r \<in> nw_sku ` set (sd_inventory db)"
      using ok by (auto simp: set_update_where stock_ok_def)
    show "held_sum (\<lambda>r. rw_sku r = k') ?rows =
        held_sum (\<lambda>r. rw_sku r = k') (sd_reservations db) + (if k' = ?k then - rw_quantity x else 0)" for k'
      using ok x st held_sum_close [of "sd_reservations db" x st "\<lambda>r. rw_sku r = k'" "Some now"]
      by (auto simp: stock_ok_def)
    show "- rw_quantity x \<le> nw_available i" if "i \<in> set (sd_inventory db)" "nw_sku i = ?k" for i
      using stock_row(2) [OF ok that(1)] pos by simp
  qed
qed

text \<open>The domain's check can never refuse to release a reservation that is active.\<close>

lemma releaseReservation_succeeds:
  assumes ok: "stock_ok db" and x: "x \<in> set (sd_reservations db)" "rw_status x = RS_ACTIVE"
    and room: "\<And>i. i \<in> set (sd_inventory db) \<Longrightarrow> nw_available i + nw_reserved i \<le> 2147483647 \<and>
      - 2147483648 \<le> nw_version i \<and> nw_version i < 2147483647"
  shows "\<exists>db'. releaseReservation now st x db = Inr db'"
proof -
  let ?k = "rw_sku x"
  from ok x(1) have "?k \<in> nw_sku ` set (sd_inventory db)" by (auto simp: stock_ok_def)
  then obtain row where f: "List.find (\<lambda>r. nw_sku r = ?k) (sd_inventory db) = Some row"
    by (cases "List.find (\<lambda>r. nw_sku r = ?k) (sd_inventory db)") (auto simp: find_key_None)
  from find_SomeD [OF f] have row: "row \<in> set (sd_inventory db)" "nw_sku row = ?k" by auto
  note sr = stock_row [OF ok row(1)]
  have "rw_quantity x \<le> nw_reserved row"
    unfolding sr(3) using ok x row by (intro held_sum_member) (auto simp: stock_ok_def)
  moreover have "0 < rw_quantity x" using ok x by (auto simp: stock_ok_def)
  ultimately have "inventory_release (Some (JNum (of_int (rw_quantity x))))
      \<lparr>inv_id = Some (nw_id row), inv_productId = nw_product_id row, inv_sku = nw_sku row,
       inv_available = nw_available row, inv_reserved = nw_reserved row, inv_version = nw_version row\<rparr> =
      Inr \<lparr>inv_id = Some (nw_id row), inv_productId = nw_product_id row, inv_sku = nw_sku row,
       inv_available = nw_available row + rw_quantity x, inv_reserved = nw_reserved row - rw_quantity x,
       inv_version = nw_version row + 1\<rparr>"
    by (auto simp: release_Inr)
  moreover have "inventory_toDomain row = Inr \<lparr>inv_id = Some (nw_id row), inv_productId = nw_product_id row, inv_sku = nw_sku row,
       inv_available = nw_available row, inv_reserved = nw_reserved row, inv_version = nw_version row\<rparr>"
    using sr by (simp add: inventory_toDomain_Inr)
  ultimately show ?thesis
    using f room [OF row(1)] sr \<open>rw_quantity x \<le> nw_reserved row\<close> \<open>0 < rw_quantity x\<close>
    by (simp add: releaseReservation_def res_bind_def write_inventory_def int4_def)
qed

section \<open>The loops\<close>

definition items_quantity :: "string \<Rightarrow> reservation_item list \<Rightarrow> int" where
  "items_quantity k items = sum_list (map (\<lambda>i. if ri_sku i = k then item_quantity i else 0) items)"

definition new_reservations ::
    "int \<Rightarrow> (nat \<Rightarrow> string) \<Rightarrow> string \<Rightarrow> int \<Rightarrow> nat \<Rightarrow> reservation_item list \<Rightarrow> reservation_row list" where
  "new_reservations now ids orderId expiresAt n items =
     map (\<lambda>(i, item). new_reservation now (ids i) orderId expiresAt (ri_sku item) (item_quantity item)) (enumerate n items)"

lemma held_new_reservations:
  "held_sum (\<lambda>r. rw_order_id r = o' \<and> rw_sku r = k) (new_reservations now ids orderId expiresAt n items) =
     (if o' = orderId then items_quantity k items else 0)"
  by (induction items arbitrary: n) (auto simp: new_reservations_def items_quantity_def new_reservation_def)

lemma items_quantity_nonneg: "\<forall>i\<in>set items. 0 < item_quantity i \<Longrightarrow> 0 \<le> items_quantity k items"
  unfolding items_quantity_def by (intro sum_list_nonneg) (auto simp: less_imp_le)

lemma reserve_loop_effect:
  assumes "stock_ok db" and "reserve_loop E now ids orderId expiresAt n items db = Inr (results, db')"
  shows "stock_ok db' \<and>
    (\<forall>i\<in>set items. \<exists>q>0. ri_quantity i = Some (JNum (of_int q)) \<and> item_quantity i = q) \<and>
    (\<forall>k. stock_avail db' k = map_option (\<lambda>a. a - items_quantity k items) (stock_avail db k)) \<and>
    (\<forall>i\<in>set items. stock_avail db (ri_sku i) \<noteq> None \<and> (orderId, ri_sku i) \<notin> res_key ` set (sd_reservations db)) \<and>
    distinct (map ri_sku items) \<and>
    sd_reservations db' = sd_reservations db @ new_reservations now ids orderId expiresAt n items \<and>
    results = map (\<lambda>r. \<lparr>rr_sku = rw_sku r, rr_quantity = rw_quantity r, rr_reservationId = rw_id r\<rparr>)
      (new_reservations now ids orderId expiresAt n items)"
  using assms
proof (induction items arbitrary: n db results)
  case Nil
  then show ?case by (auto simp: items_quantity_def new_reservations_def option.map_ident)
next
  case (Cons item items)
  from Cons.prems(2) obtain res db1 rest where
    1: "reserve_item E now (ids n) orderId expiresAt item db = Inr (res, db1)"
    and 2: "reserve_loop E now ids orderId expiresAt (Suc n) items db1 = Inr (rest, db')" and r: "results = res # rest"
    by (auto split: sum.splits)
  obtain q a where q: "ri_quantity item = Some (JNum (of_int q))" "item_quantity item = q" "0 < q"
    and a: "stock_avail db (ri_sku item) = Some a"
    and res: "res = \<lparr>rr_sku = ri_sku item, rr_quantity = q, rr_reservationId = ids n\<rparr>"
    and db1: "db1 = (move_units now (ri_sku item) q db)
      \<lparr>sd_reservations := sd_reservations db @ [new_reservation now (ids n) orderId expiresAt (ri_sku item) q]\<rparr>"
    and key: "(orderId, ri_sku item) \<notin> res_key ` set (sd_reservations db)" and ok1: "stock_ok db1"
    by (rule reserve_item_effect [OF Cons.prems(1) 1])
  have av: "stock_avail db1 k = map_option (\<lambda>x. if k = ri_sku item then x - q else x) (stock_avail db k)" for k
    using move_units_avail [of now "ri_sku item" q db k] by (simp add: db1 stock_avail_def)
  note ih = Cons.IH [OF ok1 2]
  have k1: "res_key ` set (sd_reservations db1) = insert (orderId, ri_sku item) (res_key ` set (sd_reservations db))"
    by (auto simp: db1 new_reservation_def res_key_def)
  have "stock_avail db' k = map_option (\<lambda>x. x - items_quantity k (item # items)) (stock_avail db k)" for k
    using ih av [of k] q by (cases "stock_avail db k") (auto simp: items_quantity_def)
  moreover have "\<forall>i\<in>set items. stock_avail db (ri_sku i) \<noteq> None \<and> (orderId, ri_sku i) \<notin> res_key ` set (sd_reservations db) \<and>
      ri_sku i \<noteq> ri_sku item"
    using ih av k1 by fastforce
  moreover have "sd_reservations db' = sd_reservations db @ new_reservations now ids orderId expiresAt n (item # items)"
    using ih q by (simp add: db1 new_reservations_def)
  ultimately show ?case
    using ih q a key r res by (auto simp: new_reservations_def new_reservation_def)
qed

definition released_quantity :: "string \<Rightarrow> reservation_row list \<Rightarrow> int" where
  "released_quantity k rs = sum_list (map (\<lambda>r. if rw_sku r = k then rw_quantity r else 0) rs)"

lemma update_where_twice:
  assumes "\<And>r. P (f r) = P r" and "\<And>r. f (f r) = f r"
  shows "update_where P f (update_where Q f rows) = update_where (\<lambda>r. Q r \<or> P r) f rows"
  using assms by (auto simp: update_where_def)

lemma release_loop_effect:
  assumes "stock_ok db" and "distinct (map rw_id rs)" and st: "st \<noteq> RS_ACTIVE"
    and "\<forall>r\<in>set rs. r \<in> set (sd_reservations db) \<and> rw_status r = RS_ACTIVE"
    and "release_loop now st rs db = Inr db'"
  shows "stock_ok db' \<and>
    (\<forall>k. stock_avail db' k = map_option (\<lambda>a. a + released_quantity k rs) (stock_avail db k)) \<and>
    sd_reservations db' = update_where (\<lambda>r. rw_id r \<in> rw_id ` set rs)
      (\<lambda>r. r\<lparr>rw_status := st, rw_released_at := Some now\<rparr>) (sd_reservations db)"
  using assms(1,2,4,5)
proof (induction rs arbitrary: db)
  case Nil
  then show ?case by (auto simp: released_quantity_def option.map_ident update_where_def)
next
  case (Cons x rs)
  let ?f = "\<lambda>r. r\<lparr>rw_status := st, rw_released_at := Some now\<rparr>"
  from Cons.prems(4) obtain db1 where 1: "releaseReservation now st x db = Inr db1" and 2: "release_loop now st rs db1 = Inr db'"
    by (auto simp: res_bind_Inr)
  from Cons.prems have x: "x \<in> set (sd_reservations db)" "rw_status x = RS_ACTIVE" by auto
  note e = releaseReservation_effect [OF Cons.prems(1) x st 1]
  have rest: "\<forall>r\<in>set rs. r \<in> set (sd_reservations db1) \<and> rw_status r = RS_ACTIVE"
  proof
    fix r assume "r \<in> set rs"
    with Cons.prems have "r \<in> set (sd_reservations db)" "rw_status r = RS_ACTIVE" by auto
    moreover have "rw_id x \<notin> rw_id ` set rs" using Cons.prems(2) by simp
    with \<open>r \<in> set rs\<close> have "rw_id r \<noteq> rw_id x" by (metis image_eqI)
    ultimately have "r \<in> set (sd_reservations db)" "rw_status r = RS_ACTIVE" "rw_id r \<noteq> rw_id x" by auto
    then show "r \<in> set (sd_reservations db1) \<and> rw_status r = RS_ACTIVE"
      by (auto simp: e(1) set_update_where image_iff intro!: bexI [of _ r])
  qed
  have ih: "stock_ok db' \<and>
    (\<forall>k. stock_avail db' k = map_option (\<lambda>a. a + released_quantity k rs) (stock_avail db1 k)) \<and>
    sd_reservations db' = update_where (\<lambda>r. rw_id r \<in> rw_id ` set rs) ?f (sd_reservations db1)"
    using Cons.prems(2) e(2) rest 2 by (intro Cons.IH) auto
  have av: "stock_avail db1 k = map_option (\<lambda>a. if k = rw_sku x then a - - rw_quantity x else a) (stock_avail db k)" for k
    using move_units_avail [of now "rw_sku x" "- rw_quantity x" db k] by (simp add: e(1) stock_avail_def)
  have "sd_reservations db' = update_where (\<lambda>r. rw_id r = rw_id x \<or> rw_id r \<in> rw_id ` set rs) ?f (sd_reservations db)"
    using ih by (simp add: e(1) update_where_twice)
  moreover have "stock_avail db' k = map_option (\<lambda>a. a + released_quantity k (x # rs)) (stock_avail db k)" for k
    using ih av [of k] by (cases "stock_avail db k") (auto simp: released_quantity_def)
  ultimately show ?case using ih by simp
qed

text \<open>The loop is never refused while every row's version leaves room for the steps to come.\<close>

lemma release_loop_succeeds:
  assumes "stock_ok db" and "distinct (map rw_id rs)" and "st \<noteq> RS_ACTIVE"
    and "\<forall>r\<in>set rs. r \<in> set (sd_reservations db) \<and> rw_status r = RS_ACTIVE"
    and "\<forall>i\<in>set (sd_inventory db). nw_available i + nw_reserved i \<le> 2147483647 \<and>
      - 2147483648 \<le> nw_version i \<and> nw_version i + int (length rs) \<le> 2147483647"
  shows "\<exists>db'. release_loop now st rs db = Inr db'"
  using assms(1,2,4,5)
proof (induction rs arbitrary: db)
  case (Cons x rs)
  then have x: "x \<in> set (sd_reservations db)" "rw_status x = RS_ACTIVE" by auto
  have "nw_available i + nw_reserved i \<le> 2147483647 \<and> - 2147483648 \<le> nw_version i \<and> nw_version i < 2147483647"
    if "i \<in> set (sd_inventory db)" for i
    using Cons.prems(4) that by force
  then obtain db1 where 1: "releaseReservation now st x db = Inr db1"
    using releaseReservation_succeeds [OF Cons.prems(1) x] by blast
  note e = releaseReservation_effect [OF Cons.prems(1) x assms(3) 1]
  have "\<exists>db'. release_loop now st rs db1 = Inr db'"
  proof (rule Cons.IH [OF e(2)])
    show "distinct (map rw_id rs)" using Cons.prems(2) by simp
    have "rw_id x \<notin> rw_id ` set rs" using Cons.prems(2) by simp
    then show "\<forall>r\<in>set rs. r \<in> set (sd_reservations db1) \<and> rw_status r = RS_ACTIVE"
      using Cons.prems(3) by (fastforce simp: e(1) set_update_where image_iff)
    show "\<forall>i\<in>set (sd_inventory db1). nw_available i + nw_reserved i \<le> 2147483647 \<and>
        - 2147483648 \<le> nw_version i \<and> nw_version i + int (length rs) \<le> 2147483647"
      using Cons.prems(4) by (force simp: e(1) move_units_def set_update_where)
  qed
  with 1 show ?case by (simp add: res_bind_def)
qed simp

section \<open>The contract of the stock\<close>

record 's inventory_repository =
  sp_findBySku :: "string \<Rightarrow> ('s, js_error, inventory option) eff"
  sp_findBySkus :: "string list \<Rightarrow> ('s, js_error, inventory list) eff"
  sp_reserve :: "int \<Rightarrow> (nat \<Rightarrow> string) \<Rightarrow> string \<Rightarrow> reservation_item list \<Rightarrow> int \<Rightarrow> ('s, js_error, reservation_result list) eff"
  sp_release :: "int \<Rightarrow> string \<Rightarrow> ('s, js_error, nat) eff"
  sp_releaseExpired :: "int \<Rightarrow> int \<Rightarrow> ('s, js_error, expired_reservation list) eff"

definition KnexInventoryRepository :: "sql_env \<Rightarrow> (string \<Rightarrow> string \<Rightarrow> bool) \<Rightarrow> stock_db inventory_repository" where
  "KnexInventoryRepository E collate =
     \<lparr>sp_findBySku = knex_findBySku, sp_findBySkus = knex_findBySkus, sp_reserve = knex_reserve E collate,
      sp_release = knex_release E, sp_releaseExpired = knex_releaseExpired\<rparr>"

definition expired_quantity :: "(expired_reservation \<Rightarrow> bool) \<Rightarrow> expired_reservation list \<Rightarrow> int" where
  "expired_quantity P rs = sum_list (map (\<lambda>r. if P r then er_quantity r else 0) rs)"

text \<open>
  \<open>avail\<close>: units that can be reserved; \<open>held\<close>: units an order holds; \<open>hist\<close>: the pairs of
  order and SKU that were ever reserved (a pair is reserved at most once).
\<close>

locale stock_port =
  fixes repo :: "'s inventory_repository"
    and inv :: "'s \<Rightarrow> bool"
    and avail :: "'s \<Rightarrow> string \<Rightarrow> int option"
    and held :: "'s \<Rightarrow> string \<Rightarrow> string \<Rightarrow> int"
    and hist :: "'s \<Rightarrow> (string \<times> string) set"
  assumes avail_nonneg: "inv s \<Longrightarrow> avail s k = Some a \<Longrightarrow> 0 \<le> a"
    and held_nonneg: "inv s \<Longrightarrow> 0 \<le> held s ord k"
    and held_hist: "inv s \<Longrightarrow> held s ord k \<noteq> 0 \<Longrightarrow> (ord, k) \<in> hist s"
    and reserve_ok: "inv s \<Longrightarrow> sp_reserve repo now ids ord items ex s = (Inr rs, t) \<Longrightarrow>
      inv t \<and> distinct (map ri_sku items) \<and>
      (\<forall>i\<in>set items. 0 < item_quantity i \<and> avail s (ri_sku i) \<noteq> None \<and> (ord, ri_sku i) \<notin> hist s) \<and>
      (\<forall>k. avail t k = map_option (\<lambda>a. a - items_quantity k items) (avail s k)) \<and>
      (\<forall>o' k. held t o' k = held s o' k + (if o' = ord then items_quantity k items else 0)) \<and>
      hist t = hist s \<union> {ord} \<times> ri_sku ` set items"
    and reserve_err: "sp_reserve repo now ids ord items ex s = (Inl e, t) \<Longrightarrow> t = s"
    and release_ok: "inv s \<Longrightarrow> sp_release repo now ord s = (Inr n, t) \<Longrightarrow>
      inv t \<and> hist t = hist s \<and> (n = 0 \<longrightarrow> t = s) \<and> (n = 0 \<longleftrightarrow> (\<forall>k. held s ord k = 0)) \<and>
      (\<forall>k. avail t k = map_option (\<lambda>a. a + held s ord k) (avail s k)) \<and>
      (\<forall>o' k. held t o' k = (if o' = ord then 0 else held s o' k))"
    and release_err: "sp_release repo now ord s = (Inl e, t) \<Longrightarrow> t = s"
    and expired_ok: "inv s \<Longrightarrow> sp_releaseExpired repo now cutoff s = (Inr xs, t) \<Longrightarrow>
      inv t \<and> hist t = hist s \<and>
      (\<forall>k. avail t k = map_option (\<lambda>a. a + expired_quantity (\<lambda>r. er_sku r = k) xs) (avail s k)) \<and>
      (\<forall>o' k. held t o' k = held s o' k - expired_quantity (\<lambda>r. er_orderId r = o' \<and> er_sku r = k) xs)"
    and expired_err: "sp_releaseExpired repo now cutoff s = (Inl e, t) \<Longrightarrow> t = s"
begin

lemma items_quantity_distinct:
  "distinct (map ri_sku items) \<Longrightarrow> i \<in> set items \<Longrightarrow> items_quantity (ri_sku i) items = item_quantity i"
proof (induction items)
  case (Cons j items)
  have none: "ri_sku i \<notin> ri_sku ` set xs \<Longrightarrow> items_quantity (ri_sku i) xs = 0" for xs
    by (induction xs) (auto simp: items_quantity_def)
  from Cons none [of items] show ?case by (auto simp: items_quantity_def)
qed simp

text \<open>No overselling: what is reserved was available.\<close>

lemma no_oversell:
  assumes "inv s" and "sp_reserve repo now ids ord items ex s = (Inr rs, t)" and "i \<in> set items"
  shows "\<exists>a. avail s (ri_sku i) = Some a \<and> item_quantity i \<le> a"
proof -
  note e = reserve_ok [OF assms(1,2)]
  from e assms(3) obtain a where a: "avail s (ri_sku i) = Some a" by auto
  with e have "avail t (ri_sku i) = Some (a - item_quantity i)"
    using items_quantity_distinct [of items i] assms(3) by simp
  with avail_nonneg [of t] e a show ?thesis by fastforce
qed

text \<open>Units move between the two counters; none appear or vanish.\<close>

lemma reserve_conserves:
  "inv s \<Longrightarrow> sp_reserve repo now ids ord items ex s = (Inr rs, t) \<Longrightarrow> avail s k = Some a \<Longrightarrow>
   \<exists>b. avail t k = Some b \<and> b + held t ord k = a + held s ord k"
  using reserve_ok [of s now ids ord items ex rs t] by auto

text \<open>Releasing an order undoes its reservation.\<close>

lemma reserve_release:
  assumes "inv s" and "sp_reserve repo now ids ord items ex s = (Inr rs, t)"
    and "\<forall>k. held s ord k = 0" and "sp_release repo now' ord t = (Inr n, u)"
  shows "avail u = avail s" and "held u = held s"
proof -
  note e = reserve_ok [OF assms(1,2)]
  then have "inv t" by simp
  note f = release_ok [OF this assms(4)]
  show "avail u = avail s"
  proof
    fix k
    from e f assms(3) show "avail u k = avail s k" by (cases "avail s k") auto
  qed
  show "held u = held s" using e f assms(3) by (auto simp: fun_eq_iff)
qed

lemma release_twice:
  assumes "inv s" and "sp_release repo now ord s = (Inr n, t)" and "sp_release repo now' ord t = (Inr m, u)"
  shows "m = 0 \<and> u = t"
  using release_ok [OF assms(1,2)] release_ok [of t now' ord m u] assms(3) by auto

text \<open>A pair that was ever reserved cannot be reserved again.\<close>

lemma reserve_once:
  assumes "inv s" and "i \<in> set items" and "(ord, ri_sku i) \<in> hist s"
  shows "\<exists>e. sp_reserve repo now ids ord items ex s = (Inl e, s)"
proof (cases "sp_reserve repo now ids ord items ex s")
  case (Pair r t)
  show ?thesis
  proof (cases r)
    case (Inl e)
    with Pair reserve_err show ?thesis by auto
  next
    case (Inr rs)
    with Pair assms reserve_ok [of s now ids ord items ex rs t] show ?thesis by auto
  qed
qed

lemma reserve_distinct:
  assumes "inv s" and "\<not> distinct (map ri_sku items)"
  shows "\<exists>e. sp_reserve repo now ids ord items ex s = (Inl e, s)"
proof (cases "sp_reserve repo now ids ord items ex s")
  case (Pair r t)
  with assms reserve_err reserve_ok [of s now ids ord items ex] show ?thesis by (cases r) auto
qed

end

section \<open>The Knex repository keeps the contract\<close>

definition stock_hist :: "stock_db \<Rightarrow> (string \<times> string) set" where
  "stock_hist db = res_key ` set (sd_reservations db)"

lemma stock_avail_nonneg: "stock_ok db \<Longrightarrow> stock_avail db k = Some a \<Longrightarrow> 0 \<le> a"
  by (auto simp: stock_avail_def stock_ok_def dest: find_SomeD)

lemma stock_held_nonneg: "stock_ok db \<Longrightarrow> 0 \<le> stock_held db ord k"
  unfolding stock_held_def by (rule held_sum_nonneg) (auto simp: stock_ok_def)

lemma held_sum_zero_iff:
  assumes "\<forall>r\<in>set rows. 0 < rw_quantity r"
  shows "held_sum P rows = 0 \<longleftrightarrow> (\<forall>r\<in>set rows. rw_status r = RS_ACTIVE \<longrightarrow> \<not> P r)"
  using assms
proof (induction rows)
  case (Cons r rows)
  with held_sum_nonneg [of rows P] show ?case by auto
qed simp

text \<open>Closing a set of reservations that is closed under the key.\<close>

lemma held_sum_close_all:
  assumes "distinct (map rw_id rows)" and "st \<noteq> RS_ACTIVE"
    and "\<And>r. P (r\<lparr>rw_status := st, rw_released_at := t\<rparr>) = P r"
    and "\<And>r. Q r \<Longrightarrow> rw_status r = RS_ACTIVE"
  shows "held_sum P (update_where (\<lambda>r. rw_id r \<in> rw_id ` set (filter Q rows))
      (\<lambda>r. r\<lparr>rw_status := st, rw_released_at := t\<rparr>) rows) =
    held_sum P rows - sum_list (map (\<lambda>r. if P r then rw_quantity r else 0) (filter Q rows))"
proof -
  have "rw_id r \<in> rw_id ` set (filter Q rows) \<longleftrightarrow> Q r" if "r \<in> set rows" for r
    using that distinct_key_inj [OF assms(1) that] by auto
  then have u: "update_where (\<lambda>r. rw_id r \<in> rw_id ` set (filter Q rows)) f rows = update_where Q f rows" for f
    by (simp add: update_where_def)
  have "sum_list (map (\<lambda>r. (if rw_status (r\<lparr>rw_status := st, rw_released_at := t\<rparr>) = RS_ACTIVE \<and>
          P (r\<lparr>rw_status := st, rw_released_at := t\<rparr>) then rw_quantity (r\<lparr>rw_status := st, rw_released_at := t\<rparr>) else 0) -
        (if rw_status r = RS_ACTIVE \<and> P r then rw_quantity r else 0)) (filter Q xs)) =
      - sum_list (map (\<lambda>r. if P r then rw_quantity r else 0) (filter Q xs))" for xs
    using assms(2,4) by (induction xs) auto
  then show ?thesis unfolding u held_sum_def sum_list_update_where by simp
qed

lemma released_active:
  "released_quantity k (filter (active_of ord) rows) = held_sum (\<lambda>r. rw_order_id r = ord \<and> rw_sku r = k) rows"
  by (induction rows) (auto simp: released_quantity_def active_of_def)

lemma released_order:
  "sum_list (map (\<lambda>r. if rw_order_id r = o' \<and> rw_sku r = k then rw_quantity r else 0) (filter (active_of ord) rows)) =
     (if o' = ord then released_quantity k (filter (active_of ord) rows) else 0)"
proof -
  have "active_of ord r \<Longrightarrow> rw_order_id r = ord" for r by (simp add: active_of_def)
  then show ?thesis by (induction rows) (auto simp: released_quantity_def)
qed

lemma expired_of_row_sel [simp]:
  "er_quantity (expired_of_row r) = rw_quantity r" "er_orderId (expired_of_row r) = rw_order_id r"
  "er_sku (expired_of_row r) = rw_sku r" "er_reservationId (expired_of_row r) = rw_id r"
  by (simp_all add: expired_of_row_def)

interpretation knex_stock: stock_port "KnexInventoryRepository E collate" stock_ok stock_avail stock_held stock_hist
  for E :: sql_env and collate :: "string \<Rightarrow> string \<Rightarrow> bool"
proof (unfold_locales, goal_cases)
  case (1 s k a)
  then show ?case by (rule stock_avail_nonneg)
next
  case (2 s ord k)
  then show ?case by (rule stock_held_nonneg)
next
  case (3 s ord k)
  then have "\<exists>r\<in>set (sd_reservations s). rw_order_id r = ord \<and> rw_sku r = k"
    using held_sum_zero_iff [of "sd_reservations s" "\<lambda>r. rw_order_id r = ord \<and> rw_sku r = k"]
    by (auto simp: stock_held_def stock_ok_def)
  then show ?case by (auto simp: stock_hist_def res_key_def)
next
  case (4 s now ids ord items ex rs t)
  let ?ordered = "sort_by (\<lambda>a b. collate (ri_sku a) (ri_sku b)) items"
  from 4(2) have l: "reserve_loop E now ids ord ex 0 ?ordered s = Inr (rs, t)"
    by (auto simp: KnexInventoryRepository_def knex_reserve_def Let_def split: sum.splits)
  note e = reserve_loop_effect [OF 4(1) l]
  have q: "items_quantity k ?ordered = items_quantity k items" for k
    by (simp add: items_quantity_def sum_list_sort_by)
  have h: "res_key ` set (new_reservations now ids ord ex n xs) = {ord} \<times> ri_sku ` set xs" for n xs
    by (induction xs arbitrary: n) (auto simp: new_reservations_def new_reservation_def res_key_def)
  have "stock_held t o' k = stock_held s o' k + (if o' = ord then items_quantity k items else 0)" for o' k
    using e by (simp add: stock_held_def held_new_reservations q)
  with e h [of 0 ?ordered] show ?case
    by (auto simp: q stock_hist_def distinct_sort_by image_Un)
next
  case (5 now ids ord items ex s e t)
  then show ?case by (auto simp: KnexInventoryRepository_def knex_reserve_def Let_def split: sum.splits)
next
  case (6 s now ord n t)
  let ?rs = "filter (active_of ord) (sd_reservations s)"
  from 6(2) have l: "release_loop now RS_RELEASED ?rs s = Inr t" and n: "n = length ?rs"
    by (auto simp: KnexInventoryRepository_def knex_release_def Let_def split: sum.splits if_splits)
  have d: "distinct (map rw_id (sd_reservations s))" and pos: "\<forall>r\<in>set (sd_reservations s). 0 < rw_quantity r"
    using 6(1) by (auto simp: stock_ok_def)
  have e: "stock_ok t \<and>
    (\<forall>k. stock_avail t k = map_option (\<lambda>a. a + released_quantity k ?rs) (stock_avail s k)) \<and>
    sd_reservations t = update_where (\<lambda>r. rw_id r \<in> rw_id ` set ?rs)
      (\<lambda>r. r\<lparr>rw_status := RS_RELEASED, rw_released_at := Some now\<rparr>) (sd_reservations s)"
    using d by (intro release_loop_effect [OF 6(1) _ _ _ l]) (auto simp: active_of_def distinct_map_filter)
  have rq: "released_quantity k ?rs = stock_held s ord k" for k
    unfolding stock_held_def by (rule released_active)
  have held: "stock_held t o' k = (if o' = ord then 0 else stock_held s o' k)" for o' k
  proof -
    have "stock_held t o' k = stock_held s o' k -
        sum_list (map (\<lambda>r. if rw_order_id r = o' \<and> rw_sku r = k then rw_quantity r else 0) ?rs)"
      using e d unfolding stock_held_def by (simp only:) (rule held_sum_close_all, auto simp: active_of_def)
    moreover have "sum_list (map (\<lambda>r. if rw_order_id r = o' \<and> rw_sku r = k then rw_quantity r else 0) ?rs) =
        (if o' = ord then released_quantity k ?rs else 0)" by (rule released_order)
    ultimately show ?thesis by (simp add: rq)
  qed
  have "?rs = [] \<longleftrightarrow> (\<forall>k. stock_held s ord k = 0)"
    unfolding stock_held_def held_sum_zero_iff [OF pos] by (auto simp: filter_empty_conv active_of_def)
  moreover have "map res_key (sd_reservations t) = map res_key (sd_reservations s)"
    using e by (simp add: map_update_where res_key_def)
  then have "stock_hist t = stock_hist s" unfolding stock_hist_def by (metis list.set_map)
  moreover have "?rs = [] \<Longrightarrow> t = s" using l by simp
  ultimately show ?case using e held n by (simp add: rq)
next
  case (7 now ord s e t)
  then show ?case by (auto simp: KnexInventoryRepository_def knex_release_def Let_def split: sum.splits if_splits)
next
  case (8 s now cutoff xs t)
  let ?rs = "filter (expired_at cutoff) (sd_reservations s)"
  from 8(2) have l: "release_loop now RS_EXPIRED ?rs s = Inr t" and xs: "xs = map expired_of_row ?rs"
    by (auto simp: KnexInventoryRepository_def knex_releaseExpired_def Let_def split: sum.splits)
  have d: "distinct (map rw_id (sd_reservations s))" using 8(1) by (auto simp: stock_ok_def)
  have e: "stock_ok t \<and>
    (\<forall>k. stock_avail t k = map_option (\<lambda>a. a + released_quantity k ?rs) (stock_avail s k)) \<and>
    sd_reservations t = update_where (\<lambda>r. rw_id r \<in> rw_id ` set ?rs)
      (\<lambda>r. r\<lparr>rw_status := RS_EXPIRED, rw_released_at := Some now\<rparr>) (sd_reservations s)"
    using d by (intro release_loop_effect [OF 8(1) _ _ _ l]) (auto simp: expired_at_def distinct_map_filter)
  have q: "expired_quantity P xs = sum_list (map (\<lambda>r. if P (expired_of_row r) then rw_quantity r else 0) ?rs)" for P
    by (simp add: expired_quantity_def xs comp_def cong: if_cong)
  have held: "stock_held t o' k = stock_held s o' k - expired_quantity (\<lambda>r. er_orderId r = o' \<and> er_sku r = k) xs" for o' k
    using e d unfolding stock_held_def q by (simp only:) (subst held_sum_close_all, auto simp: expired_at_def)
  have "map res_key (sd_reservations t) = map res_key (sd_reservations s)"
    using e by (simp add: map_update_where res_key_def)
  then have "stock_hist t = stock_hist s" unfolding stock_hist_def by (metis list.set_map)
  with e held show ?case by (simp add: q released_quantity_def)
next
  case (9 now cutoff s e t)
  then show ?case by (auto simp: KnexInventoryRepository_def knex_releaseExpired_def Let_def split: sum.splits)
qed

end
