(* ===== verification/Messaging.thy ===== *)
theory Messaging
  imports Domain_Event
begin

text \<open>
  The broker clients of \<open>packages/shared/src/messaging\<close>: the topology the services declare,
  the publisher, the consumer's delivery policy and the connection manager.  The broker itself
  (RabbitMQ) is not part of the repository: how it matches a routing key against a binding is
  the argument \<open>matches\<close>, its answer to a publish is the argument \<open>confirm\<close>.
\<close>

section \<open>Topology\<close>

definition ORDER_EXCHANGE :: string where "ORDER_EXCHANGE = ''order.events''"
definition INVENTORY_EXCHANGE :: string where "INVENTORY_EXCHANGE = ''inventory.events''"
definition PAYMENT_EXCHANGE :: string where "PAYMENT_EXCHANGE = ''payment.events''"
definition DEAD_LETTER_EXCHANGE :: string where "DEAD_LETTER_EXCHANGE = ''nexuspay.dlx''"

definition INVENTORY_ORDER_EVENTS :: string where "INVENTORY_ORDER_EVENTS = ''inventory.order-events''"
definition PAYMENT_INVENTORY_EVENTS :: string where "PAYMENT_INVENTORY_EVENTS = ''payment.inventory-events''"
definition ORDER_PAYMENT_EVENTS :: string where "ORDER_PAYMENT_EVENTS = ''order.payment-events''"
definition ORDER_INVENTORY_EVENTS :: string where "ORDER_INVENTORY_EVENTS = ''order.inventory-events''"
definition NOTIFICATION_EVENTS :: string where "NOTIFICATION_EVENTS = ''notification.events''"
definition AUDIT_EVENTS :: string where "AUDIT_EVENTS = ''audit.events''"
definition DEAD_LETTER_QUEUE :: string where "DEAD_LETTER_QUEUE = ''nexuspay.dlq''"

lemmas topology_names =
  ORDER_EXCHANGE_def INVENTORY_EXCHANGE_def PAYMENT_EXCHANGE_def DEAD_LETTER_EXCHANGE_def
  INVENTORY_ORDER_EVENTS_def PAYMENT_INVENTORY_EVENTS_def ORDER_PAYMENT_EVENTS_def
  ORDER_INVENTORY_EVENTS_def NOTIFICATION_EVENTS_def AUDIT_EVENTS_def DEAD_LETTER_QUEUE_def

datatype channel_op =
    AssertExchange string string
  | AssertQueue string "string option"   \<comment> \<open>durable; the dead-letter exchange when given\<close>
  | BindQueue string string string       \<comment> \<open>queue, exchange, binding pattern\<close>

definition setupTopology :: "channel_op list" where
  "setupTopology =
     [AssertExchange ORDER_EXCHANGE ''topic'',
      AssertExchange INVENTORY_EXCHANGE ''topic'',
      AssertExchange PAYMENT_EXCHANGE ''topic'',
      AssertExchange DEAD_LETTER_EXCHANGE ''topic'',
      AssertQueue DEAD_LETTER_QUEUE None,
      BindQueue DEAD_LETTER_QUEUE DEAD_LETTER_EXCHANGE ''#'',
      AssertQueue INVENTORY_ORDER_EVENTS (Some DEAD_LETTER_EXCHANGE),
      BindQueue INVENTORY_ORDER_EVENTS ORDER_EXCHANGE ORDER_CREATED,
      BindQueue INVENTORY_ORDER_EVENTS ORDER_EXCHANGE ORDER_CANCELLED,
      AssertQueue PAYMENT_INVENTORY_EVENTS (Some DEAD_LETTER_EXCHANGE),
      BindQueue PAYMENT_INVENTORY_EVENTS INVENTORY_EXCHANGE INVENTORY_RESERVED,
      AssertQueue ORDER_PAYMENT_EVENTS (Some DEAD_LETTER_EXCHANGE),
      BindQueue ORDER_PAYMENT_EVENTS PAYMENT_EXCHANGE PAYMENT_COMPLETED,
      BindQueue ORDER_PAYMENT_EVENTS PAYMENT_EXCHANGE PAYMENT_FAILED,
      AssertQueue ORDER_INVENTORY_EVENTS (Some DEAD_LETTER_EXCHANGE),
      BindQueue ORDER_INVENTORY_EVENTS INVENTORY_EXCHANGE INVENTORY_RESERVED,
      BindQueue ORDER_INVENTORY_EVENTS INVENTORY_EXCHANGE INVENTORY_FAILED,
      AssertQueue NOTIFICATION_EVENTS (Some DEAD_LETTER_EXCHANGE),
      BindQueue NOTIFICATION_EVENTS ORDER_EXCHANGE ORDER_CONFIRMED,
      BindQueue NOTIFICATION_EVENTS ORDER_EXCHANGE ORDER_CANCELLED,
      BindQueue NOTIFICATION_EVENTS PAYMENT_EXCHANGE PAYMENT_FAILED,
      AssertQueue AUDIT_EVENTS (Some DEAD_LETTER_EXCHANGE),
      BindQueue AUDIT_EVENTS ORDER_EXCHANGE ''#'',
      BindQueue AUDIT_EVENTS INVENTORY_EXCHANGE ''#'',
      BindQueue AUDIT_EVENTS PAYMENT_EXCHANGE ''#'']"

text \<open>
  The queues a topic exchange copies a message to: those with a binding whose pattern matches
  the routing key, each once.  \<open>matches\<close> is the broker's pattern matching; AMQP documents
  that \<open>#\<close> matches every key and that a pattern without wildcards matches itself only.
\<close>

fun binding_at :: "string \<Rightarrow> channel_op \<Rightarrow> (string \<times> string) list" where
  "binding_at ex (BindQueue q ex' p) = (if ex' = ex then [(q, p)] else [])"
| "binding_at ex _ = []"

definition bindings :: "channel_op list \<Rightarrow> string \<Rightarrow> (string \<times> string) list" where
  "bindings ops ex = concat (map (binding_at ex) ops)"

definition route :: "(string \<Rightarrow> string \<Rightarrow> bool) \<Rightarrow> channel_op list \<Rightarrow> string \<Rightarrow> string \<Rightarrow> string list" where
  "route matches ops ex key = remdups (map fst (filter (\<lambda>(q, p). matches p key) (bindings ops ex)))"

definition topic_laws :: "(string \<Rightarrow> string \<Rightarrow> bool) \<Rightarrow> bool" where
  "topic_laws matches \<longleftrightarrow>
     (\<forall>k. matches ''#'' k) \<and>
     (\<forall>p k. CHR ''#'' \<notin> set p \<longrightarrow> CHR ''*'' \<notin> set p \<longrightarrow> (matches p k \<longleftrightarrow> p = k))"

definition literal_match :: "string \<Rightarrow> string \<Rightarrow> bool" where
  "literal_match p k = (p = ''#'' \<or> p = k)"

lemma literal_match_laws: "topic_laws literal_match"
  by (auto simp: topic_laws_def literal_match_def)

lemma topic_match_all: "topic_laws m \<Longrightarrow> m ''#'' k"
  by (simp add: topic_laws_def)

lemma topic_match_events:
  assumes "topic_laws m" and "p \<in> set EventType"
  shows "m p k \<longleftrightarrow> p = k"
proof -
  have "CHR ''#'' \<notin> set p" "CHR ''*'' \<notin> set p"
    using assms(2) by (auto simp: EventType_def event_types)
  with assms(1) show ?thesis by (simp add: topic_laws_def)
qed

lemma event_type_members:
  "ORDER_CREATED \<in> set EventType" "ORDER_CONFIRMED \<in> set EventType" "ORDER_CANCELLED \<in> set EventType"
  "INVENTORY_RESERVED \<in> set EventType" "INVENTORY_FAILED \<in> set EventType"
  "PAYMENT_COMPLETED \<in> set EventType" "PAYMENT_FAILED \<in> set EventType"
  by (simp_all add: EventType_def)

text \<open>The queues reached from each exchange, for any broker that keeps the AMQP rules.\<close>

lemma bindings_order:
  "bindings setupTopology ORDER_EXCHANGE = [(INVENTORY_ORDER_EVENTS, ORDER_CREATED), (INVENTORY_ORDER_EVENTS, ORDER_CANCELLED), (NOTIFICATION_EVENTS, ORDER_CONFIRMED), (NOTIFICATION_EVENTS, ORDER_CANCELLED), (AUDIT_EVENTS, ''#'')]"
  by (simp add: bindings_def setupTopology_def topology_names)

lemma route_order:
  assumes "topic_laws m"
  shows "route m setupTopology ORDER_EXCHANGE key =
    (if key = ORDER_CREATED then [INVENTORY_ORDER_EVENTS, AUDIT_EVENTS]
     else if key = ORDER_CANCELLED then [INVENTORY_ORDER_EVENTS, NOTIFICATION_EVENTS, AUDIT_EVENTS]
     else if key = ORDER_CONFIRMED then [NOTIFICATION_EVENTS, AUDIT_EVENTS]
     else [AUDIT_EVENTS])"
proof -
  note rules = route_def bindings_order topic_match_all [OF assms] topic_match_events [OF assms]
    event_type_members
  consider "key = ORDER_CREATED" | "key = ORDER_CANCELLED" | "key = ORDER_CONFIRMED"
    | "key \<notin> {ORDER_CREATED, ORDER_CANCELLED, ORDER_CONFIRMED}" by blast
  then show ?thesis
    by cases (simp_all add: rules, auto simp: topology_names event_types)
qed

lemma bindings_inventory:
  "bindings setupTopology INVENTORY_EXCHANGE = [(PAYMENT_INVENTORY_EVENTS, INVENTORY_RESERVED), (ORDER_INVENTORY_EVENTS, INVENTORY_RESERVED), (ORDER_INVENTORY_EVENTS, INVENTORY_FAILED), (AUDIT_EVENTS, ''#'')]"
  by (simp add: bindings_def setupTopology_def topology_names)

lemma route_inventory:
  assumes "topic_laws m"
  shows "route m setupTopology INVENTORY_EXCHANGE key =
    (if key = INVENTORY_RESERVED then [PAYMENT_INVENTORY_EVENTS, ORDER_INVENTORY_EVENTS, AUDIT_EVENTS]
     else if key = INVENTORY_FAILED then [ORDER_INVENTORY_EVENTS, AUDIT_EVENTS]
     else [AUDIT_EVENTS])"
proof -
  note rules = route_def bindings_inventory topic_match_all [OF assms] topic_match_events [OF assms]
    event_type_members
  consider "key = INVENTORY_RESERVED" | "key = INVENTORY_FAILED"
    | "key \<notin> {INVENTORY_RESERVED, INVENTORY_FAILED}" by blast
  then show ?thesis
    by cases (simp_all add: rules, auto simp: topology_names event_types)
qed

lemma bindings_payment:
  "bindings setupTopology PAYMENT_EXCHANGE = [(ORDER_PAYMENT_EVENTS, PAYMENT_COMPLETED), (ORDER_PAYMENT_EVENTS, PAYMENT_FAILED), (NOTIFICATION_EVENTS, PAYMENT_FAILED), (AUDIT_EVENTS, ''#'')]"
  by (simp add: bindings_def setupTopology_def topology_names)

lemma route_payment:
  assumes "topic_laws m"
  shows "route m setupTopology PAYMENT_EXCHANGE key =
    (if key = PAYMENT_COMPLETED then [ORDER_PAYMENT_EVENTS, AUDIT_EVENTS]
     else if key = PAYMENT_FAILED then [ORDER_PAYMENT_EVENTS, NOTIFICATION_EVENTS, AUDIT_EVENTS]
     else [AUDIT_EVENTS])"
proof -
  note rules = route_def bindings_payment topic_match_all [OF assms] topic_match_events [OF assms]
    event_type_members
  consider "key = PAYMENT_COMPLETED" | "key = PAYMENT_FAILED"
    | "key \<notin> {PAYMENT_COMPLETED, PAYMENT_FAILED}" by blast
  then show ?thesis
    by cases (simp_all add: rules, auto simp: topology_names event_types)
qed

lemma route_dead_letter:
  assumes "topic_laws m"
  shows "route m setupTopology DEAD_LETTER_EXCHANGE key = [DEAD_LETTER_QUEUE]"
proof -
  have "bindings setupTopology DEAD_LETTER_EXCHANGE = [(DEAD_LETTER_QUEUE, ''#'')]"
    by (simp add: bindings_def setupTopology_def topology_names)
  then show ?thesis by (simp add: route_def topic_match_all [OF assms])
qed

section \<open>Publisher\<close>

record amqp_message =
  am_exchange :: string
  am_routingKey :: string
  am_content :: json
  am_persistent :: bool
  am_contentType :: string
  am_messageId :: string
  am_timestamp :: int
  am_headers :: "(string \<times> string) list"

definition publish_message ::
    "request_context option \<Rightarrow> int \<Rightarrow> string \<Rightarrow> string \<Rightarrow> domain_event \<Rightarrow> amqp_message" where
  "publish_message ctx now ex key e =
     (let headers = [(''correlationId'', ev_correlationId e), (''causationId'', ev_causationId e)];
          traceparent = (case em_traceparent (ev_metadata e) of
                           Some t \<Rightarrow> Some t | None \<Rightarrow> currentTraceparent ctx);
          headers' = (case traceparent of
                        Some t \<Rightarrow> if t = [] then headers else headers @ [(''traceparent'', t)]
                      | None \<Rightarrow> headers)
      in \<lparr>am_exchange = ex, am_routingKey = key, am_content = event_to_json e, am_persistent = True,
          am_contentType = ''application/json'', am_messageId = ev_id e, am_timestamp = now,
          am_headers = headers'\<rparr>)"

text \<open>
  The broker's log of accepted messages is the state.  \<open>confirm m = None\<close> is an ack of the
  publisher confirm; an error is a nack, and \<open>publish\<close> rejects with it.
\<close>

definition publish ::
    "(amqp_message \<Rightarrow> js_error option) \<Rightarrow> request_context option \<Rightarrow> int \<Rightarrow> string \<Rightarrow> string \<Rightarrow>
     domain_event \<Rightarrow> (amqp_message list, js_error, unit) eff" where
  "publish confirm ctx now ex key e sent =
     (let m = publish_message ctx now ex key e in
      case confirm m of
        Some err \<Rightarrow> (Inl err, sent)
      | None \<Rightarrow> (Inr (), sent @ [m]))"

section \<open>Consumer\<close>

datatype settlement = Ack | Requeue | DeadLetter

text \<open>
  The outcome of the channel callback: the settlement it sends, or none because an error
  escaped it.  \<open>content\<close> is what \<open>JSON.parse\<close> yields for the body (\<open>None\<close>: it throws).
  Reading a member of \<open>event.metadata\<close> throws unless the body is an object whose
  \<open>metadata\<close> is neither missing nor null.
\<close>

definition metadata_readable :: "json \<Rightarrow> bool" where
  "metadata_readable v = (case json_get v ''metadata'' of None \<Rightarrow> False | Some JNull \<Rightarrow> False | Some _ \<Rightarrow> True)"

record delivery =
  dl_content :: "json option"
  dl_headerTraceparent :: "string option"
  dl_redelivered :: bool

definition on_message ::
    "(request_context \<Rightarrow> json \<Rightarrow> ('s, js_error, unit) eff) \<Rightarrow> string \<Rightarrow> nat list \<Rightarrow> nat list \<Rightarrow> int \<Rightarrow>
     delivery \<Rightarrow> 's \<Rightarrow> settlement option \<times> 's" where
  "on_message handler uuid tb sb now msg s =
     (case dl_content msg of
        None \<Rightarrow> (Some DeadLetter, s)
      | Some v \<Rightarrow>
          if \<not> metadata_readable v then (None, s)
          else
            let meta = the (json_get v ''metadata'');
                headerTraceparent = (case dl_headerTraceparent msg of
                                       Some t \<Rightarrow> Some t | None \<Rightarrow> get_str meta ''traceparent'');
                trace = continueTrace tb sb headerTraceparent;
                ctx = \<lparr>rc_requestId = uuid,
                       rc_correlationId = (case get_str v ''correlationId'' of Some c \<Rightarrow> c | None \<Rightarrow> []),
                       rc_userId = get_str meta ''userId'', rc_startTime = now,
                       rc_traceId = Some (tc_traceId trace), rc_spanId = Some (tc_spanId trace)\<rparr>
            in case handler ctx v s of
                 (Inr _, t) \<Rightarrow> (Some Ack, t)
               | (Inl _, t) \<Rightarrow> (if dl_redelivered msg then (Some DeadLetter, t) else (Some Requeue, t)))"

lemma event_metadata_readable: "metadata_readable (event_to_json e)"
  by (simp add: metadata_readable_def event_to_json_def metadata_to_json_def)

text \<open>
  A message's life on a queue: delivered until it is settled for good; a requeued message
  comes back with the redelivered flag set.  \<open>deliver_all\<close> counts the deliveries.
\<close>

fun deliver_until_settled ::
    "nat \<Rightarrow> (request_context \<Rightarrow> json \<Rightarrow> ('s, js_error, unit) eff) \<Rightarrow> string \<Rightarrow> nat list \<Rightarrow> nat list \<Rightarrow> int \<Rightarrow>
     delivery \<Rightarrow> 's \<Rightarrow> (settlement option \<times> nat \<times> 's) option" where
  "deliver_until_settled 0 h uuid tb sb now msg s = None"
| "deliver_until_settled (Suc fuel) h uuid tb sb now msg s =
     (case on_message h uuid tb sb now msg s of
        (Some Requeue, t) \<Rightarrow>
          map_option (\<lambda>(r, n, u). (r, Suc n, u))
            (deliver_until_settled fuel h uuid tb sb now (msg\<lparr>dl_redelivered := True\<rparr>) t)
      | (r, t) \<Rightarrow> Some (r, 1, t))"

lemma redelivered_not_requeued:
  "dl_redelivered msg \<Longrightarrow> fst (on_message h uuid tb sb now msg s) \<noteq> Some Requeue"
  by (auto simp: on_message_def Let_def split: option.splits prod.splits sum.splits)

lemma on_message_unparseable:
  "dl_content msg = None \<Longrightarrow> on_message h uuid tb sb now msg s = (Some DeadLetter, s)"
  by (simp add: on_message_def)

lemma on_message_poison:
  "dl_content msg = Some v \<Longrightarrow> \<not> metadata_readable v \<Longrightarrow> on_message h uuid tb sb now msg s = (None, s)"
  by (simp add: on_message_def)

lemma deliver_at_most_twice:
  "\<exists>r n u. deliver_until_settled 2 h uuid tb sb now msg s = Some (r, n, u) \<and> r \<noteq> Some Requeue \<and> n \<le> 2"
proof -
  obtain r t where 1: "on_message h uuid tb sb now msg s = (r, t)" by fastforce
  obtain r2 t2 where 2: "on_message h uuid tb sb now (msg\<lparr>dl_redelivered := True\<rparr>) t = (r2, t2)" by fastforce
  have r2: "r2 \<noteq> Some Requeue"
    using redelivered_not_requeued [of "msg\<lparr>dl_redelivered := True\<rparr>" h uuid tb sb now t] 2 by simp
  show ?thesis
  proof (cases "r = Some Requeue")
    case True
    with 1 2 r2 show ?thesis
      by (auto simp: numeral_2_eq_2 split: option.split settlement.split)
  next
    case False
    with 1 show ?thesis by (auto simp: numeral_2_eq_2 split: option.split settlement.split)
  qed
qed

section \<open>Connection manager\<close>

text \<open>
  \<open>RabbitMQConnection\<close>: connection and channel are present or absent; \<open>timers\<close> counts the
  scheduled reconnect callbacks.  The outcome of an attempt to connect is an argument.
\<close>

record rabbit =
  rb_connection :: bool
  rb_channel :: bool
  rb_reconnecting :: bool
  rb_attempts :: nat
  rb_timers :: nat

definition rabbit_init :: rabbit where
  "rabbit_init = \<lparr>rb_connection = False, rb_channel = False, rb_reconnecting = False, rb_attempts = 0, rb_timers = 0\<rparr>"

definition reconnectDelay :: int where
  "reconnectDelay = 5000"

text \<open>
  \<open>connect()\<close>: the broker may refuse the connection, or accept it and refuse the channel or
  the prefetch that follows (the fields assigned before the failure keep their value).
\<close>

datatype connect_outcome = Connected | ConnectionRefused | ChannelRefused | PrefetchRefused

definition rabbit_connect :: "connect_outcome \<Rightarrow> rabbit \<Rightarrow> bool \<times> rabbit" where
  "rabbit_connect out c =
     (case out of
        ConnectionRefused \<Rightarrow> (False, c)
      | ChannelRefused \<Rightarrow> (False, c\<lparr>rb_connection := True\<rparr>)
      | PrefetchRefused \<Rightarrow> (False, c\<lparr>rb_connection := True, rb_channel := True\<rparr>)
      | Connected \<Rightarrow> (True, c\<lparr>rb_connection := True, rb_channel := True, rb_attempts := 0\<rparr>))"

definition handleDisconnect :: "rabbit \<Rightarrow> rabbit" where
  "handleDisconnect c =
     (let c1 = c\<lparr>rb_channel := False, rb_connection := False\<rparr> in
      if rb_reconnecting c1 then c1
      else c1\<lparr>rb_reconnecting := True, rb_attempts := Suc (rb_attempts c1), rb_timers := Suc (rb_timers c1)\<rparr>)"

text \<open>The callback of the reconnect timer.\<close>

definition reconnect_timer :: "connect_outcome \<Rightarrow> rabbit \<Rightarrow> rabbit" where
  "reconnect_timer out c =
     (let c0 = c\<lparr>rb_timers := rb_timers c - 1\<rparr>;
          (ok, c1) = rabbit_connect out c0;
          c2 = c1\<lparr>rb_reconnecting := False\<rparr>
      in if ok then c2 else handleDisconnect c2)"

definition isConnected :: "rabbit \<Rightarrow> bool" where
  "isConnected c = (rb_connection c \<and> rb_channel c)"

definition getChannel :: "rabbit \<Rightarrow> js_error + unit" where
  "getChannel c =
     (if rb_channel c then Inr ()
      else Inl (PlainError ''RabbitMQ channel not available. Call connect() first.''))"

text \<open>
  \<open>close()\<close>: the library emits the connection's \<open>close\<close> event once the closing handshake
  is done, which runs the handler installed by \<open>connect\<close> before \<open>this.connection = null\<close>.
\<close>

definition rabbit_close :: "rabbit \<Rightarrow> rabbit" where
  "rabbit_close c =
     (let c1 = (if rb_channel c then c\<lparr>rb_channel := False\<rparr> else c) in
      if rb_connection c1 then (handleDisconnect c1)\<lparr>rb_connection := False\<rparr> else c1)"

datatype rabbit_event = EvConnect connect_outcome | EvError | EvClose | EvTimer connect_outcome | EvShutdown

text \<open>
  The events that can happen to the manager: the library's error and close notifications
  (only while a connection is held), the timer (only while one is pending), the shutdown.
\<close>

inductive rabbit_step :: "rabbit \<Rightarrow> rabbit_event \<Rightarrow> rabbit \<Rightarrow> bool" where
  rs_connect: "\<not> rb_connection c \<Longrightarrow> \<not> rb_reconnecting c \<Longrightarrow>
     rabbit_step c (EvConnect out) (snd (rabbit_connect out c))"
| rs_error: "rb_connection c \<Longrightarrow> rabbit_step c EvError (handleDisconnect c)"
| rs_close: "rabbit_step c EvClose (handleDisconnect c)"
| rs_timer: "0 < rb_timers c \<Longrightarrow> rabbit_step c (EvTimer out) (reconnect_timer out c)"
| rs_shutdown: "rabbit_step c EvShutdown (rabbit_close c)"

inductive rabbit_reachable :: "rabbit \<Rightarrow> bool" where
  rr_init: "rabbit_reachable rabbit_init"
| rr_step: "rabbit_reachable c \<Longrightarrow> rabbit_step c e d \<Longrightarrow> rabbit_reachable d"

inductive_cases rabbit_stepE: "rabbit_step c e d"

definition rabbit_inv :: "rabbit \<Rightarrow> bool" where
  "rabbit_inv c \<longleftrightarrow> (rb_reconnecting c \<longleftrightarrow> rb_timers c = 1) \<and> rb_timers c \<le> 1"

lemma handleDisconnect_inv: "rabbit_inv c \<Longrightarrow> rabbit_inv (handleDisconnect c)"
  by (auto simp: rabbit_inv_def handleDisconnect_def Let_def)

lemma rabbit_connect_fields:
  "rb_reconnecting (snd (rabbit_connect out c)) = rb_reconnecting c"
  "rb_timers (snd (rabbit_connect out c)) = rb_timers c"
  by (cases out; simp add: rabbit_connect_def)+

lemma reconnect_timer_inv:
  assumes "rabbit_inv c" "0 < rb_timers c"
  shows "rabbit_inv (reconnect_timer out c)"
proof -
  have "rb_timers c = 1" using assms by (auto simp: rabbit_inv_def)
  then show ?thesis
    by (cases out) (auto simp: reconnect_timer_def rabbit_connect_def handleDisconnect_def rabbit_inv_def Let_def)
qed

lemma rabbit_close_inv: "rabbit_inv c \<Longrightarrow> rabbit_inv (rabbit_close c)"
  by (auto simp: rabbit_close_def handleDisconnect_def rabbit_inv_def Let_def)

lemma rabbit_connect_inv: "rabbit_inv c \<Longrightarrow> rabbit_inv (snd (rabbit_connect out c))"
  by (simp add: rabbit_inv_def rabbit_connect_fields)

lemma rabbit_step_inv: "rabbit_step c e d \<Longrightarrow> rabbit_inv c \<Longrightarrow> rabbit_inv d"
  by (induction rule: rabbit_step.induct)
    (simp_all add: rabbit_connect_inv handleDisconnect_inv reconnect_timer_inv rabbit_close_inv)

lemma rabbit_reachable_inv: "rabbit_reachable c \<Longrightarrow> rabbit_inv c"
proof (induction rule: rabbit_reachable.induct)
  case rr_init
  show ?case by (simp add: rabbit_inv_def rabbit_init_def)
next
  case (rr_step c e d)
  then show ?case by (blast intro: rabbit_step_inv)
qed

end
