(* ===== verification/Inventory_Service.thy ===== *)
theory Inventory_Service
  imports Inventory Messaging
begin

text \<open>
  The application layer of the inventory service: the reserve and release handlers, the stock
  query, the expiry sweeper (\<open>infrastructure/jobs/ReservationExpiryJob.ts\<close>) and the saga's
  event handlers (\<open>interfaces/messaging/eventHandlers.ts\<close>), over any store that keeps the
  contract \<open>stock_port\<close>.
\<close>

record stock_call =
  sc_now :: int
  sc_ids :: "nat \<Rightarrow> string"
  sc_uuid :: string
  sc_request :: "request_context option"

section \<open>Handlers\<close>

record reserve_result =
  rs_orderId :: string
  rs_reservations :: "reservation_result list"

definition ReserveStock_execute ::
    "'s inventory_repository \<Rightarrow> int \<Rightarrow> stock_call \<Rightarrow> string \<Rightarrow> reservation_item list \<Rightarrow> ('s, js_error, reserve_result) eff" where
  "ReserveStock_execute repo ttlSeconds cx orderId items =
     (let expiresAt = sc_now cx + ttlSeconds * 1000 in
      bind_eff (sp_reserve repo (sc_now cx) (sc_ids cx) orderId items expiresAt) (\<lambda>reservations.
      ret \<lparr>rs_orderId = orderId, rs_reservations = reservations\<rparr>))"

definition ReleaseStock_execute ::
    "'s inventory_repository \<Rightarrow> stock_call \<Rightarrow> string \<Rightarrow> ('s, js_error, string \<times> nat) eff" where
  "ReleaseStock_execute repo cx orderId =
     bind_eff (sp_release repo (sc_now cx) orderId) (\<lambda>releasedCount. ret (orderId, releasedCount))"

record stock_level =
  sl_sku :: string
  sl_available :: int
  sl_reserved :: int
  sl_found :: bool

text \<open>\<open>new Map(pairs)\<close> keeps the last value of a key.\<close>

definition CheckStock_execute :: "'s inventory_repository \<Rightarrow> string list \<Rightarrow> ('s, js_error, stock_level list) eff" where
  "CheckStock_execute repo skus =
     bind_eff (sp_findBySkus repo skus) (\<lambda>found.
       let bySku = map_of (rev (map (\<lambda>i. (inv_sku i, i)) found)) in
       ret (map (\<lambda>sku. case bySku sku of
               Some i \<Rightarrow> \<lparr>sl_sku = sku, sl_available = inv_available i, sl_reserved = inv_reserved i, sl_found = True\<rparr>
             | None \<Rightarrow> \<lparr>sl_sku = sku, sl_available = 0, sl_reserved = 0, sl_found = False\<rparr>) skus))"

section \<open>The expiry sweeper\<close>

record 's expiry_job =
  jb_store :: 's
  jb_running :: bool
  jb_timer :: bool

definition job_start :: "'s expiry_job \<Rightarrow> 's expiry_job" where
  "job_start j = (if jb_timer j then j else j\<lparr>jb_timer := True\<rparr>)"

definition job_stop :: "'s expiry_job \<Rightarrow> 's expiry_job" where
  "job_stop j = (if jb_timer j then j\<lparr>jb_timer := False\<rparr> else j)"

definition runOnce :: "'s inventory_repository \<Rightarrow> int \<Rightarrow> 's expiry_job \<Rightarrow> nat \<times> 's expiry_job" where
  "runOnce repo now j =
     (if jb_running j then (0, j)
      else case sp_releaseExpired repo now now (jb_store j) of
        (Inl e, s) \<Rightarrow> (0, j\<lparr>jb_store := s\<rparr>)
      | (Inr released, s) \<Rightarrow> (length released, j\<lparr>jb_store := s\<rparr>))"

section \<open>Event handlers\<close>

type_synonym ('s, 'a) stock_op = "('s \<times> amqp_message list, js_error, 'a) eff"

definition on_stock :: "('s, js_error, 'a) eff \<Rightarrow> ('s, 'a) stock_op" where
  "on_stock m s = (case m (fst s) of (r, t) \<Rightarrow> (r, (t, snd s)))"

definition str_member :: "json \<Rightarrow> string \<Rightarrow> string" where
  "str_member v k = (case get_str v k of Some s \<Rightarrow> s | None \<Rightarrow> [])"

text \<open>\<open>publish(type, causedBy, data)\<close>: the envelope, then the publisher with its confirm.\<close>

definition stock_event :: "stock_call \<Rightarrow> string \<Rightarrow> json \<Rightarrow> json \<Rightarrow> domain_event" where
  "stock_event cx type causedBy data =
     \<lparr>ev_id = sc_uuid cx, ev_type = type, ev_source = ''inventory-service'', ev_timestamp = sc_now cx,
      ev_correlationId = str_member causedBy ''correlationId'', ev_causationId = str_member causedBy ''id'',
      ev_data = data, ev_metadata = \<lparr>em_version = 1, em_userId = None, em_traceparent = None\<rparr>\<rparr>"

definition stock_publish ::
    "(amqp_message \<Rightarrow> js_error option) \<Rightarrow> stock_call \<Rightarrow> string \<Rightarrow> json \<Rightarrow> json \<Rightarrow> ('s, unit) stock_op" where
  "stock_publish confirm cx type causedBy data s =
     (case publish confirm (sc_request cx) (sc_now cx) INVENTORY_EXCHANGE type (stock_event cx type causedBy data) (snd s) of
        (r, b) \<Rightarrow> (r, (fst s, b)))"

text \<open>
  \<open>data.items.map(...)\<close> throws when \<open>items\<close> is no array or holds null; a line without a
  text SKU and a missing order id are rejected by the query builder once they reach it.
\<close>

definition event_items :: "json \<Rightarrow> js_error + json list" where
  "event_items data =
     (case json_get data ''items'' of
        Some (JArr xs) \<Rightarrow> if JNull \<in> set xs then Inl (LibraryError ''TypeError'') else Inr xs
      | _ \<Rightarrow> Inl (LibraryError ''TypeError''))"

definition item_of_json :: "json \<Rightarrow> js_error + reservation_item" where
  "item_of_json x =
     (case get_str x ''sku'' of
        Some k \<Rightarrow> Inr \<lparr>ri_sku = k, ri_quantity = json_get x ''quantity''\<rparr>
      | None \<Rightarrow> Inl (LibraryError ''undefined binding sku''))"

definition reservation_json :: "reservation_result \<Rightarrow> json" where
  "reservation_json r = JObj [(''sku'', JStr (rr_sku r)), (''quantity'', JNum (of_int (rr_quantity r))),
     (''reservationId'', JStr (rr_reservationId r))]"

definition reserve_from_event ::
    "'s inventory_repository \<Rightarrow> int \<Rightarrow> stock_call \<Rightarrow> json \<Rightarrow> json list \<Rightarrow> ('s, js_error, reserve_result) eff" where
  "reserve_from_event repo ttl cx data xs =
     bind_eff (lift_res (map_res item_of_json xs)) (\<lambda>items.
       case get_str data ''orderId'' of
         Some orderId \<Rightarrow> ReserveStock_execute repo ttl cx orderId items
       | None \<Rightarrow> throw (LibraryError ''undefined order_id''))"

definition reserved_payload :: "json \<Rightarrow> reserve_result \<Rightarrow> json" where
  "reserved_payload data result = JObj
     (opt_member ''orderId'' id (json_get data ''orderId'') @ opt_member ''customerId'' id (json_get data ''customerId'')
      @ opt_member ''totalAmount'' id (json_get data ''totalAmount'') @ opt_member ''currency'' id (json_get data ''currency'')
      @ [(''reservations'', JArr (map reservation_json (rs_reservations result)))])"

definition failed_payload :: "json \<Rightarrow> string \<Rightarrow> json" where
  "failed_payload data reason = JObj (opt_member ''orderId'' id (json_get data ''orderId'') @ [(''reason'', JStr reason)])"

definition onOrderCreated ::
    "(string \<Rightarrow> string) \<Rightarrow> (amqp_message \<Rightarrow> js_error option) \<Rightarrow> 's inventory_repository \<Rightarrow> int \<Rightarrow> stock_call \<Rightarrow>
     json \<Rightarrow> ('s, unit) stock_op" where
  "onOrderCreated libmsg confirm repo ttl cx event =
     (let data = (case json_get event ''data'' of Some d \<Rightarrow> d | None \<Rightarrow> JNull) in
      bind_eff (lift_res (event_items data)) (\<lambda>xs.
      catch_eff
        (bind_eff (on_stock (reserve_from_event repo ttl cx data xs)) (\<lambda>result.
         stock_publish confirm cx INVENTORY_RESERVED event (reserved_payload data result)))
        (\<lambda>err. stock_publish confirm cx INVENTORY_FAILED event (failed_payload data (error_message libmsg err)))))"

definition onOrderCancelled ::
    "(amqp_message \<Rightarrow> js_error option) \<Rightarrow> 's inventory_repository \<Rightarrow> stock_call \<Rightarrow> json \<Rightarrow> ('s, unit) stock_op" where
  "onOrderCancelled confirm repo cx event =
     (case Option.bind (json_get event ''data'') (\<lambda>d. get_str d ''orderId'') of
        None \<Rightarrow> throw (LibraryError ''undefined binding order_id'')
      | Some orderId \<Rightarrow>
          bind_eff (on_stock (ReleaseStock_execute repo cx orderId)) (\<lambda>(oid, releasedCount).
            if 0 < releasedCount
            then stock_publish confirm cx INVENTORY_RELEASED event (JObj [(''orderId'', JStr orderId)])
            else ret ()))"

definition stock_handle ::
    "(string \<Rightarrow> string) \<Rightarrow> (amqp_message \<Rightarrow> js_error option) \<Rightarrow> 's inventory_repository \<Rightarrow> int \<Rightarrow> stock_call \<Rightarrow>
     json \<Rightarrow> ('s, unit) stock_op" where
  "stock_handle libmsg confirm repo ttl cx event =
     (if get_str event ''type'' = Some ORDER_CREATED then onOrderCreated libmsg confirm repo ttl cx event
      else if get_str event ''type'' = Some ORDER_CANCELLED then onOrderCancelled confirm repo cx event
      else ret ())"

section \<open>What the handlers do to a store that keeps the contract\<close>

definition stock_message :: "stock_call \<Rightarrow> string \<Rightarrow> json \<Rightarrow> json \<Rightarrow> amqp_message" where
  "stock_message cx type causedBy data =
     publish_message (sc_request cx) (sc_now cx) INVENTORY_EXCHANGE type (stock_event cx type causedBy data)"

lemma stock_publish_result:
  "stock_publish confirm cx type causedBy data s =
     (case confirm (stock_message cx type causedBy data) of
        Some err \<Rightarrow> (Inl err, s)
      | None \<Rightarrow> (Inr (), (fst s, snd s @ [stock_message cx type causedBy data])))"
  by (simp add: stock_publish_def publish_def stock_message_def Let_def split: option.split)

lemma stock_message_key [simp]: "am_routingKey (stock_message cx type causedBy data) = type"
  by (simp add: stock_message_def publish_message_def Let_def)

lemma stock_messages_differ:
  "stock_message cx INVENTORY_RESERVED causedBy d \<noteq> stock_message cx INVENTORY_FAILED causedBy d'"
proof
  assume "stock_message cx INVENTORY_RESERVED causedBy d = stock_message cx INVENTORY_FAILED causedBy d'"
  then have "INVENTORY_RESERVED = INVENTORY_FAILED" by (metis stock_message_key)
  then show False by (simp add: event_types)
qed

context stock_port
begin

text \<open>The three outcomes of an order.created delivery.\<close>

lemma onOrderCreated_cases:
  assumes inv: "inv (fst s)" and data: "json_get event ''data'' = Some data"
    and xs: "event_items data = Inr xs" and items: "map_res item_of_json xs = Inr items"
    and oid: "get_str data ''orderId'' = Some ord"
    and ex: "onOrderCreated libmsg confirm repo ttl cx event s = (r, t)"
  obtains (reserved) rs where "r = Inr ()" "sp_reserve repo (sc_now cx) (sc_ids cx) ord items (sc_now cx + ttl * 1000) (fst s) = (Inr rs, fst t)"
      "snd t = snd s @ [stock_message cx INVENTORY_RESERVED event (reserved_payload data \<lparr>rs_orderId = ord, rs_reservations = rs\<rparr>)]"
  | (refused) e where "sp_reserve repo (sc_now cx) (sc_ids cx) ord items (sc_now cx + ttl * 1000) (fst s) = (Inl e, fst s)"
      "fst t = fst s" "(r, t) = stock_publish confirm cx INVENTORY_FAILED event (failed_payload data (error_message libmsg e)) s"
  | (unconfirmed) rs s1 e where "sp_reserve repo (sc_now cx) (sc_ids cx) ord items (sc_now cx + ttl * 1000) (fst s) = (Inr rs, s1)"
      "fst t = s1" "(r, t) = stock_publish confirm cx INVENTORY_FAILED event (failed_payload data (error_message libmsg e)) (s1, snd s)"
proof -
  obtain u s1 where u: "sp_reserve repo (sc_now cx) (sc_ids cx) ord items (sc_now cx + ttl * 1000) (fst s) = (u, s1)"
    by fastforce
  have ex': "(r, t) = catch_eff
        (bind_eff (on_stock (ReserveStock_execute repo ttl cx ord items)) (\<lambda>result.
         stock_publish confirm cx INVENTORY_RESERVED event (reserved_payload data result)))
        (\<lambda>err. stock_publish confirm cx INVENTORY_FAILED event (failed_payload data (error_message libmsg err))) s"
    using ex data xs items oid by (simp add: onOrderCreated_def reserve_from_event_def)
  show thesis
  proof (cases u)
    case (Inl e)
    with u reserve_err have s1: "s1 = fst s" by auto
    with ex' u Inl have "(r, t) = stock_publish confirm cx INVENTORY_FAILED event (failed_payload data (error_message libmsg e)) s"
      by (simp add: catch_eff_def bind_eff_def on_stock_def ReserveStock_execute_def)
    with refused [of e] u Inl s1 show thesis by (auto simp: stock_publish_result split: option.splits)
  next
    case (Inr rs)
    let ?m = "stock_message cx INVENTORY_RESERVED event (reserved_payload data \<lparr>rs_orderId = ord, rs_reservations = rs\<rparr>)"
    show thesis
    proof (cases "confirm ?m")
      case None
      with ex' u Inr reserved [of rs] show thesis
        by (simp add: catch_eff_def bind_eff_def on_stock_def ReserveStock_execute_def ret_def stock_publish_result)
    next
      case (Some e)
      with ex' u Inr have "(r, t) = stock_publish confirm cx INVENTORY_FAILED event (failed_payload data (error_message libmsg e)) (s1, snd s)"
        by (simp add: catch_eff_def bind_eff_def on_stock_def ReserveStock_execute_def ret_def stock_publish_result)
      with unconfirmed [of rs s1 e] u Inr show thesis by (auto simp: stock_publish_result split: option.splits)
    qed
  qed
qed

lemma handle_created_inv:
  assumes "inv (fst s)" and "json_get event ''data'' = Some data" and "event_items data = Inr xs"
    and "map_res item_of_json xs = Inr items" and "get_str data ''orderId'' = Some ord"
    and "onOrderCreated libmsg confirm repo ttl cx event s = (r, t)"
  shows "inv (fst t)"
  using assms
proof (cases rule: onOrderCreated_cases)
  case (reserved rs)
  then show ?thesis using reserve_ok [OF assms(1)] by blast
next
  case (refused e)
  with assms(1) show ?thesis by simp
next
  case (unconfirmed rs s1 e)
  then show ?thesis using reserve_ok [OF assms(1)] by blast
qed

text \<open>
  A second delivery of an order.created whose stock is already held publishes inventory.failed
  and leaves the hold in place.
\<close>

lemma redelivered_created:
  assumes inv: "inv (fst s)" and data: "json_get event ''data'' = Some data"
    and xs: "event_items data = Inr xs" and items: "map_res item_of_json xs = Inr items"
    and oid: "get_str data ''orderId'' = Some ord" and i: "i \<in> set items" "(ord, ri_sku i) \<in> hist (fst s)"
    and conf: "\<And>m. confirm m = None"
  shows "\<exists>e. onOrderCreated libmsg confirm repo ttl cx event s =
    (Inr (), (fst s, snd s @ [stock_message cx INVENTORY_FAILED event (failed_payload data (error_message libmsg e))]))"
proof -
  obtain r t where ex: "onOrderCreated libmsg confirm repo ttl cx event s = (r, t)"
    by (cases "onOrderCreated libmsg confirm repo ttl cx event s")
  obtain e where e: "sp_reserve repo (sc_now cx) (sc_ids cx) ord items (sc_now cx + ttl * 1000) (fst s) = (Inl e, fst s)"
    using reserve_once [OF inv i] by blast
  from inv data xs items oid ex show ?thesis
    by (cases rule: onOrderCreated_cases) (use e ex conf in \<open>auto simp: stock_publish_result\<close>)
qed

text \<open>The cancellation of an order returns all it holds and says so once.\<close>

lemma onOrderCancelled_effect:
  assumes inv: "inv (fst s)" and oid: "Option.bind (json_get event ''data'') (\<lambda>d. get_str d ''orderId'') = Some ord"
    and ex: "onOrderCancelled confirm repo cx event s = (Inr (), t)"
  shows "inv (fst t)" and "\<forall>k. held (fst t) ord k = 0"
    and "\<forall>k. avail (fst t) k = map_option (\<lambda>a. a + held (fst s) ord k) (avail (fst s) k)"
    and "snd t = (if \<forall>k. held (fst s) ord k = 0 then snd s
       else snd s @ [stock_message cx INVENTORY_RELEASED event (JObj [(''orderId'', JStr ord)])])"
proof -
  obtain u s1 where u: "sp_release repo (sc_now cx) ord (fst s) = (u, s1)" by fastforce
  from ex oid u obtain n where n: "u = Inr n"
    by (cases u) (auto simp: onOrderCancelled_def ReleaseStock_execute_def bind_eff_def on_stock_def)
  note e = release_ok [OF inv u [unfolded n]]
  have t: "fst t = s1 \<and> snd t = (if n = 0 then snd s else snd s @ [stock_message cx INVENTORY_RELEASED event (JObj [(''orderId'', JStr ord)])])"
    using ex oid u n by (auto simp: onOrderCancelled_def ReleaseStock_execute_def bind_eff_def on_stock_def ret_def
        stock_publish_result split: if_splits option.splits)
  show "inv (fst t)" "\<forall>k. held (fst t) ord k = 0"
    "\<forall>k. avail (fst t) k = map_option (\<lambda>a. a + held (fst s) ord k) (avail (fst s) k)"
    "snd t = (if \<forall>k. held (fst s) ord k = 0 then snd s
       else snd s @ [stock_message cx INVENTORY_RELEASED event (JObj [(''orderId'', JStr ord)])])"
    using e t by auto
qed

lemma runOnce_inv:
  "inv (jb_store j) \<Longrightarrow> runOnce repo now j = (n, j') \<Longrightarrow> inv (jb_store j') \<and> jb_running j' = jb_running j"
  by (auto simp: runOnce_def dest: expired_ok expired_err split: if_splits prod.splits sum.splits)

end

end
