(* ===== verification/Stock_Runs.thy ===== *)
theory Stock_Runs
  imports Inventory_Service
begin

text \<open>
  Whole runs of the inventory store: any interleaving of reservations, releases and expiry sweeps,
  each one transaction, as a step relation with its reachable states.  The physical stock of a SKU
  (available plus reserved units) is the quantity no step changes.
\<close>

section \<open>Units\<close>

definition stock_units :: "stock_db \<Rightarrow> (string \<times> int) list" where
  "stock_units db = map (\<lambda>r. (nw_sku r, nw_available r + nw_reserved r)) (sd_inventory db)"

lemma stock_units_reservations [simp]: "stock_units (db\<lparr>sd_reservations := rs\<rparr>) = stock_units db"
  by (simp add: stock_units_def)

lemma write_inventory_units:
  assumes "write_inventory now row i db = Inr db'" and "row \<in> set (sd_inventory db)"
    and "distinct (map nw_id (sd_inventory db))"
    and "inv_available i + inv_reserved i = nw_available row + nw_reserved row"
  shows "stock_units db' = stock_units db \<and> map nw_id (sd_inventory db') = map nw_id (sd_inventory db)"
proof -
  have "r = row" if "r \<in> set (sd_inventory db)" "nw_id r = nw_id row" for r
    using distinct_key_inj [OF assms(3) that(1) assms(2)] that(2) by simp
  with assms(1,4) show ?thesis
    by (auto simp: write_inventory_Inr stock_units_def update_where_def)
qed

text \<open>What both loops keep: the units of every row and the rows' identities.\<close>

definition same_units :: "stock_db \<Rightarrow> stock_db \<Rightarrow> bool" where
  "same_units db db' \<longleftrightarrow> stock_units db' = stock_units db \<and> map nw_id (sd_inventory db') = map nw_id (sd_inventory db)"

lemma same_units_refl [simp]: "same_units db db"
  by (simp add: same_units_def)

lemma same_units_trans [trans]: "same_units a b \<Longrightarrow> same_units b c \<Longrightarrow> same_units a c"
  by (simp add: same_units_def)

lemma same_units_ids:
  "same_units db db' \<Longrightarrow> distinct (map nw_id (sd_inventory db)) \<Longrightarrow> distinct (map nw_id (sd_inventory db'))"
  by (simp add: same_units_def)

lemma reserve_item_units:
  assumes "reserve_item E now rid ord ex item db = Inr (res, db')" and "distinct (map nw_id (sd_inventory db))"
  shows "same_units db db'"
proof -
  from assms(1) obtain row i0 i1 db1 rows where f: "List.find (\<lambda>r. nw_sku r = ri_sku item) (sd_inventory db) = Some row"
    and i0: "inventory_toDomain row = Inr i0" and i1: "inventory_reserve (ri_quantity item) i0 = Inr i1"
    and w: "write_inventory now row i1 db = Inr db1" and d: "db' = db1\<lparr>sd_reservations := rows\<rparr>"
    by (auto simp: reserve_item_def res_bind_Inr Let_def split: option.splits)
  from i0 i1 have "inv_available i1 + inv_reserved i1 = nw_available row + nw_reserved row"
    by (auto simp: reserve_Inr inventory_toDomain_Inr)
  with write_inventory_units [OF w _ assms(2)] find_SomeD [OF f] d show ?thesis by (simp add: same_units_def)
qed

lemma releaseReservation_units:
  assumes "releaseReservation now st r db = Inr db'" and "distinct (map nw_id (sd_inventory db))"
  shows "same_units db db'"
proof (cases "List.find (\<lambda>x. nw_sku x = rw_sku r) (sd_inventory db)")
  case None
  with assms(1) show ?thesis by (auto simp: releaseReservation_def res_bind_def same_units_def)
next
  case (Some row)
  with assms(1) obtain i0 i1 db1 rows where i0: "inventory_toDomain row = Inr i0"
    and i1: "inventory_release (Some (JNum (of_int (rw_quantity r)))) i0 = Inr i1"
    and w: "write_inventory now row i1 db = Inr db1" and d: "db' = db1\<lparr>sd_reservations := rows\<rparr>"
    by (auto simp: releaseReservation_def res_bind_Inr)
  from i0 i1 have "inv_available i1 + inv_reserved i1 = nw_available row + nw_reserved row"
    by (auto simp: release_Inr inventory_toDomain_Inr)
  with write_inventory_units [OF w _ assms(2)] find_SomeD [OF Some] d show ?thesis by (simp add: same_units_def)
qed

lemma reserve_loop_units:
  "reserve_loop E now ids ord ex n items db = Inr (rs, db') \<Longrightarrow> distinct (map nw_id (sd_inventory db)) \<Longrightarrow> same_units db db'"
proof (induction items arbitrary: n db rs)
  case (Cons item items)
  from Cons.prems(1) obtain res db1 rest where
    1: "reserve_item E now (ids n) ord ex item db = Inr (res, db1)"
    and 2: "reserve_loop E now ids ord ex (Suc n) items db1 = Inr (rest, db')" by (auto split: sum.splits)
  note a = reserve_item_units [OF 1 Cons.prems(2)]
  from a Cons.IH [OF 2 same_units_ids [OF a Cons.prems(2)]] show ?case by (rule same_units_trans)
qed simp

lemma release_loop_units:
  "release_loop now st rs db = Inr db' \<Longrightarrow> distinct (map nw_id (sd_inventory db)) \<Longrightarrow> same_units db db'"
proof (induction rs arbitrary: db)
  case (Cons r rs)
  from Cons.prems(1) obtain db1 where 1: "releaseReservation now st r db = Inr db1" and 2: "release_loop now st rs db1 = Inr db'"
    by (auto simp: res_bind_Inr)
  note a = releaseReservation_units [OF 1 Cons.prems(2)]
  from a Cons.IH [OF 2 same_units_ids [OF a Cons.prems(2)]] show ?case by (rule same_units_trans)
qed simp

section \<open>Runs\<close>

datatype stock_request =
    ReserveStock int "nat \<Rightarrow> string" string "reservation_item list" int
  | ReleaseStock int string
  | SweepExpired int int

inductive stock_step :: "sql_env \<Rightarrow> (string \<Rightarrow> string \<Rightarrow> bool) \<Rightarrow> stock_db \<Rightarrow> stock_request \<Rightarrow> stock_db \<Rightarrow> bool"
  for E collate where
  ss_reserve: "knex_reserve E collate now ids ord items ex db = (r, db') \<Longrightarrow>
     stock_step E collate db (ReserveStock now ids ord items ex) db'"
| ss_release: "knex_release E now ord db = (n, db') \<Longrightarrow> stock_step E collate db (ReleaseStock now ord) db'"
| ss_sweep: "knex_releaseExpired now cutoff db = (xs, db') \<Longrightarrow> stock_step E collate db (SweepExpired now cutoff) db'"

inductive_cases stock_stepE: "stock_step E collate db req db'"

inductive stock_reachable :: "sql_env \<Rightarrow> (string \<Rightarrow> string \<Rightarrow> bool) \<Rightarrow> stock_db \<Rightarrow> stock_db \<Rightarrow> bool"
  for E collate db0 where
  sr_start: "stock_reachable E collate db0 db0"
| sr_step: "stock_reachable E collate db0 db \<Longrightarrow> stock_step E collate db req db' \<Longrightarrow> stock_reachable E collate db0 db'"

lemma stock_step_keeps:
  assumes "stock_step E collate db req db'" and "stock_ok db"
  shows "stock_ok db' \<and> same_units db db'"
  using assms(1)
proof (cases rule: stock_step.cases)
  case (ss_reserve now ids ord items ex r)
  show ?thesis
  proof (cases r)
    case (Inl e)
    with ss_reserve assms(2) show ?thesis by (auto simp: knex_reserve_def Let_def split: sum.splits)
  next
    case (Inr results)
    with ss_reserve have l: "reserve_loop E now ids ord ex 0 (sort_by (\<lambda>a b. collate (ri_sku a) (ri_sku b)) items) db = Inr (results, db')"
      by (auto simp: knex_reserve_def Let_def split: sum.splits)
    have "distinct (map nw_id (sd_inventory db))" using assms(2) by (simp add: stock_ok_def)
    from reserve_loop_units [OF l this] reserve_loop_effect [OF assms(2) l, THEN conjunct1] show ?thesis by simp
  qed
next
  case (ss_release now ord n)
  then have sp: "sp_release (KnexInventoryRepository E collate) now ord db = (n, db')"
    by (simp add: KnexInventoryRepository_def)
  have "same_units db db'"
    using ss_release assms(2) by (auto simp: knex_release_def Let_def stock_ok_def dest: release_loop_units split: if_splits sum.splits)
  moreover have "stock_ok db'"
    using sp assms(2) by (cases n) (auto dest: knex_stock.release_ok knex_stock.release_err)
  ultimately show ?thesis by simp
next
  case (ss_sweep now cutoff xs)
  then have sp: "sp_releaseExpired (KnexInventoryRepository E collate) now cutoff db = (xs, db')"
    by (simp add: KnexInventoryRepository_def)
  have "same_units db db'"
    using ss_sweep assms(2) by (auto simp: knex_releaseExpired_def Let_def stock_ok_def dest: release_loop_units split: sum.splits)
  moreover have "stock_ok db'"
    using sp assms(2) by (cases xs) (auto dest: knex_stock.expired_ok knex_stock.expired_err)
  ultimately show ?thesis by simp
qed

lemma stock_reachable_keeps:
  "stock_reachable E collate db0 db \<Longrightarrow> stock_ok db0 \<Longrightarrow> stock_ok db \<and> same_units db0 db"
proof (induction rule: stock_reachable.induct)
  case sr_start
  then show ?case by simp
next
  case (sr_step db req db')
  with stock_step_keeps [OF sr_step.hyps(2)] show ?case by (blast intro: same_units_trans)
qed

end
