(* ===== verification/Stock_Properties.thy ===== *)
theory Stock_Properties
  imports Stock_Runs Fixtures
begin

text \<open>
  What holds of the inventory service: the counters of the stock under reservation, release and
  expiry, and what its event handlers announce.
\<close>

section \<open>Concrete inputs\<close>

definition demo_collate :: "string \<Rightarrow> string \<Rightarrow> bool" where
  "demo_collate a b = (length a \<le> length b)"

definition demo_stock_repo :: "stock_db inventory_repository" where
  "demo_stock_repo = KnexInventoryRepository demo_env demo_collate"

definition demo_stock_row :: inventory_row where
  "demo_stock_row = \<lparr>nw_id = ''n'', nw_product_id = ''p'', nw_sku = ''A'', nw_available = 5, nw_reserved = 0,
     nw_version = 1, nw_updated_at = 0\<rparr>"

definition demo_stock :: stock_db where
  "demo_stock = \<lparr>sd_inventory = [demo_stock_row], sd_reservations = []\<rparr>"

definition demo_hold :: "reservation_status \<Rightarrow> reservation_row" where
  "demo_hold st = \<lparr>rw_id = ''r'', rw_order_id = ''o'', rw_sku = ''A'', rw_quantity = 2, rw_status = st,
     rw_expires_at = 100, rw_created_at = 7, rw_released_at = None\<rparr>"

definition demo_held :: stock_db where
  "demo_held = \<lparr>sd_inventory = [demo_stock_row\<lparr>nw_available := 3, nw_reserved := 2, nw_version := 2, nw_updated_at := 7\<rparr>],
     sd_reservations = [demo_hold RS_ACTIVE]\<rparr>"

definition demo_released :: "reservation_status \<Rightarrow> stock_db" where
  "demo_released st = \<lparr>sd_inventory = [demo_stock_row\<lparr>nw_available := 5, nw_reserved := 0, nw_version := 3, nw_updated_at := 200\<rparr>],
     sd_reservations = [(demo_hold st)\<lparr>rw_released_at := Some 200\<rparr>]\<rparr>"

definition demo_wanted :: "reservation_item list" where
  "demo_wanted = [\<lparr>ri_sku = ''A'', ri_quantity = Some (JNum 2)\<rparr>]"

lemma demo_stock_ok: "stock_ok demo_stock" "stock_ok demo_held"
  by (simp_all add: stock_ok_def demo_stock_def demo_stock_row_def demo_held_def demo_hold_def res_key_def)

lemma demo_reserve:
  "sp_reserve demo_stock_repo 7 (\<lambda>_. ''r'') ''o'' demo_wanted 100 demo_stock =
     (Inr [\<lparr>rr_sku = ''A'', rr_quantity = 2, rr_reservationId = ''r''\<rparr>], demo_held)"
  by code_simp

lemma demo_release: "sp_release demo_stock_repo 200 ''o'' demo_held = (Inr 1, demo_released RS_RELEASED)"
  by code_simp

lemma demo_expire:
  "sp_releaseExpired demo_stock_repo 200 200 demo_held = (Inr [expired_of_row (demo_hold RS_ACTIVE)], demo_released RS_EXPIRED)"
  by code_simp

section \<open>Reservation\<close>

text \<open>C3: a reservation takes exactly the requested units from what was available and adds them
  to what the order holds, for every line at once; it never takes more than was there, and a
  reservation that fails for any line changes nothing.\<close>

theorem reserve_all_or_nothing:
  assumes "stock_ok db"
    and "sp_reserve (KnexInventoryRepository E collate) now ids ord items expires db = (r, db')"
  shows "stock_ok db' \<and>
    (case r of
       Inl e \<Rightarrow> db' = db
     | Inr results \<Rightarrow>
         (\<forall>i\<in>set items. 0 < item_quantity i \<and>
            (\<exists>a. stock_avail db (ri_sku i) = Some a \<and> item_quantity i \<le> a \<and>
               stock_avail db' (ri_sku i) = Some (a - item_quantity i) \<and>
               stock_held db' ord (ri_sku i) = stock_held db ord (ri_sku i) + item_quantity i)) \<and>
         (\<forall>k. k \<notin> ri_sku ` set items \<longrightarrow> stock_avail db' k = stock_avail db k) \<and>
         (\<forall>other k. other \<noteq> ord \<longrightarrow> stock_held db' other k = stock_held db other k))"
proof (cases r)
  case (Inl e)
  with assms show ?thesis by (auto dest: knex_stock.reserve_err)
next
  case (Inr results)
  note e = knex_stock.reserve_ok [OF assms(1) assms(2) [unfolded Inr]]
  have lines: "0 < item_quantity i \<and> (\<exists>a. stock_avail db (ri_sku i) = Some a \<and> item_quantity i \<le> a \<and>
      stock_avail db' (ri_sku i) = Some (a - item_quantity i) \<and>
      stock_held db' ord (ri_sku i) = stock_held db ord (ri_sku i) + item_quantity i)" if i: "i \<in> set items" for i
  proof -
    obtain a where a: "stock_avail db (ri_sku i) = Some a" "item_quantity i \<le> a"
      using knex_stock.no_oversell [OF assms(1) assms(2) [unfolded Inr] i] by blast
    have "items_quantity (ri_sku i) items = item_quantity i"
      using e i by (intro knex_stock.items_quantity_distinct) auto
    with a e i show ?thesis by auto
  qed
  have "items_quantity k items = 0" if "k \<notin> ri_sku ` set items" for k
    using that by (induction items) (auto simp: items_quantity_def)
  with e lines Inr show ?thesis by (auto simp: option.map_ident)
qed

theorem reserve_all_or_nothing_witness:
  "stock_ok demo_held \<and> stock_avail demo_held ''A'' = Some 3 \<and> stock_held demo_held ''o'' ''A'' = 2"
  using reserve_all_or_nothing [OF demo_stock_ok(1) demo_reserve [unfolded demo_stock_repo_def]]
  by (simp add: demo_wanted_def item_quantity_def)
    (simp add: stock_avail_def stock_held_def demo_held_def demo_stock_row_def demo_hold_def)

text \<open>Two reservations that share SKUs lock their inventory rows in the same order: the lines
  are worked through sorted by SKU, whatever their order in the request.\<close>

theorem reserve_lock_order:
  assumes "stock_ok db" and "total_preorder collate"
    and "sp_reserve (KnexInventoryRepository E collate) now ids ord items expires db = (Inr results, db')"
  shows "sorted_wrt collate (map rr_sku results) \<and> set (map rr_sku results) = ri_sku ` set items \<and>
    distinct (map rr_sku results) \<and> map rr_reservationId results = map ids [0..<length items]"
proof -
  let ?ordered = "sort_by (\<lambda>a b. collate (ri_sku a) (ri_sku b)) items"
  from assms(3) have l: "reserve_loop E now ids ord expires 0 ?ordered db = Inr (results, db')"
    by (auto simp: KnexInventoryRepository_def knex_reserve_def Let_def split: sum.splits)
  note e = reserve_loop_effect [OF assms(1) l]
  have skus: "map rw_sku (new_reservations now ids ord expires n xs) = map ri_sku xs" for n xs
    by (induction xs arbitrary: n) (auto simp: new_reservations_def new_reservation_def)
  have idl: "map rw_id (new_reservations now ids ord expires n xs) = map ids [n..<n + length xs]" for n xs
    by (induction xs arbitrary: n) (auto simp: new_reservations_def new_reservation_def upt_rec)
  have sku: "map rr_sku results = map ri_sku ?ordered"
    using e by (simp add: comp_def) (simp add: skus [unfolded comp_def])
  have rid: "map rr_reservationId results = map ids [0..<length items]"
    using e idl [of 0 ?ordered] by (simp add: comp_def)
  have "total_preorder (\<lambda>a b. collate (ri_sku a) (ri_sku b))"
    using assms(2) by (auto simp: total_preorder_def)
  then have "sorted_wrt (\<lambda>a b. collate (ri_sku a) (ri_sku b)) ?ordered" by (rule sorted_sort_by)
  with sku rid e show ?thesis by (auto simp: sorted_wrt_map)
qed

theorem reserve_lock_order_witness:
  "sorted_wrt demo_collate (map rr_sku [\<lparr>rr_sku = ''A'', rr_quantity = 2, rr_reservationId = ''r''\<rparr>])"
  using reserve_lock_order [OF demo_stock_ok(1) _ demo_reserve [unfolded demo_stock_repo_def]]
  by (simp add: total_preorder_def demo_collate_def linear)

text \<open>C8: releasing an order undoes its reservation to the unit, a second release finds nothing
  and changes nothing, and the released order cannot be reserved again.\<close>

theorem release_undoes_reserve:
  assumes "stock_ok db" and "\<forall>k. stock_held db ord k = 0" and "items \<noteq> []"
    and "sp_reserve (KnexInventoryRepository E collate) now ids ord items expires db = (Inr results, db1)"
    and "sp_release (KnexInventoryRepository E collate) now1 ord db1 = (Inr n, db2)"
  shows "stock_avail db2 = stock_avail db \<and> stock_held db2 = stock_held db \<and>
    sp_release (KnexInventoryRepository E collate) now2 ord db2 = (Inr 0, db2) \<and>
    (\<exists>e. sp_reserve (KnexInventoryRepository E collate) now3 ids3 ord items expires3 db2 = (Inl e, db2))"
proof -
  note res = knex_stock.reserve_ok [OF assms(1,4)]
  then have ok1: "stock_ok db1" by blast
  note rel = knex_stock.release_ok [OF ok1 assms(5)]
  have uuid: "sql_uuid E ord" using assms(5) by (auto simp: KnexInventoryRepository_def knex_release_def split: if_splits)
  have "filter (active_of ord) (sd_reservations db2) = []"
  proof -
    have "held_sum (\<lambda>r. rw_order_id r = ord \<and> rw_sku r = k) (sd_reservations db2) = 0" for k
      using rel by (simp add: stock_held_def [symmetric])
    moreover have "\<forall>r\<in>set (sd_reservations db2). 0 < rw_quantity r" using rel by (auto simp: stock_ok_def)
    ultimately show ?thesis by (auto simp: held_sum_zero_iff filter_empty_conv active_of_def)
  qed
  with uuid have again: "sp_release (KnexInventoryRepository E collate) now2 ord db2 = (Inr 0, db2)"
    by (simp add: KnexInventoryRepository_def knex_release_def)
  obtain i where i: "i \<in> set items" using assms(3) by (cases items) auto
  have "(ord, ri_sku i) \<in> stock_hist db2" using res rel i by auto
  with knex_stock.reserve_once [of db2 i items ord] rel i
  have "\<exists>e. sp_reserve (KnexInventoryRepository E collate) now3 ids3 ord items expires3 db2 = (Inl e, db2)" by blast
  with again knex_stock.reserve_release [OF assms(1,4,2,5)] show ?thesis by simp
qed

theorem release_undoes_reserve_witness:
  "stock_avail (demo_released RS_RELEASED) = stock_avail demo_stock \<and>
   (\<exists>e. sp_reserve demo_stock_repo 300 (\<lambda>_. ''s'') ''o'' demo_wanted 400 (demo_released RS_RELEASED) = (Inl e, demo_released RS_RELEASED))"
proof -
  have "\<forall>k. stock_held demo_stock ''o'' k = 0" "demo_wanted \<noteq> []"
    by (simp_all add: stock_held_def demo_stock_def demo_wanted_def)
  from release_undoes_reserve [OF demo_stock_ok(1) this demo_reserve [unfolded demo_stock_repo_def] demo_release [unfolded demo_stock_repo_def]]
  show ?thesis unfolding demo_stock_repo_def by blast
qed

text \<open>The domain never refuses to give back what a reservation took: a release of any order
  succeeds, as long as the counters stay within the columns' 32 bits.\<close>

theorem release_never_refused:
  assumes "stock_ok db" and "sql_uuid E ord"
    and "\<forall>i\<in>set (sd_inventory db). nw_available i + nw_reserved i \<le> 2147483647 \<and>
       - 2147483648 \<le> nw_version i \<and> nw_version i + int (length (sd_reservations db)) \<le> 2147483647"
  shows "\<exists>n db'. sp_release (KnexInventoryRepository E collate) now ord db = (Inr n, db') \<and>
    (\<forall>k. stock_held db' ord k = 0)"
proof -
  let ?rs = "filter (active_of ord) (sd_reservations db)"
  have "\<exists>db'. release_loop now RS_RELEASED ?rs db = Inr db'"
    using assms(1,3) by (intro release_loop_succeeds) (auto simp: stock_ok_def distinct_map_filter active_of_def
        intro: order_trans [OF add_left_mono [OF of_nat_mono [OF length_filter_le]]])
  then obtain db' where "release_loop now RS_RELEASED ?rs db = Inr db'" by blast
  then have "sp_release (KnexInventoryRepository E collate) now ord db = (Inr (length ?rs), db')"
    using assms(2) by (simp add: KnexInventoryRepository_def knex_release_def)
  with knex_stock.release_ok [OF assms(1) this] show ?thesis by auto
qed

theorem release_never_refused_witness:
  "\<exists>n db'. sp_release demo_stock_repo 9 ''o'' demo_held = (Inr n, db') \<and> (\<forall>k. stock_held db' ''o'' k = 0)"
  unfolding demo_stock_repo_def
  by (rule release_never_refused [OF demo_stock_ok(2)])
    (simp_all add: demo_env_def demo_held_def demo_stock_row_def)

section \<open>Runs\<close>

text \<open>C16: however reservations, releases and expiry sweeps follow each other, no unit of any SKU
  appears or vanishes: available plus reserved stays what it was, neither counter is ever negative,
  and the reserved counter is what the active reservations hold.\<close>

theorem stock_conserved:
  assumes "stock_reachable E collate db0 db" and "stock_ok db0"
  shows "stock_units db = stock_units db0 \<and>
    (\<forall>r\<in>set (sd_inventory db). 0 \<le> nw_available r \<and> 0 \<le> nw_reserved r \<and>
       nw_reserved r = held_sum (\<lambda>v. rw_sku v = nw_sku r) (sd_reservations db))"
proof -
  from stock_reachable_keeps [OF assms] have ok: "stock_ok db" and u: "stock_units db = stock_units db0"
    by (auto simp: same_units_def)
  have "0 \<le> held_sum P (sd_reservations db)" for P
    using ok by (intro held_sum_nonneg) (auto simp: stock_ok_def)
  with ok u show ?thesis by (auto simp: stock_ok_def)
qed

theorem stock_conserved_witness:
  "stock_units (demo_released RS_RELEASED) = [(''A'', 5)]"
proof -
  have "stock_step demo_env demo_collate demo_stock (ReserveStock 7 (\<lambda>_. ''r'') ''o'' demo_wanted 100) demo_held"
    using demo_reserve by (intro ss_reserve) (simp add: demo_stock_repo_def KnexInventoryRepository_def)
  from sr_step [OF sr_start this] have "stock_reachable demo_env demo_collate demo_stock demo_held" .
  moreover have "stock_step demo_env demo_collate demo_held (ReleaseStock 200 ''o'') (demo_released RS_RELEASED)"
    using demo_release by (intro ss_release) (simp add: demo_stock_repo_def KnexInventoryRepository_def)
  ultimately have "stock_reachable demo_env demo_collate demo_stock (demo_released RS_RELEASED)" by (rule sr_step)
  from stock_conserved [OF this demo_stock_ok(1)] show ?thesis
    by (simp add: stock_units_def demo_stock_def demo_stock_row_def)
qed

section \<open>The saga's side\<close>

definition demo_created :: json where
  "demo_created = JObj [(''type'', JStr ORDER_CREATED), (''data'', JObj [(''orderId'', JStr ''o''),
     (''items'', JArr [JObj [(''sku'', JStr ''A''), (''quantity'', JNum 2)]])])]"

definition demo_created_data :: json where
  "demo_created_data = JObj [(''orderId'', JStr ''o''), (''items'', JArr [JObj [(''sku'', JStr ''A''), (''quantity'', JNum 2)]])]"

definition demo_stock_call :: stock_call where
  "demo_stock_call = \<lparr>sc_now = 7, sc_ids = (\<lambda>_. ''r''), sc_uuid = ''v'', sc_request = None\<rparr>"

lemma demo_created_parts:
  "json_get demo_created ''data'' = Some demo_created_data"
  "event_items demo_created_data = Inr [JObj [(''sku'', JStr ''A''), (''quantity'', JNum 2)]]"
  "map_res item_of_json [JObj [(''sku'', JStr ''A''), (''quantity'', JNum 2)]] = Inr demo_wanted"
  "get_str demo_created_data ''orderId'' = Some ''o''"
  by code_simp+

text \<open>With a broker that confirms, an order.created event is answered by exactly one message:
  inventory.reserved, and then the order holds the stock of every line, or inventory.failed, and
  then the stock is as it was.\<close>

theorem created_is_answered:
  assumes "stock_ok (fst s)" and "json_get event ''data'' = Some data" and "event_items data = Inr xs"
    and "map_res item_of_json xs = Inr items" and "get_str data ''orderId'' = Some ord" and "\<And>m. confirm m = None"
    and "onOrderCreated libmsg confirm (KnexInventoryRepository E collate) ttl cx event s = (r, t)"
  shows "r = Inr () \<and> stock_ok (fst t) \<and>
    ((\<exists>payload. snd t = snd s @ [stock_message cx INVENTORY_RESERVED event payload]) \<and>
       (\<forall>i\<in>set items. stock_held (fst t) ord (ri_sku i) = stock_held (fst s) ord (ri_sku i) + item_quantity i \<and> 0 < item_quantity i) \<or>
     (\<exists>payload. snd t = snd s @ [stock_message cx INVENTORY_FAILED event payload]) \<and> fst t = fst s)"
  using assms(1-5,7)
proof (cases rule: knex_stock.onOrderCreated_cases)
  case (reserved rs)
  note e = knex_stock.reserve_ok [OF assms(1) reserved(2)]
  have "items_quantity (ri_sku i) items = item_quantity i" if "i \<in> set items" for i
    using e that by (intro knex_stock.items_quantity_distinct) auto
  with e reserved show ?thesis by auto
next
  case (refused e)
  with assms(1,6) show ?thesis by (auto simp: stock_publish_result)
next
  case (unconfirmed rs s1 e)
  with assms(6,7) have False
    using assms(2-5) by (simp add: onOrderCreated_def reserve_from_event_def ReserveStock_execute_def on_stock_def
        bind_eff_def catch_eff_def ret_def stock_publish_result stock_messages_differ Let_def)
  then show ?thesis ..
qed

theorem created_is_answered_witness:
  "\<exists>t. onOrderCreated id (\<lambda>_. None) demo_stock_repo 900 demo_stock_call demo_created (demo_stock, []) = (Inr (), t) \<and>
     stock_ok (fst t) \<and> length (snd t) = 1"
proof -
  obtain r t where ex: "onOrderCreated id (\<lambda>_. None) demo_stock_repo 900 demo_stock_call demo_created (demo_stock, []) = (r, t)"
    by (rule prod.exhaust)
  have "stock_ok (fst (demo_stock, [] :: amqp_message list))" by (simp add: demo_stock_ok)
  from created_is_answered [OF this demo_created_parts refl ex [unfolded demo_stock_repo_def]] ex show ?thesis
    by auto
qed

text \<open>An order.created delivered again after its stock was reserved (a redelivery, or any later
  order.created of that order) is answered with inventory.failed, although the stock stays held.\<close>

theorem redelivered_created_fails:
  assumes "stock_ok (fst s)" and "json_get event ''data'' = Some data" and "event_items data = Inr xs"
    and "map_res item_of_json xs = Inr items" and "get_str data ''orderId'' = Some ord"
    and "i \<in> set items" and "0 < stock_held (fst s) ord (ri_sku i)" and "\<And>m. confirm m = None"
    and "onOrderCreated libmsg confirm (KnexInventoryRepository E collate) ttl cx event s = (r, t)"
  shows "(\<exists>payload. snd t = snd s @ [stock_message cx INVENTORY_FAILED event payload]) \<and>
    fst t = fst s \<and> 0 < stock_held (fst t) ord (ri_sku i)"
proof -
  have "(ord, ri_sku i) \<in> stock_hist (fst s)"
    using knex_stock.held_hist [OF assms(1)] assms(7) by fastforce
  then obtain e where "onOrderCreated libmsg confirm (KnexInventoryRepository E collate) ttl cx event s =
      (Inr (), (fst s, snd s @ [stock_message cx INVENTORY_FAILED event (failed_payload data (error_message libmsg e))]))"
    using knex_stock.redelivered_created [where confirm = confirm, OF assms(1-6) _ assms(8)] by blast
  with assms(7,9) show ?thesis by auto
qed

theorem redelivered_created_fails_witness:
  "\<exists>t payload. onOrderCreated id (\<lambda>_. None) demo_stock_repo 900 demo_stock_call demo_created (demo_held, []) = (Inr (), t) \<and>
     snd t = [stock_message demo_stock_call INVENTORY_FAILED demo_created payload] \<and> stock_held (fst t) ''o'' ''A'' = 2"
proof -
  obtain r t where ex: "onOrderCreated id (\<lambda>_. None) demo_stock_repo 900 demo_stock_call demo_created (demo_held, []) = (r, t)"
    by (rule prod.exhaust)
  have ok: "stock_ok (fst (demo_held, [] :: amqp_message list))" by (simp add: demo_stock_ok)
  have held: "stock_held demo_held ''o'' ''A'' = 2"
    by (simp add: stock_held_def demo_held_def demo_hold_def)
  have i: "\<lparr>ri_sku = ''A'', ri_quantity = Some (JNum 2)\<rparr> \<in> set demo_wanted" by (simp add: demo_wanted_def)
  from redelivered_created_fails [OF ok demo_created_parts i _ refl ex [unfolded demo_stock_repo_def]]
    created_is_answered [OF ok demo_created_parts refl ex [unfolded demo_stock_repo_def]] ex held show ?thesis
    by auto
qed



lemma active_after_sweep:
  "\<forall>r\<in>set rows. rw_id r \<in> I \<longleftrightarrow> expired_at c r \<Longrightarrow>
   filter (\<lambda>r. rw_status r = RS_ACTIVE)
     (update_where (\<lambda>r. rw_id r \<in> I) (\<lambda>r. r\<lparr>rw_status := RS_EXPIRED, rw_released_at := x\<rparr>) rows) =
   filter (\<lambda>r. rw_status r = RS_ACTIVE \<and> c \<le> rw_expires_at r) rows"
  by (induction rows) (auto simp: update_where_def expired_at_def)

text \<open>C36: an expiry sweep closes exactly the active reservations whose time has passed, gives back
  their units, and reports them; every other reservation stays.\<close>

theorem expiry_releases_expired:
  assumes "stock_ok db" and "sp_releaseExpired (KnexInventoryRepository E collate) now cutoff db = (Inr xs, db')"
  shows "stock_ok db' \<and>
    map er_reservationId xs = map rw_id (filter (\<lambda>r. rw_status r = RS_ACTIVE \<and> rw_expires_at r < cutoff) (sd_reservations db)) \<and>
    filter (\<lambda>r. rw_status r = RS_ACTIVE) (sd_reservations db') =
      filter (\<lambda>r. rw_status r = RS_ACTIVE \<and> cutoff \<le> rw_expires_at r) (sd_reservations db) \<and>
    (\<forall>k. stock_avail db' k = map_option (\<lambda>a. a + expired_quantity (\<lambda>r. er_sku r = k) xs) (stock_avail db k))"
proof -
  let ?rs = "filter (expired_at cutoff) (sd_reservations db)"
  from assms(2) have l: "release_loop now RS_EXPIRED ?rs db = Inr db'" and xs: "xs = map expired_of_row ?rs"
    by (auto simp: KnexInventoryRepository_def knex_releaseExpired_def Let_def split: sum.splits)
  have d: "distinct (map rw_id (sd_reservations db))" using assms(1) by (auto simp: stock_ok_def)
  have "sd_reservations db' = update_where (\<lambda>r. rw_id r \<in> rw_id ` set ?rs)
      (\<lambda>r. r\<lparr>rw_status := RS_EXPIRED, rw_released_at := Some now\<rparr>) (sd_reservations db)"
    using d by (intro release_loop_effect [OF assms(1) _ _ _ l, THEN conjunct2, THEN conjunct2])
      (auto simp: expired_at_def distinct_map_filter)
  moreover have "rw_id r \<in> rw_id ` set ?rs \<longleftrightarrow> expired_at cutoff r" if "r \<in> set (sd_reservations db)" for r
    using that distinct_key_inj [OF d] by fastforce
  ultimately have "filter (\<lambda>r. rw_status r = RS_ACTIVE) (sd_reservations db') =
      filter (\<lambda>r. rw_status r = RS_ACTIVE \<and> cutoff \<le> rw_expires_at r) (sd_reservations db)"
    by (simp only:) (rule active_after_sweep, blast)
  moreover have "map er_reservationId xs = map rw_id (filter (\<lambda>r. rw_status r = RS_ACTIVE \<and> rw_expires_at r < cutoff) (sd_reservations db))"
    by (simp add: xs comp_def expired_at_def [abs_def] expired_of_row_def)
  ultimately show ?thesis using knex_stock.expired_ok [OF assms] by blast
qed

theorem expiry_releases_expired_witness:
  "stock_ok (demo_released RS_EXPIRED) \<and> stock_avail (demo_released RS_EXPIRED) ''A'' = Some 5"
proof -
  have "stock_avail demo_held ''A'' = Some 3" by (simp add: stock_avail_def demo_held_def demo_stock_row_def)
  with expiry_releases_expired [OF demo_stock_ok(2) demo_expire [unfolded demo_stock_repo_def]] show ?thesis
    by (auto simp: expired_quantity_def expired_of_row_def demo_hold_def dest: spec [of _ "''A''"])
qed

end
