(* ===== verification/Payment.thy ===== *)
theory Payment
  imports Status_Machine Money Sql
begin

text \<open>
  The payment aggregate of the payment service (\<open>domain/value-objects/PaymentStatus.ts\<close>,
  \<open>domain/entities/Payment.ts\<close>), the tables of its migrations, the Knex repositories for
  payments and refunds, and the contract of the port \<open>PaymentRepository\<close> as the locale
  \<open>payment_store\<close>, interpreted on \<open>KnexPaymentRepository\<close>.
\<close>

section \<open>Payment status\<close>

datatype payment_status =
    PS_PENDING | PS_PROCESSING | PS_COMPLETED | PS_FAILED | PS_REFUND_PENDING | PS_REFUNDED

fun payment_status_text :: "payment_status \<Rightarrow> string" where
  "payment_status_text PS_PENDING = ''PENDING''"
| "payment_status_text PS_PROCESSING = ''PROCESSING''"
| "payment_status_text PS_COMPLETED = ''COMPLETED''"
| "payment_status_text PS_FAILED = ''FAILED''"
| "payment_status_text PS_REFUND_PENDING = ''REFUND_PENDING''"
| "payment_status_text PS_REFUNDED = ''REFUNDED''"

fun payment_TRANSITIONS :: "payment_status \<Rightarrow> payment_status list" where
  "payment_TRANSITIONS PS_PENDING = [PS_PROCESSING, PS_FAILED]"
| "payment_TRANSITIONS PS_PROCESSING = [PS_COMPLETED, PS_FAILED]"
| "payment_TRANSITIONS PS_COMPLETED = [PS_REFUND_PENDING]"
| "payment_TRANSITIONS PS_REFUND_PENDING = [PS_REFUNDED, PS_COMPLETED]"
| "payment_TRANSITIONS PS_FAILED = []"
| "payment_TRANSITIONS PS_REFUNDED = []"

definition payment_canTransition :: "payment_status \<Rightarrow> payment_status \<Rightarrow> bool" where
  "payment_canTransition s t = (t \<in> set (payment_TRANSITIONS s))"

definition payment_status_isTerminal :: "payment_status \<Rightarrow> bool" where
  "payment_status_isTerminal s = (length (payment_TRANSITIONS s) = 0)"

interpretation payment_machine: status_machine payment_TRANSITIONS payment_canTransition payment_status_isTerminal
  by unfold_locales (simp_all add: payment_canTransition_def payment_status_isTerminal_def)

section \<open>The aggregate\<close>

record payment_event =
  pe_eventType :: string
  pe_fromStatus :: "payment_status option"
  pe_toStatus :: payment_status
  pe_payload :: json

record 'd payment =
  p_id :: "string option"
  p_orderId :: string
  p_customerId :: "string option"
  p_amount :: "'d money"
  p_idempotencyKey :: string
  p_createdAt :: int
  p_status :: payment_status
  p_gatewayTransactionId :: "string option"
  p_failureReason :: "string option"
  p_version :: int
  p_updatedAt :: int
  p_events :: "payment_event list"

record 'd payment_props =
  pp_id :: "string option"
  pp_orderId :: string
  pp_customerId :: "string option"
  pp_amount :: "'d money"
  pp_idempotencyKey :: string
  pp_status :: "payment_status option"
  pp_gatewayTransactionId :: "string option"
  pp_failureReason :: "string option"
  pp_version :: "int option"
  pp_createdAt :: "int option"
  pp_updatedAt :: "int option"

definition newPayment :: "'d decimal_lib \<Rightarrow> int \<Rightarrow> 'd payment_props \<Rightarrow> js_error + 'd payment" where
  "newPayment D now pp =
     (if pp_orderId pp = [] then Inl (app_err ValidationError ''Order ID is required'')
      else if pp_idempotencyKey pp = [] then Inl (app_err ValidationError ''Idempotency key is required'')
      else if \<not> money_isPositive D (pp_amount pp)
      then Inl (app_err ValidationError (''Payment amount must be positive, got '' @ money_toString D (pp_amount pp)))
      else Inr \<lparr>p_id = pp_id pp, p_orderId = pp_orderId pp, p_customerId = pp_customerId pp, p_amount = pp_amount pp,
                p_idempotencyKey = pp_idempotencyKey pp,
                p_createdAt = (case pp_createdAt pp of Some t \<Rightarrow> t | None \<Rightarrow> now),
                p_status = (case pp_status pp of Some st \<Rightarrow> st | None \<Rightarrow> PS_PENDING),
                p_gatewayTransactionId = pp_gatewayTransactionId pp, p_failureReason = pp_failureReason pp,
                p_version = (case pp_version pp of Some v \<Rightarrow> v | None \<Rightarrow> 1),
                p_updatedAt = (case pp_updatedAt pp of Some t \<Rightarrow> t | None \<Rightarrow> now), p_events = []\<rparr>)"

definition payment_conflict :: "'d payment \<Rightarrow> payment_status \<Rightarrow> js_error" where
  "payment_conflict p t =
     App ((new_error ConflictError (''Cannot transition payment from '' @ payment_status_text (p_status p)
              @ '' to '' @ payment_status_text t))
          \<lparr>ae_metadata := Some (JObj (opt_member ''paymentId'' JStr (p_id p)
             @ [(''currentStatus'', JStr (payment_status_text (p_status p))),
                (''requestedStatus'', JStr (payment_status_text t))]))\<rparr>)"

definition payment_transitionTo ::
    "int \<Rightarrow> payment_status \<Rightarrow> string \<Rightarrow> json \<Rightarrow> 'd payment \<Rightarrow> js_error + 'd payment" where
  "payment_transitionTo now t eventType payload p =
     (if \<not> payment_canTransition (p_status p) t then Inl (payment_conflict p t)
      else Inr (p\<lparr>p_events := p_events p @ [\<lparr>pe_eventType = eventType, pe_fromStatus = Some (p_status p),
                     pe_toStatus = t, pe_payload = payload\<rparr>],
                  p_status := t, p_version := p_version p + 1, p_updatedAt := now\<rparr>))"

definition markProcessing :: "int \<Rightarrow> 'd payment \<Rightarrow> js_error + 'd payment" where
  "markProcessing now p = payment_transitionTo now PS_PROCESSING ''payment.processing'' (JObj []) p"

text \<open>\<open>markCompleted\<close> and \<open>markFailed\<close> assign a field before the transition is checked.\<close>

definition markCompleted :: "int \<Rightarrow> string \<Rightarrow> 'd payment \<Rightarrow> js_error + 'd payment" where
  "markCompleted now tx p =
     payment_transitionTo now PS_COMPLETED ''payment.completed'' (JObj [(''gatewayTransactionId'', JStr tx)])
       (p\<lparr>p_gatewayTransactionId := Some tx\<rparr>)"

definition markFailed :: "int \<Rightarrow> string \<Rightarrow> 'd payment \<Rightarrow> js_error + 'd payment" where
  "markFailed now reason p =
     payment_transitionTo now PS_FAILED ''payment.failed'' (JObj [(''reason'', JStr reason)])
       (p\<lparr>p_failureReason := Some reason\<rparr>)"

definition requestRefund :: "int \<Rightarrow> 'd payment \<Rightarrow> js_error + 'd payment" where
  "requestRefund now p = payment_transitionTo now PS_REFUND_PENDING ''payment.refund_pending'' (JObj []) p"

definition markRefunded :: "int \<Rightarrow> string \<Rightarrow> 'd payment \<Rightarrow> js_error + 'd payment" where
  "markRefunded now rf p =
     payment_transitionTo now PS_REFUNDED ''payment.refunded'' (JObj [(''gatewayRefundId'', JStr rf)]) p"

definition payment_isTerminal :: "'d payment \<Rightarrow> bool" where
  "payment_isTerminal p = payment_status_isTerminal (p_status p)"

definition pullEvents :: "'d payment \<Rightarrow> payment_event list \<times> 'd payment" where
  "pullEvents p = (p_events p, p\<lparr>p_events := []\<rparr>)"

text \<open>
  Replaying a log of events: each starts at the status the one before ended in and is allowed.
\<close>

fun replay :: "payment_status \<Rightarrow> payment_event list \<Rightarrow> payment_status option" where
  "replay s [] = Some s"
| "replay s (e # es) =
     (if pe_fromStatus e = Some s \<and> payment_canTransition s (pe_toStatus e) then replay (pe_toStatus e) es else None)"

lemma replay_append: "replay s (es @ fs) = Option.bind (replay s es) (\<lambda>t. replay t fs)"
  by (induction es arbitrary: s) auto

text \<open>An aggregate whose unsaved events lead from \<open>base\<close>, loaded at version \<open>v\<close>, to its status.\<close>

definition payment_from :: "payment_status \<Rightarrow> int \<Rightarrow> 'd payment \<Rightarrow> bool" where
  "payment_from base v p \<longleftrightarrow> replay base (p_events p) = Some (p_status p) \<and> p_version p = v + int (length (p_events p))"

lemma payment_transitionTo_Inr:
  "payment_transitionTo now t ty pl p = Inr p' \<longleftrightarrow>
     payment_canTransition (p_status p) t \<and>
     p' = p\<lparr>p_events := p_events p @ [\<lparr>pe_eventType = ty, pe_fromStatus = Some (p_status p), pe_toStatus = t, pe_payload = pl\<rparr>],
            p_status := t, p_version := p_version p + 1, p_updatedAt := now\<rparr>"
  by (auto simp: payment_transitionTo_def)

lemma payment_from_transition:
  "payment_from base v p \<Longrightarrow> payment_transitionTo now t ty pl p = Inr p' \<Longrightarrow> payment_from base v p'"
  by (auto simp: payment_from_def payment_transitionTo_Inr replay_append)

named_theorems payment_marks "the marking operations"

declare markProcessing_def [payment_marks] markCompleted_def [payment_marks] markFailed_def [payment_marks]
  requestRefund_def [payment_marks] markRefunded_def [payment_marks]

lemma payment_from_fields [simp]:
  "payment_from base v (p\<lparr>p_gatewayTransactionId := x\<rparr>) = payment_from base v p"
  "payment_from base v (p\<lparr>p_failureReason := y\<rparr>) = payment_from base v p"
  by (simp_all add: payment_from_def)

lemma payment_from_marks:
  assumes "payment_from base v p"
  shows "markProcessing now p = Inr p' \<Longrightarrow> payment_from base v p'"
    and "markCompleted now tx p = Inr p' \<Longrightarrow> payment_from base v p'"
    and "markFailed now reason p = Inr p' \<Longrightarrow> payment_from base v p'"
    and "requestRefund now p = Inr p' \<Longrightarrow> payment_from base v p'"
    and "markRefunded now rf p = Inr p' \<Longrightarrow> payment_from base v p'"
  using assms by (auto simp: payment_marks elim: payment_from_transition [rotated])

lemma newPayment_Inr:
  assumes "newPayment D now pp = Inr p"
  shows "p_events p = []" and "pp_orderId pp \<noteq> []" and "pp_idempotencyKey pp \<noteq> []"
    and "money_isPositive D (p_amount p)" and "p_id p = pp_id pp" and "p_orderId p = pp_orderId pp"
    and "p_idempotencyKey p = pp_idempotencyKey pp" and "p_amount p = pp_amount pp"
    and "p_status p = (case pp_status pp of Some st \<Rightarrow> st | None \<Rightarrow> PS_PENDING)"
    and "p_version p = (case pp_version pp of Some v \<Rightarrow> v | None \<Rightarrow> 1)"
    and "p_gatewayTransactionId p = pp_gatewayTransactionId pp" and "p_failureReason p = pp_failureReason pp"
    and "p_customerId p = pp_customerId pp"
  using assms by (auto simp: newPayment_def split: if_splits)

section \<open>Tables\<close>

record payment_row =
  yw_id :: string
  yw_order_id :: string
  yw_customer_id :: "string option"
  yw_status :: payment_status
  yw_amount :: string
  yw_currency :: string
  yw_idempotency_key :: string
  yw_gateway_transaction_id :: "string option"
  yw_failure_reason :: "string option"
  yw_version :: int
  yw_created_at :: int
  yw_updated_at :: int

record payment_event_row =
  vw_id :: string
  vw_payment_id :: string
  vw_event :: payment_event
  vw_created_at :: int

record refund_record =
  fr_id :: string
  fr_paymentId :: string
  fr_amount :: string
  fr_currency :: string
  fr_status :: string
  fr_gatewayRefundId :: "string option"
  fr_idempotencyKey :: string
  fr_reason :: "string option"

record payment_db =
  yd_payments :: "payment_row list"
  yd_events :: "payment_event_row list"
  yd_refunds :: "refund_record list"

definition payment_row_violation :: "sql_env \<Rightarrow> payment_row list \<Rightarrow> payment_row \<Rightarrow> string option" where
  "payment_row_violation E rows r = first_violation
     [(sql_uuid E (yw_id r), invalid_text), (sql_uuid E (yw_order_id r), invalid_text),
      (case yw_customer_id r of Some c \<Rightarrow> sql_uuid E c | None \<Rightarrow> True, invalid_text),
      (decimal_12_2 E (yw_amount r), out_of_range), (length (yw_currency r) \<le> 3, too_long),
      (length (yw_idempotency_key r) \<le> 64, too_long),
      (case yw_gateway_transaction_id r of Some g \<Rightarrow> length g \<le> 100 | None \<Rightarrow> True, too_long),
      (int4 (yw_version r), out_of_range),
      (yw_id r \<notin> yw_id ` set rows, unique_violation),
      (yw_order_id r \<notin> yw_order_id ` set rows, unique_violation),
      (yw_idempotency_key r \<notin> yw_idempotency_key ` set rows, unique_violation)]"

definition event_row_violation :: "payment_event_row list \<Rightarrow> payment_event_row \<Rightarrow> string option" where
  "event_row_violation rows r = first_violation
     [(length (pe_eventType (vw_event r)) \<le> 50, too_long), (vw_id r \<notin> vw_id ` set rows, unique_violation)]"

section \<open>KnexPaymentRepository\<close>

record payment_call =
  px_now :: int
  px_rowId :: string
  px_eventIds :: "nat \<Rightarrow> string"

definition payment_toDomain :: "'d decimal_lib \<Rightarrow> payment_row \<Rightarrow> js_error + 'd payment" where
  "payment_toDomain D row =
     (case money_of D (AStr (yw_amount row)) (yw_currency row) of
        Inl e \<Rightarrow> Inl e
      | Inr amount \<Rightarrow>
          newPayment D (yw_created_at row)
            \<lparr>pp_id = Some (yw_id row), pp_orderId = yw_order_id row, pp_customerId = yw_customer_id row,
             pp_amount = amount, pp_idempotencyKey = yw_idempotency_key row, pp_status = Some (yw_status row),
             pp_gatewayTransactionId = yw_gateway_transaction_id row, pp_failureReason = yw_failure_reason row,
             pp_version = Some (yw_version row), pp_createdAt = Some (yw_created_at row),
             pp_updatedAt = Some (yw_updated_at row)\<rparr>)"

text \<open>\<open>where(P).first()\<close> and \<open>toDomain\<close>.\<close>

definition payment_first :: "'d decimal_lib \<Rightarrow> (payment_row \<Rightarrow> bool) \<Rightarrow> (payment_db, js_error, 'd payment option) eff" where
  "payment_first D P db =
     (case List.find P (yd_payments db) of
        None \<Rightarrow> (Inr None, db)
      | Some row \<Rightarrow> (case payment_toDomain D row of Inl e \<Rightarrow> (Inl e, db) | Inr p \<Rightarrow> (Inr (Some p), db)))"

definition knex_payment_findById :: "sql_env \<Rightarrow> 'd decimal_lib \<Rightarrow> string \<Rightarrow> (payment_db, js_error, 'd payment option) eff" where
  "knex_payment_findById E D pid db =
     (if \<not> sql_uuid E pid then (Inl (sql_err invalid_text), db) else payment_first D (\<lambda>r. yw_id r = pid) db)"

definition knex_payment_findByOrderId :: "sql_env \<Rightarrow> 'd decimal_lib \<Rightarrow> string \<Rightarrow> (payment_db, js_error, 'd payment option) eff" where
  "knex_payment_findByOrderId E D oid db =
     (if \<not> sql_uuid E oid then (Inl (sql_err invalid_text), db) else payment_first D (\<lambda>r. yw_order_id r = oid) db)"

definition knex_payment_findByKey :: "'d decimal_lib \<Rightarrow> string \<Rightarrow> (payment_db, js_error, 'd payment option) eff" where
  "knex_payment_findByKey D key = payment_first D (\<lambda>r. yw_idempotency_key r = key)"

definition event_rows :: "payment_call \<Rightarrow> string \<Rightarrow> payment_event list \<Rightarrow> payment_event_row list" where
  "event_rows cx pid events =
     map (\<lambda>(i, e). \<lparr>vw_id = px_eventIds cx i, vw_payment_id = pid, vw_event = e, vw_created_at = px_now cx\<rparr>)
       (enumerate 0 events)"

definition appendEvents :: "payment_call \<Rightarrow> string \<Rightarrow> payment_event list \<Rightarrow> (payment_db, js_error, unit) eff" where
  "appendEvents cx pid events db =
     (if events = [] then (Inr (), db)
      else case insert_rows event_row_violation (yd_events db) (event_rows cx pid events) of
        Inl e \<Rightarrow> (Inl e, db)
      | Inr rows \<Rightarrow> (Inr (), db\<lparr>yd_events := rows\<rparr>))"

definition row_of_payment :: "'d decimal_lib \<Rightarrow> payment_call \<Rightarrow> 'd payment \<Rightarrow> payment_row" where
  "row_of_payment D cx p =
     \<lparr>yw_id = px_rowId cx, yw_order_id = p_orderId p, yw_customer_id = p_customerId p, yw_status = p_status p,
      yw_amount = money_fixed D (p_amount p), yw_currency = m_currency (p_amount p),
      yw_idempotency_key = p_idempotencyKey p, yw_gateway_transaction_id = p_gatewayTransactionId p,
      yw_failure_reason = p_failureReason p, yw_version = p_version p,
      yw_created_at = px_now cx, yw_updated_at = px_now cx\<rparr>"

definition trx_insert_payment :: "sql_env \<Rightarrow> payment_row \<Rightarrow> (payment_db, js_error, payment_row) eff" where
  "trx_insert_payment E row db =
     (case insert_rows (payment_row_violation E) (yd_payments db) [row] of
        Inl e \<Rightarrow> (Inl e, db)
      | Inr rows \<Rightarrow> (Inr row, db\<lparr>yd_payments := rows\<rparr>))"

text \<open>\<open>save\<close> and \<open>update\<close> pull the aggregate's events before the transaction starts.\<close>

definition knex_payment_save ::
    "sql_env \<Rightarrow> 'd decimal_lib \<Rightarrow> payment_call \<Rightarrow> 'd payment \<Rightarrow> (payment_db, js_error, 'd payment) eff" where
  "knex_payment_save E D cx p =
     (let events = fst (pullEvents p) in
      transaction
        (bind_eff (trx_insert_payment E (row_of_payment D cx p)) (\<lambda>row.
         bind_eff (appendEvents cx (yw_id row) events) (\<lambda>_.
         lift_res (payment_toDomain D row)))))"

definition payment_version_conflict :: "'d payment \<Rightarrow> int \<Rightarrow> js_error" where
  "payment_version_conflict p expectedVersion =
     App ((new_error ConflictError
             (''Payment '' @ (case p_id p of Some i \<Rightarrow> i | None \<Rightarrow> ''undefined'')
              @ '' was modified by another process (version conflict)''))
          \<lparr>ae_metadata := Some (JObj (opt_member ''paymentId'' JStr (p_id p)
             @ [(''expectedVersion'', JNum (of_int expectedVersion))]))\<rparr>)"

definition payment_updated_row :: "payment_call \<Rightarrow> 'd payment \<Rightarrow> payment_row \<Rightarrow> payment_row" where
  "payment_updated_row cx p r =
     r\<lparr>yw_status := p_status p, yw_gateway_transaction_id := p_gatewayTransactionId p,
       yw_failure_reason := p_failureReason p, yw_version := p_version p, yw_updated_at := px_now cx\<rparr>"

definition trx_update_payment ::
    "sql_env \<Rightarrow> payment_call \<Rightarrow> 'd payment \<Rightarrow> int \<Rightarrow> (payment_db, js_error, payment_row) eff" where
  "trx_update_payment E cx p expectedVersion db =
     (case p_id p of
        None \<Rightarrow> (Inl (LibraryError ''undefined binding id''), db)
      | Some pid \<Rightarrow>
          if \<not> sql_uuid E pid then (Inl (sql_err invalid_text), db)
          else
            let match = (\<lambda>r. yw_id r = pid \<and> yw_version r = expectedVersion) in
            case List.find match (yd_payments db) of
              None \<Rightarrow> (Inl (payment_version_conflict p expectedVersion), db)
            | Some row \<Rightarrow>
                (case first_violation
                   [(int4 (p_version p), out_of_range),
                    (case p_gatewayTransactionId p of Some g \<Rightarrow> length g \<le> 100 | None \<Rightarrow> True, too_long)] of
                   Some t \<Rightarrow> (Inl (sql_err t), db)
                 | None \<Rightarrow> (Inr (payment_updated_row cx p row),
                            db\<lparr>yd_payments := update_where match (payment_updated_row cx p) (yd_payments db)\<rparr>)))"

definition knex_payment_update ::
    "sql_env \<Rightarrow> 'd decimal_lib \<Rightarrow> payment_call \<Rightarrow> 'd payment \<Rightarrow> (payment_db, js_error, 'd payment) eff" where
  "knex_payment_update E D cx p =
     (let events = fst (pullEvents p); expectedVersion = p_version p - int (length events) in
      transaction
        (bind_eff (trx_update_payment E cx p expectedVersion) (\<lambda>row.
         bind_eff (appendEvents cx (yw_id row) events) (\<lambda>_.
         lift_res (payment_toDomain D row)))))"

section \<open>KnexRefundRepository\<close>

record new_refund =
  nf_paymentId :: string
  nf_amount :: string
  nf_currency :: string
  nf_status :: string
  nf_gatewayRefundId :: "string option"
  nf_idempotencyKey :: string
  nf_reason :: "string option"

definition refund_violation :: "sql_env \<Rightarrow> payment_db \<Rightarrow> refund_record \<Rightarrow> string option" where
  "refund_violation E db r = first_violation
     [(sql_uuid E (fr_paymentId r), invalid_text), (decimal_12_2 E (fr_amount r), out_of_range),
      (length (fr_currency r) \<le> 3, too_long), (length (fr_status r) \<le> 30, too_long),
      (case fr_gatewayRefundId r of Some g \<Rightarrow> length g \<le> 100 | None \<Rightarrow> True, too_long),
      (length (fr_idempotencyKey r) \<le> 64, too_long),
      (fr_id r \<notin> fr_id ` set (yd_refunds db), unique_violation),
      (fr_idempotencyKey r \<notin> fr_idempotencyKey ` set (yd_refunds db), unique_violation),
      (fr_paymentId r \<in> yw_id ` set (yd_payments db), foreign_key_violation)]"

definition knex_refund_findByKey :: "string \<Rightarrow> (payment_db, js_error, refund_record option) eff" where
  "knex_refund_findByKey key db = (Inr (List.find (\<lambda>r. fr_idempotencyKey r = key) (yd_refunds db)), db)"

definition knex_refund_save :: "sql_env \<Rightarrow> payment_call \<Rightarrow> new_refund \<Rightarrow> (payment_db, js_error, refund_record) eff" where
  "knex_refund_save E cx n db =
     (let r = \<lparr>fr_id = px_rowId cx, fr_paymentId = nf_paymentId n, fr_amount = nf_amount n, fr_currency = nf_currency n,
               fr_status = nf_status n, fr_gatewayRefundId = nf_gatewayRefundId n,
               fr_idempotencyKey = nf_idempotencyKey n, fr_reason = nf_reason n\<rparr> in
      case refund_violation E db r of
        Some t \<Rightarrow> (Inl (sql_err t), db)
      | None \<Rightarrow> (Inr r, db\<lparr>yd_refunds := yd_refunds db @ [r]\<rparr>))"

section \<open>The contract of the payment store\<close>

record ('s, 'd) payment_repository =
  pr_findById :: "string \<Rightarrow> ('s, js_error, 'd payment option) eff"
  pr_findByOrderId :: "string \<Rightarrow> ('s, js_error, 'd payment option) eff"
  pr_findByIdempotencyKey :: "string \<Rightarrow> ('s, js_error, 'd payment option) eff"
  pr_save :: "payment_call \<Rightarrow> 'd payment \<Rightarrow> ('s, js_error, 'd payment) eff"
  pr_update :: "payment_call \<Rightarrow> 'd payment \<Rightarrow> ('s, js_error, 'd payment) eff"

definition KnexPaymentRepository :: "sql_env \<Rightarrow> 'd decimal_lib \<Rightarrow> (payment_db, 'd) payment_repository" where
  "KnexPaymentRepository E D =
     \<lparr>pr_findById = knex_payment_findById E D, pr_findByOrderId = knex_payment_findByOrderId E D,
      pr_findByIdempotencyKey = knex_payment_findByKey D, pr_save = knex_payment_save E D,
      pr_update = knex_payment_update E D\<rparr>"

text \<open>What \<open>update\<close> stores.\<close>

definition stored_payment :: "payment_call \<Rightarrow> 'd payment \<Rightarrow> 'd payment \<Rightarrow> 'd payment" where
  "stored_payment cx old p =
     old\<lparr>p_status := p_status p, p_gatewayTransactionId := p_gatewayTransactionId p,
         p_failureReason := p_failureReason p, p_version := p_version p, p_updatedAt := px_now cx\<rparr>"

text \<open>What an amount becomes in its numeric column: the text with two decimals, read back.\<close>

definition column_amount :: "'d decimal_lib \<Rightarrow> 'd money \<Rightarrow> 'd money \<Rightarrow> bool" where
  "column_amount D a b \<longleftrightarrow> money_of D (AStr (money_fixed D a)) (m_currency a) = Inr b"

locale payment_store =
  fixes repo :: "('s, 'd) payment_repository"
    and inv :: "'s \<Rightarrow> bool"
    and abs :: "'s \<Rightarrow> string \<Rightarrow> 'd payment option"
    and timeline :: "'s \<Rightarrow> string \<Rightarrow> payment_event list"
    and valid_id :: "string \<Rightarrow> bool"
    and column :: "'d money \<Rightarrow> 'd money \<Rightarrow> bool"
  assumes findById: "inv s \<Longrightarrow> valid_id i \<Longrightarrow> pr_findById repo i s = (Inr (abs s i), s)"
    and findById_invalid: "\<not> valid_id i \<Longrightarrow> \<exists>e. pr_findById repo i s = (Inl e, s)"
    and findByKey: "inv s \<Longrightarrow> \<exists>r. pr_findByIdempotencyKey repo k s = (Inr r, s) \<and>
          (case r of None \<Rightarrow> (\<forall>i p. abs s i = Some p \<longrightarrow> p_idempotencyKey p \<noteq> k)
                   | Some p \<Rightarrow> (\<exists>i. abs s i = Some p) \<and> p_idempotencyKey p = k)"
    and abs_id: "inv s \<Longrightarrow> abs s i = Some p \<Longrightarrow> p_id p = Some i \<and> p_events p = [] \<and> valid_id i"
    and abs_key: "inv s \<Longrightarrow> abs s i = Some p \<Longrightarrow> abs s j = Some q \<Longrightarrow>
          p_idempotencyKey p = p_idempotencyKey q \<or> p_orderId p = p_orderId q \<Longrightarrow> i = j"
    and timeline_ok: "inv s \<Longrightarrow> abs s i = Some p \<Longrightarrow>
          replay PS_PENDING (timeline s i) = Some (p_status p) \<and> p_version p = 1 + int (length (timeline s i))"
    and save_ok: "inv s \<Longrightarrow> p_events p = [] \<Longrightarrow> p_status p = PS_PENDING \<Longrightarrow> p_version p = 1 \<Longrightarrow>
          pr_save repo cx p s = (Inr q, t) \<Longrightarrow>
          inv t \<and> timeline t = timeline s \<and> p_orderId q = p_orderId p \<and> p_idempotencyKey q = p_idempotencyKey p \<and>
          p_status q = PS_PENDING \<and> p_version q = 1 \<and> p_events q = [] \<and> column (p_amount p) (p_amount q) \<and>
          (\<exists>i. p_id q = Some i \<and> abs s i = None \<and> abs t = (abs s)(i \<mapsto> q))"
    and save_err: "pr_save repo cx p s = (Inl e, t) \<Longrightarrow> t = s"
    and update_ok: "inv s \<Longrightarrow> p_id p = Some i \<Longrightarrow> abs s i = Some old \<Longrightarrow> payment_from (p_status old) v p \<Longrightarrow>
          pr_update repo cx p s = (Inr q, t) \<Longrightarrow>
          inv t \<and> p_version old = v \<and> q = stored_payment cx old p \<and> abs t = (abs s)(i \<mapsto> q) \<and>
          timeline t = (timeline s)(i := timeline s i @ p_events p)"
    and update_err: "pr_update repo cx p s = (Inl e, t) \<Longrightarrow> t = s"
    and update_conflict: "inv s \<Longrightarrow> p_id p = Some i \<Longrightarrow> valid_id i \<Longrightarrow>
          abs s i = None \<or> p_version (the (abs s i)) \<noteq> p_version p - int (length (p_events p)) \<Longrightarrow>
          pr_update repo cx p s = (Inl (payment_version_conflict p (p_version p - int (length (p_events p)))), s)"
begin

lemma find_cases:
  assumes "inv s"
  obtains (err) e where "pr_findById repo i s = (Inl e, s)" "\<not> valid_id i"
  | (missing) "pr_findById repo i s = (Inr None, s)" "abs s i = None" "valid_id i"
  | (found) p where "pr_findById repo i s = (Inr (Some p), s)" "abs s i = Some p" "p_id p = Some i"
      "p_events p = []" "valid_id i"
  using findById [OF assms, of i] findById_invalid [of i s] abs_id [OF assms, of i]
  by (cases "valid_id i"; cases "abs s i") auto

lemma key_cases:
  assumes "inv s"
  obtains (absent) "pr_findByIdempotencyKey repo k s = (Inr None, s)" "\<forall>i p. abs s i = Some p \<longrightarrow> p_idempotencyKey p \<noteq> k"
  | (present) i p where "pr_findByIdempotencyKey repo k s = (Inr (Some p), s)" "abs s i = Some p" "p_idempotencyKey p = k"
proof -
  obtain r where r: "pr_findByIdempotencyKey repo k s = (Inr r, s)"
    and c: "case r of None \<Rightarrow> (\<forall>i p. abs s i = Some p \<longrightarrow> p_idempotencyKey p \<noteq> k)
       | Some p \<Rightarrow> (\<exists>i. abs s i = Some p) \<and> p_idempotencyKey p = k"
    using findByKey [OF assms, of k] by blast
  with absent present show thesis by (cases r) auto
qed

text \<open>The writer that loaded an older version is refused.\<close>

lemma no_lost_update:
  assumes "inv s" and "p_id a = Some i" and "abs s i = Some old" and "payment_from (p_status old) v a"
    and "pr_update repo cx a s = (Inr q, t)" and "p_events a \<noteq> []"
    and "p_id b = Some i" and "p_version b - int (length (p_events b)) = v"
  shows "pr_update repo cx' b t = (Inl (payment_version_conflict b v), t)"
proof -
  note u = update_ok [OF assms(1-5)]
  have "p_version q \<noteq> v" using u assms(4,6) by (auto simp: stored_payment_def payment_from_def)
  then show ?thesis using update_conflict [of t b i cx'] u assms(7,8) abs_id [OF assms(1,3)] by simp
qed

end

section \<open>The Knex repository keeps the contract\<close>

definition events_of :: "payment_db \<Rightarrow> string \<Rightarrow> payment_event list" where
  "events_of db pid = map vw_event (filter (\<lambda>r. vw_payment_id r = pid) (yd_events db))"

definition payment_db_ok :: "sql_env \<Rightarrow> 'd decimal_lib \<Rightarrow> payment_db \<Rightarrow> bool" where
  "payment_db_ok E D db \<longleftrightarrow>
     distinct (map yw_id (yd_payments db)) \<and> distinct (map yw_order_id (yd_payments db)) \<and>
     distinct (map yw_idempotency_key (yd_payments db)) \<and> distinct (map vw_id (yd_events db)) \<and>
     (\<forall>v\<in>set (yd_events db). vw_payment_id v \<in> yw_id ` set (yd_payments db)) \<and>
     (\<forall>r\<in>set (yd_payments db). sql_uuid E (yw_id r) \<and> (\<exists>p. payment_toDomain D r = Inr p) \<and>
        replay PS_PENDING (events_of db (yw_id r)) = Some (yw_status r) \<and>
        yw_version r = 1 + int (length (events_of db (yw_id r))))"

definition payment_db_abs :: "'d decimal_lib \<Rightarrow> payment_db \<Rightarrow> string \<Rightarrow> 'd payment option" where
  "payment_db_abs D db pid =
     (case List.find (\<lambda>r. yw_id r = pid) (yd_payments db) of
        None \<Rightarrow> None
      | Some row \<Rightarrow> (case payment_toDomain D row of Inl e \<Rightarrow> None | Inr p \<Rightarrow> Some p))"

lemma payment_toDomain_sel:
  assumes "payment_toDomain D r = Inr p"
  shows "p_id p = Some (yw_id r)" and "p_orderId p = yw_order_id r" and "p_idempotencyKey p = yw_idempotency_key r"
    and "p_status p = yw_status r" and "p_version p = yw_version r" and "p_events p = []"
  using assms by (auto simp: payment_toDomain_def newPayment_def split: sum.splits if_splits)

lemma payment_toDomain_updated:
  "payment_toDomain D r = Inr old \<Longrightarrow> payment_toDomain D (payment_updated_row cx p r) = Inr (stored_payment cx old p)"
  by (auto simp: payment_toDomain_def newPayment_def payment_updated_row_def stored_payment_def
      split: sum.splits if_splits)

lemma payment_updated_row_sel [simp]:
  "yw_id (payment_updated_row cx p r) = yw_id r" "yw_order_id (payment_updated_row cx p r) = yw_order_id r"
  "yw_idempotency_key (payment_updated_row cx p r) = yw_idempotency_key r"
  "yw_status (payment_updated_row cx p r) = p_status p" "yw_version (payment_updated_row cx p r) = p_version p"
  by (simp_all add: payment_updated_row_def)

lemma payment_abs_iff:
  assumes "distinct (map yw_id (yd_payments db))"
  shows "payment_db_abs D db i = Some p \<longleftrightarrow>
    (\<exists>r\<in>set (yd_payments db). yw_id r = i \<and> payment_toDomain D r = Inr p)"
proof
  assume "payment_db_abs D db i = Some p"
  then show "\<exists>r\<in>set (yd_payments db). yw_id r = i \<and> payment_toDomain D r = Inr p"
    by (auto simp: payment_db_abs_def dest: find_SomeD split: option.splits sum.splits)
next
  assume "\<exists>r\<in>set (yd_payments db). yw_id r = i \<and> payment_toDomain D r = Inr p"
  then obtain r where r: "r \<in> set (yd_payments db)" "yw_id r = i" "payment_toDomain D r = Inr p" by blast
  with find_key_distinct [OF assms r(1)] show "payment_db_abs D db i = Some p"
    by (simp add: payment_db_abs_def)
qed

lemma event_row_violation_None:
  "event_row_violation rows r = None \<longleftrightarrow> length (pe_eventType (vw_event r)) \<le> 50 \<and> vw_id r \<notin> vw_id ` set rows"
  by (simp add: event_row_violation_def)

lemma payment_row_violation_fresh:
  "payment_row_violation E rows r = None \<Longrightarrow> sql_uuid E (yw_id r) \<and> yw_id r \<notin> yw_id ` set rows \<and>
     yw_order_id r \<notin> yw_order_id ` set rows \<and> yw_idempotency_key r \<notin> yw_idempotency_key ` set rows"
  by (simp add: payment_row_violation_def split: if_splits option.splits)

lemma appendEvents_Inr:
  assumes "appendEvents cx pid evs db = (Inr u, db')"
  shows "yd_payments db' = yd_payments db" and "yd_refunds db' = yd_refunds db"
    and "yd_events db' = yd_events db @ event_rows cx pid evs"
    and "distinct (map vw_id (yd_events db)) \<Longrightarrow> distinct (map vw_id (yd_events db'))"
proof -
  have nil: "event_rows cx pid [] = []" by (simp add: event_rows_def enumerate_eq_zip)
  have "yd_payments db' = yd_payments db \<and> yd_refunds db' = yd_refunds db \<and>
     yd_events db' = yd_events db @ event_rows cx pid evs \<and>
     (distinct (map vw_id (yd_events db)) \<longrightarrow> distinct (map vw_id (yd_events db')))"
  proof (cases "evs = []")
    case True
    with assms nil show ?thesis by (simp add: appendEvents_def)
  next
    case False
    show ?thesis
    proof (cases "insert_rows event_row_violation (yd_events db) (event_rows cx pid evs)")
      case (Inl e)
      with False assms show ?thesis by (simp add: appendEvents_def)
    next
      case (Inr rows)
      with False assms have db': "db' = db\<lparr>yd_events := rows\<rparr>" by (simp add: appendEvents_def)
      have "distinct (map vw_id (yd_events db)) \<Longrightarrow> distinct (map vw_id rows)"
        by (rule insert_rows_distinct [OF Inr]) (simp_all add: event_row_violation_None)
      with db' insert_rows_append [OF Inr] show ?thesis by simp
    qed
  qed
  then show "yd_payments db' = yd_payments db" and "yd_refunds db' = yd_refunds db"
    and "yd_events db' = yd_events db @ event_rows cx pid evs"
    and "distinct (map vw_id (yd_events db)) \<Longrightarrow> distinct (map vw_id (yd_events db'))" by blast+
qed

lemma event_rows_of:
  "map vw_event (filter (\<lambda>r. vw_payment_id r = j) (event_rows cx pid evs)) = (if j = pid then evs else [])"
proof -
  have "vw_event \<circ> (\<lambda>(i, e). \<lparr>vw_id = px_eventIds cx i, vw_payment_id = pid, vw_event = e, vw_created_at = px_now cx\<rparr>) = snd"
    by auto
  then have "map vw_event (event_rows cx pid evs) = evs" by (simp add: event_rows_def)
  moreover have "\<forall>r\<in>set (event_rows cx pid evs). vw_payment_id r = pid" by (auto simp: event_rows_def)
  then have "filter (\<lambda>r. vw_payment_id r = j) (event_rows cx pid evs) = (if j = pid then event_rows cx pid evs else [])"
    by (auto simp: filter_id_conv filter_empty_conv)
  ultimately show ?thesis by simp
qed

lemma events_of_append:
  assumes "yd_events db' = yd_events db @ event_rows cx pid evs"
  shows "events_of db' j = events_of db j @ (if j = pid then evs else [])"
  by (simp add: events_of_def assms event_rows_of)

lemma payment_row_unique:
  assumes "payment_db_ok E D db" and "r \<in> set (yd_payments db)" and "r' \<in> set (yd_payments db)"
    and "yw_id r = yw_id r' \<or> yw_order_id r = yw_order_id r' \<or> yw_idempotency_key r = yw_idempotency_key r'"
  shows "r = r'"
  using assms distinct_key_inj [of yw_id "yd_payments db" r r'] distinct_key_inj [of yw_order_id "yd_payments db" r r']
    distinct_key_inj [of yw_idempotency_key "yd_payments db" r r']
  by (auto simp: payment_db_ok_def)

lemma knex_payment_save_effect:
  assumes ok: "payment_db_ok E D db" and fresh: "p_events p = []" "p_status p = PS_PENDING" "p_version p = 1"
    and sv: "knex_payment_save E D cx p db = (Inr q, db')"
  shows "payment_db_ok E D db'" and "events_of db' = events_of db"
    and "payment_toDomain D (row_of_payment D cx p) = Inr q"
    and "payment_db_abs D db (px_rowId cx) = None"
    and "payment_db_abs D db' = (payment_db_abs D db)(px_rowId cx \<mapsto> q)"
proof -
  let ?row = "row_of_payment D cx p"
  have rid: "yw_id ?row = px_rowId cx" and st: "yw_status ?row = PS_PENDING" and ver: "yw_version ?row = 1"
    using fresh by (simp_all add: row_of_payment_def)
  from sv have v: "payment_row_violation E (yd_payments db) ?row = None"
    and dom: "payment_toDomain D ?row = Inr q" and db': "db' = db\<lparr>yd_payments := yd_payments db @ [?row]\<rparr>"
    by (auto simp: knex_payment_save_def Let_def pullEvents_def fresh transaction_commit bind_eff_Inr appendEvents_def
        lift_res_def trx_insert_payment_def split: sum.splits option.splits)
  note f = payment_row_violation_fresh [OF v]
  show ev: "events_of db' = events_of db" by (simp add: db' events_of_def fun_eq_iff)
  have "events_of db (px_rowId cx) = []"
  proof -
    have "filter (\<lambda>r. vw_payment_id r = px_rowId cx) (yd_events db) = []"
      using ok f rid unfolding payment_db_ok_def filter_empty_conv by metis
    then show ?thesis by (simp add: events_of_def)
  qed
  then show ok': "payment_db_ok E D db'"
    using ok f dom rid st ver unfolding payment_db_ok_def ev by (auto simp: db')
  show dom': "payment_toDomain D ?row = Inr q" by (rule dom)
  have d: "distinct (map yw_id (yd_payments db))" "distinct (map yw_id (yd_payments db'))"
    using ok ok' by (auto simp: payment_db_ok_def)
  have none: "List.find (\<lambda>r. yw_id r = px_rowId cx) (yd_payments db) = None"
    using f rid by (simp add: find_key_None)
  then show "payment_db_abs D db (px_rowId cx) = None" by (simp add: payment_db_abs_def)
  have "payment_db_abs D db' i = ((payment_db_abs D db)(px_rowId cx \<mapsto> q)) i" for i
    using none rid dom by (cases "i = px_rowId cx") (auto simp: payment_db_abs_def db' find_append split: option.split)
  then show "payment_db_abs D db' = (payment_db_abs D db)(px_rowId cx \<mapsto> q)" by blast
qed

lemma knex_payment_update_effect:
  assumes ok: "payment_db_ok E D db" and pid: "p_id p = Some i" and old: "payment_db_abs D db i = Some old"
    and chain: "payment_from (p_status old) v p" and upd: "knex_payment_update E D cx p db = (Inr q, db')"
  shows "payment_db_ok E D db'" and "p_version old = v" and "q = stored_payment cx old p"
    and "payment_db_abs D db' = (payment_db_abs D db)(i \<mapsto> q)"
    and "events_of db' = (events_of db)(i := events_of db i @ p_events p)"
proof -
  have v: "p_version p - int (length (p_events p)) = v" using chain by (simp add: payment_from_def)
  let ?m = "\<lambda>r. yw_id r = i \<and> yw_version r = v"
  let ?rows = "update_where ?m (payment_updated_row cx p) (yd_payments db)"
  from upd v pid obtain row u db2 where
    1: "trx_update_payment E cx p v db = (Inr row, db\<lparr>yd_payments := ?rows\<rparr>)"
    and 2: "appendEvents cx (yw_id row) (p_events p) (db\<lparr>yd_payments := ?rows\<rparr>) = (Inr u, db2)"
    and q: "payment_toDomain D row = Inr q" and db': "db' = db2"
    by (auto simp: knex_payment_update_def Let_def pullEvents_def transaction_commit bind_eff_Inr lift_res_def
        trx_update_payment_def split: if_splits option.splits)
  from 1 pid obtain r where f: "List.find ?m (yd_payments db) = Some r" and row: "row = payment_updated_row cx p r"
    by (auto simp: trx_update_payment_def Let_def split: if_splits option.splits)
  from find_SomeD [OF f] have r: "r \<in> set (yd_payments db)" "yw_id r = i" "yw_version r = v" by auto
  have d: "distinct (map yw_id (yd_payments db))" using ok by (simp add: payment_db_ok_def)
  from old r have domr: "payment_toDomain D r = Inr old"
    using payment_abs_iff [OF d] payment_row_unique [OF ok _ r(1)] by blast
  note sel = payment_toDomain_sel [OF domr]
  from sel r show "p_version old = v" by simp
  from q row payment_toDomain_updated [OF domr] show qv: "q = stored_payment cx old p" by simp
  have rid: "yw_id row = i" using row r by simp
  note a = appendEvents_Inr [OF 2]
  have ev: "events_of db' j = events_of db j @ (if j = i then p_events p else [])" for j
    unfolding db' by (rule events_of_append) (use a(3) rid in simp)
  then show evs: "events_of db' = (events_of db)(i := events_of db i @ p_events p)" by (auto simp: fun_eq_iff)
  have pay: "yd_payments db' = ?rows" using a(1) db' by simp
  have m: "?m x \<longleftrightarrow> x = r" if "x \<in> set (yd_payments db)" for x
    using that r payment_row_unique [OF ok that r(1)] by auto
  have rowsI: "x \<in> set ?rows \<longleftrightarrow> x = row \<or> (x \<in> set (yd_payments db) \<and> x \<noteq> r)" for x
    using m r(1) row by (auto simp: set_update_where image_iff)
  have col: "map k ?rows = map k (yd_payments db)" if "\<And>x. k (payment_updated_row cx p x) = k x" for k :: "payment_row \<Rightarrow> string"
    by (rule map_update_where) (simp add: that)
  have cols: "map yw_id ?rows = map yw_id (yd_payments db)" "map yw_order_id ?rows = map yw_order_id (yd_payments db)"
    "map yw_idempotency_key ?rows = map yw_idempotency_key (yd_payments db)" by (rule col; simp)+
  have ids: "yw_id ` set ?rows = yw_id ` set (yd_payments db)" using arg_cong [OF cols(1), of set] by simp
  have rowok: "sql_uuid E (yw_id x) \<and> (\<exists>p'. payment_toDomain D x = Inr p') \<and>
      replay PS_PENDING (events_of db' (yw_id x)) = Some (yw_status x) \<and>
      yw_version x = 1 + int (length (events_of db' (yw_id x)))" if "x \<in> set ?rows" for x
  proof -
    from that rowsI consider "x = row" | "x \<in> set (yd_payments db)" "x \<noteq> r" by blast
    then show ?thesis
    proof cases
      case 1
      have "replay PS_PENDING (events_of db i) = Some (yw_status r)" "yw_version r = 1 + int (length (events_of db i))"
        "sql_uuid E i" using ok r by (auto simp: payment_db_ok_def)
      with 1 row q r sel chain show ?thesis by (auto simp: ev replay_append payment_from_def)
    next
      case 2
      then have "yw_id x \<noteq> i" using r payment_row_unique [OF ok 2(1) r(1)] by auto
      with ok 2 show ?thesis by (auto simp: ev payment_db_ok_def)
    qed
  qed
  have evid: "\<forall>w\<in>set (yd_events db'). vw_payment_id w \<in> yw_id ` set ?rows"
  proof
    fix w assume "w \<in> set (yd_events db')"
    then have "w \<in> set (yd_events db) \<or> vw_payment_id w = i"
      using a(3) db' rid by (auto simp: event_rows_def)
    with ok r show "vw_payment_id w \<in> yw_id ` set ?rows" unfolding ids payment_db_ok_def by auto
  qed
  have "distinct (map vw_id (yd_events db'))" using a(4) ok db' by (simp add: payment_db_ok_def)
  with ok rowok evid show ok': "payment_db_ok E D db'"
    unfolding payment_db_ok_def pay cols by blast
  have d': "distinct (map yw_id (yd_payments db'))" using ok' by (simp add: payment_db_ok_def)
  have "payment_db_abs D db' j = ((payment_db_abs D db)(i \<mapsto> q)) j" for j
  proof (cases "j = i")
    case True
    have "payment_db_abs D db' i = Some q"
      unfolding payment_abs_iff [OF d'] pay using rowsI q rid by (intro bexI [of _ row]) auto
    with True show ?thesis by simp
  next
    case False
    then have "List.find (\<lambda>x. yw_id x = j) ?rows = List.find (\<lambda>x. yw_id x = j) (yd_payments db)"
      by (intro find_update_where_other) auto
    with False show ?thesis by (simp add: payment_db_abs_def pay)
  qed
  then show "payment_db_abs D db' = (payment_db_abs D db)(i \<mapsto> q)" by blast
qed

lemma payment_first_ok:
  assumes "payment_db_ok E D db"
  shows "payment_first D P db = (Inr (map_option (\<lambda>r. case payment_toDomain D r of Inr p \<Rightarrow> p | Inl e \<Rightarrow> undefined)
    (List.find P (yd_payments db))), db)"
proof (cases "List.find P (yd_payments db)")
  case (Some r)
  then have "r \<in> set (yd_payments db)" by (auto dest: find_SomeD)
  with assms obtain p where "payment_toDomain D r = Inr p" by (auto simp: payment_db_ok_def)
  with Some show ?thesis by (simp add: payment_first_def)
qed (simp add: payment_first_def)

lemma knex_payment_find_ok:
  assumes ok: "payment_db_ok E D db" and "sql_uuid E i"
  shows "knex_payment_findById E D i db = (Inr (payment_db_abs D db i), db)"
proof (cases "List.find (\<lambda>r. yw_id r = i) (yd_payments db)")
  case None
  with assms show ?thesis by (simp add: knex_payment_findById_def payment_first_def payment_db_abs_def)
next
  case (Some r)
  then have "r \<in> set (yd_payments db)" by (auto dest: find_SomeD)
  with ok obtain p where "payment_toDomain D r = Inr p" by (auto simp: payment_db_ok_def)
  with Some assms show ?thesis by (simp add: knex_payment_findById_def payment_first_def payment_db_abs_def)
qed

lemma knex_payment_key_ok:
  assumes ok: "payment_db_ok E D db"
  shows "\<exists>r. knex_payment_findByKey D k db = (Inr r, db) \<and>
    (case r of None \<Rightarrow> (\<forall>i p. payment_db_abs D db i = Some p \<longrightarrow> p_idempotencyKey p \<noteq> k)
     | Some p \<Rightarrow> (\<exists>i. payment_db_abs D db i = Some p) \<and> p_idempotencyKey p = k)"
proof -
  have d: "distinct (map yw_id (yd_payments db))" using ok by (simp add: payment_db_ok_def)
  show ?thesis
  proof (cases "List.find (\<lambda>r. yw_idempotency_key r = k) (yd_payments db)")
    case None
    then have "\<forall>i p. payment_db_abs D db i = Some p \<longrightarrow> p_idempotencyKey p \<noteq> k"
      by (auto simp: payment_abs_iff [OF d] find_None_iff dest!: payment_toDomain_sel(3))
    with None show ?thesis by (simp add: knex_payment_findByKey_def payment_first_def)
  next
    case (Some r)
    then have r: "r \<in> set (yd_payments db)" "yw_idempotency_key r = k" by (auto dest: find_SomeD)
    with ok obtain p where p: "payment_toDomain D r = Inr p" by (auto simp: payment_db_ok_def)
    with r have "payment_db_abs D db (yw_id r) = Some p" unfolding payment_abs_iff [OF d] by blast
    with Some p r payment_toDomain_sel(3) [OF p] show ?thesis
      by (auto simp: knex_payment_findByKey_def payment_first_def)
  qed
qed

lemma knex_payment_update_conflict:
  assumes ok: "payment_db_ok E D db" and pid: "p_id p = Some i" "sql_uuid E i"
    and stale: "payment_db_abs D db i = None \<or>
      p_version (the (payment_db_abs D db i)) \<noteq> p_version p - int (length (p_events p))"
  shows "knex_payment_update E D cx p db =
    (Inl (payment_version_conflict p (p_version p - int (length (p_events p)))), db)"
proof -
  let ?v = "p_version p - int (length (p_events p))"
  have d: "distinct (map yw_id (yd_payments db))" using ok by (simp add: payment_db_ok_def)
  have "List.find (\<lambda>r. yw_id r = i \<and> yw_version r = ?v) (yd_payments db) = None"
  proof (rule ccontr)
    assume "\<not> ?thesis"
    then obtain r where "List.find (\<lambda>r. yw_id r = i \<and> yw_version r = ?v) (yd_payments db) = Some r" by blast
    then have r: "r \<in> set (yd_payments db)" "yw_id r = i" "yw_version r = ?v" by (auto dest: find_SomeD)
    with ok obtain q where q: "payment_toDomain D r = Inr q" by (auto simp: payment_db_ok_def)
    with r have "payment_db_abs D db i = Some q" unfolding payment_abs_iff [OF d] by blast
    with stale payment_toDomain_sel(5) [OF q] r show False by simp
  qed
  with pid show ?thesis
    by (simp add: knex_payment_update_def pullEvents_def transaction_def bind_eff_def trx_update_payment_def Let_def)
qed

interpretation knex_payments: payment_store "KnexPaymentRepository E D" "payment_db_ok E D" "payment_db_abs D"
    events_of "sql_uuid E" "column_amount D"
  for E :: sql_env and D :: "'d decimal_lib"
proof (unfold_locales, goal_cases)
  case (1 s i)
  then show ?case by (simp add: KnexPaymentRepository_def knex_payment_find_ok)
next
  case (2 i s)
  then show ?case by (simp add: KnexPaymentRepository_def knex_payment_findById_def)
next
  case (3 s k)
  then show ?case by (simp add: KnexPaymentRepository_def knex_payment_key_ok)
next
  case (4 s i p)
  then have "distinct (map yw_id (yd_payments s))" by (simp add: payment_db_ok_def)
  with 4 show ?case by (auto simp: payment_abs_iff payment_db_ok_def payment_toDomain_sel)
next
  case (5 s i p j q)
  then have d: "distinct (map yw_id (yd_payments s))" by (simp add: payment_db_ok_def)
  with 5 obtain r r' where "r \<in> set (yd_payments s)" "yw_id r = i" "payment_toDomain D r = Inr p"
    and "r' \<in> set (yd_payments s)" "yw_id r' = j" "payment_toDomain D r' = Inr q"
    by (auto simp: payment_abs_iff)
  with 5 payment_row_unique [OF 5(1), of r r'] payment_toDomain_sel [of D r p] payment_toDomain_sel [of D r' q]
  show ?case by auto
next
  case (6 s i p)
  then have "distinct (map yw_id (yd_payments s))" by (simp add: payment_db_ok_def)
  with 6 show ?case by (auto simp: payment_abs_iff payment_db_ok_def payment_toDomain_sel)
next
  case (7 s p cx q t)
  then have sv: "knex_payment_save E D cx p s = (Inr q, t)" by (simp add: KnexPaymentRepository_def)
  note e = knex_payment_save_effect [OF 7(1-4) sv]
  have "column_amount D (p_amount p) (p_amount q)"
    using e(3) by (auto simp: payment_toDomain_def row_of_payment_def column_amount_def newPayment_def split: sum.splits if_splits)
  with payment_toDomain_sel [OF e(3)] e 7 show ?case by (simp add: row_of_payment_def)
next
  case (8 cx p s e t)
  then show ?case by (auto simp: KnexPaymentRepository_def knex_payment_save_def Let_def dest: transaction_rollback)
next
  case (9 s p i old v cx q t)
  then have "knex_payment_update E D cx p s = (Inr q, t)" by (simp add: KnexPaymentRepository_def)
  from knex_payment_update_effect [OF 9(1-4) this] show ?case by blast
next
  case (10 cx p s e t)
  then show ?case by (auto simp: KnexPaymentRepository_def knex_payment_update_def Let_def dest: transaction_rollback)
next
  case (11 s p i cx)
  then show ?case by (simp add: KnexPaymentRepository_def knex_payment_update_conflict)
qed

definition payment_db_empty :: payment_db where
  "payment_db_empty = \<lparr>yd_payments = [], yd_events = [], yd_refunds = []\<rparr>"

lemma payment_db_empty_ok: "payment_db_ok E D payment_db_empty"
  by (simp add: payment_db_ok_def payment_db_empty_def)

end
