(* ===== verification/Resilience.thy ===== *)
theory Resilience
  imports App_Error
begin

text \<open>
  The resilience patterns around the payment gateway: retry with exponential backoff
  (\<open>packages/shared/src/resilience/retry.ts\<close>), the circuit breaker
  (\<open>services/payment-service/src/infrastructure/resilience/CircuitBreaker.ts\<close>) and the simulated
  gateway (\<open>infrastructure/external/PaymentGatewayClient.ts\<close>).
\<close>

section \<open>Retry\<close>

record retry_options =
  rt_maxAttempts :: nat
  rt_baseDelayMs :: int
  rt_maxDelayMs :: int
  rt_jitter :: bool
  rt_isRetryable :: "js_error \<Rightarrow> bool"

definition default_retry :: retry_options where
  "default_retry = \<lparr>rt_maxAttempts = 3, rt_baseDelayMs = 100, rt_maxDelayMs = 30000, rt_jitter = True,
     rt_isRetryable = (\<lambda>_. True)\<rparr>"

text \<open>The delay before the attempt after \<open>attempt\<close>; \<open>r\<close> is what \<open>random()\<close> returns.\<close>

definition backoff_cap :: "retry_options \<Rightarrow> nat \<Rightarrow> int" where
  "backoff_cap opts attempt = min (rt_baseDelayMs opts * 2 ^ (attempt - 1)) (rt_maxDelayMs opts)"

definition backoff_delay :: "retry_options \<Rightarrow> rat \<Rightarrow> nat \<Rightarrow> int" where
  "backoff_delay opts r attempt =
     (if rt_jitter opts then \<lfloor>r * of_int (backoff_cap opts attempt)\<rfloor> else backoff_cap opts attempt)"

text \<open>
  The loop, from a given attempt on.  The state carries the delays slept so far; \<open>rnd\<close> gives
  the random number drawn after each attempt; \<open>last\<close> is \<open>lastError\<close>.
\<close>

function retry_from ::
    "retry_options \<Rightarrow> (nat \<Rightarrow> rat) \<Rightarrow> ('s, js_error, 'a) eff \<Rightarrow> js_error option \<Rightarrow> nat \<Rightarrow>
     ('s \<times> int list, js_error, 'a) eff" where
  "retry_from opts rnd fn lastError attempt (s, delays) =
     (if attempt \<le> rt_maxAttempts opts then
        (case fn s of
           (Inr x, t) \<Rightarrow> (Inr x, (t, delays))
         | (Inl e, t) \<Rightarrow>
             if rt_maxAttempts opts \<le> attempt \<or> \<not> rt_isRetryable opts e then (Inl e, (t, delays))
             else retry_from opts rnd fn (Some e) (attempt + 1) (t, delays @ [backoff_delay opts (rnd attempt) attempt]))
      else (Inl (case lastError of Some e \<Rightarrow> e | None \<Rightarrow> LibraryError ''undefined''), (s, delays)))"
  by pat_completeness auto
termination
  by (relation "measure (\<lambda>(opts, rnd, fn, lastError, attempt, s). rt_maxAttempts opts + 1 - attempt)") auto

definition retry :: "retry_options \<Rightarrow> (nat \<Rightarrow> rat) \<Rightarrow> ('s, js_error, 'a) eff \<Rightarrow> ('s \<times> int list, js_error, 'a) eff" where
  "retry opts rnd fn = retry_from opts rnd fn None 1"

declare retry_from.simps [simp del]

text \<open>An operation that also counts its calls.\<close>

definition counted :: "('s, js_error, 'a) eff \<Rightarrow> ('s \<times> nat, js_error, 'a) eff" where
  "counted fn sn = (case fn (fst sn) of (r, t) \<Rightarrow> (r, (t, Suc (snd sn))))"

lemma retry_from_calls:
  assumes "retry_from opts rnd (counted fn) le k ((s, n), ds) = (r, ((t, m), ds'))"
    and "1 \<le> k" and "k \<le> rt_maxAttempts opts"
  shows "\<exists>j. k \<le> j \<and> j \<le> rt_maxAttempts opts \<and> m = n + (j - k) + 1 \<and>
    ds' = ds @ map (\<lambda>a. backoff_delay opts (rnd a) a) [k..<j]"
  using assms
proof (induction "rt_maxAttempts opts - k" arbitrary: k s n ds le)
  case 0
  then have k: "k = rt_maxAttempts opts" by simp
  with 0 show ?case
    by (subst (asm) retry_from.simps) (auto simp: counted_def split: prod.splits sum.splits)
next
  case (Suc d)
  obtain q u where q: "fn s = (q, u)" by fastforce
  show ?case
  proof (cases "\<exists>e. q = Inl e \<and> rt_isRetryable opts e")
    case False
    with Suc.prems q show ?thesis
      by (subst (asm) retry_from.simps) (auto simp: counted_def split: sum.splits if_splits intro!: exI [of _ k])
  next
    case True
    then obtain e where e: "q = Inl e" "rt_isRetryable opts e" by blast
    have lt: "k < rt_maxAttempts opts" using Suc.hyps(2) by simp
    have step: "retry_from opts rnd (counted fn) (Some e) (Suc k) ((u, Suc n), ds @ [backoff_delay opts (rnd k) k]) = (r, ((t, m), ds'))"
      using Suc.prems(1) q e lt by (subst (asm) retry_from.simps) (auto simp: counted_def)
    have d: "d = rt_maxAttempts opts - Suc k" using Suc.hyps(2) by simp
    have "1 \<le> Suc k" and "Suc k \<le> rt_maxAttempts opts" using lt by simp_all
    from Suc.hyps(1) [OF d step this] obtain j where
      "Suc k \<le> j" "j \<le> rt_maxAttempts opts" "m = Suc n + (j - Suc k) + 1"
      "ds' = (ds @ [backoff_delay opts (rnd k) k]) @ map (\<lambda>a. backoff_delay opts (rnd a) a) [Suc k..<j]"
      by blast
    then show ?thesis by (intro exI [of _ j]) (auto simp: upt_rec [of k j])
  qed
qed

text \<open>A jittered delay stays within the capped exponential.\<close>

lemma backoff_delay_bounds:
  assumes "0 \<le> r" "r < 1" and "0 \<le> rt_baseDelayMs opts" "0 \<le> rt_maxDelayMs opts"
  shows "0 \<le> backoff_delay opts r a" and "backoff_delay opts r a \<le> rt_maxDelayMs opts"
    and "backoff_delay opts r a \<le> rt_baseDelayMs opts * 2 ^ (a - 1)"
proof -
  let ?c = "backoff_cap opts a"
  have c: "0 \<le> ?c" using assms by (simp add: backoff_cap_def)
  have "\<lfloor>r * of_int ?c\<rfloor> \<le> ?c"
  proof -
    have "r * of_int ?c \<le> 1 * of_int ?c" using assms c by (intro mult_right_mono) auto
    then have "\<lfloor>r * of_int ?c\<rfloor> \<le> \<lfloor>of_int ?c :: rat\<rfloor>" by (intro floor_mono) simp
    then show ?thesis by simp
  qed
  moreover have "0 \<le> \<lfloor>r * of_int ?c\<rfloor>" using assms c by simp
  ultimately have b: "0 \<le> backoff_delay opts r a \<and> backoff_delay opts r a \<le> ?c"
    using c by (simp add: backoff_delay_def)
  then show "0 \<le> backoff_delay opts r a" by simp
  from b show "backoff_delay opts r a \<le> rt_maxDelayMs opts" by (simp add: backoff_cap_def)
  from b show "backoff_delay opts r a \<le> rt_baseDelayMs opts * 2 ^ (a - 1)" by (simp add: backoff_cap_def)
qed

section \<open>Circuit breaker\<close>

datatype circuit_state = CLOSED | OPEN | HALF_OPEN

record breaker_options =
  bo_failureThreshold :: nat
  bo_resetTimeoutMs :: int
  bo_shouldCount :: "js_error \<Rightarrow> bool"

text \<open>\<open>cb_changes\<close>: the calls of \<open>onStateChange\<close> so far.\<close>

record breaker =
  cb_state :: circuit_state
  cb_failureCount :: nat
  cb_nextProbeAt :: int
  cb_changes :: "(circuit_state \<times> circuit_state) list"

definition breaker_init :: breaker where
  "breaker_init = \<lparr>cb_state = CLOSED, cb_failureCount = 0, cb_nextProbeAt = 0, cb_changes = []\<rparr>"

definition breaker_transition :: "circuit_state \<Rightarrow> breaker \<Rightarrow> breaker" where
  "breaker_transition to b =
     (if cb_state b = to then b
      else b\<lparr>cb_state := to, cb_changes := cb_changes b @ [(cb_state b, to)]\<rparr>)"

definition breaker_open :: "breaker_options \<Rightarrow> int \<Rightarrow> breaker \<Rightarrow> breaker" where
  "breaker_open opts now b = breaker_transition OPEN (b\<lparr>cb_nextProbeAt := now + bo_resetTimeoutMs opts\<rparr>)"

definition breaker_onSuccess :: "breaker \<Rightarrow> breaker" where
  "breaker_onSuccess b =
     (let b1 = b\<lparr>cb_failureCount := 0\<rparr> in
      if cb_state b1 = HALF_OPEN then breaker_transition CLOSED b1 else b1)"

definition breaker_onFailure :: "breaker_options \<Rightarrow> int \<Rightarrow> js_error \<Rightarrow> breaker \<Rightarrow> breaker" where
  "breaker_onFailure opts now err b =
     (if \<not> bo_shouldCount opts err then b
      else
        let b1 = b\<lparr>cb_failureCount := cb_failureCount b + 1\<rparr> in
        if cb_state b1 = HALF_OPEN then breaker_open opts now b1
        else if bo_failureThreshold opts \<le> cb_failureCount b1 then breaker_open opts now b1
        else b1)"

text \<open>The part of \<open>execute\<close> before the call: refuse, or admit (possibly as a probe).\<close>

definition breaker_admit :: "int \<Rightarrow> breaker \<Rightarrow> js_error + breaker" where
  "breaker_admit now b =
     (if cb_state b = OPEN then
        (if now < cb_nextProbeAt b then Inl (CircuitOpenError ''Circuit breaker is open'')
         else Inr (breaker_transition HALF_OPEN b))
      else Inr b)"

text \<open>\<open>execute(fn)\<close> with no other call in between; \<open>now1\<close> is the clock at the failure.\<close>

definition breaker_execute ::
    "breaker_options \<Rightarrow> int \<Rightarrow> int \<Rightarrow> ('s, js_error, 'a) eff \<Rightarrow> ('s \<times> breaker, js_error, 'a) eff" where
  "breaker_execute opts now0 now1 fn sb =
     (case breaker_admit now0 (snd sb) of
        Inl e \<Rightarrow> (Inl e, sb)
      | Inr b \<Rightarrow>
          (case fn (fst sb) of
             (Inr x, t) \<Rightarrow> (Inr x, (t, breaker_onSuccess b))
           | (Inl e, t) \<Rightarrow> (Inl e, (t, breaker_onFailure opts now1 e b))))"

text \<open>
  Calls of concurrent requests interleave: each is admitted at some moment and reports its
  outcome at a later one.
\<close>

datatype breaker_event = Admit int | Success | Failure int js_error

inductive breaker_step :: "breaker_options \<Rightarrow> breaker \<Rightarrow> breaker_event \<Rightarrow> breaker \<Rightarrow> bool" for opts where
  bs_admit: "breaker_admit now b = Inr b' \<Longrightarrow> breaker_step opts b (Admit now) b'"
| bs_success: "breaker_step opts b Success (breaker_onSuccess b)"
| bs_failure: "breaker_step opts b (Failure now err) (breaker_onFailure opts now err b)"

inductive_cases breaker_stepE: "breaker_step opts b e b'"

inductive breaker_reachable :: "breaker_options \<Rightarrow> breaker \<Rightarrow> bool" for opts where
  br_init: "breaker_reachable opts breaker_init"
| br_step: "breaker_reachable opts b \<Longrightarrow> breaker_step opts b e b' \<Longrightarrow> breaker_reachable opts b'"

lemma breaker_transition_sel [simp]:
  "cb_state (breaker_transition to b) = to"
  "cb_failureCount (breaker_transition to b) = cb_failureCount b"
  "cb_nextProbeAt (breaker_transition to b) = cb_nextProbeAt b"
  by (auto simp: breaker_transition_def)

lemma breaker_open_sel [simp]:
  "cb_state (breaker_open opts now b) = OPEN"
  "cb_failureCount (breaker_open opts now b) = cb_failureCount b"
  "cb_nextProbeAt (breaker_open opts now b) = now + bo_resetTimeoutMs opts"
  by (simp_all add: breaker_open_def)

text \<open>The log of changes is a path from CLOSED to the current state, along the documented arrows.\<close>

fun changes_path :: "circuit_state \<Rightarrow> (circuit_state \<times> circuit_state) list \<Rightarrow> circuit_state \<Rightarrow> bool" where
  "changes_path s [] t = (s = t)"
| "changes_path s ((a, b) # cs) t =
     (s = a \<and> (a, b) \<in> {(CLOSED, OPEN), (OPEN, HALF_OPEN), (HALF_OPEN, CLOSED), (HALF_OPEN, OPEN)} \<and> changes_path b cs t)"

lemma changes_path_snoc:
  "changes_path s (cs @ [(a, b)]) t \<longleftrightarrow> changes_path s cs a \<and> b = t \<and>
     (a, b) \<in> {(CLOSED, OPEN), (OPEN, HALF_OPEN), (HALF_OPEN, CLOSED), (HALF_OPEN, OPEN)}"
  by (induction cs arbitrary: s) auto

definition breaker_inv :: "breaker_options \<Rightarrow> breaker \<Rightarrow> bool" where
  "breaker_inv opts b \<longleftrightarrow>
     (cb_state b = CLOSED \<longrightarrow> cb_failureCount b < bo_failureThreshold opts) \<and>
     changes_path CLOSED (cb_changes b) (cb_state b)"

lemma breaker_step_inv:
  assumes "0 < bo_failureThreshold opts" and "breaker_step opts b e b'" and "breaker_inv opts b"
  shows "breaker_inv opts b'"
  using assms(2)
proof (cases rule: breaker_step.cases)
  case (bs_admit now)
  with assms(3) show ?thesis
    by (auto simp: breaker_admit_def breaker_inv_def breaker_transition_def changes_path_snoc split: if_splits)
next
  case bs_success
  with assms show ?thesis
    by (cases "cb_state b") (auto simp: breaker_onSuccess_def breaker_inv_def breaker_transition_def changes_path_snoc Let_def)
next
  case (bs_failure now err)
  with assms show ?thesis
    by (cases "cb_state b")
      (auto simp: breaker_onFailure_def breaker_inv_def breaker_open_def breaker_transition_def changes_path_snoc Let_def)
qed

lemma breaker_reachable_inv:
  assumes "0 < bo_failureThreshold opts" and "breaker_reachable opts b"
  shows "breaker_inv opts b"
  using assms(2)
proof (induction rule: breaker_reachable.induct)
  case br_init
  show ?case using assms(1) by (simp add: breaker_inv_def breaker_init_def)
next
  case (br_step b e b')
  then show ?case using breaker_step_inv [OF assms(1)] by blast
qed

text \<open>\<open>n\<close> counted failures in a row, from a closed breaker.\<close>

lemma consecutive_failures:
  assumes "cb_state b = CLOSED" and "\<forall>(now, e)\<in>set fs. bo_shouldCount opts e"
    and "cb_failureCount b + length fs < bo_failureThreshold opts"
  shows "foldl (\<lambda>b (now, e). breaker_onFailure opts now e b) b fs =
    b\<lparr>cb_failureCount := cb_failureCount b + length fs\<rparr>"
  using assms
proof (induction fs arbitrary: b)
  case (Cons f fs)
  obtain now e where f: "f = (now, e)" by (cases f)
  have "breaker_onFailure opts now e b = b\<lparr>cb_failureCount := cb_failureCount b + 1\<rparr>"
    using Cons.prems f by (auto simp: breaker_onFailure_def Let_def)
  with Cons.IH [of "b\<lparr>cb_failureCount := cb_failureCount b + 1\<rparr>"] Cons.prems f show ?case by simp
qed simp

section \<open>The simulated gateway\<close>

text \<open>\<open>isRetryableGatewayError\<close>.\<close>

fun isRetryableGatewayError :: "js_error \<Rightarrow> bool" where
  "isRetryableGatewayError (GatewayError m retryable status) = (retryable \<or> 500 \<le> status)"
| "isRetryableGatewayError _ = False"

record gateway_options =
  go_failureRate :: rat
  go_minLatencyMs :: int
  go_maxLatencyMs :: int

text \<open>
  The random source and the id generator are sequences with a position.  \<open>gw_done\<close> is a record
  of the requests the gateway carried out, kept for the statements about double charges.
\<close>

record charge_request =
  cr_amount :: string
  cr_currency :: string
  cr_idempotencyKey :: string

record gateway_state =
  gw_random :: "nat \<Rightarrow> rat"
  gw_drawn :: nat
  gw_uuid :: "nat \<Rightarrow> string"
  gw_uuids :: nat
  gw_slept :: "int list"
  gw_charges :: "charge_request list"
  gw_refunds :: "(string \<times> charge_request) list"

definition maybeFail :: "gateway_options \<Rightarrow> (gateway_state, js_error, unit) eff" where
  "maybeFail opts g =
     (let roll = gw_random g (gw_drawn g); g1 = g\<lparr>gw_drawn := gw_drawn g + 1\<rparr> in
      if go_failureRate opts \<le> roll then (Inr (), g1)
      else
        let band = roll / go_failureRate opts in
        if band < 4 / 10 then (Inl (GatewayError ''Card declined'' False 402), g1)
        else if band < 7 / 10 then (Inl (GatewayError ''Gateway temporarily unavailable'' True 503), g1)
        else (Inl (GatewayError ''Gateway timeout'' True 504), g1))"

definition simulateLatency :: "gateway_options \<Rightarrow> (gateway_state, js_error, unit) eff" where
  "simulateLatency opts g =
     (if go_maxLatencyMs opts \<le> 0 then (Inr (), g)
      else
        let span = max 0 (go_maxLatencyMs opts - go_minLatencyMs opts);
            delay = go_minLatencyMs opts + \<lfloor>gw_random g (gw_drawn g) * of_int span\<rfloor>
        in (Inr (), g\<lparr>gw_drawn := gw_drawn g + 1, gw_slept := gw_slept g @ [delay]\<rparr>))"

definition gateway_charge :: "gateway_options \<Rightarrow> charge_request \<Rightarrow> (gateway_state, js_error, string) eff" where
  "gateway_charge opts req =
     bind_eff (simulateLatency opts) (\<lambda>_.
     bind_eff (maybeFail opts) (\<lambda>_ g.
       (Inr (''txn_'' @ gw_uuid g (gw_uuids g)),
        g\<lparr>gw_uuids := gw_uuids g + 1, gw_charges := gw_charges g @ [req]\<rparr>)))"

definition gateway_refund :: "gateway_options \<Rightarrow> string \<Rightarrow> charge_request \<Rightarrow> (gateway_state, js_error, string) eff" where
  "gateway_refund opts transactionId req =
     bind_eff (simulateLatency opts) (\<lambda>_.
     bind_eff (maybeFail opts) (\<lambda>_ g.
       (Inr (''rf_'' @ gw_uuid g (gw_uuids g)),
        g\<lparr>gw_uuids := gw_uuids g + 1, gw_refunds := gw_refunds g @ [(transactionId, req)]\<rparr>)))"

text \<open>A charge is carried out exactly when the call returns.\<close>

lemma gateway_charge_log:
  "gateway_charge opts req g = (r, g') \<Longrightarrow>
     gw_charges g' = gw_charges g @ (case r of Inl e \<Rightarrow> [] | Inr tx \<Rightarrow> [req]) \<and> gw_refunds g' = gw_refunds g"
  by (auto simp: gateway_charge_def bind_eff_def simulateLatency_def maybeFail_def Let_def split: if_splits)

lemma gateway_refund_log:
  "gateway_refund opts tx req g = (r, g') \<Longrightarrow>
     gw_refunds g' = gw_refunds g @ (case r of Inl e \<Rightarrow> [] | Inr x \<Rightarrow> [(tx, req)]) \<and> gw_charges g' = gw_charges g"
  by (auto simp: gateway_refund_def bind_eff_def simulateLatency_def maybeFail_def Let_def split: if_splits)

text \<open>Retrying an operation that logs one entry exactly when it succeeds logs at most one.\<close>

lemma retry_logs_once:
  assumes op: "\<And>s r t. fn s = (r, t) \<Longrightarrow> view t = view s @ (case r of Inl e \<Rightarrow> [] | Inr x \<Rightarrow> [c])"
    and ex: "retry_from opts rnd fn le k (s, ds) = (r, (t, ds'))"
  shows "view t = view s @ (case r of Inl e \<Rightarrow> [] | Inr x \<Rightarrow> [c])"
  using ex
proof (induction "rt_maxAttempts opts + 1 - k" arbitrary: k s ds le)
  case 0
  then show ?case by (subst (asm) retry_from.simps) auto
next
  case (Suc d)
  obtain q u where q: "fn s = (q, u)" by fastforce
  have k: "k \<le> rt_maxAttempts opts" using Suc.hyps(2) by simp
  show ?case
  proof (cases q)
    case (Inr x)
    with Suc.prems q k op [OF q] show ?thesis by (subst (asm) retry_from.simps) auto
  next
    case (Inl e)
    show ?thesis
    proof (cases "rt_maxAttempts opts \<le> k \<or> \<not> rt_isRetryable opts e")
      case True
      with Suc.prems q k op [OF q] Inl show ?thesis by (subst (asm) retry_from.simps) auto
    next
      case False
      with Suc.prems q k Inl have
        "retry_from opts rnd fn (Some e) (k + 1) (u, ds @ [backoff_delay opts (rnd k) k]) = (r, (t, ds'))"
        by (subst (asm) retry_from.simps) auto
      from Suc.hyps(1) [OF _ this] Suc.hyps(2) op [OF q] Inl show ?thesis by simp
    qed
  qed
qed

lemma retry_keeps:
  assumes op: "\<And>s r t. fn s = (r, t) \<Longrightarrow> view t = view s"
    and ex: "retry_from opts rnd fn le k (s, ds) = (r, (t, ds'))"
  shows "view t = view s"
  using ex
proof (induction "rt_maxAttempts opts + 1 - k" arbitrary: k s ds le)
  case 0
  then show ?case by (subst (asm) retry_from.simps) auto
next
  case (Suc d)
  obtain q u where q: "fn s = (q, u)" by fastforce
  have k: "k \<le> rt_maxAttempts opts" using Suc.hyps(2) by simp
  show ?case
  proof (cases "\<exists>e. q = Inl e \<and> k < rt_maxAttempts opts \<and> rt_isRetryable opts e")
    case False
    with Suc.prems q k op [OF q] show ?thesis
      by (subst (asm) retry_from.simps) (auto split: sum.splits if_splits)
  next
    case True
    then obtain e where "q = Inl e" "k < rt_maxAttempts opts" "rt_isRetryable opts e" by blast
    with Suc.prems q k have
      "retry_from opts rnd fn (Some e) (k + 1) (u, ds @ [backoff_delay opts (rnd k) k]) = (r, (t, ds'))"
      by (subst (asm) retry_from.simps) auto
    from Suc.hyps(1) [OF _ this] Suc.hyps(2) op [OF q] show ?thesis by simp
  qed
qed

end
