(* ===== verification/Effect_Logic.thy ===== *)
theory Effect_Logic
  imports Prelude
begin

text \<open>
  Preconditions and outcomes of effectful operations: \<open>outcome P m Q R\<close> says that from a state
  in \<open>P\<close> the operation \<open>m\<close> either returns a value and a state in \<open>Q\<close> or throws an error and
  leaves a state in \<open>R\<close>.  The rules follow the combinators, so that a handler's claim is proved
  by walking through its text.
\<close>

definition outcome :: "('s \<Rightarrow> bool) \<Rightarrow> ('s, 'e, 'a) eff \<Rightarrow> ('a \<Rightarrow> 's \<Rightarrow> bool) \<Rightarrow> ('e \<Rightarrow> 's \<Rightarrow> bool) \<Rightarrow> bool" where
  "outcome P m Q R \<longleftrightarrow> (\<forall>s r t. P s \<longrightarrow> m s = (r, t) \<longrightarrow> (case r of Inl e \<Rightarrow> R e t | Inr x \<Rightarrow> Q x t))"

lemma outcomeI:
  assumes "\<And>s x t. P s \<Longrightarrow> m s = (Inr x, t) \<Longrightarrow> Q x t" and "\<And>s e t. P s \<Longrightarrow> m s = (Inl e, t) \<Longrightarrow> R e t"
  shows "outcome P m Q R"
  using assms by (auto simp: outcome_def split: sum.split)

lemma outcome_Inr: "outcome P m Q R \<Longrightarrow> P s \<Longrightarrow> m s = (Inr x, t) \<Longrightarrow> Q x t"
  by (fastforce simp: outcome_def)

lemma outcome_Inl: "outcome P m Q R \<Longrightarrow> P s \<Longrightarrow> m s = (Inl e, t) \<Longrightarrow> R e t"
  by (fastforce simp: outcome_def)

text \<open>An invariant, whatever the outcome.\<close>

lemma outcome_inv: "outcome P m (\<lambda>_. I) (\<lambda>_. I) \<Longrightarrow> P s \<Longrightarrow> m s = (r, t) \<Longrightarrow> I t"
  by (cases r) (auto dest: outcome_Inr outcome_Inl)

lemma outcome_pre: "outcome P' m Q R \<Longrightarrow> (\<And>s. P s \<Longrightarrow> P' s) \<Longrightarrow> outcome P m Q R"
  by (auto simp: outcome_def)

lemma outcome_post:
  "outcome P m Q' R' \<Longrightarrow> (\<And>x s. Q' x s \<Longrightarrow> Q x s) \<Longrightarrow> (\<And>e s. R' e s \<Longrightarrow> R e s) \<Longrightarrow> outcome P m Q R"
  by (fastforce simp: outcome_def split: sum.splits)

lemma outcome_ret: "(\<And>s. P s \<Longrightarrow> Q x s) \<Longrightarrow> outcome P (ret x) Q R"
  by (auto simp: outcome_def ret_def)

lemma outcome_throw: "(\<And>s. P s \<Longrightarrow> R e s) \<Longrightarrow> outcome P (throw e) Q R"
  by (auto simp: outcome_def throw_def)

lemma outcome_lift:
  "(\<And>s x. P s \<Longrightarrow> r = Inr x \<Longrightarrow> Q x s) \<Longrightarrow> (\<And>s e. P s \<Longrightarrow> r = Inl e \<Longrightarrow> R e s) \<Longrightarrow> outcome P (lift_res r) Q R"
  by (auto simp: outcome_def lift_res_def split: sum.split)

lemma outcome_bind:
  assumes "outcome P m Q R" and "\<And>x. outcome (Q x) (f x) S R"
  shows "outcome P (bind_eff m f) S R"
proof (rule outcomeI)
  fix s x t
  assume "P s" and "bind_eff m f s = (Inr x, t)"
  then obtain y u where "m s = (Inr y, u)" "f y u = (Inr x, t)" by (auto simp: bind_eff_Inr)
  with outcome_Inr [OF assms(1) \<open>P s\<close>] outcome_Inr [OF assms(2)] show "S x t" by blast
next
  fix s e t
  assume "P s" and b: "bind_eff m f s = (Inl e, t)"
  obtain r u where m: "m s = (r, u)" by fastforce
  with b consider "r = Inl e" "u = t" | y where "r = Inr y" "f y u = (Inl e, t)"
    by (cases r) (auto simp: bind_eff_def)
  then show "R e t"
    using m outcome_Inl [OF assms(1) \<open>P s\<close>] outcome_Inr [OF assms(1) \<open>P s\<close>] outcome_Inl [OF assms(2)] by cases blast+
qed

lemma outcome_catch:
  assumes "outcome P m Q R" and "\<And>e. outcome (R e) (h e) Q S"
  shows "outcome P (catch_eff m h) Q S"
  using assms unfolding outcome_def catch_eff_def by (fastforce split: sum.splits prod.splits)

lemma outcome_transaction:
  assumes "outcome P m Q (\<lambda>_ _. True)"
  shows "outcome (\<lambda>s. P s \<and> R s) (transaction m) Q (\<lambda>_. R)"
  using assms by (auto intro!: outcomeI dest: outcome_Inr transaction_rollback simp: transaction_commit)

lemma outcome_option:
  "outcome (P None) m Q R \<Longrightarrow> (\<And>x. outcome (P (Some x)) (f x) Q R) \<Longrightarrow>
     outcome (P a) (case a of None \<Rightarrow> m | Some x \<Rightarrow> f x) Q R"
  by (cases a) auto

lemma outcome_if:
  "(b \<Longrightarrow> outcome P m Q R) \<Longrightarrow> (\<not> b \<Longrightarrow> outcome P n Q R) \<Longrightarrow> outcome P (if b then m else n) Q R"
  by auto

lemmas outcome_rules = outcome_ret outcome_throw outcome_lift outcome_bind outcome_catch

end
