(* ===== verification/Payment_Service.thy ===== *)
theory Payment_Service
  imports Payment Resilience Messaging Effect_Logic
begin

text \<open>
  The application layer of the payment service: processing and refunding payments
  (\<open>application/handlers/{ProcessPaymentHandler,RefundHandler,ProcessWebhookHandler}.ts\<close>), the
  query, the metrics, the webhook signature and the saga's event handler, wired as \<open>app.ts\<close>
  wires them: the gateway behind a retry behind the circuit breaker, transient gateway errors
  counted, breaker changes reported to the metrics.
\<close>

section \<open>State and configuration\<close>

record payment_metrics =
  pm_succeeded :: int
  pm_failed :: int
  pm_circuit :: circuit_state

record 's pay_state =
  py_store :: 's
  py_gateway :: gateway_state
  py_breaker :: breaker
  py_slept :: "int list"
  py_metrics :: payment_metrics

record pay_config =
  pc_gateway :: gateway_options
  pc_maxAttempts :: nat
  pc_baseDelayMs :: int
  pc_threshold :: nat
  pc_timeoutMs :: int

text \<open>What one request draws: the contexts of its repository calls, the random numbers of the
  backoff, the clock at the breaker's admission, at a failure, and at the aggregate.\<close>

record pay_call =
  yc_calls :: "nat \<Rightarrow> payment_call"
  yc_random :: "nat \<Rightarrow> rat"
  yc_admitted :: int
  yc_failed :: int
  yc_now :: int
  yc_uuid :: string
  yc_request :: "request_context option"

type_synonym ('s, 'a) pay_op = "('s pay_state, js_error, 'a) eff"

definition on_pay :: "('s, js_error, 'a) eff \<Rightarrow> ('s, 'a) pay_op" where
  "on_pay m s = (case m (py_store s) of (r, t) \<Rightarrow> (r, s\<lparr>py_store := t\<rparr>))"

lemma on_pay_outcome:
  "outcome P m Q R \<Longrightarrow> outcome (\<lambda>s. P (py_store s)) (on_pay m) (\<lambda>x s. Q x (py_store s)) (\<lambda>e s. R e (py_store s))"
  by (fastforce simp: outcome_def on_pay_def split: prod.splits sum.splits)

definition recordPaymentResult :: "bool \<Rightarrow> ('s, unit) pay_op" where
  "recordPaymentResult success s =
     (Inr (), s\<lparr>py_metrics :=
        (if success then (py_metrics s)\<lparr>pm_succeeded := pm_succeeded (py_metrics s) + 1\<rparr>
         else (py_metrics s)\<lparr>pm_failed := pm_failed (py_metrics s) + 1\<rparr>)\<rparr>)"

definition retry_of :: "pay_config \<Rightarrow> retry_options" where
  "retry_of cfg = \<lparr>rt_maxAttempts = pc_maxAttempts cfg, rt_baseDelayMs = pc_baseDelayMs cfg, rt_maxDelayMs = 30000,
     rt_jitter = True, rt_isRetryable = isRetryableGatewayError\<rparr>"

definition breaker_of :: "pay_config \<Rightarrow> breaker_options" where
  "breaker_of cfg = \<lparr>bo_failureThreshold = pc_threshold cfg, bo_resetTimeoutMs = pc_timeoutMs cfg,
     bo_shouldCount = isRetryableGatewayError\<rparr>"

text \<open>\<open>circuitBreaker.execute(() => retry(() => gateway.charge(...)))\<close>, with the metrics listening
  to the breaker's changes.\<close>

definition charge_through :: "pay_config \<Rightarrow> pay_call \<Rightarrow> charge_request \<Rightarrow> ('s, string) pay_op" where
  "charge_through cfg y req s =
     (case breaker_execute (breaker_of cfg) (yc_admitted y) (yc_failed y)
             (retry (retry_of cfg) (yc_random y) (gateway_charge (pc_gateway cfg) req))
             ((py_gateway s, py_slept s), py_breaker s) of
        (r, ((g, ds), b)) \<Rightarrow>
          (r, s\<lparr>py_gateway := g, py_slept := ds, py_breaker := b,
                py_metrics := (if length (cb_changes (py_breaker s)) < length (cb_changes b)
                               then (py_metrics s)\<lparr>pm_circuit := snd (last (cb_changes b))\<rparr> else py_metrics s)\<rparr>))"

section \<open>Processing a payment\<close>

record 'd process_command =
  pcm_orderId :: string
  pcm_customerId :: "string option"
  pcm_amount :: "'d amount_arg"
  pcm_currency :: string
  pcm_idempotencyKey :: string

definition payment_of_command :: "'d decimal_lib \<Rightarrow> pay_call \<Rightarrow> 'd process_command \<Rightarrow> js_error + 'd payment" where
  "payment_of_command D y c =
     (case money_of D (pcm_amount c) (pcm_currency c) of
        Inl e \<Rightarrow> Inl e
      | Inr amount \<Rightarrow> newPayment D (yc_now y)
          \<lparr>pp_id = None, pp_orderId = pcm_orderId c, pp_customerId = pcm_customerId c, pp_amount = amount,
           pp_idempotencyKey = pcm_idempotencyKey c, pp_status = None, pp_gatewayTransactionId = None,
           pp_failureReason = None, pp_version = None, pp_createdAt = None, pp_updatedAt = None\<rparr>)"

definition charge_of :: "'d decimal_lib \<Rightarrow> 'd process_command \<Rightarrow> 'd payment \<Rightarrow> charge_request" where
  "charge_of D c p = \<lparr>cr_amount = money_fixed D (p_amount p), cr_currency = m_currency (p_amount p),
     cr_idempotencyKey = pcm_idempotencyKey c\<rparr>"

fun failure_reason :: "(string \<Rightarrow> string) \<Rightarrow> js_error \<Rightarrow> string" where
  "failure_reason libmsg (CircuitOpenError m) = ''circuit_open''"
| "failure_reason libmsg e = error_message libmsg e"

text \<open>The catch block: \<open>p\<close> is the aggregate as the try block left it.\<close>

definition settle_failed ::
    "(string \<Rightarrow> string) \<Rightarrow> ('s, 'd) payment_repository \<Rightarrow> pay_call \<Rightarrow> 'd payment \<Rightarrow> js_error \<Rightarrow>
     ('s, 'd payment \<times> bool) pay_op" where
  "settle_failed libmsg repo y p err =
     bind_eff (lift_res (markFailed (yc_now y) (failure_reason libmsg err) p)) (\<lambda>p1.
     bind_eff (on_pay (pr_update repo (yc_calls y 3) p1)) (\<lambda>p2.
     bind_eff (recordPaymentResult False) (\<lambda>_. ret (p2, False))))"

text \<open>The try block: a failed \<open>update\<close> leaves the aggregate completed, its events pulled.\<close>

definition settle ::
    "'d decimal_lib \<Rightarrow> (string \<Rightarrow> string) \<Rightarrow> ('s, 'd) payment_repository \<Rightarrow> pay_config \<Rightarrow> pay_call \<Rightarrow>
     'd process_command \<Rightarrow> 'd payment \<Rightarrow> ('s, 'd payment \<times> bool) pay_op" where
  "settle D libmsg repo cfg y c p s =
     (case charge_through cfg y (charge_of D c p) s of
        (Inl e, t) \<Rightarrow> settle_failed libmsg repo y p e t
      | (Inr tx, t) \<Rightarrow>
          (case markCompleted (yc_now y) tx p of
             Inl e \<Rightarrow> settle_failed libmsg repo y (p\<lparr>p_gatewayTransactionId := Some tx\<rparr>) e t
           | Inr p1 \<Rightarrow>
               (case on_pay (pr_update repo (yc_calls y 2) p1) t of
                  (Inl e, u) \<Rightarrow> settle_failed libmsg repo y (snd (pullEvents p1)) e u
                | (Inr p2, u) \<Rightarrow> bind_eff (recordPaymentResult True) (\<lambda>_. ret (p2, True)) u)))"

definition ProcessPayment_execute ::
    "'d decimal_lib \<Rightarrow> (string \<Rightarrow> string) \<Rightarrow> ('s, 'd) payment_repository \<Rightarrow> pay_config \<Rightarrow> pay_call \<Rightarrow>
     'd process_command \<Rightarrow> ('s, 'd payment \<times> bool) pay_op" where
  "ProcessPayment_execute D libmsg repo cfg y c =
     bind_eff (on_pay (pr_findByIdempotencyKey repo (pcm_idempotencyKey c))) (\<lambda>existing.
       case existing of
         Some p \<Rightarrow> ret (p, p_status p = PS_COMPLETED)
       | None \<Rightarrow>
           bind_eff (lift_res (payment_of_command D y c)) (\<lambda>p0.
           bind_eff (on_pay (pr_save repo (yc_calls y 0) p0)) (\<lambda>p1.
           bind_eff (lift_res (markProcessing (yc_now y) p1)) (\<lambda>p2.
           bind_eff (on_pay (pr_update repo (yc_calls y 1) p2)) (\<lambda>p3.
           settle D libmsg repo cfg y c p3)))))"

section \<open>Refunds\<close>

record 's refund_repository =
  rf_findByIdempotencyKey :: "string \<Rightarrow> ('s, js_error, refund_record option) eff"
  rf_save :: "payment_call \<Rightarrow> new_refund \<Rightarrow> ('s, js_error, refund_record) eff"

definition KnexRefundRepository :: "sql_env \<Rightarrow> payment_db refund_repository" where
  "KnexRefundRepository E = \<lparr>rf_findByIdempotencyKey = knex_refund_findByKey, rf_save = knex_refund_save E\<rparr>"

record refund_command =
  rc_paymentId :: string
  rc_idempotencyKey :: string
  rc_reason :: "string option"

definition refund_through :: "pay_config \<Rightarrow> pay_call \<Rightarrow> string \<Rightarrow> charge_request \<Rightarrow> ('s, string) pay_op" where
  "refund_through cfg y tx req s =
     (case retry (retry_of cfg) (yc_random y) (gateway_refund (pc_gateway cfg) tx req) (py_gateway s, py_slept s) of
        (r, (g, ds)) \<Rightarrow> (r, s\<lparr>py_gateway := g, py_slept := ds\<rparr>))"

definition not_completed :: "'d payment \<Rightarrow> js_error" where
  "not_completed p = App ((new_error ConflictError
       (''Only completed payments can be refunded (current status: '' @ payment_status_text (p_status p) @ '')''))
     \<lparr>ae_metadata := Some (JObj (opt_member ''paymentId'' JStr (p_id p) @ [(''status'', JStr (payment_status_text (p_status p)))]))\<rparr>)"

definition payment_missing :: "string \<Rightarrow> js_error" where
  "payment_missing pid = App ((new_error NotFoundError (''Payment '' @ pid @ '' not found''))
     \<lparr>ae_instance := Some (''/api/v1/payments/'' @ pid @ ''/refund'')\<rparr>)"

definition opt_text :: "string option \<Rightarrow> string" where
  "opt_text x = (case x of Some t \<Rightarrow> t | None \<Rightarrow> [])"

definition Refund_execute ::
    "'d decimal_lib \<Rightarrow> (string \<Rightarrow> string) \<Rightarrow> ('s, 'd) payment_repository \<Rightarrow> 's refund_repository \<Rightarrow> pay_config \<Rightarrow>
     pay_call \<Rightarrow> refund_command \<Rightarrow> ('s, 'd payment \<times> refund_record) pay_op" where
  "Refund_execute D libmsg repo refunds cfg y c =
     bind_eff (on_pay (rf_findByIdempotencyKey refunds (rc_idempotencyKey c))) (\<lambda>existing.
       case existing of
         Some refund \<Rightarrow>
           bind_eff (on_pay (pr_findById repo (fr_paymentId refund))) (\<lambda>found.
             case found of
               None \<Rightarrow> throw (app_err NotFoundError (''Payment '' @ fr_paymentId refund @ '' not found''))
             | Some p \<Rightarrow> ret (p, refund))
       | None \<Rightarrow>
           bind_eff (on_pay (pr_findById repo (rc_paymentId c))) (\<lambda>found.
             case found of
               None \<Rightarrow> throw (payment_missing (rc_paymentId c))
             | Some p \<Rightarrow>
                 if p_status p \<noteq> PS_COMPLETED then throw (not_completed p)
                 else
                   bind_eff
                     (catch_eff
                        (refund_through cfg y (opt_text (p_gatewayTransactionId p))
                           \<lparr>cr_amount = money_fixed D (p_amount p), cr_currency = m_currency (p_amount p),
                            cr_idempotencyKey = rc_idempotencyKey c\<rparr>)
                        (\<lambda>err. throw (app_err ExternalServiceError (''Refund failed: '' @ error_message libmsg err)))) (\<lambda>refundId.
                   bind_eff (lift_res (requestRefund (yc_now y) p)) (\<lambda>p1.
                   bind_eff (lift_res (markRefunded (yc_now y) refundId p1)) (\<lambda>p2.
                   bind_eff (on_pay (pr_update repo (yc_calls y 0) p2)) (\<lambda>_.
                   bind_eff (on_pay (rf_save refunds (yc_calls y 1)
                       \<lparr>nf_paymentId = opt_text (p_id p2), nf_amount = money_fixed D (p_amount p2),
                        nf_currency = m_currency (p_amount p2), nf_status = ''COMPLETED'',
                        nf_gatewayRefundId = Some refundId, nf_idempotencyKey = rc_idempotencyKey c,
                        nf_reason = rc_reason c\<rparr>)) (\<lambda>refund.
                   ret (snd (pullEvents p2), refund))))))))"

section \<open>Webhooks\<close>

record webhook_event =
  wh_id :: string
  wh_type :: string
  wh_paymentId :: string
  wh_gatewayTransactionId :: "string option"
  wh_reason :: "string option"

text \<open>The result: whether the event was applied, and the payment's status when it is known.\<close>

definition ProcessWebhook_execute ::
    "('s, 'd) payment_repository \<Rightarrow> payment_call \<Rightarrow> webhook_event \<Rightarrow> ('s, js_error, bool \<times> payment_status option) eff" where
  "ProcessWebhook_execute repo cx ev =
     bind_eff (pr_findById repo (wh_paymentId ev)) (\<lambda>found.
       case found of
         None \<Rightarrow> ret (False, None)
       | Some p \<Rightarrow>
           if wh_type ev = ''payment.succeeded'' then
             (if p_status p \<noteq> PS_PROCESSING then ret (False, Some (p_status p))
              else
                bind_eff (lift_res (markCompleted (px_now cx)
                    (case wh_gatewayTransactionId ev of Some t \<Rightarrow> t | None \<Rightarrow> ''webhook'') p)) (\<lambda>p1.
                bind_eff (pr_update repo cx p1) (\<lambda>_. ret (True, Some (p_status p1)))))
           else if wh_type ev = ''payment.failed'' then
             (if p_status p \<noteq> PS_PROCESSING then ret (False, Some (p_status p))
              else
                bind_eff (lift_res (markFailed (px_now cx)
                    (case wh_reason ev of Some t \<Rightarrow> t | None \<Rightarrow> ''gateway reported failure'') p)) (\<lambda>p1.
                bind_eff (pr_update repo cx p1) (\<lambda>_. ret (True, Some (p_status p1)))))
           else ret (False, Some (p_status p)))"

text \<open>
  \<open>verifySignature\<close>: \<open>hmac payload secret\<close> is the hexadecimal HMAC-SHA256 of the runtime's
  crypto module.  \<open>timingSafeEqual\<close> compares the bytes.
\<close>

definition signPayload :: "(string \<Rightarrow> string \<Rightarrow> string) \<Rightarrow> string \<Rightarrow> string \<Rightarrow> string" where
  "signPayload hmac payload secret = hmac payload secret"

definition verifySignature :: "(string \<Rightarrow> string \<Rightarrow> string) \<Rightarrow> string \<Rightarrow> string \<Rightarrow> string \<Rightarrow> bool" where
  "verifySignature hmac payload signature secret =
     (if signature = [] then False
      else let expected = signPayload hmac payload secret in
        if length expected \<noteq> length signature then False else expected = signature)"

definition GetPayment_execute :: "('s, 'd) payment_repository \<Rightarrow> string \<Rightarrow> ('s, js_error, 'd payment) eff" where
  "GetPayment_execute repo orderId =
     bind_eff (pr_findByOrderId repo orderId) (\<lambda>found.
       case found of
         None \<Rightarrow> throw (App ((new_error NotFoundError (''Payment for order '' @ orderId @ '' not found''))
                   \<lparr>ae_instance := Some (''/api/v1/payments/'' @ orderId)\<rparr>))
       | Some p \<Rightarrow> ret p)"

section \<open>Event handler\<close>

type_synonym ('s, 'a) pay_event_op = "('s pay_state \<times> amqp_message list, js_error, 'a) eff"

definition on_payment :: "('s, 'a) pay_op \<Rightarrow> ('s, 'a) pay_event_op" where
  "on_payment m s = (case m (fst s) of (r, t) \<Rightarrow> (r, (t, snd s)))"

definition member_text :: "json \<Rightarrow> string \<Rightarrow> string" where
  "member_text v k = opt_text (get_str v k)"

definition pay_event :: "pay_call \<Rightarrow> string \<Rightarrow> json \<Rightarrow> json \<Rightarrow> domain_event" where
  "pay_event y type causedBy data =
     \<lparr>ev_id = yc_uuid y, ev_type = type, ev_source = ''payment-service'', ev_timestamp = yc_now y,
      ev_correlationId = member_text causedBy ''correlationId'', ev_causationId = member_text causedBy ''id'',
      ev_data = data, ev_metadata = \<lparr>em_version = 1, em_userId = None, em_traceparent = None\<rparr>\<rparr>"

definition pay_message :: "pay_call \<Rightarrow> string \<Rightarrow> json \<Rightarrow> json \<Rightarrow> amqp_message" where
  "pay_message y type causedBy data =
     publish_message (yc_request y) (yc_now y) PAYMENT_EXCHANGE type (pay_event y type causedBy data)"

definition pay_publish ::
    "(amqp_message \<Rightarrow> js_error option) \<Rightarrow> pay_call \<Rightarrow> string \<Rightarrow> json \<Rightarrow> json \<Rightarrow> ('s, unit) pay_event_op" where
  "pay_publish confirm y type causedBy data s =
     (case publish confirm (yc_request y) (yc_now y) PAYMENT_EXCHANGE type (pay_event y type causedBy data) (snd s) of
        (r, b) \<Rightarrow> (r, (fst s, b)))"

text \<open>\<open>data.totalAmount ?? 0\<close> as an argument of \<open>Money.of\<close>.\<close>

definition event_amount :: "json \<Rightarrow> 'd amount_arg" where
  "event_amount data =
     (case json_get data ''totalAmount'' of
        None \<Rightarrow> ANum 0 | Some JNull \<Rightarrow> ANum 0 | Some (JNum r) \<Rightarrow> ANum r | Some v \<Rightarrow> AStr (json_text v))"

definition command_of_event :: "json \<Rightarrow> 'd process_command" where
  "command_of_event data =
     \<lparr>pcm_orderId = member_text data ''orderId'', pcm_customerId = get_str data ''customerId'',
      pcm_amount = event_amount data,
      pcm_currency = (case get_str data ''currency'' of Some c \<Rightarrow> c | None \<Rightarrow> ''USD''),
      pcm_idempotencyKey = ''payment-'' @ js_text (json_get data ''orderId'')\<rparr>"

definition pay_onInventoryReserved ::
    "'d decimal_lib \<Rightarrow> (string \<Rightarrow> string) \<Rightarrow> (amqp_message \<Rightarrow> js_error option) \<Rightarrow> ('s, 'd) payment_repository \<Rightarrow>
     pay_config \<Rightarrow> pay_call \<Rightarrow> json \<Rightarrow> ('s, unit) pay_event_op" where
  "pay_onInventoryReserved D libmsg confirm repo cfg y event =
     (case json_get event ''data'' of
        None \<Rightarrow> throw (LibraryError ''TypeError'')
      | Some JNull \<Rightarrow> throw (LibraryError ''TypeError'')
      | Some data \<Rightarrow>
      let oid = opt_member ''orderId'' id (json_get data ''orderId'') in
      bind_eff (on_payment (ProcessPayment_execute D libmsg repo cfg y (command_of_event data))) (\<lambda>(p, success).
        if success
        then pay_publish confirm y PAYMENT_COMPLETED event (JObj
               (oid @ opt_member ''paymentId'' JStr (p_id p)
                @ [(''amount'', JNum (money_toNumber D (p_amount p))), (''currency'', JStr (m_currency (p_amount p)))]
                @ opt_member ''gatewayTransactionId'' JStr (p_gatewayTransactionId p)))
        else pay_publish confirm y PAYMENT_FAILED event (JObj
               (oid @ opt_member ''paymentId'' JStr (p_id p)
                @ [(''reason'', JStr (case p_failureReason p of Some r \<Rightarrow> r | None \<Rightarrow> ''payment failed'')),
                   (''retryable'', JBool False)]))))"

definition pay_handle ::
    "'d decimal_lib \<Rightarrow> (string \<Rightarrow> string) \<Rightarrow> (amqp_message \<Rightarrow> js_error option) \<Rightarrow> ('s, 'd) payment_repository \<Rightarrow>
     pay_config \<Rightarrow> pay_call \<Rightarrow> json \<Rightarrow> ('s, unit) pay_event_op" where
  "pay_handle D libmsg confirm repo cfg y event =
     (if get_str event ''type'' = Some INVENTORY_RESERVED then pay_onInventoryReserved D libmsg confirm repo cfg y event
      else ret ())"

section \<open>Metrics\<close>

definition PAYMENT_SUCCEEDED_TOTAL :: string where "PAYMENT_SUCCEEDED_TOTAL = ''payment_succeeded_total''"
definition PAYMENT_FAILED_TOTAL :: string where "PAYMENT_FAILED_TOTAL = ''payment_failed_total''"
definition PAYMENT_CIRCUIT_BREAKER_STATE :: string where
  "PAYMENT_CIRCUIT_BREAKER_STATE = ''payment_circuit_breaker_state''"

fun circuit_value :: "circuit_state \<Rightarrow> int" where
  "circuit_value CLOSED = 0" | "circuit_value HALF_OPEN = 1" | "circuit_value OPEN = 2"

definition renderPrometheus :: "payment_metrics \<Rightarrow> string" where
  "renderPrometheus m = join_with [CHR 0x0A]
     [''# HELP '' @ PAYMENT_SUCCEEDED_TOTAL @ '' Total number of successful payments'',
      ''# TYPE '' @ PAYMENT_SUCCEEDED_TOTAL @ '' counter'',
      PAYMENT_SUCCEEDED_TOTAL @ '' '' @ show_int (pm_succeeded m),
      ''# HELP '' @ PAYMENT_FAILED_TOTAL @ '' Total number of failed payments'',
      ''# TYPE '' @ PAYMENT_FAILED_TOTAL @ '' counter'',
      PAYMENT_FAILED_TOTAL @ '' '' @ show_int (pm_failed m),
      ''# HELP '' @ PAYMENT_CIRCUIT_BREAKER_STATE @ '' Circuit breaker state (0=closed, 1=half_open, 2=open)'',
      ''# TYPE '' @ PAYMENT_CIRCUIT_BREAKER_STATE @ '' gauge'',
      PAYMENT_CIRCUIT_BREAKER_STATE @ '' '' @ show_int (circuit_value (pm_circuit m)),
      []]"

section \<open>Charges\<close>

lemma charge_through_log:
  assumes "charge_through cfg y req s = (r, t)"
  shows "py_store t = py_store s"
    and "gw_charges (py_gateway t) = gw_charges (py_gateway s) @ (case r of Inl e \<Rightarrow> [] | Inr tx \<Rightarrow> [req])"
    and "gw_refunds (py_gateway t) = gw_refunds (py_gateway s)"
proof -
  obtain g ds b where e: "breaker_execute (breaker_of cfg) (yc_admitted y) (yc_failed y)
      (retry (retry_of cfg) (yc_random y) (gateway_charge (pc_gateway cfg) req))
      ((py_gateway s, py_slept s), py_breaker s) = (r, ((g, ds), b))"
    and t: "py_store t = py_store s" "py_gateway t = g"
    using assms by (auto simp: charge_through_def split: prod.splits)
  then show "py_store t = py_store s" by simp
  show "gw_charges (py_gateway t) = gw_charges (py_gateway s) @ (case r of Inl e \<Rightarrow> [] | Inr tx \<Rightarrow> [req])"
  proof (cases "breaker_admit (yc_admitted y) (py_breaker s)")
    case (Inl err)
    with e t show ?thesis by (auto simp: breaker_execute_def)
  next
    case (Inr b1)
    obtain u g1 ds1 where u: "retry (retry_of cfg) (yc_random y) (gateway_charge (pc_gateway cfg) req) (py_gateway s, py_slept s) = (u, (g1, ds1))"
      by (metis prod.exhaust)
    have "gw_charges g1 = gw_charges (py_gateway s) @ (case u of Inl e \<Rightarrow> [] | Inr tx \<Rightarrow> [req])"
      by (rule retry_logs_once [where view = gw_charges and fn = "gateway_charge (pc_gateway cfg) req", OF _ u [unfolded retry_def]])
        (simp add: gateway_charge_log)
    with e t Inr u show ?thesis by (cases u) (auto simp: breaker_execute_def)
  qed
  show "gw_refunds (py_gateway t) = gw_refunds (py_gateway s)"
  proof (cases "breaker_admit (yc_admitted y) (py_breaker s)")
    case (Inl err)
    with e t show ?thesis by (auto simp: breaker_execute_def)
  next
    case (Inr b1)
    obtain u g1 ds1 where u: "retry (retry_of cfg) (yc_random y) (gateway_charge (pc_gateway cfg) req) (py_gateway s, py_slept s) = (u, (g1, ds1))"
      by (metis prod.exhaust)
    have "gw_refunds g1 = gw_refunds (py_gateway s)"
      by (rule retry_keeps [where view = gw_refunds and fn = "gateway_charge (pc_gateway cfg) req", OF _ u [unfolded retry_def]])
        (simp add: gateway_charge_log)
    with e t Inr u show ?thesis by (cases u) (auto simp: breaker_execute_def)
  qed
qed

text \<open>While the breaker is open the gateway is not called.\<close>

lemma charge_fails_fast:
  assumes "cb_state (py_breaker s) = OPEN" and "yc_admitted y < cb_nextProbeAt (py_breaker s)"
  shows "charge_through cfg y req s = (Inl (CircuitOpenError ''Circuit breaker is open''), s)"
  using assms by (simp add: charge_through_def breaker_execute_def breaker_admit_def)

lemma refund_through_log:
  assumes "refund_through cfg y tx req s = (r, t)"
  shows "py_store t = py_store s \<and>
    gw_refunds (py_gateway t) = gw_refunds (py_gateway s) @ (case r of Inl e \<Rightarrow> [] | Inr x \<Rightarrow> [(tx, req)]) \<and>
    gw_charges (py_gateway t) = gw_charges (py_gateway s)"
proof -
  obtain u g ds where u: "retry (retry_of cfg) (yc_random y) (gateway_refund (pc_gateway cfg) tx req) (py_gateway s, py_slept s) = (u, (g, ds))"
    by (metis prod.exhaust)
  have "gw_refunds g = gw_refunds (py_gateway s) @ (case u of Inl e \<Rightarrow> [] | Inr x \<Rightarrow> [(tx, req)])"
    by (rule retry_logs_once [where view = gw_refunds and fn = "gateway_refund (pc_gateway cfg) tx req", OF _ u [unfolded retry_def]])
      (simp add: gateway_refund_log)
  moreover have "gw_charges g = gw_charges (py_gateway s)"
    by (rule retry_keeps [where view = gw_charges and fn = "gateway_refund (pc_gateway cfg) tx req", OF _ u [unfolded retry_def]])
      (simp add: gateway_refund_log)
  ultimately show ?thesis using u assms by (auto simp: refund_through_def)
qed

lemma settle_failed_frame:
  "settle_failed libmsg repo y p err s = (r, t) \<Longrightarrow>
     py_slept t = py_slept s \<and> py_breaker t = py_breaker s \<and> py_gateway t = py_gateway s"
  by (auto simp: settle_failed_def bind_eff_def lift_res_def on_pay_def recordPaymentResult_def ret_def
      split: sum.splits prod.splits)

section \<open>What the handlers do to a store that keeps the contract\<close>

text \<open>A payment with this idempotency key is stored.\<close>

definition has_key :: "(string \<Rightarrow> 'd payment option) \<Rightarrow> string \<Rightarrow> bool" where
  "has_key a k \<longleftrightarrow> (\<exists>i p. a i = Some p \<and> p_idempotencyKey p = k)"

lemma has_key_upd:
  "a i = Some old \<Longrightarrow> p_idempotencyKey q = p_idempotencyKey old \<Longrightarrow> has_key (a(i \<mapsto> q)) k = has_key a k"
  unfolding has_key_def by (metis fun_upd_apply option.inject)

lemma stored_payment_sel [simp]:
  "p_status (stored_payment cx old p) = p_status p"
  "p_gatewayTransactionId (stored_payment cx old p) = p_gatewayTransactionId p"
  "p_failureReason (stored_payment cx old p) = p_failureReason p"
  "p_version (stored_payment cx old p) = p_version p"
  "p_idempotencyKey (stored_payment cx old p) = p_idempotencyKey old"
  "p_orderId (stored_payment cx old p) = p_orderId old"
  "p_amount (stored_payment cx old p) = p_amount old"
  "p_id (stored_payment cx old p) = p_id old"
  "p_events (stored_payment cx old p) = p_events old"
  by (simp_all add: stored_payment_def)

context payment_store
begin

lemma settle_failed_cases:
  assumes inv: "inv (py_store s)" and p: "p_id p = Some i" "abs (py_store s) i = Some old"
      "payment_from (p_status old) (p_version old) p"
    and ex: "settle_failed libmsg repo y p err s = (r, t)"
  obtains (failed) q where "r = Inr (q, False)" "payment_canTransition (p_status p) PS_FAILED" "p_status q = PS_FAILED"
      "p_failureReason q = Some (failure_reason libmsg err)" "p_idempotencyKey q = p_idempotencyKey old"
      "abs (py_store t) = (abs (py_store s))(i \<mapsto> q)" "inv (py_store t)" "py_gateway t = py_gateway s"
  | (refused) e where "r = Inl e" "t = s"
proof (cases "markFailed (yc_now y) (failure_reason libmsg err) p")
  case (Inl e)
  with ex refused [of e] show thesis by (simp add: settle_failed_def bind_eff_def lift_res_def)
next
  case (Inr p1)
  then have p1: "p_status p1 = PS_FAILED" "p_failureReason p1 = Some (failure_reason libmsg err)" "p_id p1 = Some i"
    "payment_canTransition (p_status p) PS_FAILED"
    using p by (auto simp: markFailed_def payment_transitionTo_Inr)
  have chain: "payment_from (p_status old) (p_version old) p1" by (rule payment_from_marks(3) [OF p(3) Inr])
  obtain u s1 where u: "pr_update repo (yc_calls y 3) p1 (py_store s) = (u, s1)" by fastforce
  show thesis
  proof (cases u)
    case (Inl e)
    with u update_err have "s1 = py_store s" by blast
    with ex Inr u Inl refused [of e] show thesis
      by (simp add: settle_failed_def bind_eff_def on_pay_def)
  next
    case up: (Inr q)
    note f = update_ok [OF inv p1(3) p(2) chain u [unfolded up]]
    have r: "r = Inr (q, False)" and t: "py_store t = s1" "py_gateway t = py_gateway s"
      using ex Inr u up by (auto simp: settle_failed_def bind_eff_def on_pay_def recordPaymentResult_def ret_def)
    show thesis by (rule failed [OF r p1(4)]) (use f t p1 in simp_all)
  qed
qed

lemma settle_cases:
  assumes inv: "inv (py_store s)" and p: "p_id p = Some i" "abs (py_store s) i = Some p" "p_events p = []"
      "p_status p = PS_PROCESSING"
    and ex: "settle D libmsg repo cfg y c p s = (r, t)"
  obtains (completed) q tx where "r = Inr (q, True)" "p_status q = PS_COMPLETED" "p_gatewayTransactionId q = Some tx"
      "p_idempotencyKey q = p_idempotencyKey p" "abs (py_store t) = (abs (py_store s))(i \<mapsto> q)" "inv (py_store t)"
      "gw_charges (py_gateway t) = gw_charges (py_gateway s) @ [charge_of D c p]" "p_amount q = p_amount p"
  | (failed) q e where "r = Inr (q, False)" "p_status q = PS_FAILED" "p_failureReason q = Some (failure_reason libmsg e)"
      "p_idempotencyKey q = p_idempotencyKey p" "abs (py_store t) = (abs (py_store s))(i \<mapsto> q)" "inv (py_store t)"
      "gw_charges (py_gateway t) = gw_charges (py_gateway s)"
  | (uncharged) e where "r = Inl e" "py_store t = py_store s" "gw_charges (py_gateway t) = gw_charges (py_gateway s)"
  | (charged) e where "r = Inl e" "py_store t = py_store s"
      "gw_charges (py_gateway t) = gw_charges (py_gateway s) @ [charge_of D c p]"
proof -
  note f1 = failed
  have base: "payment_from (p_status p) (p_version p) p" using p by (simp add: payment_from_def)
  obtain u s1 where u: "charge_through cfg y (charge_of D c p) s = (u, s1)" by fastforce
  note l = charge_through_log [OF u]
  have inv1: "inv (py_store s1)" and abs1: "abs (py_store s1) i = Some p" using l inv p by simp_all
  show thesis
  proof (cases u)
    case (Inl e)
    with ex u have sf: "settle_failed libmsg repo y p e s1 = (r, t)" by (simp add: settle_def)
    from inv1 p(1) abs1 base sf show thesis
    proof (cases rule: settle_failed_cases)
      case (failed q)
      show thesis by (rule f1 [OF failed(1,3-5)]) (use failed l Inl in simp_all)
    next
      case (refused e')
      show thesis by (rule uncharged [OF refused(1)]) (use refused l Inl in simp_all)
    qed
  next
    case (Inr tx)
    obtain p1 where m: "markCompleted (yc_now y) tx p = Inr p1"
      using p by (auto simp: markCompleted_def payment_transitionTo_def payment_canTransition_def)
    then have p1: "p_status p1 = PS_COMPLETED" "p_gatewayTransactionId p1 = Some tx" "p_id p1 = Some i"
      using p by (auto simp: markCompleted_def payment_transitionTo_Inr)
    have chain: "payment_from (p_status p) (p_version p) p1" by (rule payment_from_marks(2) [OF base m])
    obtain v s2 where v: "pr_update repo (yc_calls y 2) p1 (py_store s1) = (v, s2)" by fastforce
    show thesis
    proof (cases v)
      case (Inl e)
      with v update_err have s2: "s2 = py_store s1" by blast
      have sf: "settle_failed libmsg repo y (snd (pullEvents p1)) e s1 = (r, t)"
        using ex u Inr m v Inl s2 by (simp add: settle_def on_pay_def)
      obtain e' where mf: "markFailed (yc_now y) (failure_reason libmsg e) (snd (pullEvents p1)) = Inl e'"
        using p1 by (simp add: pullEvents_def markFailed_def payment_transitionTo_def payment_canTransition_def)
      have "r = Inl e'" "t = s1" using sf mf by (simp_all add: settle_failed_def bind_eff_def lift_res_def)
      with charged [of e'] l Inr show thesis by simp
    next
      case w: (Inr q)
      note f = update_ok [OF inv1 p1(3) abs1 chain v [unfolded w]]
      have r: "r = Inr (q, True)" and t: "py_store t = s2" "py_gateway t = py_gateway s1"
        using ex u Inr m v w by (auto simp: settle_def on_pay_def recordPaymentResult_def ret_def bind_eff_def)
      show thesis by (rule completed [OF r, of tx]) (use f t p1 l Inr in simp_all)
    qed
  qed
qed

lemma process_start:
  assumes inv: "inv (py_store s)" and ex: "ProcessPayment_execute D libmsg repo cfg y c s = (r, t)"
  obtains (existing) i p where "abs (py_store s) i = Some p" "p_idempotencyKey p = pcm_idempotencyKey c"
      "r = Inr (p, p_status p = PS_COMPLETED)" "t = s"
  | (refused) e where "\<not> has_key (abs (py_store s)) (pcm_idempotencyKey c)" "r = Inl e" "t = s"
  | (unmarked) i q e where "\<not> has_key (abs (py_store s)) (pcm_idempotencyKey c)"
      "p_idempotencyKey q = pcm_idempotencyKey c" "abs (py_store s) i = None"
      "abs (py_store t) = (abs (py_store s))(i \<mapsto> q)" "inv (py_store t)" "py_gateway t = py_gateway s" "r = Inl e"
      "p_status q = PS_PENDING"
  | (processing) i q s1 where "\<not> has_key (abs (py_store s)) (pcm_idempotencyKey c)"
      "p_idempotencyKey q = pcm_idempotencyKey c" "abs (py_store s) i = None"
      "abs (py_store s1) = (abs (py_store s))(i \<mapsto> q)" "inv (py_store s1)" "py_gateway s1 = py_gateway s"
      "p_status q = PS_PROCESSING" "p_id q = Some i" "p_events q = []" "settle D libmsg repo cfg y c q s1 = (r, t)"
      "\<exists>a. money_of D (pcm_amount c) (pcm_currency c) = Inr a \<and> column a (p_amount q)"
  using inv
proof (cases rule: key_cases [where k = "pcm_idempotencyKey c"])
  case (present i p)
  show thesis
    by (rule existing [OF present(2,3)])
      (use ex present in \<open>simp_all add: ProcessPayment_execute_def bind_eff_def on_pay_def ret_def\<close>)
next
  case absent
  then have none: "\<not> has_key (abs (py_store s)) (pcm_idempotencyKey c)" by (auto simp: has_key_def)
  show thesis
  proof (cases "payment_of_command D y c")
    case (Inl e)
    show thesis
      by (rule refused [OF none, of e])
        (use ex absent Inl in \<open>simp_all add: ProcessPayment_execute_def bind_eff_def on_pay_def lift_res_def\<close>)
  next
    case p0: (Inr p0)
    then have fresh: "p_events p0 = []" "p_status p0 = PS_PENDING" "p_version p0 = 1" "p_idempotencyKey p0 = pcm_idempotencyKey c"
      by (auto simp: payment_of_command_def newPayment_def split: sum.splits if_splits)
    have paid: "money_of D (pcm_amount c) (pcm_currency c) = Inr (p_amount p0)"
      using p0 by (auto simp: payment_of_command_def newPayment_def split: sum.splits if_splits)
    obtain u s0 where u: "pr_save repo (yc_calls y 0) p0 (py_store s) = (u, s0)" by fastforce
    show thesis
    proof (cases u)
      case (Inl e)
      with u save_err have "s0 = py_store s" by blast
      then show thesis
        by (intro refused [OF none, of e])
          (use ex absent p0 u Inl in \<open>simp_all add: ProcessPayment_execute_def bind_eff_def on_pay_def lift_res_def\<close>)
    next
      case p1: (Inr p1)
      from save_ok [OF inv fresh(1-3) u [unfolded p1]] obtain i where
        i: "p_id p1 = Some i" "abs (py_store s) i = None" "abs s0 = (abs (py_store s))(i \<mapsto> p1)" and
        f1: "inv s0" "p_idempotencyKey p1 = p_idempotencyKey p0" "p_status p1 = PS_PENDING" "p_events p1 = []"
          "column (p_amount p0) (p_amount p1)" by blast
      obtain p2 where p2: "markProcessing (yc_now y) p1 = Inr p2"
        using f1 by (auto simp: markProcessing_def payment_transitionTo_def payment_canTransition_def)
      have st2: "p_status p2 = PS_PROCESSING" "p_id p2 = Some i"
        using p2 i by (auto simp: markProcessing_def payment_transitionTo_Inr)
      have base: "payment_from (p_status p1) (p_version p1) p1" using f1 by (simp add: payment_from_def)
      have chain: "payment_from (p_status p1) (p_version p1) p2" by (rule payment_from_marks(1) [OF base p2])
      have at: "abs s0 i = Some p1" using i by simp
      obtain v s1 where v: "pr_update repo (yc_calls y 1) p2 s0 = (v, s1)" by fastforce
      show thesis
      proof (cases v)
        case (Inl e)
        with v update_err have "s1 = s0" by blast
        then have "r = Inl e \<and> t = s\<lparr>py_store := s0\<rparr>"
          using ex absent p0 u p1 p2 v Inl
          by (simp add: ProcessPayment_execute_def bind_eff_def on_pay_def lift_res_def)
        with unmarked [OF none _ i(2), of p1 e] i f1 fresh show thesis by simp
      next
        case p3: (Inr p3)
        note f = update_ok [OF f1(1) st2(2) at chain v [unfolded p3]]
        show thesis
          by (rule processing [OF none _ i(2), of p3 "s\<lparr>py_store := s1\<rparr>"])
            (use ex absent p0 u p1 p2 v p3 i f1 fresh f st2 paid in
              \<open>simp_all add: ProcessPayment_execute_def bind_eff_def on_pay_def lift_res_def\<close>)
      qed
    qed
  qed
qed

text \<open>The gateway charges at most once, and only for a key that was not stored before and is now.\<close>

lemma process_effect:
  assumes inv: "inv (py_store s)" and ex: "ProcessPayment_execute D libmsg repo cfg y c s = (r, t)"
  shows "inv (py_store t)"
    and "has_key (abs (py_store s)) k \<Longrightarrow> has_key (abs (py_store t)) k"
    and "gw_charges (py_gateway t) = gw_charges (py_gateway s) \<or>
      (\<exists>req. gw_charges (py_gateway t) = gw_charges (py_gateway s) @ [req] \<and>
         cr_idempotencyKey req = pcm_idempotencyKey c \<and>
         \<not> has_key (abs (py_store s)) (pcm_idempotencyKey c) \<and> has_key (abs (py_store t)) (pcm_idempotencyKey c))"
proof -
  let ?K = "\<lambda>s. has_key (abs (py_store s))"
  have new: "has_key ((abs (py_store s))(i \<mapsto> q)) (pcm_idempotencyKey c) \<and>
      (\<forall>k. ?K s k \<longrightarrow> has_key ((abs (py_store s))(i \<mapsto> q)) k)"
    if "p_idempotencyKey q = pcm_idempotencyKey c" "abs (py_store s) i = None" for i q
    using that unfolding has_key_def by (metis fun_upd_apply option.discI)
  have "inv (py_store t) \<and> (\<forall>k. ?K s k \<longrightarrow> ?K t k) \<and>
     (gw_charges (py_gateway t) = gw_charges (py_gateway s) \<or>
      (\<exists>req. gw_charges (py_gateway t) = gw_charges (py_gateway s) @ [req] \<and>
         cr_idempotencyKey req = pcm_idempotencyKey c \<and> \<not> ?K s (pcm_idempotencyKey c) \<and> ?K t (pcm_idempotencyKey c)))"
    using inv ex
  proof (cases rule: process_start)
    case (unmarked i q e)
    with new [of q i] show ?thesis by simp
  next
    case (processing i q s1)
    note n = new [OF processing(2,3)]
    have at: "abs (py_store s1) i = Some q" using processing(4) by simp
    have keyed: "cr_idempotencyKey (charge_of D c q) = pcm_idempotencyKey c" by (simp add: charge_of_def)
    from processing(5,8) at processing(9,7,10) show ?thesis
    proof (cases rule: settle_cases)
      case (completed q' tx)
      then have "?K t k = ?K s1 k" for k using has_key_upd [of "abs (py_store s1)" i q q'] at by simp
      with completed processing n keyed show ?thesis by simp
    next
      case (failed q' e)
      then have "?K t k = ?K s1 k" for k using has_key_upd [of "abs (py_store s1)" i q q'] at by simp
      with failed processing n show ?thesis by simp
    qed (use processing n keyed in simp_all)
  qed (use inv in simp_all)
  then show "inv (py_store t)"
    and "has_key (abs (py_store s)) k \<Longrightarrow> has_key (abs (py_store t)) k"
    and "gw_charges (py_gateway t) = gw_charges (py_gateway s) \<or>
      (\<exists>req. gw_charges (py_gateway t) = gw_charges (py_gateway s) @ [req] \<and>
         cr_idempotencyKey req = pcm_idempotencyKey c \<and>
         \<not> has_key (abs (py_store s)) (pcm_idempotencyKey c) \<and> has_key (abs (py_store t)) (pcm_idempotencyKey c))"
    by blast+
qed

text \<open>A handled key: nothing changes, whatever the second command says.\<close>

lemma process_idempotent:
  assumes inv: "inv (py_store s)" and "abs (py_store s) i = Some p" "p_idempotencyKey p = pcm_idempotencyKey c"
  shows "ProcessPayment_execute D libmsg repo cfg y c s = (Inr (p, p_status p = PS_COMPLETED), s)"
proof -
  obtain r t where ex: "ProcessPayment_execute D libmsg repo cfg y c s = (r, t)" by fastforce
  have k: "has_key (abs (py_store s)) (pcm_idempotencyKey c)" using assms(2,3) by (auto simp: has_key_def)
  from inv ex show ?thesis
  proof (cases rule: process_start)
    case (existing j q)
    then have "p = q" using abs_key [OF inv assms(2) existing(1)] assms(2,3) by simp
    with existing ex show ?thesis by simp
  qed (use k in simp_all)
qed

text \<open>The three answers of the handler, for a key that is not stored yet.\<close>

lemma process_outcome:
  assumes inv: "inv (py_store s)" and new: "\<not> has_key (abs (py_store s)) (pcm_idempotencyKey c)"
    and ex: "ProcessPayment_execute D libmsg repo cfg y c s = (r, t)"
  obtains (completed) i p tx q where "r = Inr (p, True)" "p_status p = PS_COMPLETED" "p_gatewayTransactionId p = Some tx"
      "abs (py_store t) i = Some p" "p_idempotencyKey p = pcm_idempotencyKey c"
      "gw_charges (py_gateway t) = gw_charges (py_gateway s) @ [charge_of D c q]"
  | (failed) i p e where "r = Inr (p, False)" "p_status p = PS_FAILED" "p_failureReason p = Some (failure_reason libmsg e)"
      "abs (py_store t) i = Some p" "p_idempotencyKey p = pcm_idempotencyKey c"
      "gw_charges (py_gateway t) = gw_charges (py_gateway s)"
  | (uncharged) e where "r = Inl e" "gw_charges (py_gateway t) = gw_charges (py_gateway s)"
  | (charged) e i p q where "r = Inl e" "abs (py_store t) i = Some p" "p_status p = PS_PROCESSING"
      "p_idempotencyKey p = pcm_idempotencyKey c"
      "gw_charges (py_gateway t) = gw_charges (py_gateway s) @ [charge_of D c q]"
proof -
  note f1 = failed and c1 = completed and u1 = uncharged and ch1 = charged
  from inv ex show thesis
  proof (cases rule: process_start)
    case (existing i p)
    with new show thesis by (auto simp: has_key_def)
  next
    case (refused e)
    then show thesis using uncharged by simp
  next
    case (unmarked i q e)
    then show thesis using uncharged by simp
  next
    case (processing i q s1)
    have at: "abs (py_store s1) i = Some q" using processing(4) by simp
    from processing(5,8) at processing(9,7,10) show thesis
    proof (cases rule: settle_cases)
      case (completed q' tx)
      then show thesis using c1 [of q' tx i q] processing by simp
    next
      case (failed q' e)
      then show thesis using f1 [of q' e i] processing by simp
    next
      case (uncharged e)
      then show thesis using u1 processing by simp
    next
      case (charged e)
      then show thesis using ch1 [of e i q q] processing at by simp
    qed
  qed
qed

text \<open>An answer is a stored payment, and its flag says whether that payment is completed.\<close>

lemma process_result_stored:
  assumes inv: "inv (py_store s)" and ex: "ProcessPayment_execute D libmsg repo cfg y c s = (Inr (p, b), t)"
  shows "b = (p_status p = PS_COMPLETED) \<and> (\<exists>i. abs (py_store t) i = Some p) \<and> p_idempotencyKey p = pcm_idempotencyKey c"
proof (cases "has_key (abs (py_store s)) (pcm_idempotencyKey c)")
  case True
  then obtain i q where "abs (py_store s) i = Some q" "p_idempotencyKey q = pcm_idempotencyKey c"
    by (auto simp: has_key_def)
  with process_idempotent [OF inv this] ex show ?thesis by auto
next
  case False
  from inv False ex show ?thesis by (cases rule: process_outcome) auto
qed

end

section \<open>One charge per key\<close>

context payment_store
begin

definition charged_once :: "'s pay_state \<Rightarrow> bool" where
  "charged_once s \<longleftrightarrow> inv (py_store s) \<and> distinct (map cr_idempotencyKey (gw_charges (py_gateway s))) \<and>
     (\<forall>req\<in>set (gw_charges (py_gateway s)). has_key (abs (py_store s)) (cr_idempotencyKey req))"

lemma process_charged_once:
  assumes "charged_once s"
  shows "charged_once (snd (ProcessPayment_execute D libmsg repo cfg y c s))"
proof -
  obtain r t where ex: "ProcessPayment_execute D libmsg repo cfg y c s = (r, t)" by fastforce
  from assms have inv: "inv (py_store s)" by (simp add: charged_once_def)
  note e = process_effect [OF inv ex]
  from e(3) show ?thesis
  proof
    assume "gw_charges (py_gateway t) = gw_charges (py_gateway s)"
    with assms ex e show ?thesis by (auto simp: charged_once_def)
  next
    assume "\<exists>req. gw_charges (py_gateway t) = gw_charges (py_gateway s) @ [req] \<and>
         cr_idempotencyKey req = pcm_idempotencyKey c \<and>
         \<not> has_key (abs (py_store s)) (pcm_idempotencyKey c) \<and> has_key (abs (py_store t)) (pcm_idempotencyKey c)"
    with assms ex e show ?thesis by (auto simp: charged_once_def)
  qed
qed

end

section \<open>Refund outcomes\<close>

context payment_store
begin

text \<open>The gateway refused: nothing is stored.\<close>

lemma refund_gateway_failure:
  assumes inv: "inv (py_store s)" and key: "rf_findByIdempotencyKey refunds (rc_idempotencyKey c) (py_store s) = (Inr None, py_store s)"
    and p: "abs (py_store s) (rc_paymentId c) = Some p" "p_status p = PS_COMPLETED"
    and gw: "refund_through cfg y (opt_text (p_gatewayTransactionId p))
       \<lparr>cr_amount = money_fixed D (p_amount p), cr_currency = m_currency (p_amount p),
        cr_idempotencyKey = rc_idempotencyKey c\<rparr> s = (Inl err, t)"
  shows "Refund_execute D libmsg repo refunds cfg y c s =
      (Inl (app_err ExternalServiceError (''Refund failed: '' @ error_message libmsg err)), t)"
    and "py_store t = py_store s"
proof -
  have "pr_findById repo (rc_paymentId c) (py_store s) = (Inr (Some p), py_store s)"
    using findById [OF inv] abs_id [OF inv p(1)] p(1) by simp
  with key p gw show "Refund_execute D libmsg repo refunds cfg y c s =
      (Inl (app_err ExternalServiceError (''Refund failed: '' @ error_message libmsg err)), t)"
    by (simp add: Refund_execute_def bind_eff_def on_pay_def catch_eff_def throw_def)
  show "py_store t = py_store s" using gw by (auto simp: refund_through_def split: prod.splits)
qed

text \<open>Only a completed payment reaches the gateway.\<close>

lemma refund_not_completed:
  assumes inv: "inv (py_store s)" and key: "rf_findByIdempotencyKey refunds (rc_idempotencyKey c) (py_store s) = (Inr None, py_store s)"
    and p: "abs (py_store s) (rc_paymentId c) = Some p" "p_status p \<noteq> PS_COMPLETED"
  shows "Refund_execute D libmsg repo refunds cfg y c s = (Inl (not_completed p), s)"
proof -
  have "pr_findById repo (rc_paymentId c) (py_store s) = (Inr (Some p), py_store s)"
    using findById [OF inv] abs_id [OF inv p(1)] p(1) by simp
  with key p show ?thesis by (simp add: Refund_execute_def bind_eff_def on_pay_def throw_def)
qed

text \<open>A success took the payment from COMPLETED to REFUNDED in the stored timeline.\<close>

lemma refund_success:
  assumes inv: "inv (py_store s)" and key: "rf_findByIdempotencyKey refunds (rc_idempotencyKey c) (py_store s) = (Inr None, py_store s)"
    and keeps: "\<And>cx n u q v. rf_save refunds cx n u = (Inr q, v) \<Longrightarrow> abs v = abs u \<and> timeline v = timeline u"
    and ex: "Refund_execute D libmsg repo refunds cfg y c s = (Inr (q, refund), t)"
  shows "\<exists>old new a b. abs (py_store s) (rc_paymentId c) = Some old \<and> p_status old = PS_COMPLETED \<and>
     abs (py_store t) = (abs (py_store s))(rc_paymentId c \<mapsto> new) \<and> p_status new = PS_REFUNDED \<and>
     p_version new = p_version old + 2 \<and> p_status q = PS_REFUNDED \<and>
     timeline (py_store t) (rc_paymentId c) = timeline (py_store s) (rc_paymentId c) @ [a, b] \<and>
     pe_toStatus a = PS_REFUND_PENDING \<and> pe_toStatus b = PS_REFUNDED"
  using inv
proof (cases rule: find_cases [where i = "rc_paymentId c"])
  case (found p)
  show ?thesis
  proof (cases "p_status p = PS_COMPLETED")
    case True
    obtain p1 where p1: "requestRefund (yc_now y) p = Inr p1"
      using True by (simp add: requestRefund_def payment_transitionTo_def payment_canTransition_def)
    then have st1: "p_status p1 = PS_REFUND_PENDING" by (simp add: requestRefund_def payment_transitionTo_Inr)
    let ?req = "\<lparr>cr_amount = money_fixed D (p_amount p), cr_currency = m_currency (p_amount p), cr_idempotencyKey = rc_idempotencyKey c\<rparr>"
    obtain g s1 where g: "refund_through cfg y (opt_text (p_gatewayTransactionId p)) ?req s = (g, s1)" by fastforce
    have s1: "py_store s1 = py_store s" using g by (auto simp: refund_through_def split: prod.splits)
    obtain rid where rid: "g = Inr rid"
      using ex key found True g
      by (cases g) (simp_all add: Refund_execute_def bind_eff_def on_pay_def catch_eff_def throw_def)
    obtain p2 where p2: "markRefunded (yc_now y) rid p1 = Inr p2"
      using st1 by (simp add: markRefunded_def payment_transitionTo_def payment_canTransition_def)
    have st2: "p_status p2 = PS_REFUNDED" "p_version p2 = p_version p + 2" "p_id p2 = Some (rc_paymentId c)"
      and evs: "map pe_toStatus (p_events p2) = [PS_REFUND_PENDING, PS_REFUNDED]"
      using p1 p2 found by (auto simp: markRefunded_def requestRefund_def payment_transitionTo_Inr)
    have base: "payment_from (p_status p) (p_version p) p" using found by (simp add: payment_from_def)
    have chain: "payment_from (p_status p) (p_version p) p2"
      by (rule payment_from_marks(5) [OF payment_from_marks(4) [OF base p1] p2])
    obtain u v where u: "pr_update repo (yc_calls y 0) p2 (py_store s1) = (u, v)" by fastforce
    obtain w where w: "u = Inr w"
      using ex key found True g rid p1 p2 u
      by (cases u) (simp_all add: Refund_execute_def bind_eff_def on_pay_def catch_eff_def lift_res_def)
    have at: "abs (py_store s1) (rc_paymentId c) = Some p" and inv1: "inv (py_store s1)" using found s1 inv by simp_all
    note f = update_ok [OF inv1 st2(3) at chain u [unfolded w]]
    have sv: "\<exists>n. rf_save refunds (yc_calls y 1) n v = (Inr refund, py_store t)" and q: "q = snd (pullEvents p2)"
      using ex key found True g rid p1 p2 u w
      by (auto simp: Refund_execute_def bind_eff_def on_pay_def catch_eff_def lift_res_def ret_def
          split: prod.splits sum.splits)
    from sv keeps have t: "abs (py_store t) = abs v" "timeline (py_store t) = timeline v" by blast+
    obtain a b where "p_events p2 = [a, b]" "pe_toStatus a = PS_REFUND_PENDING" "pe_toStatus b = PS_REFUNDED"
      using evs by (auto simp: map_eq_Cons_conv)
    with f t s1 st2 found True q show ?thesis
      by (intro exI [of _ p] exI [of _ w] exI [of _ a] exI [of _ b]) (simp add: pullEvents_def)
  next
    case False
    with ex key found show ?thesis by (simp add: Refund_execute_def bind_eff_def on_pay_def throw_def)
  qed
qed (use ex key in \<open>simp_all add: Refund_execute_def bind_eff_def on_pay_def throw_def\<close>)

text \<open>Whatever the outcome of a refund: a property of the service's state is kept if the refund
  table, a call of the gateway that charges nothing and the step to REFUNDED keep it.\<close>

lemma refund_keeps:
  assumes reads: "\<And>k. outcome J (on_pay (rf_findByIdempotencyKey refunds k)) (\<lambda>_. J) (\<lambda>_. J)"
    and keeps: "\<And>cx n. outcome J (on_pay (rf_save refunds cx n)) (\<lambda>_. J) (\<lambda>_. J)"
    and J: "\<And>s. J s \<Longrightarrow> inv (py_store s)"
    and gateway: "\<And>s t. J s \<Longrightarrow> py_store t = py_store s \<Longrightarrow> gw_charges (py_gateway t) = gw_charges (py_gateway s) \<Longrightarrow> J t"
    and refunded: "\<And>s p q i u cx. J s \<Longrightarrow> abs (py_store s) i = Some p \<Longrightarrow> p_status p = PS_COMPLETED \<Longrightarrow> p_status q = PS_REFUNDED \<Longrightarrow>
      inv u \<Longrightarrow> abs u = (abs (py_store s))(i \<mapsto> stored_payment cx p q) \<Longrightarrow> J (s\<lparr>py_store := u\<rparr>)"
  shows "outcome J (Refund_execute D libmsg repo refunds cfg y c) (\<lambda>_. J) (\<lambda>_. J)"
proof -
  let ?i = "rc_paymentId c"
  let ?at = "\<lambda>p s. J s \<and> abs (py_store s) ?i = Some p \<and> p_id p = Some ?i \<and> p_events p = [] \<and> p_status p = PS_COMPLETED"
  have find: "outcome J (on_pay (pr_findById repo i)) (\<lambda>q s. J s \<and>
      (\<forall>p. q = Some p \<longrightarrow> abs (py_store s) i = Some p \<and> p_id p = Some i \<and> p_events p = [])) (\<lambda>_. J)" for i
  proof (rule outcomeI)
    fix s q t assume "J s" and ex: "on_pay (pr_findById repo i) s = (Inr q, t)"
    from J [OF \<open>J s\<close>] show "J t \<and> (\<forall>p. q = Some p \<longrightarrow> abs (py_store t) i = Some p \<and> p_id p = Some i \<and> p_events p = [])"
      by (cases rule: find_cases [where i = i]) (use ex \<open>J s\<close> in \<open>auto simp: on_pay_def\<close>)
  next
    fix s e t assume "J s" and ex: "on_pay (pr_findById repo i) s = (Inl e, t)"
    from J [OF \<open>J s\<close>] show "J t"
      by (cases rule: find_cases [where i = i]) (use ex \<open>J s\<close> in \<open>auto simp: on_pay_def\<close>)
  qed
  have found: "outcome J (on_pay (pr_findById repo i)) (\<lambda>_. J) (\<lambda>_. J)" for i
    by (rule outcome_post [OF find]) auto
  have gw: "outcome (?at p) (refund_through cfg y tx req) (\<lambda>_. ?at p) (\<lambda>_. J)" for p tx req
  proof (rule outcomeI)
    fix s x t assume a: "?at p s" and ex: "refund_through cfg y tx req s = (Inr x, t)"
    note refund_through_log [OF ex]
    with gateway [of s t] a show "?at p t" by simp
  next
    fix s e t assume a: "?at p s" and ex: "refund_through cfg y tx req s = (Inl e, t)"
    note refund_through_log [OF ex]
    with gateway [of s t] a show "J t" by simp
  qed
  have upd: "outcome (\<lambda>s. ?at p s \<and> payment_from (p_status p) (p_version p) q \<and> p_id q = p_id p \<and> p_status q = PS_REFUNDED)
      (on_pay (pr_update repo cx q)) (\<lambda>_. J) (\<lambda>_. J)" for p q cx
  proof (rule outcomeI)
    fix s x t
    assume a: "?at p s \<and> payment_from (p_status p) (p_version p) q \<and> p_id q = p_id p \<and> p_status q = PS_REFUNDED"
      and ex: "on_pay (pr_update repo cx q) s = (Inr x, t)"
    obtain r u where u: "pr_update repo cx q (py_store s) = (r, u)" by fastforce
    with ex have t: "r = Inr x" "t = s\<lparr>py_store := u\<rparr>" by (auto simp: on_pay_def)
    have "inv (py_store s)" "p_id q = Some ?i" "abs (py_store s) ?i = Some p" "payment_from (p_status p) (p_version p) q"
      using J a by auto
    note f = update_ok [OF this u [unfolded t(1)]]
    with a show "J t" unfolding t(2) by (intro refunded [of s ?i p q u cx]) auto
  next
    fix s e t
    assume "?at p s \<and> payment_from (p_status p) (p_version p) q \<and> p_id q = p_id p \<and> p_status q = PS_REFUNDED"
      and "on_pay (pr_update repo cx q) s = (Inl e, t)"
    then show "J t" by (auto simp: on_pay_def dest!: update_err split: prod.splits)
  qed
  have chain: "payment_from (p_status p) (p_version p) p2 \<and> p_id p2 = p_id p \<and> p_status p2 = PS_REFUNDED"
    if "requestRefund now p = Inr p1" "markRefunded now rid p1 = Inr p2" "p_events p = []" for now p p1 p2 rid
    using that payment_from_marks(5) [OF payment_from_marks(4) [OF _ that(1)] that(2), of "p_status p" "p_version p"]
    by (auto simp: payment_from_def payment_marks payment_transitionTo_Inr)
  show ?thesis
    unfolding Refund_execute_def
    apply (rule outcome_bind [OF reads], rule outcome_option)
     apply (rule outcome_bind [OF find], rule outcome_option)
      apply (rule outcome_throw, simp)
    subgoal for existing q p
      apply (rule outcome_if, rule outcome_throw, simp)
      apply (rule outcome_bind, rule outcome_catch)
         apply (rule outcome_pre [OF gw [of p]], simp)
        apply (rule outcome_throw, simp)
      apply (rule outcome_bind, rule outcome_lift [where Q = "\<lambda>p1 s. ?at p s \<and> requestRefund (yc_now y) p = Inr p1"], simp, simp)
      apply (rule outcome_bind, rule outcome_lift
          [where Q = "\<lambda>p2 s. ?at p s \<and> payment_from (p_status p) (p_version p) p2 \<and> p_id p2 = p_id p \<and> p_status p2 = PS_REFUNDED"])
        apply (metis chain)
       apply simp
      apply (rule outcome_bind [OF upd [of p]], rule outcome_bind [OF keeps], rule outcome_ret, simp)
      done
    apply (rule outcome_bind [OF found], rule outcome_option)
     apply (rule outcome_throw, simp)
    apply (rule outcome_ret, simp)
    done
qed

lemma refund_keeps_inv:
  assumes "\<And>k. outcome inv (rf_findByIdempotencyKey refunds k) (\<lambda>_. inv) (\<lambda>_. inv)"
    and "\<And>cx n. outcome inv (rf_save refunds cx n) (\<lambda>_. inv) (\<lambda>_. inv)"
    and "inv (py_store s)" and "Refund_execute D libmsg repo refunds cfg y c s = (r, t)"
  shows "inv (py_store t)"
  by (rule outcome_inv [OF refund_keeps [where J = "\<lambda>s. inv (py_store s)"] assms(3,4)])
    (use on_pay_outcome [OF assms(1)] on_pay_outcome [OF assms(2)] in auto)

end

section \<open>Webhook outcomes\<close>

context payment_store
begin

text \<open>An event for a payment that is not being processed, or of another type, is not applied.\<close>

lemma webhook_cases:
  assumes inv: "inv s" and ex: "ProcessWebhook_execute repo cx ev s = (r, t)"
  obtains (ignored) st where "r = Inr (False, st)" "t = s"
  | (applied) p q where "abs s (wh_paymentId ev) = Some p" "p_status p = PS_PROCESSING"
      "r = Inr (True, Some (p_status q))" "abs t = (abs s)(wh_paymentId ev \<mapsto> q)" "inv t"
      "wh_type ev = ''payment.succeeded'' \<and> p_status q = PS_COMPLETED \<or> wh_type ev = ''payment.failed'' \<and> p_status q = PS_FAILED"
      "p_idempotencyKey q = p_idempotencyKey p" "p_amount q = p_amount p"
      "p_status q = PS_COMPLETED \<longrightarrow> p_gatewayTransactionId q \<noteq> None"
  | (refused) e where "r = Inl e" "t = s"
  using inv
proof (cases rule: find_cases [where i = "wh_paymentId ev"])
  case (err e)
  with ex refused [of e] show thesis by (simp add: ProcessWebhook_execute_def bind_eff_def)
next
  case missing
  with ex have "r = Inr (False, None)" "t = s" by (simp_all add: ProcessWebhook_execute_def bind_eff_def ret_def)
  with ignored show thesis by blast
next
  case (found p)
  have base: "payment_from (p_status p) (p_version p) p" using found by (simp add: payment_from_def)
  let ?to = "if wh_type ev = ''payment.succeeded'' then PS_COMPLETED else PS_FAILED"
  let ?m = "if wh_type ev = ''payment.succeeded'' then markCompleted (px_now cx)
      (case wh_gatewayTransactionId ev of Some t \<Rightarrow> t | None \<Rightarrow> ''webhook'') p
    else markFailed (px_now cx) (case wh_reason ev of Some t \<Rightarrow> t | None \<Rightarrow> ''gateway reported failure'') p"
  show thesis
  proof (cases "p_status p = PS_PROCESSING \<and> (wh_type ev = ''payment.succeeded'' \<or> wh_type ev = ''payment.failed'')")
    case False
    with ex found have "r = Inr (False, Some (p_status p)) \<and> t = s"
      by (auto simp: ProcessWebhook_execute_def bind_eff_def ret_def split: if_splits)
    with ignored show thesis by blast
  next
    case True
    obtain p1 where p1: "?m = Inr p1" "p_status p1 = ?to" "p_id p1 = p_id p" "payment_from (p_status p) (p_version p) p1"
      "p_status p1 = PS_COMPLETED \<longrightarrow> p_gatewayTransactionId p1 \<noteq> None"
    proof -
      obtain p1 where "?m = Inr p1"
        using True by (auto simp: payment_marks payment_transitionTo_def payment_canTransition_def)
      moreover from this have "payment_from (p_status p) (p_version p) p1"
        using payment_from_marks(2,3) [OF base] by (auto split: if_splits)
      moreover from calculation(1) have "p_status p1 = ?to" "p_id p1 = p_id p" "p_status p1 = PS_COMPLETED \<longrightarrow> p_gatewayTransactionId p1 \<noteq> None"
        by (auto simp: payment_marks payment_transitionTo_Inr split: if_splits)
      ultimately show thesis using that by blast
    qed
    obtain u v where u: "pr_update repo cx p1 s = (u, v)" by fastforce
    have rt: "r = map_sum id (\<lambda>_. (True, Some (p_status p1))) u \<and> t = v"
      using ex found True p1(1) u
      by (cases u) (auto simp: ProcessWebhook_execute_def bind_eff_def lift_res_def ret_def split: if_splits)
    show thesis
    proof (cases u)
      case (Inl e)
      with u update_err rt refused [of e] show thesis by auto
    next
      case (Inr q)
      have pid: "p_id p1 = Some (wh_paymentId ev)" using p1 found by simp
      note f = update_ok [OF inv pid found(2) p1(4) u [unfolded Inr]]
      have st: "p_status q = ?to" using f p1 by simp
      have tx: "p_status q = PS_COMPLETED \<longrightarrow> p_gatewayTransactionId q \<noteq> None" using f p1(5) by (simp add: stored_payment_def)
      show thesis
        by (rule applied [OF found(2), of q, rotated 7, OF tx]) (use True f st p1 rt Inr in \<open>auto split: if_splits\<close>)
    qed
  qed
qed

text \<open>A second delivery of an applied event changes nothing.\<close>

lemma webhook_idempotent:
  assumes "inv s" and "ProcessWebhook_execute repo cx ev s = (Inr (True, st), t)"
  shows "ProcessWebhook_execute repo cx' ev t = (Inr (False, st), t)"
  using assms
proof (cases rule: webhook_cases)
  case (applied p q)
  then have at: "abs t (wh_paymentId ev) = Some q" and "p_status q \<noteq> PS_PROCESSING" by auto
  moreover have "pr_findById repo (wh_paymentId ev) t = (Inr (Some q), t)"
    using findById [OF applied(5)] abs_id [OF applied(5) at] at by simp
  ultimately show ?thesis using applied(3,6) by (auto simp: ProcessWebhook_execute_def bind_eff_def ret_def)
qed simp_all

end

end
