(* ===== verification/Payment_Properties.thy ===== *)
theory Payment_Properties
  imports Payment_Service Fixtures
begin

text \<open>
  What holds of the payment service: charges and idempotency keys, timelines, refunds, webhooks,
  the circuit breaker and the retry loop.
\<close>

section \<open>Concrete inputs\<close>

definition demo_payments :: "(payment_db, rat) payment_repository" where
  "demo_payments = KnexPaymentRepository demo_env rat_decimal"

definition demo_libmsg :: "string \<Rightarrow> string" where
  "demo_libmsg = id"

definition demo_cfg :: pay_config where
  "demo_cfg = \<lparr>pc_gateway = \<lparr>go_failureRate = 1 / 2, go_minLatencyMs = 0, go_maxLatencyMs = 0\<rparr>, pc_maxAttempts = 3,
     pc_baseDelayMs = 100, pc_threshold = 5, pc_timeoutMs = 1000\<rparr>"

text \<open>A gateway that fails while the random source draws \<open>roll\<close>.\<close>

definition demo_gateway :: "rat \<Rightarrow> gateway_state" where
  "demo_gateway roll = \<lparr>gw_random = (\<lambda>_. roll), gw_drawn = 0, gw_uuid = (\<lambda>_. ''u''), gw_uuids = 0, gw_slept = [],
     gw_charges = [], gw_refunds = []\<rparr>"

definition demo_metrics :: payment_metrics where
  "demo_metrics = \<lparr>pm_succeeded = 0, pm_failed = 0, pm_circuit = CLOSED\<rparr>"

definition demo_pay_state :: "payment_db \<Rightarrow> rat \<Rightarrow> payment_db pay_state" where
  "demo_pay_state db roll = \<lparr>py_store = db, py_gateway = demo_gateway roll, py_breaker = breaker_init, py_slept = [],
     py_metrics = demo_metrics\<rparr>"

definition demo_call :: pay_call where
  "demo_call = \<lparr>yc_calls = (\<lambda>k. \<lparr>px_now = 5, px_rowId = ''p'', px_eventIds = (\<lambda>i. replicate (Suc k + 5 * i) CHR ''e'')\<rparr>),
     yc_random = (\<lambda>_. 0), yc_admitted = 1, yc_failed = 2, yc_now = 5, yc_uuid = ''v'', yc_request = None\<rparr>"

definition demo_command :: "rat process_command" where
  "demo_command = \<lparr>pcm_orderId = ''o'', pcm_customerId = Some ''c'', pcm_amount = ANum 3, pcm_currency = ''USD'',
     pcm_idempotencyKey = ''payment-o''\<rparr>"

definition demo_pay_row :: "payment_status \<Rightarrow> string option \<Rightarrow> int \<Rightarrow> payment_row" where
  "demo_pay_row st tx v = \<lparr>yw_id = ''p'', yw_order_id = ''o'', yw_customer_id = Some ''c'', yw_status = st, yw_amount = ''3.00'',
     yw_currency = ''USD'', yw_idempotency_key = ''payment-o'', yw_gateway_transaction_id = tx, yw_failure_reason = None,
     yw_version = v, yw_created_at = 5, yw_updated_at = 5\<rparr>"

definition demo_event_row :: "string \<Rightarrow> string \<Rightarrow> payment_status \<Rightarrow> payment_status \<Rightarrow> json \<Rightarrow> payment_event_row" where
  "demo_event_row i ty a b pl = \<lparr>vw_id = i, vw_payment_id = ''p'',
     vw_event = \<lparr>pe_eventType = ty, pe_fromStatus = Some a, pe_toStatus = b, pe_payload = pl\<rparr>, vw_created_at = 5\<rparr>"

definition demo_started :: payment_event_row where
  "demo_started = demo_event_row ''ee'' ''payment.processing'' PS_PENDING PS_PROCESSING (JObj [])"

definition demo_charged :: payment_event_row where
  "demo_charged = demo_event_row ''eee'' ''payment.completed'' PS_PROCESSING PS_COMPLETED
     (JObj [(''gatewayTransactionId'', JStr ''txn_u'')])"

definition demo_processing :: payment_db where
  "demo_processing = \<lparr>yd_payments = [demo_pay_row PS_PROCESSING None 2], yd_events = [demo_started], yd_refunds = []\<rparr>"

definition demo_completed :: payment_db where
  "demo_completed = \<lparr>yd_payments = [demo_pay_row PS_COMPLETED (Some ''txn_u'') 3], yd_events = [demo_started, demo_charged],
     yd_refunds = []\<rparr>"

definition demo_payment :: "payment_status \<Rightarrow> string option \<Rightarrow> int \<Rightarrow> rat payment" where
  "demo_payment st tx v = \<lparr>p_id = Some ''p'', p_orderId = ''o'', p_customerId = Some ''c'',
     p_amount = \<lparr>m_amount = 3, m_currency = ''USD''\<rparr>, p_idempotencyKey = ''payment-o'', p_createdAt = 5, p_status = st,
     p_gatewayTransactionId = tx, p_failureReason = None, p_version = v, p_updatedAt = 5, p_events = []\<rparr>"

lemma demo_pay_toDomain: "payment_toDomain rat_decimal (demo_pay_row st tx v) = Inr (demo_payment st tx v)"
  by code_simp

lemmas demo_pay_db = demo_processing_def demo_completed_def demo_started_def demo_charged_def demo_event_row_def

lemma demo_pay_ok:
  "payment_db_ok demo_env rat_decimal demo_processing" "payment_db_ok demo_env rat_decimal demo_completed"
  using demo_pay_toDomain
  by (simp_all add: payment_db_ok_def demo_pay_db demo_env_def events_of_def payment_canTransition_def)
    (simp_all add: demo_pay_row_def)

lemma demo_pay_abs:
  "payment_db_abs rat_decimal demo_processing ''p'' = Some (demo_payment PS_PROCESSING None 2)"
  "payment_db_abs rat_decimal demo_completed ''p'' = Some (demo_payment PS_COMPLETED (Some ''txn_u'') 3)"
  using demo_pay_toDomain by (simp_all add: payment_db_abs_def demo_pay_db) (simp_all add: demo_pay_row_def)

text \<open>The steps of a first, successful payment and of a declined one.\<close>

definition demo_pending :: payment_db where
  "demo_pending = \<lparr>yd_payments = [demo_pay_row PS_PENDING None 1], yd_events = [], yd_refunds = []\<rparr>"

definition demo_moved :: "payment_status \<Rightarrow> payment_event_row list \<Rightarrow> string option \<Rightarrow> int \<Rightarrow> rat payment" where
  "demo_moved st evs tx v = (demo_payment st tx v)\<lparr>p_events := map vw_event evs\<rparr>"

lemma demo_new: "payment_of_command rat_decimal demo_call demo_command =
    Inr ((demo_payment PS_PENDING None 1)\<lparr>p_id := None\<rparr>)"
  by code_simp

lemma demo_pay_save: "knex_payment_save demo_env rat_decimal (yc_calls demo_call 0) ((demo_payment PS_PENDING None 1)\<lparr>p_id := None\<rparr>) payment_db_empty =
    (Inr (demo_payment PS_PENDING None 1), demo_pending)"
  by code_simp

lemma demo_mark: "markProcessing 5 (demo_payment PS_PENDING None 1) = Inr (demo_moved PS_PROCESSING [demo_started] None 2)"
  by code_simp

lemma demo_mark_stored: "knex_payment_update demo_env rat_decimal (yc_calls demo_call 1) (demo_moved PS_PROCESSING [demo_started] None 2) demo_pending =
    (Inr (demo_payment PS_PROCESSING None 2), demo_processing)"
  by code_simp

lemma demo_complete: "markCompleted 5 ''txn_u'' (demo_payment PS_PROCESSING None 2) = Inr (demo_moved PS_COMPLETED [demo_charged] (Some ''txn_u'') 3)"
  by code_simp

lemma demo_complete_stored: "knex_payment_update demo_env rat_decimal (yc_calls demo_call 2) (demo_moved PS_COMPLETED [demo_charged] (Some ''txn_u'') 3) demo_processing =
    (Inr (demo_payment PS_COMPLETED (Some ''txn_u'') 3), demo_completed)"
  by code_simp

definition demo_request :: charge_request where
  "demo_request = \<lparr>cr_amount = ''3.00'', cr_currency = ''USD'', cr_idempotencyKey = ''payment-o''\<rparr>"

lemma demo_charge_of: "charge_of rat_decimal demo_command (demo_payment st tx v) = demo_request"
  by code_simp

lemmas demo_gateway_defs = gateway_charge_def gateway_refund_def bind_eff_def simulateLatency_def maybeFail_def demo_gateway_def
  Let_def demo_cfg_def

lemma demo_charge:
  "charge_through demo_cfg demo_call demo_request (demo_pay_state db 1) = (Inr ''txn_u'',
     (demo_pay_state db 1)\<lparr>py_gateway := (demo_gateway 1)\<lparr>gw_drawn := 1, gw_uuids := 1, gw_charges := [demo_request]\<rparr>\<rparr>)"
  by (simp add: charge_through_def demo_pay_state_def breaker_execute_def breaker_admit_def breaker_init_def retry_def
      retry_from.simps retry_of_def breaker_onSuccess_def demo_gateway_defs)

lemma demo_run:
  "ProcessPayment_execute rat_decimal demo_libmsg demo_payments demo_cfg demo_call demo_command (demo_pay_state payment_db_empty 1) =
     (Inr (demo_payment PS_COMPLETED (Some ''txn_u'') 3, True),
      (demo_pay_state demo_completed 1)\<lparr>py_gateway := (demo_gateway 1)\<lparr>gw_drawn := 1, gw_uuids := 1, gw_charges := [demo_request]\<rparr>,
       py_metrics := demo_metrics\<lparr>pm_succeeded := 1\<rparr>\<rparr>)"
proof -
  have find: "knex_payment_findByKey rat_decimal ''payment-o'' payment_db_empty = (Inr None, payment_db_empty)" by code_simp
  have key: "pcm_idempotencyKey demo_command = ''payment-o''" "yc_now demo_call = 5" by (simp_all add: demo_command_def demo_call_def)
  show ?thesis
    using find demo_new demo_pay_save demo_mark demo_mark_stored demo_complete demo_complete_stored demo_charge [of demo_processing]
    by (simp add: ProcessPayment_execute_def demo_payments_def KnexPaymentRepository_def on_pay_def bind_eff_def lift_res_def
        settle_def key demo_charge_of demo_pay_state_def recordPaymentResult_def ret_def demo_metrics_def)
qed

section \<open>Charges\<close>



text \<open>A request repeated with the same key answers with the payment of the first, does not
  reach the gateway and writes nothing, whatever else it asks for.\<close>

theorem payment_retry_answers_first:
  assumes "payment_db_ok E D (py_store s)"
    and "ProcessPayment_execute D libmsg (KnexPaymentRepository E D) cfg y c s = (Inr (p, b), t)"
    and "pcm_idempotencyKey c' = pcm_idempotencyKey c"
  shows "ProcessPayment_execute D libmsg (KnexPaymentRepository E D) cfg' y' c' t = (Inr (p, b), t)"
proof -
  from knex_payments.process_result_stored [OF assms(1,2)] obtain i where
    "b = (p_status p = PS_COMPLETED)" "payment_db_abs D (py_store t) i = Some p" "p_idempotencyKey p = pcm_idempotencyKey c'"
    using assms(3) by auto
  with knex_payments.process_idempotent [OF knex_payments.process_effect(1) [OF assms(1,2)]] show ?thesis by blast
qed

theorem payment_retry_answers_first_witness:
  "\<exists>t. ProcessPayment_execute rat_decimal demo_libmsg demo_payments demo_cfg demo_call (demo_command\<lparr>pcm_amount := ANum 9\<rparr>) t =
     (Inr (demo_payment PS_COMPLETED (Some ''txn_u'') 3, True), t)"
proof -
  have "payment_db_ok demo_env rat_decimal (py_store (demo_pay_state payment_db_empty 1))"
    by (simp add: demo_pay_state_def payment_db_empty_ok)
  from payment_retry_answers_first [OF this demo_run [unfolded demo_payments_def], of "demo_command\<lparr>pcm_amount := ANum 9\<rparr>"]
  show ?thesis unfolding demo_payments_def by (auto simp: demo_command_def)
qed


section \<open>Timelines, refunds, webhooks\<close>

definition demo_refunds :: "payment_db refund_repository" where
  "demo_refunds = KnexRefundRepository demo_env"

definition demo_refund :: refund_command where
  "demo_refund = \<lparr>rc_paymentId = ''p'', rc_idempotencyKey = ''rk'', rc_reason = None\<rparr>"

lemma knex_refund_reads: "outcome (payment_db_ok E D) (knex_refund_findByKey k) (\<lambda>_. payment_db_ok E D) (\<lambda>_. payment_db_ok E D)"
  by (rule outcomeI) (auto simp: knex_refund_findByKey_def)

lemma payment_db_ok_refunds [simp]: "payment_db_ok E D (db\<lparr>yd_refunds := r\<rparr>) = payment_db_ok E D db"
  by (simp add: payment_db_ok_def events_of_def)

lemma knex_refund_keeps: "outcome (payment_db_ok E D) (knex_refund_save E cx n) (\<lambda>_. payment_db_ok E D) (\<lambda>_. payment_db_ok E D)"
  by (rule outcomeI) (auto simp: knex_refund_save_def Let_def split: option.splits)

text \<open>C17: no operation of the service, whatever its outcome, breaks the timeline of any payment:
  replaying the recorded events from PENDING gives the stored status, each step allowed by the
  status machine, and the version counts them.\<close>

theorem timelines_replay:
  assumes "payment_db_ok E D (py_store s)"
    and "(\<exists>c r. ProcessPayment_execute D libmsg (KnexPaymentRepository E D) cfg y c s = (r, t)) \<or>
      (\<exists>c r. Refund_execute D libmsg (KnexPaymentRepository E D) (KnexRefundRepository E) cfg y c s = (r, t)) \<or>
      (\<exists>cx ev r. on_pay (ProcessWebhook_execute (KnexPaymentRepository E D) cx ev) s = (r, t))"
  shows "payment_db_ok E D (py_store t) \<and>
    (\<forall>i p. payment_db_abs D (py_store t) i = Some p \<longrightarrow>
       replay PS_PENDING (events_of (py_store t) i) = Some (p_status p) \<and>
       p_version p = 1 + int (length (events_of (py_store t) i)))"
proof -
  have webhook: "payment_db_ok E D u" if "ProcessWebhook_execute (KnexPaymentRepository E D) cx ev (py_store s) = (r, u)" for cx ev r u
    using assms(1) that by (cases rule: knex_payments.webhook_cases) (use assms(1) in simp_all)
  have hook: "payment_db_ok E D (py_store t)" if "on_pay (ProcessWebhook_execute (KnexPaymentRepository E D) cx ev) s = (r, t)" for cx ev r
    using that webhook [of cx ev] by (cases "ProcessWebhook_execute (KnexPaymentRepository E D) cx ev (py_store s)") (auto simp: on_pay_def)
  have refund: "payment_db_ok E D (py_store t)"
    if "Refund_execute D libmsg (KnexPaymentRepository E D) (KnexRefundRepository E) cfg y c s = (r, t)" for c r
    by (rule knex_payments.refund_keeps_inv [OF _ _ assms(1) that])
      (simp_all add: KnexRefundRepository_def knex_refund_reads knex_refund_keeps)
  from assms(2) have "payment_db_ok E D (py_store t)"
    using knex_payments.process_effect(1) [OF assms(1)] hook refund by blast
  then show ?thesis using knex_payments.timeline_ok by blast
qed

theorem timelines_replay_witness:
  "replay PS_PENDING (events_of demo_completed ''p'') = Some PS_COMPLETED \<and> length (events_of demo_completed ''p'') = 2"
proof -
  have ok: "payment_db_ok demo_env rat_decimal (py_store (demo_pay_state payment_db_empty 1))"
    by (simp add: demo_pay_state_def payment_db_empty_ok)
  have "\<exists>c r. ProcessPayment_execute rat_decimal demo_libmsg (KnexPaymentRepository demo_env rat_decimal) demo_cfg demo_call c
      (demo_pay_state payment_db_empty 1) = (r, snd (ProcessPayment_execute rat_decimal demo_libmsg demo_payments demo_cfg demo_call demo_command
      (demo_pay_state payment_db_empty 1)))"
    unfolding demo_payments_def by (metis prod.collapse)
  from timelines_replay [OF ok disjI1, OF this, unfolded demo_run snd_conv]
  have "payment_db_abs rat_decimal demo_completed i = Some p \<Longrightarrow> replay PS_PENDING (events_of demo_completed i) = Some (p_status p) \<and>
      p_version p = 1 + int (length (events_of demo_completed i))" for i p
    by (simp add: demo_pay_state_def)
  from this [OF demo_pay_abs(2)] show ?thesis by (simp add: demo_payment_def)
qed


definition demo_refund_events :: "payment_event_row list" where
  "demo_refund_events = [demo_event_row ''e'' ''payment.refund_pending'' PS_COMPLETED PS_REFUND_PENDING (JObj []),
     demo_event_row ''eeeeee'' ''payment.refunded'' PS_REFUND_PENDING PS_REFUNDED (JObj [(''gatewayRefundId'', JStr ''rf_u'')])]"

definition demo_refund_record :: refund_record where
  "demo_refund_record = \<lparr>fr_id = ''p'', fr_paymentId = ''p'', fr_amount = ''3.00'', fr_currency = ''USD'', fr_status = ''COMPLETED'',
     fr_gatewayRefundId = Some ''rf_u'', fr_idempotencyKey = ''rk'', fr_reason = None\<rparr>"

definition demo_refunded :: "refund_record list \<Rightarrow> payment_db" where
  "demo_refunded rs = \<lparr>yd_payments = [demo_pay_row PS_REFUNDED (Some ''txn_u'') 5],
     yd_events = [demo_started, demo_charged] @ demo_refund_events, yd_refunds = rs\<rparr>"

lemma demo_refund_marks:
  "requestRefund 5 (demo_payment PS_COMPLETED (Some ''txn_u'') 3) =
     Inr (demo_moved PS_REFUND_PENDING (take 1 demo_refund_events) (Some ''txn_u'') 4)"
  "markRefunded 5 ''rf_u'' (demo_moved PS_REFUND_PENDING (take 1 demo_refund_events) (Some ''txn_u'') 4) =
     Inr (demo_moved PS_REFUNDED demo_refund_events (Some ''txn_u'') 5)"
  by code_simp+

lemma demo_refund_stored: "knex_payment_update demo_env rat_decimal (yc_calls demo_call 0) (demo_moved PS_REFUNDED demo_refund_events (Some ''txn_u'') 5) demo_completed =
    (Inr (demo_payment PS_REFUNDED (Some ''txn_u'') 5), demo_refunded [])"
  by code_simp

lemma demo_refund_saved: "knex_refund_save demo_env (yc_calls demo_call 1)
     \<lparr>nf_paymentId = ''p'', nf_amount = ''3.00'', nf_currency = ''USD'', nf_status = ''COMPLETED'',
      nf_gatewayRefundId = Some ''rf_u'', nf_idempotencyKey = ''rk'', nf_reason = None\<rparr> (demo_refunded []) =
    (Inr demo_refund_record, demo_refunded [demo_refund_record])"
  by code_simp

lemma demo_refund_gateway:
  "refund_through demo_cfg demo_call ''txn_u'' (demo_request\<lparr>cr_idempotencyKey := ''rk''\<rparr>) (demo_pay_state db 1) = (Inr ''rf_u'',
     (demo_pay_state db 1)\<lparr>py_gateway := (demo_gateway 1)\<lparr>gw_drawn := 1, gw_uuids := 1,
        gw_refunds := [(''txn_u'', demo_request\<lparr>cr_idempotencyKey := ''rk''\<rparr>)]\<rparr>\<rparr>)"
  by (simp add: refund_through_def demo_pay_state_def retry_def retry_from.simps retry_of_def demo_gateway_defs)

lemma demo_refund_run:
  "\<exists>t. Refund_execute rat_decimal demo_libmsg demo_payments demo_refunds demo_cfg demo_call demo_refund (demo_pay_state demo_completed 1) =
     (Inr (demo_payment PS_REFUNDED (Some ''txn_u'') 5, demo_refund_record), t) \<and> py_store t = demo_refunded [demo_refund_record]"
proof -
  have none: "knex_refund_findByKey ''rk'' demo_completed = (Inr None, demo_completed)" by code_simp
  have find: "knex_payment_findById demo_env rat_decimal ''p'' demo_completed = (Inr (Some (demo_payment PS_COMPLETED (Some ''txn_u'') 3)), demo_completed)"
    by code_simp
  have amount: "money_fixed rat_decimal (p_amount (demo_moved st evs tx v)) = ''3.00''" for st evs tx v by code_simp
  have amount': "money_fixed rat_decimal (p_amount (demo_payment st tx v)) = ''3.00''" for st tx v by code_simp
  have pulled: "snd (pullEvents (demo_moved st evs tx v)) = demo_payment st tx v" for st evs tx v
    by (simp add: pullEvents_def demo_moved_def demo_payment_def)
  have sel: "p_gatewayTransactionId (demo_payment st tx v) = tx" "m_currency (p_amount (demo_payment st tx v)) = ''USD''"
    "p_status (demo_payment st tx v) = st" "p_id (demo_moved st evs tx v) = Some ''p''"
    "m_currency (p_amount (demo_moved st evs tx v)) = ''USD''" for st tx v evs
    by (simp_all add: demo_payment_def demo_moved_def)
  have req: "demo_request\<lparr>cr_idempotencyKey := ''rk''\<rparr> = \<lparr>cr_amount = ''3.00'', cr_currency = ''USD'', cr_idempotencyKey = ''rk''\<rparr>"
    by (simp add: demo_request_def)
  have key: "rc_idempotencyKey demo_refund = ''rk''" "rc_paymentId demo_refund = ''p''" "rc_reason demo_refund = None" "yc_now demo_call = 5"
    by (simp_all add: demo_refund_def demo_call_def)
  show ?thesis
    using none find demo_refund_marks demo_refund_stored demo_refund_saved demo_refund_gateway [of demo_completed]
    by (simp add: Refund_execute_def demo_payments_def demo_refunds_def KnexPaymentRepository_def KnexRefundRepository_def
        on_pay_def bind_eff_def lift_res_def catch_eff_def ret_def key amount amount' pulled sel opt_text_def req demo_pay_state_def)
qed




text \<open>C30: a webhook is applied only to a payment in PROCESSING, which it moves to COMPLETED or FAILED
  as its type says; the same event delivered again is answered as not applied and changes nothing,
  and any event that is not applied changes nothing.\<close>

theorem webhook_applies_once:
  assumes "payment_db_ok E D db"
    and "ProcessWebhook_execute (KnexPaymentRepository E D) cx ev db = (r, db')"
  shows "if \<exists>st. r = Inr (True, st)
    then (\<exists>p q. payment_db_abs D db (wh_paymentId ev) = Some p \<and> p_status p = PS_PROCESSING \<and>
        payment_db_abs D db' = (payment_db_abs D db)(wh_paymentId ev \<mapsto> q) \<and> r = Inr (True, Some (p_status q)) \<and>
        (wh_type ev = ''payment.succeeded'' \<and> p_status q = PS_COMPLETED \<or> wh_type ev = ''payment.failed'' \<and> p_status q = PS_FAILED)) \<and>
      (\<forall>cx'. \<exists>st. ProcessWebhook_execute (KnexPaymentRepository E D) cx' ev db' = (Inr (False, st), db'))
    else db' = db"
  using assms
proof (cases rule: knex_payments.webhook_cases)
  case (applied p q)
  have "\<forall>cx'. \<exists>st. ProcessWebhook_execute (KnexPaymentRepository E D) cx' ev db' = (Inr (False, st), db')"
    using knex_payments.webhook_idempotent [OF assms(1) assms(2) [unfolded applied(3)]] by blast
  with applied show ?thesis by auto
qed auto

definition demo_hook :: webhook_event where
  "demo_hook = \<lparr>wh_id = ''w'', wh_type = ''payment.succeeded'', wh_paymentId = ''p'', wh_gatewayTransactionId = Some ''txn_u'',
     wh_reason = None\<rparr>"

theorem webhook_applies_once_witness:
  "ProcessWebhook_execute demo_payments (yc_calls demo_call 2) demo_hook demo_processing = (Inr (True, Some PS_COMPLETED), demo_completed) \<and>
   (\<exists>st. ProcessWebhook_execute demo_payments (yc_calls demo_call 3) demo_hook demo_completed = (Inr (False, st), demo_completed))"
proof -
  have find: "knex_payment_findById demo_env rat_decimal ''p'' demo_processing = (Inr (Some (demo_payment PS_PROCESSING None 2)), demo_processing)"
    by code_simp
  have sel: "p_status (demo_payment st tx v) = st" "p_status (demo_moved st evs tx v) = st" for st tx v evs
    by (simp_all add: demo_payment_def demo_moved_def)
  have t: "px_now (yc_calls demo_call k) = 5" for k by (simp add: demo_call_def)
  have ex: "ProcessWebhook_execute demo_payments (yc_calls demo_call 2) demo_hook demo_processing = (Inr (True, Some PS_COMPLETED), demo_completed)"
    using find demo_complete demo_complete_stored
    by (simp add: ProcessWebhook_execute_def demo_payments_def KnexPaymentRepository_def bind_eff_def lift_res_def ret_def demo_hook_def sel t)
  from webhook_applies_once [OF demo_pay_ok(1) ex [unfolded demo_payments_def]] ex show ?thesis
    by (simp add: demo_payments_def)
qed

section \<open>Circuit breaker and retries\<close>

text \<open>C34: under any interleaving of admissions, successes and failures of concurrent calls, the
  breaker moves only along the four arrows of its diagram, starting CLOSED, and a closed breaker
  has fewer counted failures than the threshold.\<close>

theorem breaker_diagram:
  assumes "0 < bo_failureThreshold opts" and "breaker_reachable opts b"
  shows "changes_path CLOSED (cb_changes b) (cb_state b) \<and>
    (cb_state b = CLOSED \<longrightarrow> cb_failureCount b < bo_failureThreshold opts)"
  using breaker_reachable_inv [OF assms] by (simp add: breaker_inv_def)

definition demo_breaker :: breaker_options where
  "demo_breaker = \<lparr>bo_failureThreshold = 1, bo_resetTimeoutMs = 10, bo_shouldCount = (\<lambda>_. True)\<rparr>"

definition demo_tripped :: breaker where
  "demo_tripped = breaker_onFailure demo_breaker 5 (PlainError ''x'') breaker_init"

theorem breaker_diagram_witness:
  "cb_state demo_tripped = OPEN \<and> changes_path CLOSED (cb_changes demo_tripped) OPEN"
proof -
  have "breaker_reachable demo_breaker demo_tripped"
    unfolding demo_tripped_def by (rule br_step [OF br_init bs_failure])
  from breaker_diagram [OF _ this] show ?thesis
    by (simp add: demo_breaker_def demo_tripped_def breaker_onFailure_def breaker_init_def Let_def)
qed

text \<open>Counted failures in a row trip a closed breaker exactly at the threshold; from then on
  it refuses every call until the reset timeout has passed since the last failure, without calling
  the dependency, and then admits a probe.\<close>

theorem breaker_trips_at_threshold:
  assumes "cb_state b = CLOSED" and "cb_failureCount b = 0"
    and "\<forall>(t, e)\<in>set (fs @ [(now, err)]). bo_shouldCount opts e"
    and "length (fs @ [(now, err)]) = bo_failureThreshold opts"
    and "b1 = foldl (\<lambda>b (t, e). breaker_onFailure opts t e b) b fs" and "b2 = breaker_onFailure opts now err b1"
  shows "cb_state b1 = CLOSED \<and> cb_state b2 = OPEN \<and>
    (\<forall>later. if later < now + bo_resetTimeoutMs opts
       then breaker_execute opts later end fn (s, b2) = (Inl (CircuitOpenError ''Circuit breaker is open''), (s, b2))
       else \<exists>b3. breaker_admit later b2 = Inr b3 \<and> cb_state b3 = HALF_OPEN)"
proof -
  have b1: "b1 = b\<lparr>cb_failureCount := length fs\<rparr>"
    using consecutive_failures [of b fs opts] assms by simp
  have "bo_shouldCount opts err" "bo_failureThreshold opts \<le> length fs + 1" "cb_state b1 = CLOSED" "cb_failureCount b1 = length fs"
    using assms(1,3,4) b1 by simp_all
  then have b2: "b2 = breaker_open opts now (b1\<lparr>cb_failureCount := length fs + 1\<rparr>)"
    unfolding assms(6) by (simp add: breaker_onFailure_def Let_def)
  show ?thesis
    using assms(1) by (simp add: b1 b2 breaker_execute_def breaker_admit_def)
qed

theorem breaker_trips_at_threshold_witness:
  "breaker_execute demo_breaker 14 15 (\<lambda>n :: nat. (Inr (), n + 1)) (0, demo_tripped) =
     (Inl (CircuitOpenError ''Circuit breaker is open''), (0, demo_tripped)) \<and>
   (\<exists>b3. breaker_admit 15 demo_tripped = Inr b3 \<and> cb_state b3 = HALF_OPEN)"
proof -
  have "cb_state (foldl (\<lambda>b (t, e). breaker_onFailure demo_breaker t e b) breaker_init []) = CLOSED \<and> cb_state demo_tripped = OPEN \<and>
    (\<forall>later. if later < 5 + bo_resetTimeoutMs demo_breaker
       then breaker_execute demo_breaker later 15 (\<lambda>n :: nat. (Inr (), n + 1)) (0, demo_tripped) =
         (Inl (CircuitOpenError ''Circuit breaker is open''), (0, demo_tripped))
       else \<exists>b3. breaker_admit later demo_tripped = Inr b3 \<and> cb_state b3 = HALF_OPEN)"
    by (rule breaker_trips_at_threshold [OF _ _ _ _ refl])
      (simp_all add: demo_tripped_def demo_breaker_def breaker_init_def)
  then have "\<And>later. if later < 5 + bo_resetTimeoutMs demo_breaker
       then breaker_execute demo_breaker later 15 (\<lambda>n :: nat. (Inr (), n + 1)) (0, demo_tripped) =
         (Inl (CircuitOpenError ''Circuit breaker is open''), (0, demo_tripped))
       else \<exists>b3. breaker_admit later demo_tripped = Inr b3 \<and> cb_state b3 = HALF_OPEN" by blast
  from this [of 14] this [of 15] show ?thesis by (simp add: demo_breaker_def)
qed

text \<open>C35: the retry loop calls the operation at least once and at most \<open>maxAttempts\<close> times, sleeping
  between two calls only, each time at most the capped exponential delay of that attempt.\<close>

theorem retry_calls_and_delays:
  assumes "retry opts rnd (counted fn) ((s, 0), []) = (r, ((t, calls), delays))"
    and "1 \<le> rt_maxAttempts opts" and "\<forall>a. 0 \<le> rnd a \<and> rnd a < 1"
    and "0 \<le> rt_baseDelayMs opts" and "0 \<le> rt_maxDelayMs opts"
  shows "1 \<le> calls \<and> calls \<le> rt_maxAttempts opts \<and> length delays = calls - 1 \<and>
    (\<forall>a < length delays. 0 \<le> delays ! a \<and> delays ! a \<le> min (rt_maxDelayMs opts) (rt_baseDelayMs opts * 2 ^ a))"
proof -
  obtain j where j: "1 \<le> j" "j \<le> rt_maxAttempts opts" "calls = j" "delays = map (\<lambda>a. backoff_delay opts (rnd a) a) [1..<j]"
    using retry_from_calls [OF assms(1) [unfolded retry_def]] assms(2) by auto
  have "0 \<le> delays ! a \<and> delays ! a \<le> min (rt_maxDelayMs opts) (rt_baseDelayMs opts * 2 ^ a)" if "a < length delays" for a
  proof -
    have "delays ! a = backoff_delay opts (rnd (Suc a)) (Suc a)" using that j by (simp add: nth_upt)
    with backoff_delay_bounds [of "rnd (Suc a)" opts "Suc a"] assms(3-5) show ?thesis by simp
  qed
  with j show ?thesis by simp
qed

definition demo_retry :: retry_options where
  "demo_retry = \<lparr>rt_maxAttempts = 3, rt_baseDelayMs = 100, rt_maxDelayMs = 30000, rt_jitter = True, rt_isRetryable = (\<lambda>_. True)\<rparr>"

theorem retry_calls_and_delays_witness:
  "\<exists>delays. retry demo_retry (\<lambda>_. 1 / 2) (counted (\<lambda>u. (Inl (PlainError ''x''), u))) (((), 0), []) =
     (Inl (PlainError ''x'') :: js_error + unit, (((), 3), delays)) \<and> length delays = 2 \<and> delays ! 1 \<le> 200"
proof -
  have ex: "retry demo_retry (\<lambda>_. 1 / 2) (counted (\<lambda>u. (Inl (PlainError ''x''), u))) (((), 0), []) =
     (Inl (PlainError ''x'') :: js_error + unit, (((), 3), [50, 100]))"
    by (simp add: retry_def retry_from.simps demo_retry_def counted_def backoff_delay_def backoff_cap_def)
  from retry_calls_and_delays [OF ex] show ?thesis using ex by (auto simp: demo_retry_def)
qed

text \<open>While the breaker is open, a payment in PROCESSING is failed with the reason circuit_open
  and stored so, without a call of the gateway, a random draw or a sleep.\<close>

theorem open_circuit_fails_fast:
  assumes "payment_db_ok E D (py_store s)" and "cb_state (py_breaker s) = OPEN" and "yc_admitted y < cb_nextProbeAt (py_breaker s)"
    and "payment_db_abs D (py_store s) i = Some p" and "p_status p = PS_PROCESSING"
    and "settle D libmsg (KnexPaymentRepository E D) cfg y c p s = (r, t)"
  shows "py_gateway t = py_gateway s \<and> py_slept t = py_slept s \<and> py_breaker t = py_breaker s \<and>
    (case r of Inl e \<Rightarrow> t = s
     | Inr (q, success) \<Rightarrow> \<not> success \<and> p_status q = PS_FAILED \<and> p_failureReason q = Some ''circuit_open'' \<and>
         payment_db_abs D (py_store t) = (payment_db_abs D (py_store s))(i \<mapsto> q))"
proof -
  have sf: "settle_failed libmsg (KnexPaymentRepository E D) y p (CircuitOpenError ''Circuit breaker is open'') s = (r, t)"
    using assms(6) charge_fails_fast [OF assms(2,3)] by (simp add: settle_def)
  have p: "p_id p = Some i" "payment_from (p_status p) (p_version p) p"
    using knex_payments.abs_id [OF assms(1,4)] by (auto simp: payment_from_def)
  from assms(1) p(1) assms(4) p(2) sf show ?thesis
    by (cases rule: knex_payments.settle_failed_cases) (use settle_failed_frame [OF sf] in auto)
qed

definition demo_open :: "payment_db pay_state" where
  "demo_open = (demo_pay_state demo_processing 1)\<lparr>py_breaker := demo_tripped\<rparr>"

theorem open_circuit_fails_fast_witness:
  "\<exists>q t. settle rat_decimal demo_libmsg demo_payments demo_cfg demo_call demo_command (demo_payment PS_PROCESSING None 2) demo_open =
     (Inr (q, False), t) \<and> p_failureReason q = Some ''circuit_open'' \<and> gw_charges (py_gateway t) = []"
proof -
  have failed: "markFailed 5 ''circuit_open'' (demo_payment PS_PROCESSING None 2) =
      Inr ((demo_moved PS_FAILED [demo_event_row ''x'' ''payment.failed'' PS_PROCESSING PS_FAILED (JObj [(''reason'', JStr ''circuit_open'')])] None 3)
        \<lparr>p_failureReason := Some ''circuit_open''\<rparr>)"
    by code_simp
  have stored: "isl (fst (knex_payment_update demo_env rat_decimal (yc_calls demo_call 3)
      ((demo_moved PS_FAILED [demo_event_row ''x'' ''payment.failed'' PS_PROCESSING PS_FAILED (JObj [(''reason'', JStr ''circuit_open'')])] None 3)
        \<lparr>p_failureReason := Some ''circuit_open''\<rparr>) demo_processing)) = False"
    by code_simp
  have trip: "cb_state (py_breaker demo_open) = OPEN" "yc_admitted demo_call < cb_nextProbeAt (py_breaker demo_open)"
    by (simp_all add: demo_open_def demo_call_def demo_tripped_def demo_breaker_def breaker_onFailure_def breaker_init_def Let_def)
  have db: "payment_db_ok demo_env rat_decimal (py_store demo_open)" "py_store demo_open = demo_processing"
    "gw_charges (py_gateway demo_open) = []"
    by (simp_all add: demo_open_def demo_pay_state_def demo_pay_ok demo_gateway_def)
  obtain r t where ex: "settle rat_decimal demo_libmsg demo_payments demo_cfg demo_call demo_command (demo_payment PS_PROCESSING None 2) demo_open = (r, t)"
    by fastforce
  have "isl r = False"
    using ex failed stored charge_fails_fast [OF trip]
    by (auto simp: settle_def settle_failed_def bind_eff_def lift_res_def on_pay_def demo_payments_def KnexPaymentRepository_def
        db recordPaymentResult_def ret_def split: prod.splits sum.splits) (simp_all add: demo_call_def)
  then obtain q b where r: "r = Inr (q, b)" by (cases r) auto
  from open_circuit_fails_fast [OF db(1) trip demo_pay_abs(1) [folded db(2)] _ ex [unfolded demo_payments_def]]
  show ?thesis using ex r db by (auto simp: demo_payment_def)
qed

end
