(* ===== verification/Outbox_Relay.thy ===== *)
theory Outbox_Relay
  imports Order_Store Messaging
begin

text \<open>
  The relay side of the transactional outbox: the poller of
  \<open>services/order-service/src/infrastructure/messaging/OutboxPoller.ts\<close> over the port
  \<open>OutboxRepository\<close>, whose contract is the locale \<open>outbox_port\<close>, interpreted on
  \<open>KnexOutboxRepository\<close>.  A call to the database may fail; the faults of one poll are an
  argument.
\<close>

record 's outbox_repository =
  ox_findUnpublished :: "nat \<Rightarrow> ('s, js_error, outbox_record list) eff"
  ox_markPublished :: "int \<Rightarrow> string list \<Rightarrow> ('s, js_error, unit) eff"

record poller_options =
  po_intervalMs :: int
  po_batchSize :: nat
  po_exchange :: string

record 's poller =
  pl_store :: 's
  pl_broker :: "amqp_message list"
  pl_running :: bool
  pl_timer :: bool

definition poller_start :: "'s poller \<Rightarrow> 's poller" where
  "poller_start p = (if pl_timer p then p else p\<lparr>pl_timer := True\<rparr>)"

definition poller_stop :: "'s poller \<Rightarrow> 's poller" where
  "poller_stop p = (if pl_timer p then p\<lparr>pl_timer := False\<rparr> else p)"

definition outbox_toDomainEvent :: "outbox_record \<Rightarrow> domain_event" where
  "outbox_toDomainEvent r =
     \<lparr>ev_id = obr_id r, ev_type = ob_eventType (obr_event r), ev_source = ''order-service'',
      ev_timestamp = obr_createdAt r, ev_correlationId = ob_aggregateId (obr_event r),
      ev_causationId = obr_id r, ev_data = ob_payload (obr_event r),
      ev_metadata = \<lparr>em_version = 1, em_userId = None,
        em_traceparent = Option.bind (ob_metadata (obr_event r)) (\<lambda>m. get_str m ''traceparent'')\<rparr>\<rparr>"

text \<open>The message of one record, and the loop that publishes until the first failure.\<close>

definition relay_message :: "poller_options \<Rightarrow> int \<Rightarrow> outbox_record \<Rightarrow> amqp_message" where
  "relay_message opts now r =
     publish_message None now (po_exchange opts) (ob_eventType (obr_event r)) (outbox_toDomainEvent r)"

fun publish_batch ::
    "(amqp_message \<Rightarrow> js_error option) \<Rightarrow> poller_options \<Rightarrow> int \<Rightarrow> outbox_record list \<Rightarrow>
     amqp_message list \<Rightarrow> string list \<times> amqp_message list" where
  "publish_batch confirm opts now [] broker = ([], broker)"
| "publish_batch confirm opts now (r # rs) broker =
     (case publish confirm None now (po_exchange opts) (ob_eventType (obr_event r)) (outbox_toDomainEvent r) broker of
        (Inl e, broker') \<Rightarrow> ([], broker')
      | (Inr u, broker') \<Rightarrow>
          (case publish_batch confirm opts now rs broker' of (ids, b) \<Rightarrow> (obr_id r # ids, b)))"

definition poll ::
    "'s outbox_repository \<Rightarrow> (amqp_message \<Rightarrow> js_error option) \<Rightarrow> poller_options \<Rightarrow> int \<Rightarrow> 's poller \<Rightarrow> nat \<times> 's poller" where
  "poll box confirm opts now p =
     (if pl_running p then (0, p)
      else
        case ox_findUnpublished box (po_batchSize opts) (pl_store p) of
          (Inl e, s) \<Rightarrow> (0, p\<lparr>pl_store := s\<rparr>)
        | (Inr events, s) \<Rightarrow>
            if events = [] then (0, p\<lparr>pl_store := s\<rparr>)
            else
              case publish_batch confirm opts now events (pl_broker p) of (published, broker) \<Rightarrow>
                if published = [] then (0, p\<lparr>pl_store := s, pl_broker := broker\<rparr>)
                else
                  case ox_markPublished box now published s of
                    (Inl e, s') \<Rightarrow> (0, p\<lparr>pl_store := s', pl_broker := broker\<rparr>)
                  | (Inr _, s') \<Rightarrow> (length published, p\<lparr>pl_store := s', pl_broker := broker\<rparr>))"

text \<open>The broker accepts a prefix of the batch, in order.\<close>

lemma publish_batch_prefix:
  "\<exists>k\<le>length rs. publish_batch confirm opts now rs broker =
     (map obr_id (take k rs), broker @ map (relay_message opts now) (take k rs)) \<and>
   (\<forall>r\<in>set (take k rs). confirm (relay_message opts now r) = None) \<and>
   (k < length rs \<longrightarrow> confirm (relay_message opts now (rs ! k)) \<noteq> None)"
proof (induction rs arbitrary: broker)
  case (Cons r rs)
  show ?case
  proof (cases "confirm (relay_message opts now r)")
    case (Some e)
    then show ?thesis by (intro exI [of _ 0]) (simp add: publish_def relay_message_def)
  next
    case None
    from Cons.IH [of "broker @ [relay_message opts now r]"] obtain k where
      "k \<le> length rs" "publish_batch confirm opts now rs (broker @ [relay_message opts now r]) =
         (map obr_id (take k rs), (broker @ [relay_message opts now r]) @ map (relay_message opts now) (take k rs))"
      "\<forall>r\<in>set (take k rs). confirm (relay_message opts now r) = None"
      "k < length rs \<longrightarrow> confirm (relay_message opts now (rs ! k)) \<noteq> None" by blast
    with None show ?thesis
      by (intro exI [of _ "Suc k"]) (simp add: publish_def relay_message_def)
  qed
qed simp

section \<open>The contract of the outbox\<close>

locale outbox_port =
  fixes box :: "'s outbox_repository"
    and inv :: "'s \<Rightarrow> bool"
    and pending :: "'s \<Rightarrow> outbox_record list"
  assumes find: "inv s \<Longrightarrow> ox_findUnpublished box n s = (r, t) \<Longrightarrow>
      t = s \<and> (case r of Inl e \<Rightarrow> True | Inr evs \<Rightarrow> evs = take n (pending s))"
    and mark: "inv s \<Longrightarrow> ox_markPublished box now ids s = (m, t) \<Longrightarrow>
      inv t \<and> (case m of Inl e \<Rightarrow> pending t = pending s
                | Inr _ \<Rightarrow> pending t = filter (\<lambda>e. obr_id e \<notin> set ids) (pending s))"
    and pending_distinct: "inv s \<Longrightarrow> distinct (map obr_id (pending s))"
begin

lemma pending_after_mark:
  assumes "inv s" and "ox_markPublished box now (map obr_id (take k (take n (pending s)))) s = (Inr u, t)"
  shows "pending t = drop (min k n) (pending s)"
proof -
  let ?ids = "map obr_id (take (min k n) (pending s))"
  have split: "pending s = take (min k n) (pending s) @ drop (min k n) (pending s)" by simp
  have "distinct (map obr_id (take (min k n) (pending s)) @ map obr_id (drop (min k n) (pending s)))"
    unfolding map_append [symmetric] append_take_drop_id by (rule pending_distinct [OF assms(1)])
  then have disj: "set ?ids \<inter> obr_id ` set (drop (min k n) (pending s)) = {}" by simp
  have "filter (\<lambda>e. obr_id e \<notin> set ?ids) (drop (min k n) (pending s)) = drop (min k n) (pending s)"
    using disj by (intro filter_True) blast
  moreover have "filter (\<lambda>e. obr_id e \<notin> set ?ids) (take (min k n) (pending s)) = []"
    by (auto simp: filter_empty_conv)
  ultimately have "filter (\<lambda>e. obr_id e \<notin> set ?ids) (pending s) = drop (min k n) (pending s)"
    by (subst split) (simp only: filter_append append_Nil)
  with mark [OF assms] show ?thesis by (simp add: min.commute)
qed

text \<open>One poll: the broker gains a prefix of what was pending, and what leaves the pending list
  is that prefix or nothing.\<close>

lemma poll_effect:
  assumes inv: "inv (pl_store p)" and idle: "\<not> pl_running p"
    and ex: "poll box confirm opts now p = (n, q)"
  obtains (polled) k where "k \<le> po_batchSize opts" "inv (pl_store q)" "\<not> pl_running q"
    "pl_broker q = pl_broker p @ map (relay_message opts now) (take k (pending (pl_store p)))"
    "n = k \<and> pending (pl_store q) = drop k (pending (pl_store p)) \<or>
     n = 0 \<and> pending (pl_store q) = pending (pl_store p)"
proof -
  let ?P = "pending (pl_store p)"
  obtain r s where f: "ox_findUnpublished box (po_batchSize opts) (pl_store p) = (r, s)" by fastforce
  from find [OF inv f] have s: "s = pl_store p" by simp
  show thesis
  proof (cases r)
    case (Inl e)
    with ex f s idle have "n = 0 \<and> q = p" by (simp add: poll_def)
    with inv idle show thesis by (intro polled [of 0]) auto
  next
    case (Inr evs)
    with find [OF inv f] have evs: "evs = take (po_batchSize opts) ?P" by simp
    obtain k where k: "k \<le> length evs" and pb: "publish_batch confirm opts now evs (pl_broker p) =
        (map obr_id (take k evs), pl_broker p @ map (relay_message opts now) (take k evs))"
      using publish_batch_prefix by blast
    from k evs have kb1: "k \<le> po_batchSize opts" by simp
    with evs have "take k evs = take k ?P" by (simp add: min_absorb1)
    note kb = kb1 this
    from k evs have kP: "k \<le> length ?P" by simp
    show thesis
    proof (cases "take k evs = []")
      case True
      with ex f s Inr pb idle have "n = 0 \<and> q = p" by (simp add: poll_def split: if_splits)
      with inv idle show thesis by (intro polled [of 0]) auto
    next
      case False
      obtain m t where m: "ox_markPublished box now (map obr_id (take k evs)) (pl_store p) = (m, t)" by fastforce
      have q: "pl_store q = t" "pl_running q = pl_running p"
        "pl_broker q = pl_broker p @ map (relay_message opts now) (take k ?P)"
        "n = (case m of Inl e \<Rightarrow> 0 | Inr _ \<Rightarrow> k)"
        using ex f s Inr pb idle False m k kb(2) kP
        by (auto simp: poll_def min_absorb2 split: sum.splits if_splits)
      from mark [OF inv m] have "inv t" by simp
      moreover have "pending t = drop k ?P" if "m = Inr u" for u
        using pending_after_mark [OF inv, of now k "po_batchSize opts" u t] m that evs kb by (simp add: min_def)
      moreover have "pending t = ?P" if "m = Inl e" for e using mark [OF inv m] that by simp
      ultimately show thesis
        using q kb idle by (intro polled [of k]) (auto split: sum.splits)
    qed
  qed
qed

text \<open>Nothing is lost: an event leaves the pending list only after the broker confirmed it.\<close>

lemma poll_no_loss:
  assumes "inv (pl_store p)" and "poll box confirm opts now p = (n, q)" and "r \<in> set (pending (pl_store p))"
  shows "r \<in> set (pending (pl_store q)) \<or> relay_message opts now r \<in> set (pl_broker q)"
proof (cases "pl_running p")
  case True
  with assms show ?thesis by (simp add: poll_def)
next
  case False
  obtain k where b: "pl_broker q = pl_broker p @ map (relay_message opts now) (take k (pending (pl_store p)))"
    and d: "n = k \<and> pending (pl_store q) = drop k (pending (pl_store p)) \<or> pending (pl_store q) = pending (pl_store p)"
    using poll_effect [OF assms(1) False assms(2)] by metis
  have "r \<in> set (take k (pending (pl_store p))) \<union> set (drop k (pending (pl_store p)))"
    unfolding set_append [symmetric] append_take_drop_id by (rule assms(3))
  with b d assms(3) show ?thesis by auto
qed

end

section \<open>The Knex outbox keeps the contract\<close>

record db_faults =
  df_find :: bool
  df_mark :: bool

definition KnexOutboxRepository :: "db_faults \<Rightarrow> order_db outbox_repository" where
  "KnexOutboxRepository fl =
     \<lparr>ox_findUnpublished = (\<lambda>n db. if df_find fl then (Inl (LibraryError ''connection''), db)
                                    else knex_findUnpublished n db),
      ox_markPublished = (\<lambda>now ids db. if df_mark fl then (Inl (LibraryError ''connection''), db)
                                        else knex_markPublished now ids db)\<rparr>"

definition outbox_ok :: "order_db \<Rightarrow> bool" where
  "outbox_ok db \<longleftrightarrow> distinct (map xw_id (od_outbox db))"

definition outbox_pending :: "order_db \<Rightarrow> outbox_record list" where
  "outbox_pending db = map record_of_outbox_row
     (sort_key xw_created_at (filter (\<lambda>r. \<not> xw_published r) (od_outbox db)))"

lemma obr_id_record [simp]: "obr_id (record_of_outbox_row r) = xw_id r"
  by (simp add: record_of_outbox_row_def)

lemma unpublished_after_mark:
  "filter (\<lambda>r. \<not> xw_published r) (update_where (\<lambda>r. xw_id r \<in> I) (\<lambda>r. r\<lparr>xw_published := True, xw_published_at := x\<rparr>) rows) =
   filter (\<lambda>r. xw_id r \<notin> I) (filter (\<lambda>r. \<not> xw_published r) rows)"
  by (induction rows) (auto simp: update_where_def)

interpretation knex_outbox: outbox_port "KnexOutboxRepository fl" outbox_ok outbox_pending
  for fl :: db_faults
proof (unfold_locales, goal_cases)
  case (1 s n r t)
  then show ?case
    by (auto simp: KnexOutboxRepository_def knex_findUnpublished_def outbox_pending_def order_limit_def
        take_map split: if_splits)
next
  case (2 s now ids r t)
  have "map xw_id (update_where (\<lambda>r. xw_id r \<in> set ids) (\<lambda>r. r\<lparr>xw_published := True, xw_published_at := Some now\<rparr>) (od_outbox s)) =
      map xw_id (od_outbox s)" by (rule map_update_where) simp
  with 2 show ?case
    by (auto simp: KnexOutboxRepository_def knex_markPublished_def outbox_ok_def outbox_pending_def
        unpublished_after_mark filter_sort [symmetric] filter_map comp_def split: if_splits)
next
  case (3 s)
  have "distinct (map xw_id (filter (\<lambda>r. \<not> xw_published r) (od_outbox s)))"
    using 3 by (simp add: outbox_ok_def distinct_map_filter)
  then show ?case
    by (auto simp: outbox_pending_def comp_def distinct_map)
qed

text \<open>With a broker that confirms and no fault, every poll drains one batch.\<close>

lemma publish_all:
  "publish_batch (\<lambda>_. None) opts now rs broker = (map obr_id rs, broker @ map (relay_message opts now) rs)"
  using publish_batch_prefix [of rs "\<lambda>_. None" opts now broker] by fastforce

section \<open>Draining\<close>

text \<open>Successive polls, one at each of the given instants.\<close>

definition polls ::
    "'s outbox_repository \<Rightarrow> (amqp_message \<Rightarrow> js_error option) \<Rightarrow> poller_options \<Rightarrow> int list \<Rightarrow> 's poller \<Rightarrow> 's poller" where
  "polls box confirm opts nows p = foldl (\<lambda>p now. snd (poll box confirm opts now p)) p nows"

lemma relay_message_id [simp]: "am_messageId (relay_message opts now r) = obr_id r"
  by (simp add: relay_message_def publish_message_def outbox_toDomainEvent_def Let_def)

text \<open>An outbox whose database answers.\<close>

locale reliable_outbox = outbox_port box inv pending
  for box :: "'s outbox_repository" and inv and pending +
  assumes find_answers: "inv s \<Longrightarrow> \<exists>evs. ox_findUnpublished box n s = (Inr evs, s)"
    and mark_answers: "inv s \<Longrightarrow> \<exists>t. ox_markPublished box now ids s = (Inr (), t)"
begin

lemma poll_drains:
  assumes inv: "inv (pl_store p)" and idle: "\<not> pl_running p" and conf: "\<And>m. confirm m = None"
    and ex: "poll box confirm opts now p = (n, q)"
  shows "inv (pl_store q)" and "\<not> pl_running q"
    and "pending (pl_store q) = drop (po_batchSize opts) (pending (pl_store p))"
    and "pl_broker q = pl_broker p @ map (relay_message opts now) (take (po_batchSize opts) (pending (pl_store p)))"
proof -
  let ?b = "po_batchSize opts" let ?P = "pending (pl_store p)"
  have conf': "confirm = (\<lambda>_. None)" using conf by (simp add: fun_eq_iff)
  obtain evs where f: "ox_findUnpublished box ?b (pl_store p) = (Inr evs, pl_store p)"
    using find_answers [OF inv] by blast
  with find [OF inv f] have evs: "evs = take ?b ?P" by simp
  have "inv (pl_store q) \<and> \<not> pl_running q \<and> pending (pl_store q) = drop ?b ?P \<and>
      pl_broker q = pl_broker p @ map (relay_message opts now) (take ?b ?P)"
  proof (cases "evs = []")
    case True
    with ex f idle have "q = p" by (simp add: poll_def)
    with True evs inv idle show ?thesis by auto
  next
    case False
    obtain t where m: "ox_markPublished box now (map obr_id evs) (pl_store p) = (Inr (), t)"
      using mark_answers [OF inv] by blast
    have q: "q = p\<lparr>pl_store := t, pl_broker := pl_broker p @ map (relay_message opts now) evs\<rparr>"
      using ex f idle False m by (simp add: poll_def conf' publish_all)
    have m': "ox_markPublished box now (map obr_id (take ?b (take ?b ?P))) (pl_store p) = (Inr (), t)"
      using m evs by simp
    have "inv t" using mark [OF inv m] by simp
    with q evs idle pending_after_mark [OF inv m'] show ?thesis by simp
  qed
  then show "inv (pl_store q)" and "\<not> pl_running q"
    and "pending (pl_store q) = drop (po_batchSize opts) (pending (pl_store p))"
    and "pl_broker q = pl_broker p @ map (relay_message opts now) (take (po_batchSize opts) (pending (pl_store p)))"
    by simp_all
qed

text \<open>The polls send what was pending in order, each event once.\<close>

lemma polls_drain:
  assumes "inv (pl_store p)" and "\<not> pl_running p" and "\<And>m. confirm m = None"
  shows "pending (pl_store (polls box confirm opts nows p)) = drop (length nows * po_batchSize opts) (pending (pl_store p)) \<and>
    map am_messageId (pl_broker (polls box confirm opts nows p)) =
      map am_messageId (pl_broker p) @ map obr_id (take (length nows * po_batchSize opts) (pending (pl_store p)))"
  using assms(1,2)
proof (induction nows arbitrary: p)
  case Nil
  then show ?case by (simp add: polls_def)
next
  case (Cons now nows)
  let ?b = "po_batchSize opts"
  obtain n q where q: "poll box confirm opts now p = (n, q)" by fastforce
  note d = poll_drains [OF Cons.prems assms(3) q]
  have "polls box confirm opts (now # nows) p = polls box confirm opts nows q" using q by (simp add: polls_def)
  with Cons.IH [OF d(1,2)] d(3,4) show ?case
    by (simp add: comp_def add.commute take_add)
qed

end

interpretation knex_reliable: reliable_outbox "KnexOutboxRepository \<lparr>df_find = False, df_mark = False\<rparr>" outbox_ok outbox_pending
  by unfold_locales (simp_all add: KnexOutboxRepository_def knex_findUnpublished_def knex_markPublished_def)

end
