(* ===== verification/Platform_Properties.thy ===== *)
theory Platform_Properties
  imports Outbox_Relay Fixtures
begin

text \<open>
  What holds of the shared platform: money, traces and events across the broker, the topology, the
  delivery policy, the connection manager, the error handler and the outbox relay.
\<close>

section \<open>Money\<close>

text \<open>An amount in whole cents survives serialisation: parsing what \<open>toJSON\<close> printed gives an
  equal amount of the same currency.\<close>

theorem money_json_roundtrip:
  assumes "decimal_laws D val" and "money_ok m" and "val (m_amount m) = Some (of_int k / 100)"
  shows "\<exists>m'. money_fromJSON D (money_toJSON D m) = Inr m' \<and> money_equals D m' m \<and> money_ok m'"
proof -
  from dec_val_toFixed [OF assms(1,3)] obtain y where y: "dec_of_string D (dec_toFixed D (m_amount m) 2) = Some y"
    "val y = Some (of_int k / 100)" by (auto simp: round_half_up_exact)
  have "money_fromJSON D (money_toJSON D m) = Inr (mk_money y (m_currency m))"
    using assms(2) y dec_val_not_NaN [OF assms(1) y(2)]
    by (auto simp: money_fromJSON_def money_toJSON_def money_fixed_def money_toFixed_def money_of_Inr money_ok_def)
  with assms(2) dec_val_eq [OF assms(1) y(2) assms(3)] show ?thesis
    by (auto simp: money_equals_def money_ok_def)
qed

theorem money_json_roundtrip_witness:
  "\<exists>m'. money_fromJSON rat_decimal \<lparr>mj_amount = ''12.34'', mj_currency = ''USD''\<rparr> = Inr m' \<and> m_amount m' = 1234 / 100"
proof -
  have ok: "money_ok \<lparr>m_amount = 1234 / 100 :: rat, m_currency = ''USD''\<rparr>" by (simp add: money_ok_def) code_simp
  have js: "money_toJSON rat_decimal \<lparr>m_amount = 1234 / 100, m_currency = ''USD''\<rparr> = \<lparr>mj_amount = ''12.34'', mj_currency = ''USD''\<rparr>"
    by code_simp
  have eq: "money_equals rat_decimal a b \<Longrightarrow> m_amount a = m_amount b" for a b
    by (simp add: money_equals_def rat_decimal_def)
  from money_json_roundtrip [OF rat_decimal_laws ok, of 1234] eq show ?thesis unfolding js by fastforce
qed

section \<open>Traces and events across the broker\<close>


definition demo_trace :: trace_context where
  "demo_trace = \<lparr>tc_traceId = ''4bf92f3577b34da6a3ce929d0e0e4736'', tc_spanId = ''00f067aa0ba902b7'', tc_sampled = True\<rparr>"

definition demo_domain_event :: domain_event where
  "demo_domain_event = \<lparr>ev_id = ''e'', ev_type = ORDER_CREATED, ev_source = ''order-service'', ev_timestamp = 0,
     ev_correlationId = ''c'', ev_causationId = ''c'', ev_data = JObj [],
     ev_metadata = \<lparr>em_version = 1, em_userId = None, em_traceparent = None\<rparr>\<rparr>"

lemma demo_trace_ok: "trace_ok demo_trace" "generateSpanId [1, 2, 3, 4, 5, 6, 7, 8] \<noteq> ALL_ZERO_SPAN"
  by code_simp+


lemma topology_distinct:
  "distinct [AUDIT_EVENTS, INVENTORY_ORDER_EVENTS, PAYMENT_INVENTORY_EVENTS, ORDER_INVENTORY_EVENTS, ORDER_PAYMENT_EVENTS, NOTIFICATION_EVENTS]"
  "distinct [ORDER_CREATED, ORDER_CANCELLED, ORDER_CONFIRMED]"
  "distinct [INVENTORY_RESERVED, INVENTORY_FAILED]" "distinct [PAYMENT_COMPLETED, PAYMENT_FAILED]"
  by (simp_all only: topology_names event_types) code_simp+

lemma queues_dead_letter: "\<forall>op\<in>set setupTopology. case op of AssertQueue q x \<Rightarrow> q = DEAD_LETTER_QUEUE \<or> x = Some DEAD_LETTER_EXCHANGE | _ \<Rightarrow> True"
  by (simp add: setupTopology_def)

text \<open>The topology carries the saga: each event reaches the service that reacts to it and no
  other reactor, the audit queue sees every event of every exchange, and what a queue rejects ends
  in the dead-letter queue.\<close>

theorem topology_carries_saga:
  assumes "topic_laws matches"
  shows "(\<forall>key. AUDIT_EVENTS \<in> set (route matches setupTopology ORDER_EXCHANGE key) \<and>
        AUDIT_EVENTS \<in> set (route matches setupTopology INVENTORY_EXCHANGE key) \<and>
        AUDIT_EVENTS \<in> set (route matches setupTopology PAYMENT_EXCHANGE key) \<and>
        route matches setupTopology DEAD_LETTER_EXCHANGE key = [DEAD_LETTER_QUEUE] \<and>
        (INVENTORY_ORDER_EVENTS \<in> set (route matches setupTopology ORDER_EXCHANGE key) \<longleftrightarrow> key \<in> {ORDER_CREATED, ORDER_CANCELLED}) \<and>
        (PAYMENT_INVENTORY_EVENTS \<in> set (route matches setupTopology INVENTORY_EXCHANGE key) \<longleftrightarrow> key = INVENTORY_RESERVED) \<and>
        (ORDER_INVENTORY_EVENTS \<in> set (route matches setupTopology INVENTORY_EXCHANGE key) \<longleftrightarrow> key \<in> {INVENTORY_RESERVED, INVENTORY_FAILED}) \<and>
        (ORDER_PAYMENT_EVENTS \<in> set (route matches setupTopology PAYMENT_EXCHANGE key) \<longleftrightarrow> key \<in> {PAYMENT_COMPLETED, PAYMENT_FAILED})) \<and>
    (\<forall>q x. AssertQueue q x \<in> set setupTopology \<longrightarrow> q = DEAD_LETTER_QUEUE \<or> x = Some DEAD_LETTER_EXCHANGE)"
proof -
  note routes = route_order [OF assms] route_inventory [OF assms] route_payment [OF assms] route_dead_letter [OF assms]
  have "q = DEAD_LETTER_QUEUE \<or> x = Some DEAD_LETTER_EXCHANGE" if "AssertQueue q x \<in> set setupTopology" for q x
    using queues_dead_letter that by fastforce
  then show ?thesis using topology_distinct
    by (intro conjI allI impI; (simp only: routes)?) (auto split: if_splits)
qed

theorem topology_carries_saga_witness:
  "PAYMENT_INVENTORY_EVENTS \<in> set (route literal_match setupTopology INVENTORY_EXCHANGE INVENTORY_RESERVED)"
  using topology_carries_saga [OF literal_match_laws] by blast

lemma readable_is_settled:
  "deliver_until_settled fuel h uuid tb sb now msg s = Some (r, n, u) \<Longrightarrow> dl_content msg = Some v \<Longrightarrow> metadata_readable v \<Longrightarrow> r \<noteq> None"
proof (induction fuel arbitrary: msg s r n u)
  case (Suc fuel)
  obtain r1 t1 where m: "on_message h uuid tb sb now msg s = (r1, t1)" by (rule prod.exhaust)
  have "r1 \<noteq> None"
    using m Suc.prems(2,3) by (auto simp: on_message_def Let_def split: prod.splits sum.splits if_splits)
  with m Suc.prems Suc.IH [of "msg\<lparr>dl_redelivered := True\<rparr>" t1] show ?case
    by (cases "r1 = Some Requeue") (auto split: option.splits settlement.splits)
qed simp


text \<open>Whatever the broker and the network do, at most one reconnect is pending, and one is pending
  exactly while the manager says it is reconnecting.\<close>

theorem single_reconnect_timer:
  assumes "rabbit_reachable c"
  shows "rb_timers c \<le> 1 \<and> (rb_reconnecting c \<longleftrightarrow> rb_timers c = 1)"
  using rabbit_reachable_inv [OF assms] by (auto simp: rabbit_inv_def)

theorem single_reconnect_timer_witness:
  "rb_timers (handleDisconnect (handleDisconnect rabbit_init)) = 1"
proof -
  have "rabbit_reachable (handleDisconnect (handleDisconnect rabbit_init))"
    by (intro rr_step [OF rr_step [OF rr_init rs_close] rs_close])
  from single_reconnect_timer [OF this] show ?thesis by (simp add: handleDisconnect_def rabbit_init_def Let_def)
qed

section \<open>Errors\<close>

text \<open>The HTTP status of an error response is that of the error's class, in the status line and
  in the body alike, and lies between 400 and 599; the body carries the request id as trace id; and
  an error of no known class is answered like an internal error, showing nothing of its message.\<close>

theorem error_responses:
  "\<exists>fields. res_body (snd (errorHandler dev rid err)) = JObj fields \<and>
     400 \<le> res_status (snd (errorHandler dev rid err)) \<and> res_status (snd (errorHandler dev rid err)) < 600 \<and>
     map_of fields ''status'' = Some (JNum (of_int (res_status (snd (errorHandler dev rid err))))) \<and>
     (rid = None \<or> rid = Some [] \<or> (''traceId'', JStr (the rid)) \<in> set fields) \<and>
     (if is_app err then res_status (snd (errorHandler dev rid err)) = statusCode (ae_class (to_app_error err))
      else errorHandler dev rid err = errorHandler dev rid (app_err InternalError ''An unexpected error occurred''))"
proof -
  let ?e = "to_app_error err"
  define trace where "trace = (case rid of Some r \<Rightarrow> if r = [] then [] else [(''traceId'', JStr r)] | None \<Rightarrow> [])"
  have out: "res_body (snd (errorHandler dev rid err)) = JObj (error_toJSON dev ?e @ trace)"
    "res_status (snd (errorHandler dev rid err)) = statusCode (ae_class ?e)"
    by (simp_all add: errorHandler_def trace_def Let_def)
  have unknown: "errorHandler dev rid err = errorHandler dev rid (app_err InternalError ''An unexpected error occurred'')" if "\<not> is_app err"
    using that by (cases err) (simp_all add: errorHandler_def to_app_error_def app_err_def)
  have traced: "rid = None \<or> rid = Some [] \<or> (''traceId'', JStr (the rid)) \<in> set (error_toJSON dev ?e @ trace)"
    by (cases rid) (simp_all add: trace_def)
  show ?thesis unfolding out
    using error_toJSON_status [of dev ?e trace] statusCode_range [of "ae_class ?e"] traced unknown
    by (intro exI [of _ "error_toJSON dev ?e @ trace"] conjI) (simp_all del: map_of_append)
qed

section \<open>The outbox\<close>

text \<open>C26: whatever the database and the broker do during a poll, no pending event is lost, what the
  broker gains is a prefix of the pending events in their order, and what leaves the outbox is that
  prefix or nothing.\<close>

theorem outbox_loses_nothing:
  assumes "outbox_ok (pl_store p)" and "poll (KnexOutboxRepository fl) confirm opts now p = (n, q)"
  shows "outbox_ok (pl_store q) \<and>
    (\<forall>r\<in>set (outbox_pending (pl_store p)). r \<in> set (outbox_pending (pl_store q)) \<or> relay_message opts now r \<in> set (pl_broker q)) \<and>
    (\<exists>k. pl_broker q = pl_broker p @ map (relay_message opts now) (take k (outbox_pending (pl_store p))) \<and>
       (outbox_pending (pl_store q) = drop k (outbox_pending (pl_store p)) \<or> outbox_pending (pl_store q) = outbox_pending (pl_store p)))"
proof (cases "pl_running p")
  case True
  with assms have "q = p" by (simp add: poll_def)
  with assms(1) show ?thesis by (auto intro: exI [of _ 0])
next
  case False
  from assms(1) False assms(2) show ?thesis
  proof (cases rule: knex_outbox.poll_effect)
    case (polled k)
    with knex_outbox.poll_no_loss [OF assms] show ?thesis by blast
  qed
qed

definition demo_outbox_row :: "string \<Rightarrow> int \<Rightarrow> outbox_row" where
  "demo_outbox_row i t = \<lparr>xw_id = i, xw_event = \<lparr>ob_aggregateType = ''Order'', ob_aggregateId = ''o'', ob_eventType = ORDER_CREATED,
     ob_payload = JObj [], ob_metadata = None\<rparr>, xw_published = False, xw_created_at = t, xw_published_at = None\<rparr>"

definition demo_poller :: "order_db poller" where
  "demo_poller = \<lparr>pl_store = \<lparr>od_orders = [], od_items = [], od_outbox = [demo_outbox_row ''b'' 2, demo_outbox_row ''a'' 1], od_steps = []\<rparr>,
     pl_broker = [], pl_running = False, pl_timer = True\<rparr>"

definition demo_poll_options :: poller_options where
  "demo_poll_options = \<lparr>po_intervalMs = 1000, po_batchSize = 1, po_exchange = ORDER_EXCHANGE\<rparr>"

lemma demo_pending: "outbox_ok (pl_store demo_poller)" "map obr_id (outbox_pending (pl_store demo_poller)) = [''a'', ''b'']"
  by (simp_all add: outbox_ok_def outbox_pending_def demo_poller_def demo_outbox_row_def)

theorem outbox_loses_nothing_witness:
  "\<exists>n q. poll (KnexOutboxRepository \<lparr>df_find = False, df_mark = True\<rparr>) (\<lambda>_. None) demo_poll_options 3 demo_poller = (n, q) \<and>
     map am_messageId (pl_broker q) = [''a''] \<and> outbox_ok (pl_store q) \<and>
     (\<forall>r\<in>set (outbox_pending (pl_store demo_poller)).
        r \<in> set (outbox_pending (pl_store q)) \<or> relay_message demo_poll_options 3 r \<in> set (pl_broker q))"
proof -
  let ?fl = "\<lparr>df_find = False, df_mark = True\<rparr>"
  obtain n q where p: "poll (KnexOutboxRepository ?fl) (\<lambda>_. None) demo_poll_options 3 demo_poller = (n, q)" by (rule prod.exhaust)
  have "map am_messageId (pl_broker (snd (poll (KnexOutboxRepository ?fl) (\<lambda>_. None) demo_poll_options 3 demo_poller))) = [''a'']"
    by (simp add: poll_def KnexOutboxRepository_def knex_findUnpublished_def publish_all order_limit_def
        demo_poller_def demo_outbox_row_def demo_poll_options_def)
  with outbox_loses_nothing [OF demo_pending(1) p] p show ?thesis by auto
qed

text \<open>C27: once the broker and the database answer again, successive polls send every pending event,
  in the order the events were written and each exactly once, and empty the outbox.\<close>

theorem outbox_drains:
  assumes "outbox_ok (pl_store p)" and "\<not> pl_running p" and "\<And>m. confirm m = None"
    and "length (outbox_pending (pl_store p)) \<le> length nows * po_batchSize opts"
    and "q = polls (KnexOutboxRepository \<lparr>df_find = False, df_mark = False\<rparr>) confirm opts nows p"
  shows "outbox_pending (pl_store q) = [] \<and>
    map am_messageId (pl_broker q) = map am_messageId (pl_broker p) @ map obr_id (outbox_pending (pl_store p)) \<and>
    distinct (map obr_id (outbox_pending (pl_store p)))"
  using knex_reliable.polls_drain [OF assms(1,2), of confirm opts nows] assms(3,4) knex_outbox.pending_distinct [OF assms(1)]
  unfolding assms(5) by simp

theorem outbox_drains_witness:
  "map am_messageId (pl_broker (polls (KnexOutboxRepository \<lparr>df_find = False, df_mark = False\<rparr>) (\<lambda>_. None) demo_poll_options [3, 4] demo_poller)) =
     [''a'', ''b'']"
proof -
  have "\<not> pl_running demo_poller" "pl_broker demo_poller = []" by (simp_all add: demo_poller_def)
  moreover have "length (outbox_pending (pl_store demo_poller)) \<le> length [3, 4 :: int] * po_batchSize demo_poll_options"
    using arg_cong [OF demo_pending(2), of length] by (simp add: demo_poll_options_def)
  ultimately show ?thesis
    using outbox_drains [OF demo_pending(1) _ refl _ refl, where opts = demo_poll_options and nows = "[3, 4]"] demo_pending(2) by simp
qed

end
