(* ===== verification/Metrics.thy ===== *)
theory Metrics
  imports App_Error
begin

text \<open>
  The Prometheus registry of \<open>packages/shared/src/observability/metrics.ts\<close>: counters, gauges and
  histograms with label sets, and the text exposition format.  A JavaScript \<open>Map\<close> is an
  association list in insertion order: \<open>set\<close> is \<open>AList.update\<close>, which keeps the place of a known
  key.  Metric values are exact rationals; the rounding of doubles is not modelled.
\<close>

section \<open>Labels\<close>

type_synonym labels = "(string \<times> string) list"

definition label_of :: "labels \<Rightarrow> string \<Rightarrow> string" where
  "label_of labels name = (case map_of labels name of Some v \<Rightarrow> v | None \<Rightarrow> [])"

definition labelKey :: "string list \<Rightarrow> labels \<Rightarrow> string" where
  "labelKey labelNames labels = join_with '','' (map (\<lambda>name. name @ ''='' @ label_of labels name) labelNames)"

text \<open>The three characters the exposition format escapes.\<close>

definition backslash :: char where "backslash = CHR 0x5C"
definition line_feed :: char where "line_feed = CHR 0x0A"
definition quote :: char where "quote = CHR 0x22"

text \<open>\<open>s.replace(/c/g, w)\<close> for one character \<open>c\<close>.\<close>

definition replace_char :: "char \<Rightarrow> string \<Rightarrow> string \<Rightarrow> string" where
  "replace_char c w s = concat (map (\<lambda>x. if x = c then w else [x]) s)"

definition escapeLabelValue :: "string \<Rightarrow> string" where
  "escapeLabelValue v =
     replace_char quote [backslash, quote] (replace_char line_feed [backslash, CHR ''n'']
       (replace_char backslash [backslash, backslash] v))"

definition label_pair :: "string \<Rightarrow> string \<Rightarrow> string" where
  "label_pair name v = name @ ''='' @ [quote] @ escapeLabelValue v @ [quote]"

definition renderLabels :: "string list \<Rightarrow> labels \<Rightarrow> labels \<Rightarrow> string" where
  "renderLabels labelNames labels extra =
     (let pairs = map (\<lambda>name. label_pair name (label_of labels name)) labelNames
                  @ map (\<lambda>(name, v). label_pair name v) extra
      in if pairs = [] then [] else ''{'' @ join_with '','' pairs @ ''}'')"

section \<open>Metrics\<close>

record metric_base =
  mt_name :: string
  mt_help :: string
  mt_labelNames :: "string list"

definition metric_header :: "'a metric_base_scheme \<Rightarrow> string \<Rightarrow> string" where
  "metric_header m type_text =
     join_with [line_feed] [''# HELP '' @ mt_name m @ '' '' @ mt_help m, ''# TYPE '' @ mt_name m @ '' '' @ type_text]"

record series_value =
  sv_labels :: labels
  sv_value :: rat

subsection \<open>Counter\<close>

record counter = metric_base +
  ct_values :: "(string \<times> series_value) list"

definition newCounter :: "metric_base \<Rightarrow> counter" where
  "newCounter opts = metric_base.extend opts \<lparr>ct_values = []\<rparr>"

definition counter_inc :: "labels \<Rightarrow> rat \<Rightarrow> counter \<Rightarrow> js_error + counter" where
  "counter_inc labels v c =
     (if v < 0 then Inl (PlainError ''Counter can only be incremented by a non-negative amount'')
      else
        let key = labelKey (mt_labelNames c) labels in
        case map_of (ct_values c) key of
          Some e \<Rightarrow> Inr (c\<lparr>ct_values := AList.update key (e\<lparr>sv_value := sv_value e + v\<rparr>) (ct_values c)\<rparr>)
        | None \<Rightarrow> Inr (c\<lparr>ct_values := AList.update key \<lparr>sv_labels = labels, sv_value = v\<rparr> (ct_values c)\<rparr>))"

definition series_get :: "(string \<times> series_value) list \<Rightarrow> string \<Rightarrow> rat" where
  "series_get values key = (case map_of values key of Some e \<Rightarrow> sv_value e | None \<Rightarrow> 0)"

definition counter_get :: "labels \<Rightarrow> counter \<Rightarrow> rat" where
  "counter_get labels c = series_get (ct_values c) (labelKey (mt_labelNames c) labels)"

definition value_lines :: "string \<Rightarrow> string list \<Rightarrow> (string \<times> series_value) list \<Rightarrow> string list" where
  "value_lines name labelNames values =
     (if values = [] then [name @ '' 0''] else []) @
     map (\<lambda>(_, e). name @ renderLabels labelNames (sv_labels e) [] @ '' '' @ show_rat (sv_value e)) values"

definition counter_render :: "counter \<Rightarrow> string" where
  "counter_render c =
     join_with [line_feed] (metric_header c ''counter'' # value_lines (mt_name c) (mt_labelNames c) (ct_values c))"

subsection \<open>Gauge\<close>

record gauge = metric_base +
  ga_values :: "(string \<times> series_value) list"

definition newGauge :: "metric_base \<Rightarrow> gauge" where
  "newGauge opts = metric_base.extend opts \<lparr>ga_values = []\<rparr>"

definition gauge_set :: "labels \<Rightarrow> rat \<Rightarrow> gauge \<Rightarrow> gauge" where
  "gauge_set labels v g =
     g\<lparr>ga_values := AList.update (labelKey (mt_labelNames g) labels) \<lparr>sv_labels = labels, sv_value = v\<rparr> (ga_values g)\<rparr>"

definition gauge_get :: "labels \<Rightarrow> gauge \<Rightarrow> rat" where
  "gauge_get labels g = series_get (ga_values g) (labelKey (mt_labelNames g) labels)"

definition gauge_inc :: "labels \<Rightarrow> rat \<Rightarrow> gauge \<Rightarrow> gauge" where
  "gauge_inc labels v g =
     g\<lparr>ga_values := AList.update (labelKey (mt_labelNames g) labels)
        \<lparr>sv_labels = labels, sv_value = gauge_get labels g + v\<rparr> (ga_values g)\<rparr>"

definition gauge_dec :: "labels \<Rightarrow> rat \<Rightarrow> gauge \<Rightarrow> gauge" where
  "gauge_dec labels v g = gauge_inc labels (- v) g"

definition gauge_render :: "gauge \<Rightarrow> string" where
  "gauge_render g =
     join_with [line_feed] (metric_header g ''gauge'' # value_lines (mt_name g) (mt_labelNames g) (ga_values g))"

subsection \<open>Histogram\<close>

record hist_series =
  hs_labels :: labels
  hs_counts :: "nat list"
  hs_sum :: rat
  hs_count :: nat

record histogram = metric_base +
  hg_buckets :: "rat list"
  hg_series :: "(string \<times> hist_series) list"

definition DEFAULT_BUCKETS :: "rat list" where
  "DEFAULT_BUCKETS = [5/1000, 1/100, 25/1000, 5/100, 1/10, 25/100, 5/10, 1, 25/10, 5, 10]"

definition newHistogram :: "metric_base \<Rightarrow> rat list option \<Rightarrow> histogram" where
  "newHistogram opts buckets =
     metric_base.extend opts
       \<lparr>hg_buckets = sort (case buckets of Some bs \<Rightarrow> bs | None \<Rightarrow> DEFAULT_BUCKETS), hg_series = []\<rparr>"

text \<open>The counts array has one cell per bucket; the loop over the buckets bumps cell by cell.\<close>

definition bump_counts :: "rat \<Rightarrow> rat list \<Rightarrow> nat list \<Rightarrow> nat list" where
  "bump_counts v buckets counts = map2 (\<lambda>upperBound n. if v \<le> upperBound then n + 1 else n) buckets counts"

definition histogram_observe :: "labels \<Rightarrow> rat \<Rightarrow> histogram \<Rightarrow> histogram" where
  "histogram_observe labels v h =
     (let key = labelKey (mt_labelNames h) labels;
          entry = (case map_of (hg_series h) key of
                     Some e \<Rightarrow> e
                   | None \<Rightarrow> \<lparr>hs_labels = labels, hs_counts = replicate (length (hg_buckets h)) 0, hs_sum = 0, hs_count = 0\<rparr>)
      in h\<lparr>hg_series := AList.update key
            (entry\<lparr>hs_sum := hs_sum entry + v, hs_count := hs_count entry + 1,
                   hs_counts := bump_counts v (hg_buckets h) (hs_counts entry)\<rparr>) (hg_series h)\<rparr>)"

definition series_lines :: "histogram \<Rightarrow> hist_series \<Rightarrow> string list" where
  "series_lines h e =
     map2 (\<lambda>upperBound n. mt_name h @ ''_bucket'' @ renderLabels (mt_labelNames h) (hs_labels e) [(''le'', show_rat upperBound)]
             @ '' '' @ show_nat n) (hg_buckets h) (hs_counts e)
     @ [mt_name h @ ''_bucket'' @ renderLabels (mt_labelNames h) (hs_labels e) [(''le'', ''+Inf'')] @ '' '' @ show_nat (hs_count e),
        mt_name h @ ''_sum'' @ renderLabels (mt_labelNames h) (hs_labels e) [] @ '' '' @ show_rat (hs_sum e),
        mt_name h @ ''_count'' @ renderLabels (mt_labelNames h) (hs_labels e) [] @ '' '' @ show_nat (hs_count e)]"

definition histogram_render :: "histogram \<Rightarrow> string" where
  "histogram_render h =
     join_with [line_feed] (metric_header h ''histogram'' # concat (map (\<lambda>(_, e). series_lines h e) (hg_series h)))"

section \<open>Registry\<close>

text \<open>
  Metrics are shared objects: the registry maps names to references, the modules that asked for a
  metric keep its reference, and both see its updates.  \<open>clear\<close> forgets the names, not the objects.
\<close>

datatype metric = MCounter counter | MGauge gauge | MHistogram histogram

record registry =
  rg_heap :: "metric list"
  rg_names :: "(string \<times> nat) list"

definition registry_empty :: registry where
  "registry_empty = \<lparr>rg_heap = [], rg_names = []\<rparr>"

fun is_counter :: "metric \<Rightarrow> bool" where
  "is_counter (MCounter _) = True" | "is_counter _ = False"

fun is_gauge :: "metric \<Rightarrow> bool" where
  "is_gauge (MGauge _) = True" | "is_gauge _ = False"

fun is_histogram :: "metric \<Rightarrow> bool" where
  "is_histogram (MHistogram _) = True" | "is_histogram _ = False"

definition getOrCreate :: "string \<Rightarrow> metric \<Rightarrow> (metric \<Rightarrow> bool) \<Rightarrow> registry \<Rightarrow> js_error + nat \<times> registry" where
  "getOrCreate name fresh ctor r =
     (case map_of (rg_names r) name of
        Some ref \<Rightarrow>
          if \<not> ctor (rg_heap r ! ref)
          then Inl (PlainError (''Metric '' @ [quote] @ name @ [quote] @ '' already registered with a different type''))
          else Inr (ref, r)
      | None \<Rightarrow> Inr (length (rg_heap r),
          r\<lparr>rg_heap := rg_heap r @ [fresh], rg_names := AList.update name (length (rg_heap r)) (rg_names r)\<rparr>))"

definition registry_counter :: "metric_base \<Rightarrow> registry \<Rightarrow> js_error + nat \<times> registry" where
  "registry_counter opts = getOrCreate (mt_name opts) (MCounter (newCounter opts)) is_counter"

definition registry_gauge :: "metric_base \<Rightarrow> registry \<Rightarrow> js_error + nat \<times> registry" where
  "registry_gauge opts = getOrCreate (mt_name opts) (MGauge (newGauge opts)) is_gauge"

definition registry_histogram :: "metric_base \<Rightarrow> rat list option \<Rightarrow> registry \<Rightarrow> js_error + nat \<times> registry" where
  "registry_histogram opts buckets = getOrCreate (mt_name opts) (MHistogram (newHistogram opts buckets)) is_histogram"

fun metric_render :: "metric \<Rightarrow> string" where
  "metric_render (MCounter c) = counter_render c"
| "metric_render (MGauge g) = gauge_render g"
| "metric_render (MHistogram h) = histogram_render h"

definition registry_render :: "registry \<Rightarrow> string" where
  "registry_render r =
     join_with [line_feed, line_feed] (map (\<lambda>(_, ref). metric_render (rg_heap r ! ref)) (rg_names r)) @ [line_feed]"

definition registry_clear :: "registry \<Rightarrow> registry" where
  "registry_clear r = r\<lparr>rg_names := []\<rparr>"

section \<open>Series keys\<close>

lemma split_join:
  "ws \<noteq> [] \<Longrightarrow> (\<And>w. w \<in> set ws \<Longrightarrow> sep \<notin> set w) \<Longrightarrow> split_on sep (join_with [sep] ws) = ws"
proof (induction ws)
  case (Cons w ws)
  then show ?case
    by (cases ws) (auto simp: join_with_def split_on_no_sep split_on_append_sep)
qed simp

text \<open>Label sets without commas have one series each.\<close>

lemma labelKey_inject:
  assumes "\<And>n. n \<in> set names \<Longrightarrow> CHR '','' \<notin> set n"
    and "\<And>n. n \<in> set names \<Longrightarrow> CHR '','' \<notin> set (label_of l n) \<and> CHR '','' \<notin> set (label_of l' n)"
  shows "labelKey names l = labelKey names l' \<longleftrightarrow> (\<forall>n\<in>set names. label_of l n = label_of l' n)"
proof (cases "names = []")
  case False
  let ?f = "\<lambda>l. map (\<lambda>name. name @ ''='' @ label_of l name) names"
  have "split_on (CHR '','') (labelKey names k) = ?f k" if "k = l \<or> k = l'" for k
    unfolding labelKey_def using False assms that by (intro split_join) auto
  then have "labelKey names l = labelKey names l' \<longleftrightarrow> ?f l = ?f l'"
    by (metis labelKey_def)
  then show ?thesis by simp
qed (simp add: labelKey_def)

text \<open>With commas two different label sets can share a series.\<close>

lemma labelKey_collision:
  "labelKey [''a'', ''b''] [(''a'', ''1,b=2''), (''b'', [])] = labelKey [''a'', ''b''] [(''a'', ''1''), (''b'', ''2,b='')]"
  by code_simp

section \<open>Reading what the registry prints\<close>

text \<open>What a scraper does with a quoted label value: read up to the closing quote and undo the
  escapes; the result is the value and what follows the quote.\<close>

definition unescape_char :: "char \<Rightarrow> char" where
  "unescape_char c = (if c = CHR ''n'' then line_feed else c)"

fun read_value :: "string \<Rightarrow> (string \<times> string) option" where
  "read_value [] = None"
| "read_value [c] = (if c = quote then Some ([], []) else None)"
| "read_value (c # d # cs) =
     (if c = quote then Some ([], d # cs)
      else if c = backslash then map_option (\<lambda>(v, rest). (unescape_char d # v, rest)) (read_value cs)
      else map_option (\<lambda>(v, rest). (c # v, rest)) (read_value (d # cs)))"

definition escape_char :: "char \<Rightarrow> string" where
  "escape_char c =
     (if c = backslash then [backslash, backslash] else if c = line_feed then [backslash, CHR ''n'']
      else if c = quote then [backslash, quote] else [c])"

lemma special_chars [simp]:
  "backslash \<noteq> line_feed" "line_feed \<noteq> backslash" "backslash \<noteq> quote" "quote \<noteq> backslash"
  "quote \<noteq> line_feed" "line_feed \<noteq> quote" "CHR ''n'' \<noteq> quote" "CHR ''n'' \<noteq> backslash" "CHR ''n'' \<noteq> line_feed"
  "quote \<noteq> CHR ''n''" "backslash \<noteq> CHR ''n''" "line_feed \<noteq> CHR ''n''"
  by (simp_all add: backslash_def line_feed_def quote_def)

lemma replace_char_append: "replace_char c w (s @ t) = replace_char c w s @ replace_char c w t"
  by (simp add: replace_char_def)

text \<open>The three passes escape each character by itself.\<close>

lemma escapeLabelValue_chars: "escapeLabelValue v = concat (map escape_char v)"
proof (induction v)
  case Nil
  then show ?case by (simp add: escapeLabelValue_def replace_char_def)
next
  case (Cons c v)
  have one: "escapeLabelValue [c] = escape_char c"
    by (auto simp: escapeLabelValue_def replace_char_def escape_char_def)
  have "escapeLabelValue ([c] @ v) = escapeLabelValue [c] @ escapeLabelValue v"
    by (simp only: escapeLabelValue_def replace_char_append)
  with Cons one show ?case by simp
qed

lemma read_value_plain: "c \<noteq> quote \<Longrightarrow> c \<noteq> backslash \<Longrightarrow>
    read_value (c # cs) = map_option (\<lambda>(v, rest). (c # v, rest)) (read_value cs)"
  by (cases cs) auto

lemma read_value_quote: "read_value (quote # cs) = Some ([], cs)"
  by (cases cs) auto

lemma read_value_escape: "read_value (escapeLabelValue v @ quote # rest) = Some (v, rest)"
proof (induction v)
  case Nil
  then show ?case by (simp add: escapeLabelValue_chars read_value_quote)
next
  case (Cons c v)
  then show ?case
    by (auto simp: escapeLabelValue_chars escape_char_def unescape_char_def read_value_plain)
qed

lemma escaped_one_line: "line_feed \<notin> set (escapeLabelValue v)"
  by (auto simp: escapeLabelValue_chars escape_char_def split: if_splits)

text \<open>A rendered label set determines the values of its labels.\<close>

lemma label_pair_inject:
  "label_pair n v @ rest = label_pair n v' @ rest' \<longleftrightarrow> v = v' \<and> rest = rest'"
proof
  assume "label_pair n v @ rest = label_pair n v' @ rest'"
  then have "escapeLabelValue v @ quote # rest = escapeLabelValue v' @ quote # rest'" by (simp add: label_pair_def)
  from arg_cong [OF this, of read_value] show "v = v' \<and> rest = rest'" by (simp add: read_value_escape)
qed simp

lemma join_pairs_inject:
  "join_with '','' (map (\<lambda>n. label_pair n (f n)) names) @ rest = join_with '','' (map (\<lambda>n. label_pair n (g n)) names) @ rest' \<longleftrightarrow>
     (\<forall>n\<in>set names. f n = g n) \<and> rest = rest'"
proof -
  have tail: "concat (map (\<lambda>n. '','' @ label_pair n (f n)) ns) @ rest = concat (map (\<lambda>n. '','' @ label_pair n (g n)) ns) @ rest' \<longleftrightarrow>
      (\<forall>n\<in>set ns. f n = g n) \<and> rest = rest'" for ns
  proof (induction ns)
    case (Cons n ns)
    then show ?case by (simp add: label_pair_inject)
  qed simp
  show ?thesis
  proof (cases names)
    case (Cons n ns)
    then show ?thesis using tail [of ns] by (simp add: join_with_def comp_def label_pair_inject)
  qed (simp add: join_with_def)
qed

lemma renderLabels_inject:
  "renderLabels names l [] = renderLabels names l' [] \<longleftrightarrow> (\<forall>n\<in>set names. label_of l n = label_of l' n)"
  using join_pairs_inject [of "label_of l" names "''}''" "label_of l'" "''}''"]
  by (auto simp: renderLabels_def Let_def)

section \<open>Counters and gauges\<close>

lemma series_get_update: "series_get (AList.update k e vs) k' = (if k' = k then sv_value e else series_get vs k')"
  by (simp add: series_get_def update_conv')

lemma series_get_known: "map_of vs k = Some e \<Longrightarrow> series_get vs k = sv_value e"
  and series_get_unknown: "map_of vs k = None \<Longrightarrow> series_get vs k = 0"
  by (simp_all add: series_get_def)

lemma counter_inc_get:
  "counter_inc labels v c = Inr c' \<Longrightarrow>
     0 \<le> v \<and> metric_base.truncate c' = metric_base.truncate c \<and>
     counter_get l c' = counter_get l c + (if labelKey (mt_labelNames c) l = labelKey (mt_labelNames c) labels then v else 0)"
  by (auto simp: counter_inc_def counter_get_def series_get_update series_get_known series_get_unknown
      metric_base.truncate_def Let_def split: if_splits option.splits)

lemma gauge_inc_get:
  "gauge_get l (gauge_inc labels v g) =
     gauge_get l g + (if labelKey (mt_labelNames g) l = labelKey (mt_labelNames g) labels then v else 0)"
  by (auto simp: gauge_inc_def gauge_get_def series_get_update)

lemma gauge_dec_inc: "gauge_get l (gauge_dec labels v (gauge_inc labels v g)) = gauge_get l g"
  by (simp add: gauge_dec_def gauge_inc_get) (simp add: gauge_inc_def)

section \<open>Histograms\<close>

text \<open>
  The reference: the values observed for a series, how many of them lie below each bound, their
  sum and their number.
\<close>

definition seen :: "string list \<Rightarrow> (labels \<times> rat) list \<Rightarrow> string \<Rightarrow> rat list" where
  "seen names obs key = map snd (filter (\<lambda>(l, v). labelKey names l = key) obs)"

definition below :: "rat \<Rightarrow> rat list \<Rightarrow> nat" where
  "below bound vs = length (filter (\<lambda>v. v \<le> bound) vs)"

definition summarises :: "rat list \<Rightarrow> rat list \<Rightarrow> hist_series option \<Rightarrow> bool" where
  "summarises bs vs entry =
     (case entry of
        None \<Rightarrow> vs = []
      | Some e \<Rightarrow> vs \<noteq> [] \<and> hs_counts e = map (\<lambda>b. below b vs) bs \<and> hs_sum e = sum_list vs \<and> hs_count e = length vs)"

definition hist_represents :: "histogram \<Rightarrow> (labels \<times> rat) list \<Rightarrow> bool" where
  "hist_represents h obs \<longleftrightarrow>
     (\<forall>key. summarises (hg_buckets h) (seen (mt_labelNames h) obs key) (map_of (hg_series h) key))"

definition observe_all :: "(labels \<times> rat) list \<Rightarrow> histogram \<Rightarrow> histogram" where
  "observe_all obs h = foldl (\<lambda>h (l, v). histogram_observe l v h) h obs"

lemma seen_snoc:
  "seen names (obs @ [(l, v)]) key = seen names obs key @ (if labelKey names l = key then [v] else [])"
  by (simp add: seen_def)

lemma below_snoc: "below b (vs @ [v]) = below b vs + (if v \<le> b then 1 else 0)"
  by (simp add: below_def)

lemma bump_counts_map: "bump_counts v bs (map f bs) = map (\<lambda>b. if v \<le> b then f b + 1 else f b) bs"
  by (induction bs) (simp_all add: bump_counts_def)

lemma bump_counts_fresh: "bump_counts v bs (replicate (length bs) 0) = map (\<lambda>b. below b [v]) bs"
  by (induction bs) (simp_all add: bump_counts_def below_def)

lemma observe_frame [simp]:
  "mt_labelNames (histogram_observe l v h) = mt_labelNames h" "hg_buckets (histogram_observe l v h) = hg_buckets h"
  "mt_name (histogram_observe l v h) = mt_name h"
  by (simp_all add: histogram_observe_def Let_def)

lemma observe_represents:
  assumes "hist_represents h obs"
  shows "hist_represents (histogram_observe l v h) (obs @ [(l, v)])"
proof -
  let ?key = "labelKey (mt_labelNames h) l" let ?vs = "seen (mt_labelNames h) obs ?key"
  have "summarises (hg_buckets h) ?vs (map_of (hg_series h) ?key)"
    using assms by (simp add: hist_represents_def)
  then have entry: "summarises (hg_buckets h) (?vs @ [v]) (map_of (hg_series (histogram_observe l v h)) ?key)"
    by (cases "map_of (hg_series h) ?key")
      (auto simp: summarises_def histogram_observe_def Let_def update_conv' bump_counts_map bump_counts_fresh below_snoc)
  have other: "map_of (hg_series (histogram_observe l v h)) key = map_of (hg_series h) key" if "key \<noteq> ?key" for key
    using that by (simp add: histogram_observe_def Let_def update_conv')
  show ?thesis
    using assms entry other by (simp add: hist_represents_def seen_snoc)
qed

lemma observe_all_frame [simp]:
  "mt_labelNames (observe_all obs h) = mt_labelNames h" "hg_buckets (observe_all obs h) = hg_buckets h"
  by (induction obs rule: rev_induct) (auto simp: observe_all_def)

lemma newHistogram_represents: "hist_represents (newHistogram opts bs) []"
  by (simp add: hist_represents_def summarises_def newHistogram_def seen_def metric_base.extend_def)

lemma observe_all_represents: "hist_represents (observe_all obs (newHistogram opts bs)) obs"
proof (induction obs rule: rev_induct)
  case Nil
  then show ?case by (simp add: observe_all_def newHistogram_represents)
next
  case (snoc x obs)
  from observe_represents [OF snoc, of "fst x" "snd x"] show ?case
    by (cases x) (simp add: observe_all_def)
qed

text \<open>Cumulative buckets: the counts never fall from a bound to the next, and never exceed the
  number of observations.\<close>

lemma below_mono: "b \<le> b' \<Longrightarrow> below b vs \<le> below b' vs"
  by (induction vs) (auto simp: below_def)

lemma below_le: "below b vs \<le> length vs"
  by (simp add: below_def)

lemma below_sorted: "sorted bs \<Longrightarrow> sorted (map (\<lambda>b. below b vs) bs)"
  by (auto simp: sorted_wrt_map intro: sorted_wrt_mono_rel [of _ "(\<le>)"] below_mono)

section \<open>The registry\<close>

fun metric_name :: "metric \<Rightarrow> string" where
  "metric_name (MCounter c) = mt_name c"
| "metric_name (MGauge g) = mt_name g"
| "metric_name (MHistogram h) = mt_name h"

definition registry_ok :: "registry \<Rightarrow> bool" where
  "registry_ok r \<longleftrightarrow> distinct (map fst (rg_names r)) \<and> distinct (map snd (rg_names r)) \<and>
     (\<forall>(name, ref)\<in>set (rg_names r). ref < length (rg_heap r) \<and> metric_name (rg_heap r ! ref) = name)"

lemma registry_empty_ok: "registry_ok registry_empty"
  by (simp add: registry_ok_def registry_empty_def)

lemma getOrCreate_known:
  "map_of (rg_names r) name = Some ref \<Longrightarrow>
   getOrCreate name fresh ctor r =
     (if ctor (rg_heap r ! ref) then Inr (ref, r)
      else Inl (PlainError (''Metric '' @ [quote] @ name @ [quote] @ '' already registered with a different type'')))"
  by (simp add: getOrCreate_def)

lemma getOrCreate_ok:
  assumes "registry_ok r" and "metric_name fresh = name" and "ctor fresh" and "getOrCreate name fresh ctor r = Inr (ref, r')"
  shows "registry_ok r'" and "ref < length (rg_heap r')" and "map_of (rg_names r') name = Some ref"
    and "ctor (rg_heap r' ! ref)" and "\<exists>new. rg_heap r' = rg_heap r @ new" and "metric_name (rg_heap r' ! ref) = name"
    and "\<And>n i. map_of (rg_names r) n = Some i \<Longrightarrow> map_of (rg_names r') n = Some i"
proof -
  have "registry_ok r' \<and> ref < length (rg_heap r') \<and> map_of (rg_names r') name = Some ref \<and>
    ctor (rg_heap r' ! ref) \<and> (\<exists>new. rg_heap r' = rg_heap r @ new) \<and> metric_name (rg_heap r' ! ref) = name \<and>
    (\<forall>n i. map_of (rg_names r) n = Some i \<longrightarrow> map_of (rg_names r') n = Some i)"
  proof (cases "map_of (rg_names r) name")
    case None
    then have r': "ref = length (rg_heap r)" "r' = r\<lparr>rg_heap := rg_heap r @ [fresh], rg_names := rg_names r @ [(name, ref)]\<rparr>"
      using assms(4) by (auto simp: getOrCreate_def update_new)
    have "name \<notin> fst ` set (rg_names r)" using None by (simp add: map_of_eq_None_iff)
    with r' None assms(1-3) show ?thesis
      by (auto simp: registry_ok_def nth_append map_add_Some_iff)
  next
    case (Some i)
    with assms(4) have "ref = i" "r' = r" "ctor (rg_heap r ! i)" by (auto simp: getOrCreate_known split: if_splits)
    with Some assms(1) show ?thesis by (auto simp: registry_ok_def dest!: map_of_SomeD)
  qed
  then show "registry_ok r'" and "ref < length (rg_heap r')" and "map_of (rg_names r') name = Some ref"
    and "ctor (rg_heap r' ! ref)" and "\<exists>new. rg_heap r' = rg_heap r @ new" and "metric_name (rg_heap r' ! ref) = name"
    and "\<And>n i. map_of (rg_names r) n = Some i \<Longrightarrow> map_of (rg_names r') n = Some i"
    by blast+
qed

end
