(* ===== verification/Http_Metrics.thy ===== *)
theory Http_Metrics
  imports Metrics
begin

text \<open>
  The RED metrics middleware of \<open>packages/shared/src/middleware/httpMetrics.ts\<close>: the three metrics
  it takes from a registry, what it does when a request arrives, when its response is finished and
  when its connection closes, and the interleaved life of many requests.  Instants are nanoseconds
  of \<open>process.hrtime.bigint()\<close>.
\<close>

definition HTTP_REQUESTS_TOTAL :: string where "HTTP_REQUESTS_TOTAL = ''http_requests_total''"
definition HTTP_REQUEST_DURATION_SECONDS :: string where "HTTP_REQUEST_DURATION_SECONDS = ''http_request_duration_seconds''"
definition HTTP_ACTIVE_REQUESTS :: string where "HTTP_ACTIVE_REQUESTS = ''http_active_requests''"

lemmas http_metric_names = HTTP_REQUESTS_TOTAL_def HTTP_REQUEST_DURATION_SECONDS_def HTTP_ACTIVE_REQUESTS_def

record http_metrics_options =
  ho_buckets :: "rat list option"
  ho_ignorePaths :: "string list option"

text \<open>What the returned handler closes over.\<close>

record http_metrics =
  hm_ignore :: "string list"
  hm_duration :: nat
  hm_total :: nat
  hm_active :: nat

definition httpMetricsMiddleware :: "http_metrics_options \<Rightarrow> registry \<Rightarrow> js_error + http_metrics \<times> registry" where
  "httpMetricsMiddleware opts r0 =
     (let ignore = (case ho_ignorePaths opts of Some ps \<Rightarrow> ps | None \<Rightarrow> [''/metrics'', ''/health/live'', ''/health/ready'']) in
      res_bind (registry_histogram \<lparr>mt_name = HTTP_REQUEST_DURATION_SECONDS, mt_help = ''HTTP request latency in seconds'',
          mt_labelNames = [''method'', ''route'', ''status'']\<rparr> (ho_buckets opts) r0) (\<lambda>(duration, r1).
      res_bind (registry_counter \<lparr>mt_name = HTTP_REQUESTS_TOTAL, mt_help = ''Total number of HTTP requests'',
          mt_labelNames = [''method'', ''route'', ''status'']\<rparr> r1) (\<lambda>(requests, r2).
      res_bind (registry_gauge \<lparr>mt_name = HTTP_ACTIVE_REQUESTS, mt_help = ''Number of HTTP requests currently being processed'',
          mt_labelNames = []\<rparr> r2) (\<lambda>(active, r3).
      Inr (\<lparr>hm_ignore = ignore, hm_duration = duration, hm_total = requests, hm_active = active\<rparr>, r3)))))"

text \<open>Updates of a metric through its reference.\<close>

definition inc_active :: "nat \<Rightarrow> rat \<Rightarrow> registry \<Rightarrow> registry" where
  "inc_active ref v r =
     (case rg_heap r ! ref of MGauge g \<Rightarrow> r\<lparr>rg_heap := (rg_heap r)[ref := MGauge (gauge_inc [] v g)]\<rparr> | _ \<Rightarrow> r)"

definition observe_in :: "nat \<Rightarrow> labels \<Rightarrow> rat \<Rightarrow> registry \<Rightarrow> registry" where
  "observe_in ref labels v r =
     (case rg_heap r ! ref of
        MHistogram h \<Rightarrow> r\<lparr>rg_heap := (rg_heap r)[ref := MHistogram (histogram_observe labels v h)]\<rparr> | _ \<Rightarrow> r)"

definition inc_in :: "nat \<Rightarrow> labels \<Rightarrow> registry \<Rightarrow> registry" where
  "inc_in ref labels r =
     (case rg_heap r ! ref of
        MCounter c \<Rightarrow> (case counter_inc labels 1 c of Inr c' \<Rightarrow> r\<lparr>rg_heap := (rg_heap r)[ref := MCounter c']\<rparr> | Inl _ \<Rightarrow> r)
      | _ \<Rightarrow> r)"

text \<open>The variables of one request's closure.\<close>

record tracked =
  tk_start :: int
  tk_settled :: bool

text \<open>A request arrives: \<open>None\<close> when its path is ignored.\<close>

definition on_request :: "http_metrics \<Rightarrow> string \<Rightarrow> int \<Rightarrow> registry \<Rightarrow> tracked option \<times> registry" where
  "on_request mw path now r =
     (if path \<in> set (hm_ignore mw) then (None, r)
      else (Some \<lparr>tk_start = now, tk_settled = False\<rparr>, inc_active (hm_active mw) 1 r))"

definition resolveRoute :: "string \<Rightarrow> string option \<Rightarrow> string" where
  "resolveRoute baseUrl route_path =
     (case route_path of Some p \<Rightarrow> if p = [] then ''unmatched'' else baseUrl @ p | None \<Rightarrow> ''unmatched'')"

record finished =
  fn_method :: string
  fn_baseUrl :: string
  fn_route :: "string option"
  fn_status :: int

definition finish_labels :: "finished \<Rightarrow> labels" where
  "finish_labels res =
     [(''method'', fn_method res), (''route'', resolveRoute (fn_baseUrl res) (fn_route res)), (''status'', show_int (fn_status res))]"

definition onFinish :: "http_metrics \<Rightarrow> finished \<Rightarrow> int \<Rightarrow> tracked \<Rightarrow> registry \<Rightarrow> tracked \<times> registry" where
  "onFinish mw res now tk r =
     (if tk_settled tk then (tk, r)
      else
        let elapsedSeconds = of_int (now - tk_start tk) / 10 ^ 9;
            labels = finish_labels res
        in (tk\<lparr>tk_settled := True\<rparr>,
            inc_active (hm_active mw) (- 1) (inc_in (hm_total mw) labels (observe_in (hm_duration mw) labels elapsedSeconds r))))"

definition onClose :: "http_metrics \<Rightarrow> tracked \<Rightarrow> registry \<Rightarrow> tracked \<times> registry" where
  "onClose mw tk r =
     (if tk_settled tk then (tk, r) else (tk\<lparr>tk_settled := True\<rparr>, inc_active (hm_active mw) (- 1) r))"

section \<open>Many requests\<close>

text \<open>The events of a server's life; a request is named by its place in the order of arrival.\<close>

datatype http_event =
    Arrives string int            \<comment> \<open>path, instant\<close>
  | Finishes nat finished int     \<comment> \<open>request, response, instant\<close>
  | Closes nat

fun http_event_step :: "http_metrics \<Rightarrow> http_event \<Rightarrow> registry \<times> tracked list \<Rightarrow> registry \<times> tracked list" where
  "http_event_step mw (Arrives path now) (r, tks) =
     (case on_request mw path now r of (None, r') \<Rightarrow> (r', tks) | (Some tk, r') \<Rightarrow> (r', tks @ [tk]))"
| "http_event_step mw (Finishes i res now) (r, tks) =
     (if i < length tks then (case onFinish mw res now (tks ! i) r of (tk, r') \<Rightarrow> (r', tks[i := tk])) else (r, tks))"
| "http_event_step mw (Closes i) (r, tks) =
     (if i < length tks then (case onClose mw (tks ! i) r of (tk, r') \<Rightarrow> (r', tks[i := tk])) else (r, tks))"

definition http_run :: "http_metrics \<Rightarrow> http_event list \<Rightarrow> registry \<times> tracked list \<Rightarrow> registry \<times> tracked list" where
  "http_run mw evs st = foldl (\<lambda>st ev. http_event_step mw ev st) st evs"

text \<open>The requests that are still open.\<close>

definition in_flight :: "tracked list \<Rightarrow> nat" where
  "in_flight tks = length (filter (\<lambda>tk. \<not> tk_settled tk) tks)"

definition hist_count_of :: "histogram \<Rightarrow> string \<Rightarrow> nat" where
  "hist_count_of h key = (case map_of (hg_series h) key of None \<Rightarrow> 0 | Some e \<Rightarrow> hs_count e)"

text \<open>What the three metrics say: the gauge counts the open requests, and for every label set the
  counter has the value the histogram counts.\<close>

definition http_metrics_ok :: "http_metrics \<Rightarrow> registry \<times> tracked list \<Rightarrow> bool" where
  "http_metrics_ok mw st \<longleftrightarrow>
     (\<exists>h c g. hm_duration mw < length (rg_heap (fst st)) \<and> rg_heap (fst st) ! hm_duration mw = MHistogram h \<and>
        hm_total mw < length (rg_heap (fst st)) \<and> rg_heap (fst st) ! hm_total mw = MCounter c \<and>
        hm_active mw < length (rg_heap (fst st)) \<and> rg_heap (fst st) ! hm_active mw = MGauge g \<and>
        mt_labelNames c = mt_labelNames h \<and> gauge_get [] g = of_nat (in_flight (snd st)) \<and>
        (\<forall>key. series_get (ct_values c) key = of_nat (hist_count_of h key)))"

lemma in_flight_append: "in_flight (tks @ [tk]) = in_flight tks + (if tk_settled tk then 0 else 1)"
  by (simp add: in_flight_def)

lemma in_flight_settle:
  "i < length tks \<Longrightarrow> \<not> tk_settled (tks ! i) \<Longrightarrow> tk_settled tk \<Longrightarrow> in_flight tks = Suc (in_flight (tks[i := tk]))"
proof (induction tks arbitrary: i)
  case (Cons a tks)
  then show ?case by (cases i) (auto simp: in_flight_def)
qed simp

lemma counter_inc_one: "\<exists>c'. counter_inc l 1 c = Inr c'"
  by (simp add: counter_inc_def Let_def split: option.split)

lemma counter_inc_series:
  "counter_inc l v c = Inr c' \<Longrightarrow>
     mt_labelNames c' = mt_labelNames c \<and>
     series_get (ct_values c') key = series_get (ct_values c) key + (if key = labelKey (mt_labelNames c) l then v else 0)"
  by (auto simp: counter_inc_def series_get_update series_get_known series_get_unknown Let_def split: if_splits option.splits)

lemma observe_count:
  "hist_count_of (histogram_observe l v h) key = hist_count_of h key + (if key = labelKey (mt_labelNames h) l then 1 else 0)"
  by (auto simp: hist_count_of_def histogram_observe_def Let_def update_conv' split: option.splits)

lemma http_step_ok:
  assumes "http_metrics_ok mw st"
  shows "http_metrics_ok mw (http_event_step mw ev st)"
proof -
  obtain r tks where st: "st = (r, tks)" by fastforce
  from assms obtain h c g where m:
    "hm_duration mw < length (rg_heap r)" "rg_heap r ! hm_duration mw = MHistogram h"
    "hm_total mw < length (rg_heap r)" "rg_heap r ! hm_total mw = MCounter c"
    "hm_active mw < length (rg_heap r)" "rg_heap r ! hm_active mw = MGauge g"
    "mt_labelNames c = mt_labelNames h" "gauge_get [] g = of_nat (in_flight tks)"
    "\<And>key. series_get (ct_values c) key = of_nat (hist_count_of h key)"
    by (auto simp: http_metrics_ok_def st)
  from m(2,4,6) have ne: "hm_duration mw \<noteq> hm_total mw" "hm_duration mw \<noteq> hm_active mw" "hm_total mw \<noteq> hm_active mw" by auto
  show ?thesis
  proof (cases ev)
    case (Arrives path now)
    then show ?thesis using m ne
      by (auto simp: http_metrics_ok_def st on_request_def inc_active_def gauge_inc_get in_flight_append)
  next
    case (Finishes i res now)
    obtain c' where c': "counter_inc (finish_labels res) 1 c = Inr c'" using counter_inc_one by blast
    show ?thesis
    proof (cases "i < length tks \<and> \<not> tk_settled (tks ! i)")
      case True
      with in_flight_settle [of i tks "(tks ! i)\<lparr>tk_settled := True\<rparr>"] m ne c' counter_inc_series [OF c'] Finishes show ?thesis
        by (auto simp: http_metrics_ok_def st onFinish_def Let_def inc_active_def inc_in_def observe_in_def gauge_inc_get
            observe_count nth_list_update)
    next
      case False
      then show ?thesis using assms by (auto simp: Finishes st onFinish_def)
    qed
  next
    case (Closes i)
    show ?thesis
    proof (cases "i < length tks \<and> \<not> tk_settled (tks ! i)")
      case True
      with in_flight_settle [of i tks "(tks ! i)\<lparr>tk_settled := True\<rparr>"] m ne Closes show ?thesis
        by (auto simp: http_metrics_ok_def st onClose_def Let_def inc_active_def gauge_inc_get)
    next
      case False
      then show ?thesis using assms by (auto simp: Closes st onClose_def)
    qed
  qed
qed

lemma http_run_ok: "http_metrics_ok mw st \<Longrightarrow> http_metrics_ok mw (http_run mw evs st)"
  by (induction evs arbitrary: st) (simp_all add: http_run_def http_step_ok)

lemma http_metrics_fresh:
  "\<exists>mw r. httpMetricsMiddleware opts registry_empty = Inr (mw, r) \<and> http_metrics_ok mw (r, [])"
  by (simp add: httpMetricsMiddleware_def registry_histogram_def registry_counter_def registry_gauge_def getOrCreate_def
      registry_empty_def res_bind_def http_metrics_ok_def hist_count_of_def newHistogram_def newCounter_def newGauge_def in_flight_def
      gauge_get_def series_get_def http_metric_names metric_base.extend_def Let_def)

end
