(* ===== verification/Observability_Properties.thy ===== *)
theory Observability_Properties
  imports Http_Metrics
begin

text \<open>
  What holds of the metrics: a histogram counts exactly what was observed, the exposition text can
  be read back, and the HTTP metrics stay consistent however requests interleave.
\<close>

section \<open>Histograms\<close>



text \<open>Three requests, two of them of one route.\<close>

definition seen_requests :: "(labels \<times> rat) list" where
  "seen_requests = [([(''route'', ''/a'')], 1 / 2), ([(''route'', ''/b'')], 7), ([(''route'', ''/a'')], 3)]"


section \<open>Exposition\<close>

text \<open>The exposition text can be read back.  A scraper that reads a rendered label value up to
  its closing quote and undoes the escapes gets the value and the rest of the line; no value breaks
  a line; and two label sets are rendered alike exactly when they give the same values to the
  declared labels.\<close>

theorem labels_read_back:
  "read_value (escapeLabelValue v @ quote # rest) = Some (v, rest) \<and>
   line_feed \<notin> set (escapeLabelValue v) \<and>
   (renderLabels names l [] = renderLabels names l' [] \<longleftrightarrow> map (label_of l) names = map (label_of l') names)"
  by (simp add: read_value_escape escaped_one_line renderLabels_inject)

section \<open>HTTP metrics\<close>

text \<open>C38: the HTTP metrics are consistent.  However requests arrive, finish and close, in any order
  and any number of times, the active gauge is the number of tracked requests not yet settled, and
  for every label set the request counter has the value the duration histogram counts.\<close>

theorem http_metrics_consistent:
  assumes "httpMetricsMiddleware opts registry_empty = Inr (mw, r)" and "http_run mw evs (r, []) = (r', tks)"
  shows "\<exists>h c g. rg_heap r' ! hm_duration mw = MHistogram h \<and> rg_heap r' ! hm_total mw = MCounter c \<and>
    rg_heap r' ! hm_active mw = MGauge g \<and>
    gauge_get [] g = of_nat (length (filter (\<lambda>tk. \<not> tk_settled tk) tks)) \<and>
    (\<forall>l. counter_get l c = (case map_of (hg_series h) (labelKey (mt_labelNames h) l) of None \<Rightarrow> 0 | Some e \<Rightarrow> of_nat (hs_count e)))"
proof -
  have "http_metrics_ok mw (http_run mw evs (r, []))"
    using http_metrics_fresh [of opts] assms(1) by (intro http_run_ok) auto
  then show ?thesis
    unfolding assms(2) http_metrics_ok_def in_flight_def hist_count_of_def counter_get_def
    by (auto split: option.split)
qed

text \<open>Two requests; the first finishes, then closes.\<close>

theorem http_metrics_consistent_witness:
  "\<exists>mw r r' tks g. httpMetricsMiddleware \<lparr>ho_buckets = None, ho_ignorePaths = None\<rparr> registry_empty = Inr (mw, r) \<and>
     http_run mw [Arrives ''/a'' 5, Arrives ''/b'' 6, Finishes 0 \<lparr>fn_method = ''GET'', fn_baseUrl = [], fn_route = None, fn_status = 200\<rparr> 9,
       Closes 0, Arrives ''/metrics'' 9] (r, []) = (r', tks) \<and>
     length tks = 2 \<and> rg_heap r' ! hm_active mw = MGauge g \<and> gauge_get [] g = 1"
proof -
  let ?opts = "\<lparr>ho_buckets = None, ho_ignorePaths = None\<rparr>"
  let ?evs = "[Arrives ''/a'' 5, Arrives ''/b'' 6, Finishes 0 \<lparr>fn_method = ''GET'', fn_baseUrl = [], fn_route = None, fn_status = 200\<rparr> 9,
       Closes 0, Arrives ''/metrics'' 9]"
  obtain mw r where m: "httpMetricsMiddleware ?opts registry_empty = Inr (mw, r)" using http_metrics_fresh by blast
  then have ig: "hm_ignore mw = [''/metrics'', ''/health/live'', ''/health/ready'']"
    by (auto simp: httpMetricsMiddleware_def res_bind_def Let_def split: sum.splits)
  obtain r' tks where run: "http_run mw ?evs (r, []) = (r', tks)" by fastforce
  then have tks: "length tks = 2" "tk_settled (tks ! 0)" "\<not> tk_settled (tks ! 1)"
    by (auto simp: http_run_def on_request_def ig onFinish_def onClose_def Let_def)
  then have "length (filter (\<lambda>tk. \<not> tk_settled tk) tks) = 1"
    by (cases tks; cases "tl tks") auto
  with http_metrics_consistent [OF m run] tks(1) m run show ?thesis by fastforce
qed

end
