(* ===== verification/Express.thy ===== *)
theory Express
  imports App_Error Trace_Context
begin

text \<open>
  What the middleware and the controllers use of express: a request with its headers (names in
  lower case), parsed body and query, and the identity the authentication puts on it; and what a
  middleware does with it.
\<close>

record auth_user =
  au_userId :: string
  au_roles :: "json list"

record http_request =
  rq_method :: string
  rq_originalUrl :: string
  rq_headers :: "string \<rightharpoonup> string"
  rq_body :: "json option"
  rq_query :: json
  rq_params :: json
  rq_user :: "auth_user option"

text \<open>A middleware calls \<open>next()\<close>, calls \<open>next(err)\<close>, or answers itself.\<close>

datatype mw_outcome = Next | NextError js_error | Respond http_response

text \<open>\<open>Boolean(v)\<close>.\<close>

fun js_truthy :: "json \<Rightarrow> bool" where
  "js_truthy JNull = False"
| "js_truthy (JBool b) = b"
| "js_truthy (JNum r) = (r \<noteq> 0)"
| "js_truthy (JStr s) = (s \<noteq> [])"
| "js_truthy _ = True"

text \<open>A header that is missing or empty is falsy.\<close>

definition header_value :: "http_request \<Rightarrow> string \<Rightarrow> string option" where
  "header_value rq name = (case rq_headers rq name of Some v \<Rightarrow> if v = [] then None else Some v | None \<Rightarrow> None)"

text \<open>\<open>res.status(code).json(body)\<close>.\<close>

definition json_response :: "int \<Rightarrow> json \<Rightarrow> http_response" where
  "json_response code body = \<lparr>res_status = code, res_headers = [], res_body = body\<rparr>"

end
