(* ===== verification/Auth.thy ===== *)
theory Auth
  imports Express
begin

text \<open>
  JWT authentication and role checks (\<open>packages/shared/src/middleware/auth.ts\<close>).  \<open>verify token
  secret\<close> is \<open>jwt.verify\<close> of the jsonwebtoken package: it throws or returns the payload.
\<close>

type_synonym jwt_verify = "string \<Rightarrow> string \<Rightarrow> js_error + json"

record auth_options =
  ao_secret :: string
  ao_optional :: bool

text \<open>The token of the header: what follows \<open>Bearer \<close>, when that is not empty.\<close>

definition bearer_token :: "http_request \<Rightarrow> string option" where
  "bearer_token rq =
     (case rq_headers rq ''authorization'' of
        None \<Rightarrow> None
      | Some h \<Rightarrow> if starts_with h ''Bearer '' \<and> drop 7 h \<noteq> [] then Some (drop 7 h) else None)"

definition token_user :: "json \<Rightarrow> auth_user" where
  "token_user payload =
     \<lparr>au_userId = json_text (the (nullish (json_get payload ''sub'') (nullish (json_get payload ''userId'') (Some (JStr []))))),
      au_roles = (case json_get payload ''roles'' of Some (JArr rs) \<Rightarrow> rs | _ \<Rightarrow> [])\<rparr>"

text \<open>
  The request and the request context it leaves behind, and what it does.  Reading a member of a
  null payload throws inside the \<open>try\<close>.
\<close>

definition authMiddleware ::
    "jwt_verify \<Rightarrow> auth_options \<Rightarrow> http_request \<Rightarrow> request_context option \<Rightarrow>
     mw_outcome \<times> http_request \<times> request_context option" where
  "authMiddleware verify opts rq ctx =
     (case bearer_token rq of
        None \<Rightarrow>
          if ao_optional opts then (Next, rq, ctx)
          else (NextError (app_err AuthenticationError ''Authentication required''), rq, ctx)
      | Some token \<Rightarrow>
          (case verify token (ao_secret opts) of
             Inl _ \<Rightarrow> (NextError (app_err AuthenticationError ''Invalid or expired token''), rq, ctx)
           | Inr payload \<Rightarrow>
               if payload = JNull then (NextError (app_err AuthenticationError ''Invalid or expired token''), rq, ctx)
               else
                 let user = token_user payload
                 in (Next, rq\<lparr>rq_user := Some user\<rparr>, map_option (\<lambda>c. c\<lparr>rc_userId := Some (au_userId user)\<rparr>) ctx)))"

definition requireRole :: "string list \<Rightarrow> http_request \<Rightarrow> mw_outcome" where
  "requireRole roles rq =
     (case rq_user rq of
        None \<Rightarrow> NextError (app_err AuthenticationError ''Authentication required'')
      | Some user \<Rightarrow>
          if \<not> list_ex (\<lambda>role. role \<in> set (map JStr roles)) (au_roles user)
          then NextError (app_err AuthorizationError ''Insufficient permissions'')
          else Next)"

text \<open>Only a verified token gives a request an identity.\<close>

lemma auth_passes:
  assumes "authMiddleware verify opts rq ctx = (Next, rq', ctx')" and "\<not> ao_optional opts"
  obtains token payload where "bearer_token rq = Some token" "verify token (ao_secret opts) = Inr payload" "payload \<noteq> JNull"
    "rq' = rq\<lparr>rq_user := Some (token_user payload)\<rparr>"
    "ctx' = map_option (\<lambda>c. c\<lparr>rc_userId := Some (au_userId (token_user payload))\<rparr>) ctx"
  using assms by (auto simp: authMiddleware_def Let_def split: option.splits sum.splits if_splits)

lemma auth_never_responds:
  assumes "authMiddleware verify opts rq ctx = (out, rq', ctx')" and "out \<noteq> Next"
  shows "\<exists>d. out = NextError (app_err AuthenticationError d) \<and> rq' = rq \<and> ctx' = ctx"
  using assms by (auto simp: authMiddleware_def Let_def split: option.splits sum.splits if_splits)

text \<open>A token whose payload names nobody is accepted with the empty user id.\<close>

lemma anonymous_token: "token_user (JObj []) = \<lparr>au_userId = [], au_roles = []\<rparr>"
  by (simp add: token_user_def nullish_def)

text \<open>A header that is no bearer token passes as if it were missing when the token is optional.\<close>

lemma optional_ignores_other_schemes:
  "rq_headers rq ''authorization'' = Some ''Basic abc'' \<Longrightarrow> authMiddleware verify \<lparr>ao_secret = sec, ao_optional = True\<rparr> rq ctx = (Next, rq, ctx)"
  by (simp add: authMiddleware_def bearer_token_def starts_with_def)

end
