(* ===== verification/Rate_Limiter.thy ===== *)
theory Rate_Limiter
  imports Express
begin

text \<open>
  The sliding-window rate limiter of \<open>packages/shared/src/middleware/rateLimiter.ts\<close>.  Redis is
  third-party: a client answers a MULTI block of commands; \<open>redis_laws\<close> states the documented effect
  of the commands the code sends on the keyspace of sorted sets.  All instants are milliseconds.
\<close>

section \<open>The Redis the store relies on\<close>

datatype redis_cmd =
    ZRemRangeByScore string int int    \<comment> \<open>key, lowest and highest score\<close>
  | ZAdd string int string             \<comment> \<open>key, score, member\<close>
  | ZCard string
  | PExpire string int                 \<comment> \<open>key, milliseconds\<close>

text \<open>A sorted set is the list of its members with their scores, and may have a deadline.\<close>

record zset =
  zs_members :: "(string \<times> int) list"
  zs_deadline :: "int option"

type_synonym keyspace = "string \<Rightarrow> zset option"

definition live_zset :: "int \<Rightarrow> keyspace \<Rightarrow> string \<Rightarrow> zset" where
  "live_zset t ks key =
     (case ks key of
        Some z \<Rightarrow> (case zs_deadline z of
                     Some d \<Rightarrow> if d \<le> t then \<lparr>zs_members = [], zs_deadline = None\<rparr> else z
                   | None \<Rightarrow> z)
      | None \<Rightarrow> \<lparr>zs_members = [], zs_deadline = None\<rparr>)"

text \<open>The documented effect of a command at time \<open>t\<close>, with its reply.\<close>

fun redis_effect :: "int \<Rightarrow> redis_cmd \<Rightarrow> keyspace \<Rightarrow> int \<times> keyspace" where
  "redis_effect t (ZRemRangeByScore key lo hi) ks =
     (let z = live_zset t ks key; kept = filter (\<lambda>(m, sc). \<not> (lo \<le> sc \<and> sc \<le> hi)) (zs_members z)
      in (int (length (zs_members z)) - int (length kept), ks(key \<mapsto> z\<lparr>zs_members := kept\<rparr>)))"
| "redis_effect t (ZAdd key sc m) ks =
     (let z = live_zset t ks key; others = filter (\<lambda>(m', _). m' \<noteq> m) (zs_members z)
      in (if length others = length (zs_members z) then 1 else 0, ks(key \<mapsto> z\<lparr>zs_members := others @ [(m, sc)]\<rparr>)))"
| "redis_effect t (ZCard key) ks = (int (length (zs_members (live_zset t ks key))), ks)"
| "redis_effect t (PExpire key ms) ks =
     (let z = live_zset t ks key in
      if zs_members z = [] then (0, ks) else (1, ks(key \<mapsto> z\<lparr>zs_deadline := Some (t + ms)\<rparr>)))"

fun redis_effects :: "int \<Rightarrow> redis_cmd list \<Rightarrow> keyspace \<Rightarrow> int list \<times> keyspace" where
  "redis_effects t [] ks = ([], ks)"
| "redis_effects t (c # cs) ks =
     (case redis_effect t c ks of (reply, ks1) \<Rightarrow>
        case redis_effects t cs ks1 of (replies, ks2) \<Rightarrow> (reply # replies, ks2))"

text \<open>
  A client: \<open>exec\<close> sends a MULTI block at a time of the server's clock; it may reject, and then the
  keyspace is whatever it is.  A reply is absent when its command failed.
\<close>

type_synonym 'r redis_client = "int \<Rightarrow> redis_cmd list \<Rightarrow> 'r \<Rightarrow> (js_error + int option list) \<times> 'r"

definition redis_laws :: "'r redis_client \<Rightarrow> ('r \<Rightarrow> keyspace) \<Rightarrow> bool" where
  "redis_laws exec view \<longleftrightarrow>
     (\<forall>t cs r replies r'. exec t cs r = (Inr replies, r') \<longrightarrow>
        replies = map Some (fst (redis_effects t cs (view r))) \<and> view r' = snd (redis_effects t cs (view r)))"

section \<open>The store\<close>

record rate_limit_result =
  rl_allowed :: bool
  rl_remaining :: int
  rl_resetMs :: int

text \<open>\<open>draw\<close> is \<open>Math.floor(Math.random() * 1e9)\<close>.\<close>

definition rate_member :: "int \<Rightarrow> int \<Rightarrow> string" where
  "rate_member now draw = show_int now @ ''-'' @ show_int draw"

definition rate_key :: "string \<Rightarrow> string" where
  "rate_key key = ''ratelimit:'' @ key"

definition rate_hit ::
    "'r redis_client \<Rightarrow> int \<Rightarrow> string \<Rightarrow> int \<Rightarrow> int \<Rightarrow> int \<Rightarrow> int \<Rightarrow> ('r, js_error, rate_limit_result) eff" where
  "rate_hit exec clock key windowMs limit draw now r =
     (let redisKey = rate_key key;
          cmds = [ZRemRangeByScore redisKey 0 (now - windowMs), ZAdd redisKey now (rate_member now draw),
                  ZCard redisKey, PExpire redisKey windowMs]
      in case exec clock cmds r of
           (Inl e, r') \<Rightarrow> (Inl e, r')
         | (Inr results, r') \<Rightarrow>
             let count = (if 2 < length results then (case results ! 2 of Some n \<Rightarrow> n | None \<Rightarrow> 0) else 0)
             in (Inr \<lparr>rl_allowed = (count \<le> limit), rl_remaining = max 0 (limit - count), rl_resetMs = windowMs\<rparr>, r'))"

text \<open>A store of the port \<open>RateLimiterStore\<close>: key, window, limit, instant.\<close>

type_synonym 's rate_limiter_store = "string \<Rightarrow> int \<Rightarrow> int \<Rightarrow> int \<Rightarrow> ('s, js_error, rate_limit_result) eff"

section \<open>The middleware\<close>

record rate_limiter_options =
  rlo_windowMs :: int
  rlo_max :: int

definition ceil_div :: "int \<Rightarrow> int \<Rightarrow> int" where
  "ceil_div a b = \<lceil>rat_of_int a / rat_of_int b\<rceil>"

definition too_many_requests :: "int \<Rightarrow> js_error" where
  "too_many_requests retryAfter =
     App ((new_error RateLimitError ''Too many requests'')\<lparr>ae_retryAfter := Some retryAfter\<rparr>)"

text \<open>The headers it sets and what it does; a store that rejects lets the request pass.\<close>

definition rateLimiterMiddleware ::
    "'s rate_limiter_store \<Rightarrow> rate_limiter_options \<Rightarrow> string \<Rightarrow> int \<Rightarrow> 's \<Rightarrow> ((string \<times> string) list \<times> mw_outcome) \<times> 's" where
  "rateLimiterMiddleware hit opts key now s =
     (case hit key (rlo_windowMs opts) (rlo_max opts) now s of
        (Inl _, t) \<Rightarrow> (([], Next), t)
      | (Inr result, t) \<Rightarrow>
          let headers = [(''X-RateLimit-Limit'', show_int (rlo_max opts)), (''X-RateLimit-Remaining'', show_int (rl_remaining result))]
          in if \<not> rl_allowed result then
               let retryAfter = ceil_div (rl_resetMs result) 1000
               in ((headers @ [(''Retry-After'', show_int retryAfter)], NextError (too_many_requests retryAfter)), t)
             else ((headers, Next), t))"

section \<open>Requests of one client\<close>

text \<open>
  The reference: a request is allowed when at most \<open>limit\<close> requests, refused ones included, lie in
  the window that ends with it.
\<close>

definition in_window :: "int \<Rightarrow> int \<Rightarrow> int list \<Rightarrow> nat" where
  "in_window windowMs now ts = length (filter (\<lambda>t. now - windowMs < t) ts)"

text \<open>The requests of a client, each with its instant and its random draw; the server's clock
  shows the instant of the request.\<close>

fun rate_run :: "'r redis_client \<Rightarrow> string \<Rightarrow> int \<Rightarrow> int \<Rightarrow> (int \<times> int) list \<Rightarrow> 'r \<Rightarrow> (js_error + rate_limit_result) list \<times> 'r" where
  "rate_run exec key w limit [] r = ([], r)"
| "rate_run exec key w limit ((now, draw) # reqs) r =
     (case rate_hit exec now key w limit draw now r of (res, r1) \<Rightarrow>
        case rate_run exec key w limit reqs r1 of (ress, r2) \<Rightarrow> (res # ress, r2))"

text \<open>
  What Redis holds for a client after the requests \<open>past\<close>: those no later block has trimmed, under
  distinct members, and a deadline one window after the last.
\<close>

definition rate_ok :: "string \<Rightarrow> int \<Rightarrow> (int \<times> int) list \<Rightarrow> keyspace \<Rightarrow> bool" where
  "rate_ok key w past ks \<longleftrightarrow>
     (case past of
        [] \<Rightarrow> ks (rate_key key) = None
      | _ \<Rightarrow> ks (rate_key key) =
          Some \<lparr>zs_members = map (\<lambda>(t, d). (rate_member t d, t)) (filter (\<lambda>(t, d). fst (last past) - w < t) past),
                zs_deadline = Some (fst (last past) + w)\<rparr>)"

lemma sorted_last: "sorted (ts :: int list) \<Longrightarrow> t \<in> set ts \<Longrightarrow> t \<le> last ts"
  by (induction ts) auto

lemma filter_twice_later:
  fixes a b :: int
  assumes "a \<le> b"
  shows "filter (\<lambda>(t, d). b < t) (filter (\<lambda>(t, d). a < t) xs) = filter (\<lambda>(t, d :: int). b < t) xs"
  using assms by (induction xs) auto

lemma filter_scores:
  assumes "\<forall>(t, d)\<in>set xs. 0 \<le> t"
  shows "filter (\<lambda>(m, sc). \<not> (0 \<le> sc \<and> sc \<le> b)) (map (\<lambda>(t, d). (rate_member t d, t)) xs) =
    map (\<lambda>(t, d). (rate_member t d, t)) (filter (\<lambda>(t, d). b < t) xs)"
  using assms by (induction xs) auto

lemma filter_members:
  assumes "\<forall>(t, d)\<in>set xs. rate_member t d \<noteq> m"
  shows "filter (\<lambda>(m', _). m' \<noteq> m) (map (\<lambda>(t, d). (rate_member t d, t)) xs) = map (\<lambda>(t, d). (rate_member t d, t)) xs"
  using assms by (induction xs) auto

text \<open>At the next request the trimmed set is the window, whether or not the key has expired.\<close>

lemma rate_trim:
  assumes ok: "rate_ok key w past ks" and order: "\<forall>(t, d)\<in>set past. 0 \<le> t \<and> t \<le> now" and w: "0 < w"
    and sorted: "sorted (map fst past)"
  shows "filter (\<lambda>(m, sc). \<not> (0 \<le> sc \<and> sc \<le> now - w)) (zs_members (live_zset now ks (rate_key key))) =
    map (\<lambda>(t, d). (rate_member t d, t)) (filter (\<lambda>(t, d). now - w < t) past)"
proof (cases past)
  case Nil
  with ok show ?thesis by (simp add: rate_ok_def live_zset_def)
next
  case (Cons p ps)
  let ?l = "fst (last past)"
  have last: "last past \<in> set past" using Cons by simp
  have le: "?l \<le> now" using order last by fastforce
  have pos: "\<forall>(t, d)\<in>set (filter (\<lambda>(t, d). ?l - w < t) past). 0 \<le> t" using order by auto
  have ks: "ks (rate_key key) =
      Some \<lparr>zs_members = map (\<lambda>(t, d). (rate_member t d, t)) (filter (\<lambda>(t, d). ?l - w < t) past), zs_deadline = Some (?l + w)\<rparr>"
    using ok Cons by (simp add: rate_ok_def)
  show ?thesis
  proof (cases "?l + w \<le> now")
    case True
    have "t \<le> ?l" if "(t, d) \<in> set past" for t d
      using sorted_last [OF sorted, of t] that Cons by (force simp: last_map)
    with True have "filter (\<lambda>(t, d). now - w < t) past = []" by (fastforce simp: filter_empty_conv)
    with True ks show ?thesis by (simp add: live_zset_def)
  next
    case False
    then have live: "zs_members (live_zset now ks (rate_key key)) =
        map (\<lambda>(t, d). (rate_member t d, t)) (filter (\<lambda>(t, d). ?l - w < t) past)"
      using ks by (simp add: live_zset_def)
    have "?l - w \<le> now - w" using le by simp
    then show ?thesis
      unfolding live filter_scores [OF pos] by (simp only: filter_twice_later)
  qed
qed

text \<open>The block on a set whose window is \<open>kept\<close>, with a new member.\<close>

definition unexpired :: "int \<Rightarrow> int option \<Rightarrow> bool" where
  "unexpired t deadline = (case deadline of Some d \<Rightarrow> t < d | None \<Rightarrow> True)"

lemma live_unexpired: "unexpired t (zs_deadline (live_zset t ks k))"
  by (auto simp: live_zset_def unexpired_def split: option.splits)

lemma live_upd: "unexpired t (zs_deadline z) \<Longrightarrow> live_zset t (ks(k \<mapsto> z)) k = z"
  by (auto simp: live_zset_def unexpired_def split: option.splits)

lemma redis_block:
  assumes "filter (\<lambda>(m, sc). \<not> (0 \<le> sc \<and> sc \<le> b)) (zs_members (live_zset t ks k)) = kept"
    and "filter (\<lambda>(m', _). m' \<noteq> m) kept = kept"
  shows "\<exists>n. redis_effects t [ZRemRangeByScore k 0 b, ZAdd k sc m, ZCard k, PExpire k w] ks =
    ([n, 1, int (length kept) + 1, 1], ks(k \<mapsto> \<lparr>zs_members = kept @ [(m, sc)], zs_deadline = Some (t + w)\<rparr>))"
proof -
  define z where "z = live_zset t ks k"
  have dl: "unexpired t (zs_deadline z)" by (simp add: z_def live_unexpired)
  have kept: "filter (\<lambda>(m, sc). \<not> (0 \<le> sc \<and> sc \<le> b)) (zs_members z) = kept" using assms(1) by (simp only: z_def)
  have one: "redis_effect t (ZRemRangeByScore k 0 b) ks = (int (length (zs_members z)) - int (length kept), ks(k \<mapsto> z\<lparr>zs_members := kept\<rparr>))"
    unfolding redis_effect.simps z_def [symmetric] Let_def kept ..
  have two: "redis_effect t (ZAdd k sc m) (ks(k \<mapsto> z\<lparr>zs_members := kept\<rparr>)) = (1, ks(k \<mapsto> z\<lparr>zs_members := kept @ [(m, sc)]\<rparr>))"
    using assms(2) dl by (simp add: live_upd Let_def)
  have three: "redis_effect t (ZCard k) (ks(k \<mapsto> z\<lparr>zs_members := kept @ [(m, sc)]\<rparr>)) =
      (int (length kept) + 1, ks(k \<mapsto> z\<lparr>zs_members := kept @ [(m, sc)]\<rparr>))"
    using dl by (simp add: live_upd)
  have four: "redis_effect t (PExpire k w) (ks(k \<mapsto> z\<lparr>zs_members := kept @ [(m, sc)]\<rparr>)) =
      (1, ks(k \<mapsto> \<lparr>zs_members = kept @ [(m, sc)], zs_deadline = Some (t + w)\<rparr>))"
    using dl by (cases z) (simp add: live_upd Let_def)
  show ?thesis by (simp only: redis_effects.simps one two three four prod.case) blast
qed

lemma rate_step:
  assumes laws: "redis_laws exec view" and ok: "rate_ok key w past (view r)"
    and order: "\<forall>(t, d)\<in>set past. 0 \<le> t \<and> t \<le> now" and w: "0 < w" and sorted: "sorted (map fst past)"
    and fresh: "\<forall>(t, d)\<in>set past. rate_member t d \<noteq> rate_member now draw"
    and hit: "rate_hit exec now key w limit draw now r = (Inr res, r')"
  shows "rate_ok key w (past @ [(now, draw)]) (view r')"
    and "res = (let n = int (in_window w now (map fst past @ [now]))
      in \<lparr>rl_allowed = (n \<le> limit), rl_remaining = max 0 (limit - n), rl_resetMs = w\<rparr>)"
proof -
  let ?k = "rate_key key" let ?win = "filter (\<lambda>(t, d). now - w < t) past"
  let ?z = "map (\<lambda>(t, d). (rate_member t d, t)) ?win"
  obtain replies where ex: "exec now [ZRemRangeByScore ?k 0 (now - w), ZAdd ?k now (rate_member now draw), ZCard ?k, PExpire ?k w] r = (Inr replies, r')"
    and res: "res = (let count = (if 2 < length replies then (case replies ! 2 of Some n \<Rightarrow> n | None \<Rightarrow> 0) else 0)
      in \<lparr>rl_allowed = (count \<le> limit), rl_remaining = max 0 (limit - count), rl_resetMs = w\<rparr>)"
    using hit by (auto simp: rate_hit_def Let_def split: prod.splits sum.splits)
  have frsh: "filter (\<lambda>(m', _). m' \<noteq> rate_member now draw) ?z = ?z"
    using fresh by (intro filter_members) auto
  from redis_block [OF rate_trim [OF ok order w sorted] frsh, of now w] obtain n
    where eff: "redis_effects now [ZRemRangeByScore ?k 0 (now - w), ZAdd ?k now (rate_member now draw), ZCard ?k, PExpire ?k w] (view r) =
      ([n, 1, int (length ?z) + 1, 1], (view r)(?k \<mapsto> \<lparr>zs_members = ?z @ [(rate_member now draw, now)], zs_deadline = Some (now + w)\<rparr>))"
    by blast
  have out: "replies = map Some [n, 1, int (length ?z) + 1, 1]"
    "view r' = (view r)(?k \<mapsto> \<lparr>zs_members = ?z @ [(rate_member now draw, now)], zs_deadline = Some (now + w)\<rparr>)"
    using laws [unfolded redis_laws_def, rule_format, OF ex] unfolding eff by simp_all
  show "rate_ok key w (past @ [(now, draw)]) (view r')"
    using w by (cases past) (simp_all add: rate_ok_def out(2))
  have "length (filter (\<lambda>t. now - w < t) (map fst past)) = length ?win" by (induction past) auto
  then have "int (in_window w now (map fst past @ [now])) = int (length ?z) + 1"
    using w by (simp add: in_window_def)
  then show "res = (let n = int (in_window w now (map fst past @ [now]))
      in \<lparr>rl_allowed = (n \<le> limit), rl_remaining = max 0 (limit - n), rl_resetMs = w\<rparr>)"
    unfolding res out(1) by (simp add: Let_def)
qed

text \<open>The store decides as the reference does.\<close>

lemma rate_run_exact:
  assumes "redis_laws exec view" and "0 < w" and "rate_run exec key w limit reqs r = (ress, r')"
    and "rate_ok key w past (view r)" and "sorted (map fst (past @ reqs))" and "\<forall>(t, d)\<in>set (past @ reqs). 0 \<le> t"
    and "distinct (map (\<lambda>(t, d). rate_member t d) (past @ reqs))" and "\<forall>res\<in>set ress. \<not> isl res"
    and "i < length reqs"
  shows "ress ! i = Inr (let n = int (in_window w (fst (reqs ! i)) (map fst (past @ take (Suc i) reqs)))
      in \<lparr>rl_allowed = (n \<le> limit), rl_remaining = max 0 (limit - n), rl_resetMs = w\<rparr>)"
  using assms(3-)
proof (induction reqs arbitrary: r past ress i)
  case (Cons req reqs)
  obtain now draw where req: "req = (now, draw)" by fastforce
  obtain res r1 where hit: "rate_hit exec now key w limit draw now r = (res, r1)" by fastforce
  obtain ress' r2 where run: "rate_run exec key w limit reqs r1 = (ress', r2)" by fastforce
  have ress: "ress = res # ress'" "r' = r2" using Cons.prems(1) hit run by (auto simp: req)
  then obtain x where x: "res = Inr x" using Cons.prems(6) by (cases res) auto
  have order: "\<forall>(t, d)\<in>set past. 0 \<le> t \<and> t \<le> now"
    using Cons.prems(3,4) by (fastforce simp: req sorted_append)
  have sorted: "sorted (map fst past)" using Cons.prems(3) by (simp add: sorted_append)
  have fresh: "\<forall>(t, d)\<in>set past. rate_member t d \<noteq> rate_member now draw"
    using Cons.prems(5) by (force simp: req)
  note step = rate_step [OF assms(1) Cons.prems(2) order assms(2) sorted fresh hit [unfolded x]]
  show ?case
  proof (cases i)
    case 0
    with step(2) ress x req show ?thesis by simp
  next
    case (Suc j)
    have "ress' ! j = Inr (let n = int (in_window w (fst (reqs ! j)) (map fst ((past @ [req]) @ take (Suc j) reqs)))
      in \<lparr>rl_allowed = (n \<le> limit), rl_remaining = max 0 (limit - n), rl_resetMs = w\<rparr>)"
      using Cons.prems ress Suc step(1) run
      by (intro Cons.IH) (auto simp: req)
    with Suc ress show ?thesis by simp
  qed
qed simp

end
