(* ===== verification/Health.thy ===== *)
theory Health
  imports App_Error
begin

text \<open>
  The health aggregator (\<open>packages/shared/src/health/HealthChecker.ts\<close>), the readiness endpoint the
  services build on it (\<open>app.ts\<close>), and the configuration loader
  (\<open>packages/shared/src/config/ConfigLoader.ts\<close>).
\<close>

section \<open>Health checks\<close>

datatype health_status = Healthy | Degraded | Unhealthy

fun health_status_text :: "health_status \<Rightarrow> string" where
  "health_status_text Healthy = ''healthy''"
| "health_status_text Degraded = ''degraded''"
| "health_status_text Unhealthy = ''unhealthy''"

text \<open>From better to worse.\<close>

fun severity :: "health_status \<Rightarrow> nat" where
  "severity Healthy = 0"
| "severity Degraded = 1"
| "severity Unhealthy = 2"

lemma severity_inject [simp]: "severity a = severity b \<longleftrightarrow> a = b"
  by (cases a; cases b) simp_all

instantiation health_status :: linorder
begin

definition less_eq_health_status :: "health_status \<Rightarrow> health_status \<Rightarrow> bool" where
  "less_eq_health_status a b \<longleftrightarrow> severity a \<le> severity b"

definition less_health_status :: "health_status \<Rightarrow> health_status \<Rightarrow> bool" where
  "less_health_status a b \<longleftrightarrow> severity a < severity b"

instance
  by intro_classes (auto simp: less_eq_health_status_def less_health_status_def)

end

record dependency_check =
  dc_name :: string
  dc_up :: bool
  dc_duration_ms :: int
  dc_error :: "string option"

record health_result =
  hr_status :: health_status
  hr_checks :: "dependency_check list"
  hr_timestamp :: int
  hr_uptime :: int

text \<open>
  How a check behaves: after \<open>ms\<close> milliseconds it is fine, or it throws (an error with a message,
  or some other value), or it never settles.
\<close>

datatype check_behaviour = CheckOk nat | CheckThrows nat string | CheckThrowsOther nat | CheckHangs

text \<open>A checker: the registered functions, a \<open>Map\<close> from names in order of registration.\<close>

record health_checker =
  hc_checks :: "(string \<times> (int \<Rightarrow> check_behaviour)) list"
  hc_startTime :: int

definition health_register :: "string \<Rightarrow> (int \<Rightarrow> check_behaviour) \<Rightarrow> health_checker \<Rightarrow> health_checker" where
  "health_register name checkFn h = h\<lparr>hc_checks := AList.update name checkFn (hc_checks h)\<rparr>"

text \<open>\<open>Promise.race\<close> of the check with the five-second timer; at a tie the check, started first, wins.\<close>

definition timeout_error :: string where
  "timeout_error = ''Health check timeout (5s)''"

definition race_timeout :: "check_behaviour \<Rightarrow> nat \<times> string option" where
  "race_timeout b =
     (case b of
        CheckOk ms \<Rightarrow> if ms \<le> 5000 then (ms, None) else (5000, Some timeout_error)
      | CheckThrows ms msg \<Rightarrow> if ms \<le> 5000 then (ms, Some msg) else (5000, Some timeout_error)
      | CheckThrowsOther ms \<Rightarrow> if ms \<le> 5000 then (ms, Some ''Unknown error'') else (5000, Some timeout_error)
      | CheckHangs \<Rightarrow> (5000, Some timeout_error))"

text \<open>The checks run one after the other; the results and the time at which the last has ended.\<close>

fun run_checks :: "int \<Rightarrow> (string \<times> (int \<Rightarrow> check_behaviour)) list \<Rightarrow> dependency_check list \<times> int" where
  "run_checks now [] = ([], now)"
| "run_checks now ((name, checkFn) # cs) =
     (case race_timeout (checkFn now) of (ms, err) \<Rightarrow>
        case run_checks (now + int ms) cs of (rs, t) \<Rightarrow>
          (\<lparr>dc_name = name, dc_up = (err = None), dc_duration_ms = int ms, dc_error = err\<rparr> # rs, t))"

definition overall_status :: "dependency_check list \<Rightarrow> health_status" where
  "overall_status results =
     (let downCount = length (filter (\<lambda>r. \<not> dc_up r) results) in
      if downCount = 0 then Healthy
      else if downCount < length results then Degraded
      else Unhealthy)"

definition health_check :: "int \<Rightarrow> health_checker \<Rightarrow> health_result" where
  "health_check now h =
     (case run_checks now (hc_checks h) of (results, t) \<Rightarrow>
        \<lparr>hr_status = overall_status results, hr_checks = results, hr_timestamp = t,
         hr_uptime = (t - hc_startTime h) div 1000\<rparr>)"

text \<open>\<open>GET /health/ready\<close>.\<close>

definition ready_status :: "int \<Rightarrow> health_checker \<Rightarrow> int" where
  "ready_status now h = (if hr_status (health_check now h) = Healthy then 200 else 503)"

lemma run_checks_names: "map dc_name (fst (run_checks now cs)) = map fst cs"
  by (induction now cs rule: run_checks.induct) (auto split: prod.splits)

lemma race_timeout_bound: "fst (race_timeout b) \<le> 5000"
  by (cases b) (auto simp: race_timeout_def)

lemma run_checks_bound:
  "snd (run_checks now cs) \<le> now + 5000 * int (length cs) \<and> now \<le> snd (run_checks now cs)"
proof (induction now cs rule: run_checks.induct)
  case (2 now name checkFn cs)
  obtain ms err where r: "race_timeout (checkFn now) = (ms, err)" by fastforce
  with race_timeout_bound [of "checkFn now"] have "ms \<le> 5000" by simp
  with 2 r show ?case by (auto split: prod.splits)
qed simp

lemma overall_status_iff:
  "overall_status rs = Healthy \<longleftrightarrow> (\<forall>r\<in>set rs. dc_up r)"
  "overall_status rs = Unhealthy \<longleftrightarrow> rs \<noteq> [] \<and> (\<forall>r\<in>set rs. \<not> dc_up r)"
proof -
  show h: "overall_status rs = Healthy \<longleftrightarrow> (\<forall>r\<in>set rs. dc_up r)"
    by (auto simp: overall_status_def Let_def filter_empty_conv)
  have "length (filter (\<lambda>r. \<not> dc_up r) rs) < length rs \<longleftrightarrow> (\<exists>r\<in>set rs. dc_up r)"
    by (metis (mono_tags, lifting) filter_False filter_True length_filter_less less_irrefl)
  then show "overall_status rs = Unhealthy \<longleftrightarrow> rs \<noteq> [] \<and> (\<forall>r\<in>set rs. \<not> dc_up r)"
    by (auto simp: overall_status_def Let_def filter_empty_conv)
qed

text \<open>A check that comes up never makes the status worse, one that goes down never better.\<close>

lemma overall_status_mono:
  assumes "list_all2 (\<lambda>r r'. dc_up r \<longrightarrow> dc_up r') rs rs'"
  shows "overall_status rs' \<le> overall_status rs"
proof -
  have down: "length (filter (\<lambda>r. \<not> dc_up r) rs') \<le> length (filter (\<lambda>r. \<not> dc_up r) rs)"
    using assms by (induction rule: list_all2_induct) auto
  then show ?thesis using list_all2_lengthD [OF assms]
    by (auto simp: overall_status_def Let_def less_eq_health_status_def)
qed

text \<open>Registering a check under a name that is taken replaces it.\<close>

lemma register_replaces:
  "map_of (hc_checks (health_register n f h)) k = (if k = n then Some f else map_of (hc_checks h) k)"
  by (simp add: health_register_def update_conv')

section \<open>Configuration\<close>

text \<open>
  \<open>ConfigLoader\<close>: \<open>safeParse\<close> of the schema (zod) is an argument; an issue is the path of the
  variable and a message.
\<close>

record zod_issue =
  zi_path :: "string list"
  zi_message :: string

definition config_load :: "('env \<Rightarrow> zod_issue list + 'c) \<Rightarrow> 'env \<Rightarrow> js_error + 'c" where
  "config_load safeParse env =
     (case safeParse env of
        Inr c \<Rightarrow> Inr c
      | Inl issues \<Rightarrow>
          let errors = join_with [CHR 0x0A] (map (\<lambda>i. ''  - '' @ join_with ''.'' (zi_path i) @ '': '' @ zi_message i) issues)
          in Inl (PlainError (''Configuration validation failed:'' @ [CHR 0x0A] @ errors @ [CHR 0x0A, CHR 0x0A]
                   @ ''Check your .env file or environment variables.'')))"

definition config_tryLoad :: "('env \<Rightarrow> zod_issue list + 'c) \<Rightarrow> 'env \<Rightarrow> 'c option" where
  "config_tryLoad safeParse env = (case safeParse env of Inr c \<Rightarrow> Some c | Inl _ \<Rightarrow> None)"

lemma tryLoad_load: "config_tryLoad safeParse env = (case config_load safeParse env of Inr c \<Rightarrow> Some c | Inl _ \<Rightarrow> None)"
  by (auto simp: config_tryLoad_def config_load_def Let_def split: sum.split)

end
