(* ===== verification/Sanitize.thy ===== *)
theory Sanitize
  imports Express
begin

text \<open>
  Input sanitisation (\<open>packages/shared/src/middleware/sanitize.ts\<close>): markup is stripped from every
  string and members that look like operators are dropped, at every depth.  Objects are their own
  enumerable members.
\<close>

text \<open>
  \<open>value.replace(/<[^>]*>/g, '')\<close>: from the left, a \<open><\<close> with a \<open>>\<close> somewhere after it is removed
  up to the first such \<open>>\<close>.
\<close>

fun strip_tags :: "string \<Rightarrow> string" and skip_tag :: "string \<Rightarrow> string" where
  "strip_tags [] = []"
| "strip_tags (c # cs) =
     (if c = CHR ''<'' \<and> CHR ''>'' \<in> set cs then skip_tag cs else c # strip_tags cs)"
| "skip_tag [] = []"
| "skip_tag (c # cs) = (if c = CHR ''>'' then strip_tags cs else skip_tag cs)"

definition stripHtml :: "string \<Rightarrow> string" where
  "stripHtml s = trim (strip_tags s)"

definition unsafe_key :: "string \<Rightarrow> bool" where
  "unsafe_key k = (starts_with k ''$'' \<or> CHR ''.'' \<in> set k)"

text \<open>\<open>sanitizeValue\<close>, and \<open>sanitizeObject\<close> on an object's members.\<close>

fun sanitizeValue :: "json \<Rightarrow> json" where
  "sanitizeValue (JStr s) = JStr (stripHtml s)"
| "sanitizeValue (JArr vs) = JArr (map sanitizeValue vs)"
| "sanitizeValue (JObj kvs) =
     JObj (map (\<lambda>(k, v). (k, sanitizeValue v)) (filter (\<lambda>(k, v). \<not> unsafe_key k) kvs))"
| "sanitizeValue v = v"

text \<open>\<open>Object.entries\<close> of the parsed body: an array has its indices for keys.\<close>

definition entries_of :: "json \<Rightarrow> (string \<times> json) list" where
  "entries_of v =
     (case v of JObj kvs \<Rightarrow> kvs | JArr vs \<Rightarrow> map (\<lambda>(i, x). (show_nat i, x)) (enumerate 0 vs) | _ \<Rightarrow> [])"

definition sanitizeObject :: "json \<Rightarrow> json" where
  "sanitizeObject v = sanitizeValue (JObj (entries_of v))"

fun is_object :: "json \<Rightarrow> bool" where
  "is_object (JObj _) = True" | "is_object (JArr _) = True" | "is_object _ = False"

definition sanitizeMiddleware :: "http_request \<Rightarrow> http_request" where
  "sanitizeMiddleware rq =
     (let rq1 = (case rq_body rq of Some b \<Rightarrow> if is_object b then rq\<lparr>rq_body := Some (sanitizeObject b)\<rparr> else rq | None \<Rightarrow> rq)
      in if is_object (rq_query rq1) then rq1\<lparr>rq_query := sanitizeObject (rq_query rq1)\<rparr> else rq1)"

section \<open>What is left is clean\<close>

text \<open>No tag: no \<open><\<close> has a \<open>>\<close> after it.\<close>

fun no_tag :: "string \<Rightarrow> bool" where
  "no_tag [] = True"
| "no_tag (c # cs) = ((c = CHR ''<'' \<longrightarrow> CHR ''>'' \<notin> set cs) \<and> no_tag cs)"

fun clean :: "json \<Rightarrow> bool" where
  "clean (JStr s) = (no_tag s \<and> trim s = s)"
| "clean (JArr vs) = list_all clean vs"
| "clean (JObj kvs) = list_all (\<lambda>(k, v). \<not> unsafe_key k \<and> clean v) kvs"
| "clean _ = True"

lemma strip_tags_subset: "set (strip_tags s) \<subseteq> set s" and skip_tag_subset: "set (skip_tag s') \<subseteq> set s'"
  by (induction s and s' rule: strip_tags_skip_tag.induct) auto

lemma strip_tags_clean: "no_tag (strip_tags s)" and skip_tag_clean: "no_tag (skip_tag s')"
proof (induction s and s' rule: strip_tags_skip_tag.induct)
  case (2 c cs)
  then show ?case using strip_tags_subset [of cs] by auto
qed auto

lemma strip_tags_idem: "no_tag s \<Longrightarrow> strip_tags s = s"
  by (induction s) auto

lemma no_tag_append: "no_tag (xs @ ys) \<longleftrightarrow> no_tag xs \<and> no_tag ys \<and> (CHR ''<'' \<in> set xs \<longrightarrow> CHR ''>'' \<notin> set ys)"
  by (induction xs) auto

lemma no_tag_dropWhile: "no_tag s \<Longrightarrow> no_tag (dropWhile P s)"
  by (metis no_tag_append takeWhile_dropWhile_id)

lemma trim_rdrop: "trim s = rev (dropWhile is_space (rev (dropWhile is_space s)))"
  by (simp add: trim_def)

lemma no_tag_trim: "no_tag s \<Longrightarrow> no_tag (trim s)"
proof -
  assume "no_tag s"
  then have "no_tag (dropWhile is_space s)" by (rule no_tag_dropWhile)
  moreover have "dropWhile is_space s = trim s @ rev (takeWhile is_space (rev (dropWhile is_space s)))"
    by (metis rev_append rev_rev_ident takeWhile_dropWhile_id trim_def)
  ultimately show ?thesis by (metis no_tag_append)
qed

lemma dropWhile_rev_dropWhile:
  "dropWhile P s = s \<Longrightarrow> dropWhile P (rev (dropWhile P (rev s))) = rev (dropWhile P (rev s))"
proof -
  assume stable: "dropWhile P s = s"
  show ?thesis
  proof (cases "rev (dropWhile P (rev s))")
    case (Cons c cs)
    have "s = rev (dropWhile P (rev s)) @ rev (takeWhile P (rev s))"
      by (metis rev_append rev_rev_ident takeWhile_dropWhile_id)
    with Cons obtain t where "s = c # t" by simp
    with stable have "\<not> P c" by (metis dropWhile_eq_self_iff list.distinct(1) list.sel(1))
    with Cons show ?thesis by simp
  next
    case Nil
    then show ?thesis by (simp only: dropWhile.simps)
  qed
qed

lemma trim_idem: "trim (trim s) = trim s"
proof -
  have "dropWhile is_space (trim s) = trim s"
    unfolding trim_def by (rule dropWhile_rev_dropWhile) simp
  then show ?thesis by (simp add: trim_def)
qed

lemma clean_stripHtml: "no_tag (stripHtml s) \<and> trim (stripHtml s) = stripHtml s"
  by (simp add: stripHtml_def no_tag_trim strip_tags_clean trim_idem)

lemma sanitizeValue_clean: "clean (sanitizeValue v)"
  by (induction v rule: sanitizeValue.induct) (auto simp: clean_stripHtml list_all_iff)

lemma sanitizeValue_idem: "clean v \<Longrightarrow> sanitizeValue v = v"
proof (induction v rule: sanitizeValue.induct)
  case (1 s)
  then show ?case by (simp add: stripHtml_def strip_tags_idem)
next
  case (2 vs)
  then show ?case by (simp add: list_all_iff map_idI)
next
  case (3 kvs)
  then have "filter (\<lambda>(k, v). \<not> unsafe_key k) kvs = kvs" by (auto simp: list_all_iff filter_id_conv)
  moreover have "map (\<lambda>(k, v). (k, sanitizeValue v)) kvs = kvs"
    using 3 by (intro map_idI) (auto simp: list_all_iff)
  ultimately show ?case by simp
qed auto

lemma sanitizeObject_clean: "clean (sanitizeObject v)"
  by (simp only: sanitizeObject_def sanitizeValue_clean)

lemma is_object_sanitized: "is_object (sanitizeObject v)"
  by (simp add: sanitizeObject_def)

lemma sanitizeObject_idem: "sanitizeObject (sanitizeObject v) = sanitizeObject v"
proof -
  obtain kvs where "sanitizeObject v = JObj kvs" by (simp add: sanitizeObject_def)
  with sanitizeObject_clean [of v] have "sanitizeValue (JObj kvs) = JObj kvs" by (intro sanitizeValue_idem) simp
  with \<open>sanitizeObject v = JObj kvs\<close> show ?thesis by (simp add: sanitizeObject_def [of "JObj kvs"] entries_of_def)
qed

text \<open>The members a client may send are kept, with the markup of their text removed.\<close>

lemma sanitize_keeps_members:
  "distinct (map fst kvs) \<Longrightarrow> map_of kvs k = Some v \<Longrightarrow> \<not> unsafe_key k \<Longrightarrow>
   json_get (sanitizeValue (JObj kvs)) k = Some (sanitizeValue v)"
proof (induction kvs)
  case (Cons p kvs)
  then show ?case by (cases p) (auto split: if_splits)
qed simp

text \<open>Text without markup and without white space around it passes unchanged.\<close>

lemma strip_plain: "CHR ''<'' \<notin> set s \<Longrightarrow> trim s = s \<Longrightarrow> stripHtml s = s"
proof -
  assume "CHR ''<'' \<notin> set s" "trim s = s"
  moreover from this(1) have "no_tag s" by (induction s) auto
  ultimately show ?thesis by (simp add: stripHtml_def strip_tags_idem)
qed

text \<open>A JSON array sent as the whole body becomes an object with its indices for keys.\<close>

lemma array_body_becomes_object: "sanitizeObject (JArr [JNum 1]) = JObj [(''0'', JNum 1)]"
proof -
  have "show_nat 0 = ''0''" "unsafe_key ''0'' = False" by code_simp+
  then show ?thesis by (simp add: sanitizeObject_def entries_of_def enumerate_eq_zip)
qed

end
