(* ===== verification/Json_Text.thy ===== *)
theory Json_Text
  imports Money
begin

text \<open>
  \<open>JSON.stringify\<close> and \<open>JSON.parse\<close> as the code uses them: message bodies, webhook bodies and the
  values of the Redis cache.  Numbers are decimals of at most twenty fractional digits, printed
  without an exponent; text is ASCII.  The result is that parsing undoes printing.
\<close>

section \<open>Printing\<close>

definition hex2 :: "nat \<Rightarrow> string" where
  "hex2 n = (let h = (\<lambda>d. if d < 10 then char_of (48 + d) else char_of (87 + d)) in [h (n div 16), h (n mod 16)])"

definition json_escape :: "char \<Rightarrow> string" where
  "json_escape c =
     (let n = of_char c :: nat in
      if n = 34 then [CHR 0x5C, CHR 0x22] else if n = 92 then [CHR 0x5C, CHR 0x5C]
      else if n = 8 then [CHR 0x5C, CHR ''b''] else if n = 9 then [CHR 0x5C, CHR ''t'']
      else if n = 10 then [CHR 0x5C, CHR ''n''] else if n = 12 then [CHR 0x5C, CHR ''f'']
      else if n = 13 then [CHR 0x5C, CHR ''r'']
      else if n < 32 then CHR 0x5C # CHR ''u'' # ''00'' @ hex2 n
      else [c])"

definition json_quote :: "string \<Rightarrow> string" where
  "json_quote s = CHR 0x22 # concat (map json_escape s) @ [CHR 0x22]"

fun json_stringify :: "json \<Rightarrow> string" where
  "json_stringify JNull = ''null''"
| "json_stringify (JBool b) = (if b then ''true'' else ''false'')"
| "json_stringify (JNum r) = show_rat r"
| "json_stringify (JStr s) = json_quote s"
| "json_stringify (JArr vs) = ''['' @ join_with '','' (map json_stringify vs) @ '']''"
| "json_stringify (JObj kvs) = ''{'' @ join_with '','' (map (\<lambda>(k, v). json_quote k @ '':'' @ json_stringify v) kvs) @ ''}''"

section \<open>Parsing\<close>

definition digit_value :: "char \<Rightarrow> nat" where
  "digit_value c = of_char c - 48"

definition skip_ws :: "string \<Rightarrow> string" where
  "skip_ws s = dropWhile (\<lambda>c. c \<in> {CHR '' '', CHR 0x09, CHR 0x0A, CHR 0x0D}) s"

fun fraction_value :: "string \<Rightarrow> rat" where
  "fraction_value [] = 0"
| "fraction_value (c # cs) = (of_nat (digit_value c) + fraction_value cs) / 10"

text \<open>An optional exponent: its value and the rest; \<open>None\<close> when \<open>e\<close> has no digits.\<close>

definition parse_exponent :: "string \<Rightarrow> (int \<times> string) option" where
  "parse_exponent s =
     (case s of
        c # s1 \<Rightarrow>
          if c = CHR ''e'' \<or> c = CHR ''E'' then
            (let (neg, s2) = (case s1 of d # r \<Rightarrow> if d = CHR ''-'' then (True, r) else if d = CHR ''+'' then (False, r) else (False, s1)
                              | [] \<Rightarrow> (False, s1));
                 ds = takeWhile is_digit s2
             in if ds = [] then None
                else Some (if neg then - parse_digits 0 ds else parse_digits 0 ds, dropWhile is_digit s2))
          else Some (0, s)
      | [] \<Rightarrow> Some (0, s))"

definition scale10 :: "rat \<Rightarrow> int \<Rightarrow> rat" where
  "scale10 r k = (if 0 \<le> k then r * 10 ^ nat k else r / 10 ^ nat (- k))"

definition number_with :: "bool \<Rightarrow> rat \<Rightarrow> string \<Rightarrow> (json \<times> string) option" where
  "number_with neg v s =
     (case parse_exponent s of
        None \<Rightarrow> None
      | Some (k, rest) \<Rightarrow> Some (JNum (scale10 (if neg then - v else v) k), rest))"

definition parse_magnitude :: "bool \<Rightarrow> string \<Rightarrow> (json \<times> string) option" where
  "parse_magnitude neg s =
     (let ds = takeWhile is_digit s; s1 = dropWhile is_digit s; whole = of_int (parse_digits 0 ds)
      in if ds = [] \<or> (1 < length ds \<and> hd ds = CHR ''0'') then None
         else case s1 of
           [] \<Rightarrow> number_with neg whole s1
         | c # s2 \<Rightarrow>
             if c = CHR ''.'' then
               (if takeWhile is_digit s2 = [] then None
                else number_with neg (whole + fraction_value (takeWhile is_digit s2)) (dropWhile is_digit s2))
             else number_with neg whole s1)"

definition parse_number :: "string \<Rightarrow> (json \<times> string) option" where
  "parse_number s =
     (case s of
        [] \<Rightarrow> None
      | c # cs \<Rightarrow> if c = CHR ''-'' then parse_magnitude True cs else parse_magnitude False s)"

definition hex_value4 :: "char \<Rightarrow> nat option" where
  "hex_value4 c =
     (let n = of_char c :: nat in
      if 48 \<le> n \<and> n \<le> 57 then Some (n - 48) else if 97 \<le> n \<and> n \<le> 102 then Some (n - 87)
      else if 65 \<le> n \<and> n \<le> 70 then Some (n - 55) else None)"

text \<open>The code unit of a four-digit escape, as a character of the ASCII range.\<close>

definition unicode_char :: "char \<Rightarrow> char \<Rightarrow> char \<Rightarrow> char \<Rightarrow> char option" where
  "unicode_char a b c d =
     (case (hex_value4 a, hex_value4 b, hex_value4 c, hex_value4 d) of
        (Some i, Some j, Some k, Some l) \<Rightarrow>
          let n = ((i * 16 + j) * 16 + k) * 16 + l in if n < 256 then Some (char_of n) else None
      | _ \<Rightarrow> None)"

definition simple_escape :: "char \<Rightarrow> char option" where
  "simple_escape c =
     (if c = CHR 0x22 then Some (CHR 0x22) else if c = CHR 0x5C then Some (CHR 0x5C) else if c = CHR ''/'' then Some (CHR ''/'')
      else if c = CHR ''b'' then Some (CHR 0x08) else if c = CHR ''f'' then Some (CHR 0x0C) else if c = CHR ''n'' then Some (CHR 0x0A)
      else if c = CHR ''r'' then Some (CHR 0x0D) else if c = CHR ''t'' then Some (CHR 0x09) else None)"

definition cons_fst :: "'a \<Rightarrow> ('a list \<times> 'b) option \<Rightarrow> ('a list \<times> 'b) option" where
  "cons_fst x r = map_option (\<lambda>(xs, rest). (x # xs, rest)) r"

text \<open>The rest of a string literal after its opening quote.\<close>

fun parse_string :: "string \<Rightarrow> (string \<times> string) option" where
  "parse_string [] = None"
| "parse_string (c # cs) =
     (if c = CHR 0x22 then Some ([], cs)
      else if c = CHR 0x5C then
        (case cs of
           [] \<Rightarrow> None
         | d # ds \<Rightarrow>
             if d = CHR ''u'' then
               (case ds of
                  h1 # h2 # h3 # h4 # rest \<Rightarrow>
                    (case unicode_char h1 h2 h3 h4 of None \<Rightarrow> None | Some u \<Rightarrow> cons_fst u (parse_string rest))
                | _ \<Rightarrow> None)
             else (case simple_escape d of None \<Rightarrow> None | Some u \<Rightarrow> cons_fst u (parse_string ds)))
      else if (of_char c :: nat) < 32 then None
      else cons_fst c (parse_string cs))"

definition literal :: "string \<Rightarrow> json \<Rightarrow> string \<Rightarrow> (json \<times> string) option" where
  "literal word v s = (if starts_with s word then Some (v, drop (length word) s) else None)"

text \<open>A later member of an object replaces an earlier one of the same name.\<close>

definition object_of :: "(string \<times> json) list \<Rightarrow> json" where
  "object_of kvs = JObj (foldl (\<lambda>acc (k, v). AList.update k v acc) [] kvs)"

fun parse_value :: "nat \<Rightarrow> string \<Rightarrow> (json \<times> string) option"
  and parse_elems :: "nat \<Rightarrow> string \<Rightarrow> (json list \<times> string) option"
  and parse_members :: "nat \<Rightarrow> string \<Rightarrow> ((string \<times> json) list \<times> string) option"
where
  "parse_value 0 s = None"
| "parse_value (Suc fuel) s =
     (case skip_ws s of
        [] \<Rightarrow> None
      | c # cs \<Rightarrow>
          if c = CHR 0x22 then map_option (\<lambda>(t, rest). (JStr t, rest)) (parse_string cs)
          else if c = CHR ''['' then
            (case skip_ws cs of
               [] \<Rightarrow> None
             | d # rest \<Rightarrow> if d = CHR '']'' then Some (JArr [], rest)
                         else map_option (\<lambda>(vs, rest). (JArr vs, rest)) (parse_elems fuel cs))
          else if c = CHR ''{'' then
            (case skip_ws cs of
               [] \<Rightarrow> None
             | d # rest \<Rightarrow> if d = CHR ''}'' then Some (JObj [], rest)
                         else map_option (\<lambda>(kvs, rest). (object_of kvs, rest)) (parse_members fuel cs))
          else if c = CHR ''n'' then literal ''null'' JNull (c # cs)
          else if c = CHR ''t'' then literal ''true'' (JBool True) (c # cs)
          else if c = CHR ''f'' then literal ''false'' (JBool False) (c # cs)
          else parse_number (c # cs))"
| "parse_elems 0 s = None"
| "parse_elems (Suc fuel) s =
     (case parse_value fuel s of
        None \<Rightarrow> None
      | Some (v, rest) \<Rightarrow>
          (case skip_ws rest of
             [] \<Rightarrow> None
           | c # cs \<Rightarrow>
               if c = CHR '']'' then Some ([v], cs)
               else if c = CHR '','' then cons_fst v (parse_elems fuel cs)
               else None))"
| "parse_members 0 s = None"
| "parse_members (Suc fuel) s =
     (case skip_ws s of
        [] \<Rightarrow> None
      | q # cs \<Rightarrow>
          if q \<noteq> CHR 0x22 then None
          else
            (case parse_string cs of
               None \<Rightarrow> None
             | Some (k, rest) \<Rightarrow>
                 (case skip_ws rest of
                    [] \<Rightarrow> None
                  | c # cs1 \<Rightarrow>
                      if c \<noteq> CHR '':'' then None
                      else
                        (case parse_value fuel cs1 of
                           None \<Rightarrow> None
                         | Some (v, rest1) \<Rightarrow>
                             (case skip_ws rest1 of
                                [] \<Rightarrow> None
                              | d # cs2 \<Rightarrow>
                                  if d = CHR ''}'' then Some ([(k, v)], cs2)
                                  else if d = CHR '','' then cons_fst (k, v) (parse_members fuel cs2)
                                  else None)))))"

text \<open>\<open>JSON.parse\<close>: \<open>None\<close> when it throws.  Every recursive call has consumed a character or
  follows one that does, so twice the length is fuel enough.\<close>

definition json_parse :: "string \<Rightarrow> json option" where
  "json_parse s =
     (case parse_value (2 * length s + 2) s of
        Some (v, rest) \<Rightarrow> if skip_ws rest = [] then Some v else None
      | None \<Rightarrow> None)"

section \<open>Parsing undoes printing\<close>

text \<open>Values whose text is exact: no number needs more than twenty fractional digits, and the
  members of an object have different names.\<close>

fun json_ok :: "json \<Rightarrow> bool" where
  "json_ok (JNum r) = (of_int \<lfloor>r * 10 ^ 20\<rfloor> = r * 10 ^ 20)"
| "json_ok (JArr vs) = list_all json_ok vs"
| "json_ok (JObj kvs) = (distinct (map fst kvs) \<and> list_all (\<lambda>(k, v). json_ok v) kvs)"
| "json_ok _ = True"

lemma hex_value4_digit: "d < 16 \<Longrightarrow> hex_value4 (if d < 10 then char_of (48 + d) else char_of (87 + d)) = Some d"
  by (auto simp: hex_value4_def of_char_of)

lemma unicode_hex2: "n < 32 \<Longrightarrow> unicode_char (CHR ''0'') (CHR ''0'') (hex2 n ! 0) (hex2 n ! 1) = Some (char_of n)"
proof -
  have "hex_value4 (CHR ''0'') = Some 0" by (simp add: hex_value4_def)
  then show "n < 32 \<Longrightarrow> ?thesis"
    using hex_value4_digit [of "n div 16"] hex_value4_digit [of "n mod 16"]
    by (auto simp: unicode_char_def hex2_def Let_def)
qed

lemma escaped_chars:
  "char_of (8 :: nat) = CHR 0x08" "char_of (9 :: nat) = CHR 0x09" "char_of (10 :: nat) = CHR 0x0A" "char_of (12 :: nat) = CHR 0x0C"
  "char_of (13 :: nat) = CHR 0x0D" "char_of (34 :: nat) = CHR 0x22" "char_of (92 :: nat) = CHR 0x5C"
  by code_simp+

lemma parse_escape: "parse_string (json_escape c @ t) = cons_fst c (parse_string t)"
proof -
  define n where "n = (of_char c :: nat)"
  have c: "c = char_of n" by (simp add: n_def)
  have hex: "hex2 n = [hex2 n ! 0, hex2 n ! 1]" by (simp add: hex2_def Let_def)
  consider "n < 32" "n \<notin> {8, 9, 10, 12, 13}" | "n \<in> {8, 9, 10, 12, 13, 34, 92}" | "32 \<le> n" "n \<noteq> 34" "n \<noteq> 92"
    by (cases "n < 32") auto
  then show ?thesis
  proof cases
    case 1
    then have "json_escape c = CHR 0x5C # CHR ''u'' # CHR ''0'' # CHR ''0'' # hex2 n ! 0 # hex2 n ! 1 # []"
      by (subst hex [symmetric]) (simp add: json_escape_def n_def [symmetric])
    with unicode_hex2 [OF 1(1)] show ?thesis by (simp add: c)
  next
    case 2
    then show ?thesis unfolding c by (elim insertE emptyE) (simp_all add: json_escape_def simple_escape_def escaped_chars)
  next
    case 3
    have "c \<noteq> CHR 0x22" "c \<noteq> CHR 0x5C" using 3 n_def by auto
    with 3 show ?thesis by (simp add: json_escape_def n_def [symmetric])
  qed
qed

lemma parse_string_escape: "parse_string (concat (map json_escape s) @ CHR 0x22 # rest) = Some (s, rest)"
  by (induction s) (simp_all add: parse_escape cons_fst_def del: parse_string.simps(2), simp)

section \<open>Numbers\<close>

definition num_end :: "string \<Rightarrow> bool" where
  "num_end s = (case s of [] \<Rightarrow> True | c # _ \<Rightarrow> \<not> is_digit c \<and> c \<notin> {CHR ''.'', CHR ''e'', CHR ''E''})"

lemma digits_split:
  "list_all is_digit ds \<Longrightarrow> (case s of [] \<Rightarrow> True | c # _ \<Rightarrow> \<not> is_digit c) \<Longrightarrow>
     takeWhile is_digit (ds @ s) = ds \<and> dropWhile is_digit (ds @ s) = s"
  by (induction ds) (auto split: list.splits)

lemma show_nat_no_leading_zero: "1 < length (show_nat n) \<Longrightarrow> hd (show_nat n) \<noteq> CHR ''0''"
proof (induction n rule: show_nat.induct)
  case (1 n)
  show ?case
  proof (cases "n < 10")
    case True
    with 1 show ?thesis by (subst (asm) show_nat.simps) simp
  next
    case False
    have hd: "hd (show_nat n) = hd (show_nat (n div 10))"
      using False by (subst show_nat.simps) (simp add: show_nat_nonempty)
    show ?thesis
    proof (cases "n div 10 < 10")
      case True
      then have "0 < n div 10" "of_char (digit_char (n div 10)) = (48 :: nat) + n div 10"
        using False by (simp_all add: of_char_digit)
      then have "digit_char (n div 10) \<noteq> CHR ''0''" by auto
      with True hd show ?thesis by (subst (asm) (2) show_nat.simps) simp
    next
      case 2: False
      then have "1 < length (show_nat (n div 10))"
        by (subst show_nat.simps) (simp add: show_nat_nonempty Suc_le_eq)
      with "1.IH" False hd show ?thesis by simp
    qed
  qed
qed

lemma digit_value_digit_char: "n < 10 \<Longrightarrow> digit_value (digit_char n) = n"
  by (simp add: digit_value_def of_char_digit)

text \<open>The printed digits of a fraction denote it when it needs no more of them.\<close>

lemma fraction_digits:
  assumes "0 \<le> r" "r < 1" "of_int \<lfloor>r * 10 ^ n\<rfloor> = r * 10 ^ n"
  shows "list_all is_digit (frac_digits n r) \<and> fraction_value (frac_digits n r) = r \<and> (r = 0 \<or> frac_digits n r \<noteq> [])"
  using assms
proof (induction n arbitrary: r)
  case 0
  then have "\<lfloor>r\<rfloor> = 0" by (simp add: floor_eq_iff)
  with 0 show ?case by simp
next
  case (Suc n)
  let ?d = "nat \<lfloor>r * 10\<rfloor>" let ?r = "r * 10 - of_int \<lfloor>r * 10\<rfloor>"
  have d: "0 \<le> \<lfloor>r * 10\<rfloor>" "\<lfloor>r * 10\<rfloor> < 10" using Suc.prems(1,2) by (auto simp: floor_less_iff)
  have e: "?r * 10 ^ n = r * 10 ^ Suc n - of_int (\<lfloor>r * 10\<rfloor> * 10 ^ n)" by (simp add: algebra_simps)
  have "of_int \<lfloor>?r * 10 ^ n\<rfloor> = ?r * 10 ^ n"
    unfolding e using Suc.prems(3) by (metis floor_of_int of_int_diff)
  from Suc.IH [OF _ _ this] have IH: "list_all is_digit (frac_digits n ?r)" "fraction_value (frac_digits n ?r) = ?r"
    by (simp_all add: floor_correct frac_lt_1 [unfolded frac_def])
  have "?d < 10" "rat_of_nat ?d = of_int \<lfloor>r * 10\<rfloor>" using d by linarith+
  then have "is_digit (digit_char ?d)" "rat_of_nat (digit_value (digit_char ?d)) = of_int \<lfloor>r * 10\<rfloor>"
    by (simp_all add: is_digit_digit_char digit_value_digit_char)
  with IH show ?case by simp
qed

lemma digits_end: "num_end s \<Longrightarrow> (case s of [] \<Rightarrow> True | c # _ \<Rightarrow> \<not> is_digit c)"
  by (auto simp: num_end_def split: list.splits)

lemma parse_exponent_end: "num_end s \<Longrightarrow> parse_exponent s = Some (0, s)"
  by (auto simp: num_end_def parse_exponent_def split: list.splits)

lemma show_nat_first: "\<exists>c cs. show_nat n = c # cs \<and> is_digit c"
  using show_nat_digits [of n] show_nat_nonempty [of n] by (cases "show_nat n") auto

text \<open>A number without its sign.\<close>

definition unsigned_text :: "rat \<Rightarrow> string" where
  "unsigned_text r =
     (if of_int \<lfloor>r\<rfloor> = r then show_nat (nat \<lfloor>r\<rfloor>)
      else show_nat (nat \<lfloor>r\<rfloor>) @ ''.'' @ frac_digits 20 (r - of_int \<lfloor>r\<rfloor>))"

lemma show_rat_unsigned: "show_rat r = (if r < 0 then CHR ''-'' # unsigned_text (- r) else unsigned_text r)"
proof -
  have neg: "(of_int \<lfloor>- r\<rfloor> = - r) = (of_int \<lfloor>r\<rfloor> = r)"
    by (metis add.inverse_inverse floor_of_int of_int_minus)
  have int: "\<lfloor>- r\<rfloor> = - \<lfloor>r\<rfloor>" if "of_int \<lfloor>r\<rfloor> = r"
    using that by (metis floor_of_int of_int_minus)
  have sign: "\<lfloor>r\<rfloor> < 0 \<longleftrightarrow> r < 0" by (simp add: floor_less_zero)
  show ?thesis
    using neg int sign by (auto simp: show_rat_def unsigned_text_def show_int_def)
qed

lemma parse_magnitude_text:
  assumes "0 \<le> r" "json_ok (JNum r)" "num_end rest"
  shows "parse_magnitude neg (unsigned_text r @ rest) = Some (JNum (if neg then - r else r), rest)"
proof -
  let ?n = "nat \<lfloor>r\<rfloor>" let ?f = "r - of_int \<lfloor>r\<rfloor>"
  have n: "rat_of_int (int ?n) = of_int \<lfloor>r\<rfloor>" using assms(1) by simp
  have f: "0 \<le> ?f" "?f < 1" using frac_lt_1 [of r] by (simp_all add: frac_def)
  have e: "?f * 10 ^ 20 = r * 10 ^ 20 - of_int (\<lfloor>r\<rfloor> * 10 ^ 20)" by (simp add: algebra_simps)
  obtain k where k: "r * 10 ^ 20 = of_int k" using assms(2) by (metis json_ok.simps(1))
  have "?f * 10 ^ 20 = of_int (k - \<lfloor>r\<rfloor> * 10 ^ 20)" unfolding e k by simp
  then have "of_int \<lfloor>?f * 10 ^ 20\<rfloor> = ?f * 10 ^ 20" by (metis floor_of_int)
  note fd = fraction_digits [OF f this]
  note zero = show_nat_no_leading_zero [of ?n]
  have dot: "\<not> is_digit (CHR ''.'')" by (simp add: is_digit_def)
  have int: "takeWhile is_digit (show_nat ?n @ rest) = show_nat ?n" "dropWhile is_digit (show_nat ?n @ rest) = rest"
    using digits_split [OF show_nat_digits digits_end [OF assms(3)]] by blast+
  have dotted: "takeWhile is_digit (show_nat ?n @ CHR ''.'' # t) = show_nat ?n" "dropWhile is_digit (show_nat ?n @ CHR ''.'' # t) = CHR ''.'' # t" for t
    using digits_split [OF show_nat_digits, of "CHR ''.'' # t" ?n] dot by simp_all
  have frac: "takeWhile is_digit (frac_digits 20 ?f @ rest) = frac_digits 20 ?f" "dropWhile is_digit (frac_digits 20 ?f @ rest) = rest"
    using digits_split [OF conjunct1 [OF fd] digits_end [OF assms(3)]] by blast+
  have ending: "number_with neg v rest = Some (JNum (if neg then - v else v), rest)" for v
    using parse_exponent_end [OF assms(3)] by (simp add: number_with_def scale10_def)
  show ?thesis
  proof (cases "of_int \<lfloor>r\<rfloor> = r")
    case True
    then have printed: "unsigned_text r = show_nat ?n" by (simp add: unsigned_text_def)
    have "rest = [] \<or> (\<exists>c cs. rest = c # cs \<and> c \<noteq> CHR ''.'')"
      using assms(3) by (cases rest) (auto simp: num_end_def)
    then show ?thesis
      unfolding printed parse_magnitude_def int Let_def parse_show_nat
      using zero True n show_nat_nonempty [of ?n] ending by (auto split: list.split)
  next
    case False
    then have printed: "unsigned_text r @ rest = show_nat ?n @ CHR ''.'' # (frac_digits 20 ?f @ rest)" by (simp add: unsigned_text_def)
    have "frac_digits 20 ?f \<noteq> []" using fd False by auto
    moreover have "of_int (int ?n) + fraction_value (frac_digits 20 ?f) = r" using fd n by simp
    ultimately show ?thesis
      unfolding printed parse_magnitude_def dotted Let_def parse_show_nat
      using zero show_nat_nonempty [of ?n] ending by (simp add: frac)
  qed
qed

lemma unsigned_text_first: "\<exists>c cs. unsigned_text r @ rest = c # cs \<and> is_digit c"
proof -
  obtain c cs where "show_nat (nat \<lfloor>r\<rfloor>) = c # cs" "is_digit c" using show_nat_first by blast
  then show ?thesis by (simp add: unsigned_text_def)
qed

lemma parse_number_text:
  assumes "json_ok (JNum r)" "num_end rest"
  shows "parse_number (show_rat r @ rest) = Some (JNum r, rest)"
proof (cases "r < 0")
  case True
  obtain k where "r * 10 ^ 20 = of_int k" using assms(1) by (metis json_ok.simps(1))
  then have "- r * 10 ^ 20 = of_int (- k)" by simp
  then have "json_ok (JNum (- r))" unfolding json_ok.simps by (metis floor_of_int)
  with True assms(2) show ?thesis
    by (simp add: show_rat_unsigned parse_number_def parse_magnitude_text)
next
  case False
  obtain c cs where c: "unsigned_text r @ rest = c # cs" "is_digit c" using unsigned_text_first by blast
  then have "c \<noteq> CHR ''-''" by (auto simp: is_digit_def)
  with False assms c parse_magnitude_text [of r rest False] show ?thesis
    by (simp add: show_rat_unsigned parse_number_def)
qed

section \<open>Values\<close>

text \<open>The text of a value starts with a character that tells its kind, and is no white space.\<close>

definition starts_value :: "char \<Rightarrow> bool" where
  "starts_value c \<longleftrightarrow> c \<in> {CHR ''n'', CHR ''t'', CHR ''f'', CHR 0x22, CHR ''['', CHR ''{'', CHR ''-''} \<or> is_digit c"

lemma stringify_first: "\<exists>c cs. json_stringify v = c # cs \<and> starts_value c"
proof (cases v)
  case (JNum r)
  then show ?thesis
    using unsigned_text_first [of r "[]"] by (auto simp: show_rat_unsigned starts_value_def)
qed (auto simp: starts_value_def json_quote_def)

lemma starts_value_plain:
  "starts_value c \<Longrightarrow> c \<notin> {CHR '' '', CHR 0x09, CHR 0x0A, CHR 0x0D} \<and> c \<noteq> CHR '']'' \<and> c \<noteq> CHR ''}''"
  by (auto simp: starts_value_def is_digit_def)

lemma skip_ws_plain: "c \<notin> {CHR '' '', CHR 0x09, CHR 0x0A, CHR 0x0D} \<Longrightarrow> skip_ws (c # cs) = c # cs"
  by (simp add: skip_ws_def)

lemma skip_ws_stringify: "skip_ws (json_stringify v @ rest) = json_stringify v @ rest"
  using stringify_first [of v] starts_value_plain by (auto simp: skip_ws_plain)

lemma num_end_punct [simp]: "num_end (CHR '','' # s)" "num_end (CHR '']'' # s)" "num_end (CHR ''}'' # s)" "num_end []"
  by (simp_all add: num_end_def is_digit_def)

definition parses :: "json \<Rightarrow> bool" where
  "parses v \<longleftrightarrow> (\<forall>fuel rest. 2 * length (json_stringify v) \<le> fuel \<longrightarrow> num_end rest \<longrightarrow>
     parse_value fuel (json_stringify v @ rest) = Some (v, rest))"

lemma join_with_Cons2: "join_with sep (w # w' # ws) = w @ sep @ join_with sep (w' # ws)"
  by (simp add: join_with_def)

lemma join_with_single: "join_with sep [w] = w"
  by (simp add: join_with_def)

lemma parse_elems_text:
  assumes "vs \<noteq> []" "list_all parses vs" "2 * length (join_with '','' (map json_stringify vs)) + 1 \<le> fuel"
  shows "parse_elems fuel (join_with '','' (map json_stringify vs) @ CHR '']'' # rest) = Some (vs, rest)"
  using assms
proof (induction vs arbitrary: fuel)
  case (Cons v vs)
  then obtain f where f: "fuel = Suc f" by (cases fuel) auto
  have v: "num_end s \<Longrightarrow> 2 * length (json_stringify v) \<le> f \<Longrightarrow> parse_value f (json_stringify v @ s) = Some (v, s)" for s
    using Cons.prems(2) by (simp add: parses_def)
  show ?case
  proof (cases vs)
    case Nil
    with Cons.prems(3) f v show ?thesis by (simp add: join_with_single skip_ws_plain)
  next
    case (Cons w ws)
    let ?t = "join_with '','' (map json_stringify vs)"
    have len: "2 * length (json_stringify v) \<le> f" "2 * length ?t + 1 \<le> f"
      using Cons.prems(3) f Cons by (simp_all add: join_with_Cons2)
    have "parse_elems f (?t @ CHR '']'' # rest) = Some (vs, rest)"
      using Cons.IH Cons.prems(2) len(2) Cons by simp
    with v [OF _ len(1), of "CHR '','' # ?t @ CHR '']'' # rest"] show ?thesis
      by (simp add: f Cons join_with_Cons2 skip_ws_plain cons_fst_def)
  qed
qed simp

definition json_member_text :: "string \<times> json \<Rightarrow> string" where
  "json_member_text = (\<lambda>(k, v). json_quote k @ '':'' @ json_stringify v)"

lemma parse_members_text:
  assumes "kvs \<noteq> []" "list_all (\<lambda>(k, v). parses v) kvs" "2 * length (join_with '','' (map json_member_text kvs)) + 1 \<le> fuel"
  shows "parse_members fuel (join_with '','' (map json_member_text kvs) @ CHR ''}'' # rest) = Some (kvs, rest)"
  using assms
proof (induction kvs arbitrary: fuel)
  case (Cons kv kvs)
  obtain k v where kv: "kv = (k, v)" by fastforce
  obtain f where f: "fuel = Suc f" using Cons.prems(3) by (cases fuel) auto
  have v: "num_end s \<Longrightarrow> 2 * length (json_stringify v) \<le> f \<Longrightarrow> parse_value f (json_stringify v @ s) = Some (v, s)" for s
    using Cons.prems(2) by (simp add: parses_def kv)
  have key: "json_member_text kv @ s = CHR 0x22 # concat (map json_escape k) @ CHR 0x22 # CHR '':'' # json_stringify v @ s" for s
    by (simp add: json_member_text_def kv json_quote_def)
  have ws: "skip_ws (CHR 0x22 # s) = CHR 0x22 # s" "skip_ws (CHR '':'' # s) = CHR '':'' # s" for s
    by (simp_all add: skip_ws_plain)
  show ?case
  proof (cases kvs)
    case Nil
    then have "2 * length (json_stringify v) \<le> f"
      using Cons.prems(3) f by (simp add: join_with_single json_member_text_def kv)
    with Nil v show ?thesis
      by (simp add: f join_with_single key ws parse_string_escape skip_ws_plain) (simp add: kv)
  next
    case (Cons w ws')
    let ?t = "join_with '','' (map json_member_text kvs)"
    have len: "2 * length (json_stringify v) \<le> f" "2 * length ?t + 1 \<le> f"
      using Cons.prems(3) f Cons by (simp_all add: join_with_Cons2 json_member_text_def kv)
    have "parse_members f (?t @ CHR ''}'' # rest) = Some (kvs, rest)"
      using Cons.IH Cons.prems(2) len(2) Cons by simp
    with v [OF _ len(1), of "CHR '','' # ?t @ CHR ''}'' # rest"] show ?thesis
      by (simp add: f Cons join_with_Cons2 key ws parse_string_escape skip_ws_plain cons_fst_def) (simp add: kv)
  qed
qed simp

lemma stringify_obj: "json_stringify (JObj kvs) = ''{'' @ join_with '','' (map json_member_text kvs) @ ''}''"
  by (simp add: json_member_text_def)

lemma object_of_distinct: "distinct (map fst kvs) \<Longrightarrow> object_of kvs = JObj kvs"
  using foldl_update_distinct [of "[]" kvs] by (simp add: object_of_def)

lemma parses_step: "2 * length (json_stringify v) \<le> fuel \<Longrightarrow> \<exists>f. fuel = Suc f"
  using stringify_first [of v] by (cases fuel) auto

lemma parses_number: "json_ok (JNum r) \<Longrightarrow> parses (JNum r)"
  unfolding parses_def
proof (intro allI impI)
  fix fuel rest
  assume ok: "json_ok (JNum r)" "2 * length (json_stringify (JNum r)) \<le> fuel" "num_end rest"
  obtain f where f: "fuel = Suc f" using parses_step [OF ok(2)] by blast
  obtain c cs where c: "show_rat r = c # cs" "c = CHR ''-'' \<or> is_digit c"
    using unsigned_text_first [of r "[]"] by (cases "r < 0") (auto simp: show_rat_unsigned)
  then have "c \<notin> {CHR 0x22, CHR ''['', CHR ''{'', CHR ''n'', CHR ''t'', CHR ''f'', CHR '' '', CHR 0x09, CHR 0x0A, CHR 0x0D}"
    by (auto simp: is_digit_def)
  with c parse_number_text [OF ok(1,3)] show "parse_value fuel (json_stringify (JNum r) @ rest) = Some (JNum r, rest)"
    by (simp add: f skip_ws_plain)
qed

lemma parses_array:
  assumes "list_all parses vs"
  shows "parses (JArr vs)"
  unfolding parses_def
proof (intro allI impI)
  fix fuel rest
  assume fuel: "2 * length (json_stringify (JArr vs)) \<le> fuel"
  obtain f where f: "fuel = Suc f" using parses_step [OF fuel] by blast
  let ?t = "join_with '','' (map json_stringify vs)"
  have ws: "skip_ws (CHR ''['' # s) = CHR ''['' # s" "skip_ws (CHR '']'' # s) = CHR '']'' # s" for s
    by (simp_all add: skip_ws_plain)
  show "parse_value fuel (json_stringify (JArr vs) @ rest) = Some (JArr vs, rest)"
  proof (cases vs)
    case Nil
    then show ?thesis by (simp add: f ws join_with_def)
  next
    case (Cons v us)
    obtain c cs where c: "json_stringify v = c # cs" "starts_value c" using stringify_first by blast
    then have first: "\<exists>cs'. ?t @ CHR '']'' # rest = c # cs'" by (simp add: Cons join_with_def)
    have "skip_ws (?t @ CHR '']'' # rest) = ?t @ CHR '']'' # rest"
      using first starts_value_plain [OF c(2)] by (auto simp: skip_ws_plain)
    moreover have "parse_elems f (?t @ CHR '']'' # rest) = Some (vs, rest)"
      using fuel f Cons assms by (intro parse_elems_text) simp_all
    ultimately show ?thesis
      using first starts_value_plain [OF c(2)] by (auto simp: f ws)
  qed
qed

lemma parses_object:
  assumes "list_all (\<lambda>(k, v). parses v) kvs" and "distinct (map fst kvs)"
  shows "parses (JObj kvs)"
  unfolding parses_def stringify_obj
proof (intro allI impI)
  fix fuel rest
  assume fuel: "2 * length (''{'' @ join_with '','' (map json_member_text kvs) @ ''}'') \<le> fuel"
  then obtain f where f: "fuel = Suc f" by (cases fuel) auto
  let ?t = "join_with '','' (map json_member_text kvs)"
  have ws: "skip_ws (CHR ''{'' # s) = CHR ''{'' # s" "skip_ws (CHR ''}'' # s) = CHR ''}'' # s" "skip_ws (CHR 0x22 # s) = CHR 0x22 # s" for s
    by (simp_all add: skip_ws_plain)
  show "parse_value fuel ((''{'' @ ?t @ ''}'') @ rest) = Some (JObj kvs, rest)"
  proof (cases kvs)
    case Nil
    then show ?thesis by (simp add: f ws join_with_def)
  next
    case (Cons kv us)
    then have first: "\<exists>cs'. ?t @ CHR ''}'' # rest = CHR 0x22 # cs'"
      by (cases kv) (simp add: join_with_def json_member_text_def json_quote_def)
    moreover have "parse_members f (?t @ CHR ''}'' # rest) = Some (kvs, rest)"
      using fuel f Cons assms(1) by (intro parse_members_text) simp_all
    ultimately show ?thesis
      using object_of_distinct [OF assms(2)] by (auto simp: f ws)
  qed
qed

lemma parses_literal:
  assumes "\<And>f rest. parse_value (Suc f) (json_stringify v @ rest) = Some (v, rest)"
  shows "parses v"
  unfolding parses_def using assms parses_step [of v] by blast

lemma json_ok_parses: "json_ok v \<Longrightarrow> parses v"
proof (induction v)
  case (JArr vs)
  then show ?case by (intro parses_array) (simp add: list_all_iff)
next
  case (JObj kvs)
  then show ?case by (intro parses_object) (fastforce simp: list_all_iff)+
next
  case (JStr s)
  show ?case unfolding parses_def
  proof (intro allI impI)
    fix fuel rest
    assume fuel: "2 * length (json_stringify (JStr s)) \<le> fuel"
    obtain f where "fuel = Suc f" using parses_step [OF fuel] by blast
    then show "parse_value fuel (json_stringify (JStr s) @ rest) = Some (JStr s, rest)"
      by (simp add: json_quote_def skip_ws_plain parse_string_escape)
  qed
next
  case (JNum r)
  then show ?case by (rule parses_number)
next
  case JNull
  show ?case by (rule parses_literal) (simp_all add: skip_ws_plain literal_def starts_with_def)
next
  case (JBool b)
  show ?case by (cases b; rule parses_literal) (simp_all add: skip_ws_plain literal_def starts_with_def)
qed

lemma parse_stringify: "json_ok v \<Longrightarrow> json_parse (json_stringify v) = Some v"
proof -
  assume "json_ok v"
  then have "parse_value (2 * length (json_stringify v) + 2) (json_stringify v @ []) = Some (v, [])"
    using json_ok_parses [of v] unfolding parses_def by (metis le_add1 num_end_punct(4))
  then show ?thesis by (simp add: json_parse_def skip_ws_def)
qed

end
