(* ===== verification/Cache.thy ===== *)
theory Cache
  imports Express Json_Text
begin

text \<open>
  The Redis client wrapper (\<open>packages/shared/src/cache/RedisClient.ts\<close>) and the HTTP idempotency
  middleware it backs (\<open>packages/shared/src/middleware/idempotency.ts\<close>).  Redis itself is the
  documented behaviour of its string commands on a keyspace with deadlines; \<open>rs_up\<close> says whether it
  answers.  Instants are milliseconds.
\<close>

section \<open>Redis strings\<close>

record redis =
  rs_values :: "string \<Rightarrow> (string \<times> int option) option"
  rs_up :: bool

definition redis_live :: "int \<Rightarrow> redis \<Rightarrow> string \<Rightarrow> string option" where
  "redis_live t r k =
     (case rs_values r k of
        None \<Rightarrow> None
      | Some (v, deadline) \<Rightarrow> (case deadline of Some d \<Rightarrow> if d \<le> t then None else Some v | None \<Rightarrow> Some v))"

definition redis_write :: "string \<Rightarrow> string \<Rightarrow> int option \<Rightarrow> redis \<Rightarrow> redis" where
  "redis_write k v deadline r = r\<lparr>rs_values := (rs_values r)(k \<mapsto> (v, deadline))\<rparr>"

definition redis_down :: js_error where
  "redis_down = LibraryError ''Reached the max retries per request limit''"

section \<open>RedisClient\<close>

text \<open>\<open>null\<close> for a missing key; a value that is no JSON is returned as the string it is.\<close>

definition redis_get :: "int \<Rightarrow> string \<Rightarrow> (redis, js_error, json) eff" where
  "redis_get t key r =
     (if \<not> rs_up r then (Inl redis_down, r)
      else case redis_live t r key of
        None \<Rightarrow> (Inr JNull, r)
      | Some v \<Rightarrow> (case json_parse v of Some j \<Rightarrow> (Inr j, r) | None \<Rightarrow> (Inr (JStr v), r)))"

definition redis_serialize :: "json \<Rightarrow> string" where
  "redis_serialize v = (case v of JStr s \<Rightarrow> s | _ \<Rightarrow> json_stringify v)"

definition redis_set :: "int \<Rightarrow> string \<Rightarrow> json \<Rightarrow> int option \<Rightarrow> (redis, js_error, unit) eff" where
  "redis_set t key v ttlSeconds r =
     (if \<not> rs_up r then (Inl redis_down, r)
      else
        (Inr (), redis_write key (redis_serialize v)
           (case ttlSeconds of Some n \<Rightarrow> if n = 0 then None else Some (t + 1000 * n) | None \<Rightarrow> None) r))"

definition redis_del :: "int \<Rightarrow> string \<Rightarrow> (redis, js_error, nat) eff" where
  "redis_del t key r =
     (if \<not> rs_up r then (Inl redis_down, r)
      else (Inr (if redis_live t r key = None then 0 else 1), r\<lparr>rs_values := (rs_values r)(key := None)\<rparr>))"

definition redis_exists :: "int \<Rightarrow> string \<Rightarrow> (redis, js_error, bool) eff" where
  "redis_exists t key r =
     (if \<not> rs_up r then (Inl redis_down, r) else (Inr (redis_live t r key \<noteq> None), r))"

definition redis_ping :: "redis \<Rightarrow> bool" where
  "redis_ping r = rs_up r"

text \<open>\<open>retryStrategy\<close>, and the flag that keeps a failure streak to one warning.\<close>

definition redis_retryStrategy :: "nat \<Rightarrow> nat" where
  "redis_retryStrategy attempt = min (attempt * 200) 5000"

definition redis_onConnect :: "bool \<Rightarrow> bool" where
  "redis_onConnect loggedError = False"

definition redis_onError :: "bool \<Rightarrow> bool \<times> bool" where
  "redis_onError loggedError = (if \<not> loggedError then (True, True) else (False, loggedError))"

section \<open>The store the middleware needs\<close>

text \<open>
  \<open>holds s t k\<close> is what a read of \<open>k\<close> at time \<open>t\<close> gives.  Values that are objects survive a write
  until their time to live has passed; an operation that rejects changes nothing.
\<close>

locale idempotency_store =
  fixes get :: "int \<Rightarrow> string \<Rightarrow> ('s, js_error, json) eff"
    and put :: "int \<Rightarrow> string \<Rightarrow> json \<Rightarrow> int option \<Rightarrow> ('s, js_error, unit) eff"
    and holds :: "'s \<Rightarrow> int \<Rightarrow> string \<Rightarrow> json"
  assumes get_reads: "get t k s = (Inr v, s') \<Longrightarrow> v = holds s t k \<and> s' = s"
    and get_rejects: "get t k s = (Inl e, s') \<Longrightarrow> s' = s"
    and set_holds: "put t k (JObj kvs) (Some ttl) s = (Inr u, s') \<Longrightarrow> json_ok (JObj kvs) \<Longrightarrow>
      t \<le> t' \<Longrightarrow> t' < t + 1000 * ttl \<Longrightarrow> holds s' t' k = JObj kvs"
    and set_frame: "put t k v expiry s = (r, s') \<Longrightarrow> k' \<noteq> k \<Longrightarrow> holds s' t' k' = holds s t' k'"
    and set_rejects: "put t k v expiry s = (Inl e, s') \<Longrightarrow> s' = s"

section \<open>The middleware\<close>

record idempotency_options =
  io_ttlSeconds :: "int option"
  io_headerName :: "string option"
  io_required :: bool

definition to_lower :: "string \<Rightarrow> string" where
  "to_lower s = map (\<lambda>c. let n = of_char c :: nat in if 65 \<le> n \<and> n \<le> 90 then char_of (n + 32) else c) s"

definition idempotency_header :: "idempotency_options \<Rightarrow> string" where
  "idempotency_header opts = to_lower (case io_headerName opts of Some h \<Rightarrow> h | None \<Rightarrow> ''idempotency-key'')"

definition cache_key :: "http_request \<Rightarrow> string \<Rightarrow> string" where
  "cache_key rq key = ''idempotency:'' @ rq_method rq @ '':'' @ rq_originalUrl rq @ '':'' @ key"

definition cached_response :: "int \<Rightarrow> json \<Rightarrow> json" where
  "cached_response code body = JObj [(''statusCode'', JNum (of_int code)), (''body'', body)]"

text \<open>The answer a cached value gives, \<open>None\<close> when answering with it throws.\<close>

definition replay_of :: "json \<Rightarrow> http_response option" where
  "replay_of cached =
     (case (Option.bind (json_get cached ''statusCode'') (\<lambda>v. js_integer v), json_get cached ''body'') of
        (Some code, Some body) \<Rightarrow> Some ((json_response code body)\<lparr>res_headers := [(''Idempotent-Replay'', ''true'')]\<rparr>)
      | _ \<Rightarrow> None)"

text \<open>
  What the client sees, and whether the write to the cache rejected: nobody awaits it, so its
  rejection is unhandled.
\<close>

datatype idempotency_result =
    Refused js_error
  | Answered http_response "js_error option"

text \<open>
  A request through the middleware at time \<open>now\<close>: \<open>handler\<close> is everything behind it, which answers
  through \<open>res.json\<close> at time \<open>done\<close>.
\<close>

definition idempotencyMiddleware ::
    "(int \<Rightarrow> string \<Rightarrow> ('s, js_error, json) eff) \<Rightarrow>
     (int \<Rightarrow> string \<Rightarrow> json \<Rightarrow> int option \<Rightarrow> ('s, js_error, unit) eff) \<Rightarrow> idempotency_options \<Rightarrow>
     ('a \<Rightarrow> http_response \<times> 'a) \<Rightarrow> int \<Rightarrow> int \<Rightarrow> http_request \<Rightarrow> 's \<times> 'a \<Rightarrow> idempotency_result \<times> ('s \<times> 'a)" where
  "idempotencyMiddleware get put opts handler now finished rq st =
     (let pass = (\<lambda>(s, a). case handler a of (res, a') \<Rightarrow> (Answered res None, (s, a'))) in
      case header_value rq (idempotency_header opts) of
        None \<Rightarrow>
          if io_required opts
          then (Refused (app_err ValidationError ((case io_headerName opts of Some h \<Rightarrow> h | None \<Rightarrow> ''Idempotency-Key'') @ '' header is required'')), st)
          else pass st
      | Some key \<Rightarrow>
          let cacheKey = cache_key rq key; ttlSeconds = (case io_ttlSeconds opts of Some n \<Rightarrow> n | None \<Rightarrow> 24 * 60 * 60)
          in case get now cacheKey (fst st) of
               (Inl _, s) \<Rightarrow> pass (s, snd st)
             | (Inr cached, s) \<Rightarrow>
                 if js_truthy cached then
                   (case replay_of cached of Some res \<Rightarrow> (Answered res None, (s, snd st)) | None \<Rightarrow> pass (s, snd st))
                 else
                   (case handler (snd st) of
                      (res, a') \<Rightarrow>
                        if 200 \<le> res_status res \<and> res_status res < 300 then
                          (case put finished cacheKey (cached_response (res_status res) (res_body res)) (Some ttlSeconds) s of
                             (r, s') \<Rightarrow> (Answered res (case r of Inl e \<Rightarrow> Some e | Inr _ \<Rightarrow> None), (s', a')))
                        else (Answered res None, (s, a'))))"

lemma replay_of_cached:
  "replay_of (cached_response code body) = Some \<lparr>res_status = code, res_headers = [(''Idempotent-Replay'', ''true'')], res_body = body\<rparr>"
  by (simp add: replay_of_def cached_response_def json_response_def)

context idempotency_store
begin

text \<open>A processed 2xx response is cached and replayed.\<close>

lemma first_response_cached:
  assumes "header_value rq (idempotency_header opts) = Some key" and "\<not> js_truthy (holds s now (cache_key rq key))"
    and "handler a = (res, a')" and "200 \<le> res_status res" "res_status res < 300" and "json_ok (res_body res)"
    and "idempotencyMiddleware get put opts handler now finished rq (s, a) = (Answered out None, (s', a''))"
    and up: "\<exists>v. get now (cache_key rq key) s = (Inr v, s)"
    and "finished \<le> later" and "later < finished + 1000 * (case io_ttlSeconds opts of Some n \<Rightarrow> n | None \<Rightarrow> 24 * 60 * 60)"
  shows "out = res \<and> a'' = a' \<and> holds s' later (cache_key rq key) = cached_response (res_status res) (res_body res)"
proof -
  let ?k = "cache_key rq key" let ?ttl = "case io_ttlSeconds opts of Some n \<Rightarrow> n | None \<Rightarrow> 24 * 60 * 60"
  from up obtain v where g: "get now ?k s = (Inr v, s)" by blast
  with get_reads assms(2) have v: "\<not> js_truthy v" by blast
  obtain r s2 where w: "put finished ?k (cached_response (res_status res) (res_body res)) (Some ?ttl) s = (r, s2)" by fastforce
  have out: "out = res" "a'' = a'" "s' = s2" "r = Inr ()"
    using assms(1,3-5,7) g v w by (auto simp: idempotencyMiddleware_def Let_def split: sum.splits)
  have "json_ok (cached_response (res_status res) (res_body res))"
    using assms(6) by (simp add: cached_response_def)
  then show ?thesis
    using set_holds [OF w [unfolded out(4) cached_response_def] _ assms(9,10)] out by (simp add: cached_response_def)
qed

lemma replays:
  assumes "header_value rq (idempotency_header opts) = Some key" and "holds s now (cache_key rq key) = cached_response code body"
    and "get now (cache_key rq key) s = (Inr v, s2)"
  shows "idempotencyMiddleware get put opts handler now finished rq (s, a) =
    (Answered \<lparr>res_status = code, res_headers = [(''Idempotent-Replay'', ''true'')], res_body = body\<rparr> None, (s, a))"
proof -
  have "v = cached_response code body" "s2 = s" using get_reads [OF assms(3)] assms(2) by auto
  moreover have "js_truthy (cached_response code body)" by (simp add: cached_response_def)
  ultimately show ?thesis
    using assms(1,3) by (simp add: idempotencyMiddleware_def Let_def replay_of_cached)
qed

text \<open>A request is refused for want of a key, answered from the cache, or handled.\<close>

lemma middleware_cases:
  assumes "idempotencyMiddleware get put opts handler now finished rq (s, a) = (out, (s', a'))"
  obtains (no_key) e where "out = Refused e" "io_required opts" "s' = s" "a' = a"
  | (replayed) res key where "header_value rq (idempotency_header opts) = Some key"
      "replay_of (holds s now (cache_key rq key)) = Some res" "out = Answered res None" "s' = s" "a' = a"
  | (processed) res e where "handler a = (res, a')" "out = Answered res e"
proof (cases "header_value rq (idempotency_header opts)")
  case None
  obtain res a1 where "handler a = (res, a1)" by fastforce
  with None assms no_key processed show thesis by (auto simp: idempotencyMiddleware_def Let_def split: if_splits)
next
  case (Some key)
  obtain res a1 where h: "handler a = (res, a1)" by fastforce
  obtain got s2 where g: "get now (cache_key rq key) s = (got, s2)" by fastforce
  show thesis
  proof (cases "\<exists>v res. got = Inr v \<and> js_truthy v \<and> replay_of v = Some res")
    case True
    then obtain v r where "got = Inr v" "js_truthy v" "replay_of v = Some r" by blast
    with assms Some g get_reads [of now "cache_key rq key" s v s2] replayed [of key r] show thesis
      by (auto simp: idempotencyMiddleware_def Let_def)
  next
    case False
    then have "a' = a1 \<and> (\<exists>e. out = Answered res e)"
      using assms Some g h by (cases got) (auto simp: idempotencyMiddleware_def Let_def split: option.splits if_splits prod.splits)
    with h processed show thesis by blast
  qed
qed

text \<open>Other answers leave no trace in the cache.\<close>

lemma unsuccessful_not_cached:
  assumes "handler a = (res, a')" and "\<not> (200 \<le> res_status res \<and> res_status res < 300)"
    and "idempotencyMiddleware get put opts handler now finished rq (s, a) = (r, (s', a''))"
  shows "s' = s"
  using assms
  by (auto simp: idempotencyMiddleware_def Let_def dest: get_reads get_rejects split: option.splits sum.splits prod.splits if_splits)

text \<open>Keys of other requests are not touched.\<close>

lemma other_keys_kept:
  assumes "idempotencyMiddleware get put opts handler now finished rq (s, a) = (r, (s', a'))"
    and "\<And>key. header_value rq (idempotency_header opts) = Some key \<Longrightarrow> k \<noteq> cache_key rq key"
  shows "holds s' t k = holds s t k"
  using assms
  by (auto simp: idempotencyMiddleware_def Let_def dest!: get_reads get_rejects set_frame [where k' = k]
      split: option.splits sum.splits prod.splits if_splits)

end

section \<open>The Redis client is such a store\<close>

definition redis_holds :: "redis \<Rightarrow> int \<Rightarrow> string \<Rightarrow> json" where
  "redis_holds r t k =
     (case redis_live t r k of
        None \<Rightarrow> JNull
      | Some v \<Rightarrow> (case json_parse v of Some j \<Rightarrow> j | None \<Rightarrow> JStr v))"

lemma redis_write_up [simp]: "rs_up (redis_write k v dl r) = rs_up r"
  by (simp add: redis_write_def)

lemma redis_live_write:
  "redis_live t (redis_write k v dl r) k' =
     (if k' = k then (case dl of Some d \<Rightarrow> if d \<le> t then None else Some v | None \<Rightarrow> Some v) else redis_live t r k')"
  by (auto simp: redis_live_def redis_write_def split: option.split)

interpretation redis_cache: idempotency_store redis_get redis_set redis_holds
proof (unfold_locales, goal_cases)
  case (3 t k kvs ttl s u s' t')
  then show ?case
    by (auto simp: redis_set_def redis_holds_def redis_live_write redis_serialize_def parse_stringify
        simp del: json_stringify.simps json_ok.simps split: if_splits)
next
  case (4 t k v ttl s r s' k' t')
  then show ?case by (auto simp: redis_set_def redis_holds_def redis_live_write split: if_splits)
qed (auto simp: redis_get_def redis_set_def redis_holds_def split: if_splits option.splits)

text \<open>A successful answer is given again to every later request for the same key, method and URL.\<close>

lemma redis_replays:
  assumes key: "header_value rq (idempotency_header opts) = Some key" and up: "rs_up c" and fresh: "redis_live now c (cache_key rq key) = None"
    and first: "idempotencyMiddleware redis_get redis_set opts handler now finished rq (c, a) = (Answered res e, (c', a'))"
    and ok: "200 \<le> res_status res" "res_status res < 300" "json_ok (res_body res)"
    and again: "header_value rq' (idempotency_header opts) = Some key" "rq_method rq' = rq_method rq" "rq_originalUrl rq' = rq_originalUrl rq"
    and time: "finished \<le> later" "later < finished + 1000 * (case io_ttlSeconds opts of Some n \<Rightarrow> n | None \<Rightarrow> 24 * 60 * 60)"
  shows "idempotencyMiddleware redis_get redis_set opts handler' later finished' rq' (c', b) =
    (Answered \<lparr>res_status = res_status res, res_headers = [(''Idempotent-Replay'', ''true'')], res_body = res_body res\<rparr> None, (c', b))"
proof -
  have holds: "redis_holds c now (cache_key rq key) = JNull" using fresh by (simp add: redis_holds_def)
  have get: "redis_get now (cache_key rq key) c = (Inr JNull, c)" using up fresh by (simp add: redis_get_def)
  obtain r a1 where act: "handler a = (r, a1)" by fastforce
  have r: "r = res" "a' = a1" "e = None" "rs_up c'"
    using first key get act ok up by (auto simp: idempotencyMiddleware_def redis_set_def Let_def split: if_splits prod.splits)
  have cached: "redis_holds c' later (cache_key rq key) = cached_response (res_status res) (res_body res)"
    using redis_cache.first_response_cached [of rq opts key c now handler a res a1 finished res c' a' later]
      key holds act r ok get first time by simp
  have "redis_get later (cache_key rq key) c' = (Inr (redis_holds c' later (cache_key rq key)), c')"
    using r(4) by (auto simp: redis_get_def redis_holds_def split: option.split)
  moreover have "cache_key rq' key = cache_key rq key" using again by (simp add: cache_key_def)
  ultimately show ?thesis using again(1) cached by (intro redis_cache.replays [where key = key]) simp_all
qed

text \<open>What \<open>set\<close> wrote \<open>get\<close> reads, unless it is a string that happens to be JSON.\<close>

lemma redis_roundtrip:
  assumes "redis_set t key v ttl r = (Inr (), r')" and "json_ok v" and "\<And>s. v = JStr s \<Longrightarrow> json_parse s = None"
    and "t \<le> t'" and "\<And>n. ttl = Some n \<Longrightarrow> n = 0 \<or> t' < t + 1000 * n"
  shows "redis_get t' key r' = (Inr v, r')"
proof -
  have "rs_up r" using assms(1) by (auto simp: redis_set_def split: if_splits)
  with assms have r': "rs_up r'" "redis_live t' r' key = Some (redis_serialize v)"
    by (auto simp: redis_set_def redis_live_write split: if_splits option.splits)
  have "(case json_parse (redis_serialize v) of Some j \<Rightarrow> j | None \<Rightarrow> JStr (redis_serialize v)) = v"
    using assms(2,3) by (cases v) (simp_all add: redis_serialize_def parse_stringify del: json_stringify.simps json_ok.simps)
  with r' show ?thesis by (auto simp: redis_get_def split: option.splits)
qed

lemma redis_string_misread:
  "redis_get 1 ''k'' (snd (redis_set 0 ''k'' (JStr ''12'') None \<lparr>rs_values = (\<lambda>_. None), rs_up = True\<rparr>)) =
     (Inr (JNum 12), snd (redis_set 0 ''k'' (JStr ''12'') None \<lparr>rs_values = (\<lambda>_. None), rs_up = True\<rparr>))"
proof -
  have "json_parse ''12'' = Some (JNum 12)" by code_simp
  then show ?thesis
    by (simp add: redis_get_def redis_set_def redis_live_write redis_serialize_def)
qed

end
