(* ===== verification/Order_Api.thy ===== *)
theory Order_Api
  imports Order_Service Auth Rate_Limiter Health Sanitize Cache
begin

text \<open>
  The HTTP side of the order service: the schemas of \<open>interfaces/http/validators/orderValidators.ts\<close>,
  \<open>OrderController\<close>, and the chain of \<open>app.ts\<close> that authenticates, limits and answers a request.
  \<open>safeParse\<close> (zod) is an argument; what the schemas promise of the data it returns is stated here.
  Dates in responses are milliseconds.
\<close>

section \<open>Schemas\<close>

type_synonym 'a safe_parse = "json option \<Rightarrow> zod_issue list + 'a"

record create_input =
  ni_items :: "create_item list"
  ni_currency :: string
  ni_shippingAddress :: json

record list_input =
  li_cursor :: "string option"
  li_limit :: nat
  li_status :: "string option"

definition nonempty_member :: "json \<Rightarrow> string \<Rightarrow> bool" where
  "nonempty_member v k = (case get_str v k of Some s \<Rightarrow> s \<noteq> [] | None \<Rightarrow> False)"

text \<open>\<open>createOrderSchema\<close>: what its parsed data satisfy; \<open>uuid\<close> is zod's test.\<close>

definition create_item_accepted :: "(string \<Rightarrow> bool) \<Rightarrow> create_item \<Rightarrow> bool" where
  "create_item_accepted uuid i \<longleftrightarrow>
     uuid (ci_productId i) \<and> 1 \<le> length (ci_sku i) \<and> length (ci_sku i) \<le> 50 \<and> 0 < ci_quantity i \<and> 0 < ci_unitPrice i"

definition shipping_accepted :: "json \<Rightarrow> bool" where
  "shipping_accepted a \<longleftrightarrow>
     nonempty_member a ''line1'' \<and> nonempty_member a ''city'' \<and> nonempty_member a ''zip'' \<and>
     (json_get a ''state'' = None \<or> get_str a ''state'' \<noteq> None) \<and>
     (\<exists>c. get_str a ''country'' = Some c \<and> length c = 2)"

definition createOrderSchema_accepts :: "(string \<Rightarrow> bool) \<Rightarrow> create_input \<Rightarrow> bool" where
  "createOrderSchema_accepts uuid d \<longleftrightarrow>
     list_all (create_item_accepted uuid) (ni_items d) \<and> 1 \<le> length (ni_items d) \<and> length (ni_items d) \<le> 50 \<and>
     length (ni_currency d) = 3 \<and> shipping_accepted (ni_shippingAddress d)"

definition listOrdersSchema_accepts :: "list_input \<Rightarrow> bool" where
  "listOrdersSchema_accepts d \<longleftrightarrow> 1 \<le> li_limit d \<and> li_limit d \<le> 100"

definition orderIdParamSchema_accepts :: "(string \<Rightarrow> bool) \<Rightarrow> string \<Rightarrow> bool" where
  "orderIdParamSchema_accepts uuid i = uuid i"

text \<open>\<open>safeParse\<close> succeeds only with data the schema accepts.\<close>

definition schema_sound :: "'a safe_parse \<Rightarrow> ('a \<Rightarrow> bool) \<Rightarrow> bool" where
  "schema_sound parse accepts \<longleftrightarrow> (\<forall>v d. parse v = Inr d \<longrightarrow> accepts d)"

section \<open>OrderController\<close>

text \<open>The issues as a record of fields: a later issue of the same path replaces an earlier one.\<close>

definition issue_fields :: "zod_issue list \<Rightarrow> (string \<times> string) list" where
  "issue_fields issues = foldl (\<lambda>fs i. AList.update (join_with ''.'' (zi_path i)) (zi_message i) fs) [] issues"

definition validation_error :: "string \<Rightarrow> (string \<times> string) list \<Rightarrow> js_error" where
  "validation_error detail errors = App ((new_error ValidationError detail)\<lparr>ae_fields := Some errors\<rparr>)"

definition customer_of :: "http_request \<Rightarrow> string" where
  "customer_of rq = (case rq_user rq of Some u \<Rightarrow> au_userId u | None \<Rightarrow> ''anonymous'')"

definition formatOrderResponse :: "'d decimal_lib \<Rightarrow> 'd order \<Rightarrow> json" where
  "formatOrderResponse D ord = JObj
     [(''id'', JStr (o_id ord)), (''customerId'', JStr (o_customerId ord)), (''status'', JStr (order_status_text (o_status ord))),
      (''items'', JArr (map (\<lambda>i. JObj
         [(''productId'', JStr (oi_productId i)), (''sku'', JStr (oi_sku i)), (''quantity'', JNum (of_int (oi_quantity i))),
          (''unitPrice'', JNum (money_toNumber D (oi_unitPrice i))), (''totalPrice'', JNum (money_toNumber D (oi_totalPrice i)))]) (o_items ord))),
      (''totalAmount'', JNum (money_toNumber D (o_totalAmount ord))), (''currency'', JStr (o_currency ord)),
      (''shippingAddress'', o_shippingAddress ord), (''createdAt'', JNum (of_int (o_createdAt ord))),
      (''updatedAt'', JNum (of_int (o_updatedAt ord))),
      (''links'', JObj [(''self'', JStr (''/api/v1/orders/'' @ o_id ord)), (''cancel'', JStr (''/api/v1/orders/'' @ o_id ord @ ''/cancel''))])]"

text \<open>A handler method: what it throws goes to \<open>next(error)\<close>.\<close>

type_synonym 's order_action = "('s, http_response) order_op"

definition createOrder ::
    "create_input safe_parse \<Rightarrow> 'd decimal_lib \<Rightarrow> ('s, 'd) order_repository \<Rightarrow> call_ctx \<Rightarrow> http_request \<Rightarrow> 's order_action" where
  "createOrder parse D repo cx rq =
     (case parse (rq_body rq) of
        Inl issues \<Rightarrow> throw (validation_error ''Invalid order data'' (issue_fields issues))
      | Inr input \<Rightarrow>
          (case header_value rq ''idempotency-key'' of
             None \<Rightarrow> throw (app_err ValidationError ''Idempotency-Key header is required'')
           | Some idempotencyKey \<Rightarrow>
               bind_eff (CreateOrder_execute D repo cx
                   \<lparr>cc_customerId = customer_of rq, cc_idempotencyKey = idempotencyKey, cc_currency = ni_currency input,
                    cc_items = ni_items input, cc_shippingAddress = ni_shippingAddress input\<rparr>) (\<lambda>(ord, isExisting).
               ret (json_response (if isExisting then 200 else 201) (formatOrderResponse D ord)))))"

definition getOrder ::
    "string safe_parse \<Rightarrow> 'd decimal_lib \<Rightarrow> ('s, 'd) order_repository \<Rightarrow> http_request \<Rightarrow> 's order_action" where
  "getOrder parse D repo rq =
     (case parse (Some (rq_params rq)) of
        Inl _ \<Rightarrow> throw (app_err ValidationError ''Invalid order ID'')
      | Inr i \<Rightarrow>
          bind_eff (on_store (GetOrder_execute repo i (customer_of rq))) (\<lambda>ord.
          ret (json_response 200 (formatOrderResponse D ord))))"

definition pagination_json :: "'a page \<Rightarrow> json" where
  "pagination_json p = JObj
     ([(''limit'', JNum (of_nat (pr_limit p))), (''hasMore'', JBool (pr_hasMore p))] @ opt_member ''nextCursor'' JStr (pr_nextCursor p))"

definition listOrders ::
    "list_input safe_parse \<Rightarrow> 'd decimal_lib \<Rightarrow> ('s, 'd) order_repository \<Rightarrow> http_request \<Rightarrow> 's order_action" where
  "listOrders parse D repo rq =
     (case parse (Some (rq_query rq)) of
        Inl _ \<Rightarrow> throw (app_err ValidationError ''Invalid query parameters'')
      | Inr query \<Rightarrow>
          bind_eff (on_store (ListOrders_execute repo
              \<lparr>lo_customerId = customer_of rq, lo_cursor = li_cursor query, lo_limit = Some (li_limit query), lo_status = li_status query\<rparr>)) (\<lambda>page.
          ret (json_response 200 (JObj
            [(''data'', JArr (map (formatOrderResponse D) (pr_data page))), (''pagination'', pagination_json page)]))))"

definition cancelOrder ::
    "string safe_parse \<Rightarrow> 'd decimal_lib \<Rightarrow> ('s, 'd) order_repository \<Rightarrow> call_ctx \<Rightarrow> http_request \<Rightarrow> 's order_action" where
  "cancelOrder parse D repo cx rq =
     (case parse (Some (rq_params rq)) of
        Inl _ \<Rightarrow> throw (app_err ValidationError ''Invalid order ID'')
      | Inr i \<Rightarrow>
          bind_eff (CancelOrder_execute repo cx
              \<lparr>xc_orderId = i, xc_customerId = customer_of rq, xc_reason = Option.bind (rq_body rq) (\<lambda>b. get_str b ''reason'')\<rparr>) (\<lambda>ord.
          ret (json_response 200 (formatOrderResponse D ord))))"

definition step_json :: "saga_step \<Rightarrow> json" where
  "step_json st = JObj
     ([(''id'', JStr (ss_id st)), (''orderId'', JStr (ss_orderId st)), (''stepName'', JStr (ss_stepName st)), (''status'', JStr (ss_status st))]
      @ opt_member ''error'' JStr (ss_error st) @ [(''startedAt'', JNum (of_int (ss_startedAt st)))]
      @ opt_member ''completedAt'' (\<lambda>t. JNum (of_int t)) (ss_completedAt st) @ [(''retryCount'', JNum (of_int (ss_retryCount st)))])"

definition getTimeline ::
    "string safe_parse \<Rightarrow> ('s, 'd) order_repository \<Rightarrow> 's saga_repository \<Rightarrow> http_request \<Rightarrow> 's order_action" where
  "getTimeline parse repo saga rq =
     (case parse (Some (rq_params rq)) of
        Inl _ \<Rightarrow> throw (app_err ValidationError ''Invalid order ID'')
      | Inr i \<Rightarrow>
          bind_eff (on_store (GetTimeline_execute repo saga i (customer_of rq))) (\<lambda>tl.
          ret (json_response 200 (JObj
            [(''orderId'', JStr (ot_orderId tl)), (''status'', JStr (order_status_text (ot_status tl))),
             (''steps'', JArr (map step_json (ot_steps tl)))]))))"

section \<open>The chain of app.ts\<close>

text \<open>
  A request to the API: authenticated, then limited, then handled by a controller method; what any
  of them passes to \<open>next\<close> is answered by the error handler.  \<open>dev\<close> is the stack in development and
  \<open>rid\<close> the request id.
\<close>

definition api_answer ::
    "string option \<Rightarrow> string option \<Rightarrow> (string \<times> string) list \<Rightarrow> js_error + http_response \<Rightarrow> http_response" where
  "api_answer dev rid headers r =
     (let res = (case r of Inl e \<Rightarrow> snd (errorHandler dev rid e) | Inr res \<Rightarrow> res)
      in res\<lparr>res_headers := headers @ res_headers res\<rparr>)"

definition order_api ::
    "jwt_verify \<Rightarrow> string \<Rightarrow> 'l rate_limiter_store \<Rightarrow> rate_limiter_options \<Rightarrow> string option \<Rightarrow> string option \<Rightarrow>
     (http_request \<Rightarrow> ('s, js_error, http_response) eff) \<Rightarrow> int \<Rightarrow> http_request \<Rightarrow> 'l \<times> 's \<Rightarrow> http_response \<times> ('l \<times> 's)" where
  "order_api verify secret hit limits dev rid action now rq st =
     (case authMiddleware verify \<lparr>ao_secret = secret, ao_optional = False\<rparr> (sanitizeMiddleware rq) None of
        (NextError e, _, _) \<Rightarrow> (api_answer dev rid [] (Inl e), st)
      | (Respond res, _, _) \<Rightarrow> (res, st)
      | (Next, rq1, _) \<Rightarrow>
          (case rateLimiterMiddleware hit limits (customer_of rq1) now (fst st) of
             ((headers, NextError e), l) \<Rightarrow> (api_answer dev rid headers (Inl e), (l, snd st))
           | ((headers, Respond res), l) \<Rightarrow> (res, (l, snd st))
           | ((headers, Next), l) \<Rightarrow>
               (case action rq1 (snd st) of (r, s) \<Rightarrow> (api_answer dev rid headers r, (l, s)))))"

text \<open>
  The mutating routes (\<open>interfaces/http/routes/orderRoutes.ts\<close>) put the idempotency middleware, with
  its default options, in front of the controller method; the error handler's answer passes the
  middleware's \<open>res.json\<close> too.  The state is the cache and what the method works on.
\<close>

definition default_idempotency :: idempotency_options where
  "default_idempotency = \<lparr>io_ttlSeconds = None, io_headerName = None, io_required = False\<rparr>"

definition mutating_route ::
    "string option \<Rightarrow> string option \<Rightarrow> (http_request \<Rightarrow> ('a, js_error, http_response) eff) \<Rightarrow> int \<Rightarrow> int \<Rightarrow> http_request \<Rightarrow>
     (redis \<times> 'a, js_error, http_response) eff" where
  "mutating_route dev rid action now finished rq st =
     (case idempotencyMiddleware redis_get redis_set default_idempotency
         (\<lambda>a. case action rq a of (r, a') \<Rightarrow> (api_answer dev rid [] r, a')) now finished rq st of
        (Refused e, st') \<Rightarrow> (Inl e, st')
      | (Answered res _, st') \<Rightarrow> (Inr res, st'))"

section \<open>What the layers guarantee together\<close>

lemma sanitize_keeps_headers [simp]:
  "rq_headers (sanitizeMiddleware rq) = rq_headers rq" "rq_params (sanitizeMiddleware rq) = rq_params rq"
  by (auto simp: sanitizeMiddleware_def Let_def split: option.splits)

lemma bearer_token_sanitized [simp]: "bearer_token (sanitizeMiddleware rq) = bearer_token rq"
  by (simp add: bearer_token_def)

lemma refused_status: "res_status (snd (errorHandler dev rid (app_err c d))) = statusCode c"
  by (simp add: errorHandler_def to_app_error_new new_error_def Let_def)

text \<open>Without a verified token nothing happens but a 401.\<close>

lemma unauthenticated:
  assumes "\<And>token. bearer_token rq = Some token \<Longrightarrow> \<not> (\<exists>payload. verify token secret = Inr payload \<and> payload \<noteq> JNull)"
    and "order_api verify secret hit limits dev rid action now rq st = (res, st')"
  shows "res_status res = 401 \<and> st' = st"
proof -
  obtain out rq1 ctx where a: "authMiddleware verify \<lparr>ao_secret = secret, ao_optional = False\<rparr> (sanitizeMiddleware rq) None = (out, rq1, ctx)"
    by (rule prod_cases3)
  have "out \<noteq> Next" using assms(1) auth_passes [OF a [THEN trans]] a by (auto elim!: auth_passes)
  with auth_never_responds [OF a] obtain d where "out = NextError (app_err AuthenticationError d)" by blast
  with a assms(2) show ?thesis by (auto simp: order_api_def api_answer_def Let_def refused_status)
qed

text \<open>A controller method runs with the identity of the token, when the limiter lets it.\<close>

lemma authenticated:
  assumes "bearer_token rq = Some token" "verify token secret = Inr payload" "payload \<noteq> JNull"
    and "hit (au_userId (token_user payload)) (rlo_windowMs limits) (rlo_max limits) now l = (Inr verdict, l')" "rl_allowed verdict"
  shows "\<exists>headers. order_api verify secret hit limits dev rid action now rq (l, s) =
    (case action ((sanitizeMiddleware rq)\<lparr>rq_user := Some (token_user payload)\<rparr>) s of
       (r, t) \<Rightarrow> (api_answer dev rid headers r, (l', t)))"
  using assms
  by (auto simp: order_api_def authMiddleware_def customer_of_def rateLimiterMiddleware_def Let_def split: prod.split)


lemma default_header: "idempotency_header default_idempotency = ''idempotency-key''"
  by (simp add: idempotency_header_def default_idempotency_def) code_simp

lemma default_not_required [simp]: "\<not> io_required default_idempotency"
  by (simp add: default_idempotency_def)

lemma header_with_user [simp]:
  "header_value (rq\<lparr>rq_user := u\<rparr>) n = header_value rq n" "cache_key (rq\<lparr>rq_user := u\<rparr>) k = cache_key rq k"
  by (simp_all add: header_value_def cache_key_def)

lemma sanitize_frame [simp]:
  "rq_method (sanitizeMiddleware rq) = rq_method rq" "rq_originalUrl (sanitizeMiddleware rq) = rq_originalUrl rq"
  by (auto simp: sanitizeMiddleware_def Let_def split: option.splits)

lemma header_sanitized [simp]: "header_value (sanitizeMiddleware rq) n = header_value rq n"
  by (simp add: header_value_def)

lemma cache_key_sanitized [simp]: "cache_key (sanitizeMiddleware rq) k = cache_key rq k"
  by (simp add: cache_key_def)

text \<open>A mutating route answers from the cache, or acts and perhaps writes the cache.\<close>

lemma mutating_route_cases:
  assumes "mutating_route dev rid action now finished rq (c, a) = (out, (c', a'))"
  obtains (replayed) res where "out = Inr res" "a' = a" "c' = c"
      "\<exists>key. header_value rq ''idempotency-key'' = Some key \<and> replay_of (redis_holds c now (cache_key rq key)) = Some res"
  | (acted) r where "action rq a = (r, a')" "out = Inr (api_answer dev rid [] r)"
proof -
  obtain x st where m: "idempotencyMiddleware redis_get redis_set default_idempotency
      (\<lambda>a. case action rq a of (r, a') \<Rightarrow> (api_answer dev rid [] r, a')) now finished rq (c, a) = (x, st)"
    by (rule prod.exhaust)
  obtain r a1 where act: "action rq a = (r, a1)" by fastforce
  from m assms have st: "st = (c', a')" "out = (case x of Refused e \<Rightarrow> Inl e | Answered res _ \<Rightarrow> Inr res)"
    by (auto simp: mutating_route_def split: idempotency_result.splits)
  show thesis using m [unfolded st(1)]
  proof (cases rule: redis_cache.middleware_cases)
    case (no_key e)
    then show thesis by simp
  next
    case (replayed res key)
    with st that(1) show thesis by (auto simp: default_header)
  next
    case (processed res e)
    with st act that(2) show thesis by auto
  qed
qed

lemma mutating_route_replays:
  assumes "header_value rq ''idempotency-key'' = Some key" and "rs_up c" and "redis_live now c (cache_key rq key) = None"
    and "mutating_route dev rid action now finished rq (c, a) = (Inr res, (c', a'))"
    and "200 \<le> res_status res" "res_status res < 300" "json_ok (res_body res)"
    and "header_value rq' ''idempotency-key'' = Some key" "rq_method rq' = rq_method rq" "rq_originalUrl rq' = rq_originalUrl rq"
    and "finished \<le> later" "later < finished + 86400000"
  shows "mutating_route dev rid action' later finished' rq' (c', b) =
    (Inr \<lparr>res_status = res_status res, res_headers = [(''Idempotent-Replay'', ''true'')], res_body = res_body res\<rparr>, (c', b))"
proof -
  obtain x st where m: "idempotencyMiddleware redis_get redis_set default_idempotency
      (\<lambda>a. case action rq a of (r, a') \<Rightarrow> (api_answer dev rid [] r, a')) now finished rq (c, a) = (x, st)"
    by (rule prod.exhaust)
  with assms(4) obtain e where "x = Answered res e" "st = (c', a')"
    by (auto simp: mutating_route_def split: idempotency_result.splits)
  note m' = m [unfolded this]
  have "later < finished + 1000 * (case io_ttlSeconds default_idempotency of Some n \<Rightarrow> n | None \<Rightarrow> 24 * 60 * 60)"
    using assms(12) by (simp add: default_idempotency_def)
  note replay = redis_replays [OF _ assms(2,3) m' assms(5-7) _ assms(9,10,11) this, unfolded default_header, OF assms(1,8)]
  show ?thesis by (simp add: mutating_route_def replay)
qed

text \<open>What a request through the whole chain can do.\<close>

lemma order_api_cases:
  assumes "order_api verify secret hit limits dev rid action now rq (l, s) = (res, (l', s'))"
  obtains (refused) "res_status res = 401 \<or> res_status res = 429" "s' = s"
  | (handled) token payload headers r where "bearer_token rq = Some token" "verify token secret = Inr payload" "payload \<noteq> JNull"
      "action ((sanitizeMiddleware rq)\<lparr>rq_user := Some (token_user payload)\<rparr>) s = (r, s')" "res = api_answer dev rid headers r"
proof -
  obtain out rq1 ctx where a: "authMiddleware verify \<lparr>ao_secret = secret, ao_optional = False\<rparr> (sanitizeMiddleware rq) None = (out, rq1, ctx)"
    by (rule prod_cases3)
  show thesis
  proof (cases "out = Next")
    case True
    obtain token payload where t: "bearer_token rq = Some token" "verify token secret = Inr payload" "payload \<noteq> JNull"
      "rq1 = (sanitizeMiddleware rq)\<lparr>rq_user := Some (token_user payload)\<rparr>"
      by (rule auth_passes [OF a [unfolded True]]) auto
    obtain headers out2 l2 where lim: "rateLimiterMiddleware hit limits (customer_of rq1) now l = ((headers, out2), l2)"
      by (metis surj_pair)
    obtain r s2 where act: "action rq1 s = (r, s2)" by fastforce
    have "out2 = Next \<or> (\<exists>n. out2 = NextError (too_many_requests n))"
      using lim by (auto simp: rateLimiterMiddleware_def Let_def split: prod.splits sum.splits if_splits)
    then show thesis
    proof
      assume "out2 = Next"
      with a True lim act assms show thesis
        by (intro handled [of token payload r headers]) (auto simp: order_api_def t)
    next
      assume "\<exists>n. out2 = NextError (too_many_requests n)"
      then obtain n where "out2 = NextError (too_many_requests n)" ..
      with a True lim assms show thesis
        by (intro refused) (auto simp: order_api_def api_answer_def Let_def too_many_requests_def errorHandler_def to_app_error_def new_error_def)
    qed
  next
    case False
    from auth_never_responds [OF a False] obtain d where "out = NextError (app_err AuthenticationError d)" by blast
    with a assms show thesis
      by (intro refused) (auto simp: order_api_def api_answer_def Let_def refused_status)
  qed
qed

lemma api_answer_status:
  "res_status (api_answer dev rid headers r) = (case r of Inl e \<Rightarrow> statusCode (ae_class (to_app_error e)) | Inr res \<Rightarrow> res_status res)"
  "r = Inr res \<Longrightarrow> res_body (api_answer dev rid headers r) = res_body res"
  by (auto simp: api_answer_def errorHandler_def Let_def split: sum.split)

end
