(* ===== verification/Payment_Api.thy ===== *)
theory Payment_Api
  imports Payment_Service Order_Api Cache
begin

text \<open>
  The HTTP side of the payment service: \<open>PaymentController\<close>, \<open>WebhookController\<close>, the schemas of
  \<open>interfaces/http/validators/paymentValidators.ts\<close>, and the chain of \<open>app.ts\<close> in front of the routes
  that move money.
\<close>

section \<open>Schemas\<close>

record payment_input =
  yi_amount :: rat
  yi_currency :: string
  yi_customerId :: "string option"

definition processPaymentSchema_accepts :: "(string \<Rightarrow> bool) \<Rightarrow> payment_input \<Rightarrow> bool" where
  "processPaymentSchema_accepts uuid d \<longleftrightarrow>
     0 < yi_amount d \<and> length (yi_currency d) = 3 \<and> (case yi_customerId d of Some c \<Rightarrow> uuid c | None \<Rightarrow> True)"

definition refundSchema_accepts :: "string option \<Rightarrow> bool" where
  "refundSchema_accepts reason = (case reason of Some r \<Rightarrow> length r \<le> 200 | None \<Rightarrow> True)"

section \<open>PaymentController\<close>

definition formatPayment :: "'d decimal_lib \<Rightarrow> 'd payment \<Rightarrow> (string \<times> json) list" where
  "formatPayment D p =
     opt_member ''id'' JStr (p_id p) @ [(''orderId'', JStr (p_orderId p))] @ opt_member ''customerId'' JStr (p_customerId p) @
     [(''status'', JStr (payment_status_text (p_status p))), (''amount'', JNum (money_toNumber D (p_amount p))),
      (''currency'', JStr (m_currency (p_amount p)))] @
     opt_member ''gatewayTransactionId'' JStr (p_gatewayTransactionId p) @ opt_member ''failureReason'' JStr (p_failureReason p) @
     [(''createdAt'', JNum (of_int (p_createdAt p))), (''updatedAt'', JNum (of_int (p_updatedAt p))),
      (''links'', JObj [(''self'', JStr (''/api/v1/payments/'' @ p_orderId p)),
         (''refund'', JStr (''/api/v1/payments/'' @ (case p_id p of Some i \<Rightarrow> i | None \<Rightarrow> ''undefined'') @ ''/refund''))])]"

definition refund_json :: "refund_record \<Rightarrow> json" where
  "refund_json r = JObj
     ([(''id'', JStr (fr_id r)), (''paymentId'', JStr (fr_paymentId r)), (''amount'', JStr (fr_amount r)), (''currency'', JStr (fr_currency r)),
       (''status'', JStr (fr_status r))] @ opt_member ''gatewayRefundId'' JStr (fr_gatewayRefundId r) @
      [(''idempotencyKey'', JStr (fr_idempotencyKey r))] @ opt_member ''reason'' JStr (fr_reason r))"

definition processPayment ::
    "string safe_parse \<Rightarrow> payment_input safe_parse \<Rightarrow> 'd decimal_lib \<Rightarrow> (string \<Rightarrow> string) \<Rightarrow> ('s, 'd) payment_repository \<Rightarrow>
     pay_config \<Rightarrow> pay_call \<Rightarrow> http_request \<Rightarrow> ('s, http_response) pay_op" where
  "processPayment parse_id parse D libmsg repo cfg y rq =
     (case parse_id (Some (rq_params rq)) of
        Inl _ \<Rightarrow> throw (app_err ValidationError ''Invalid order id'')
      | Inr orderId \<Rightarrow>
          (case parse (rq_body rq) of
             Inl issues \<Rightarrow> throw (validation_error ''Invalid payment request'' (issue_fields issues))
           | Inr input \<Rightarrow>
               (case header_value rq ''idempotency-key'' of
                  None \<Rightarrow> throw (app_err ValidationError ''Idempotency-Key header is required'')
                | Some idempotencyKey \<Rightarrow>
                    bind_eff (ProcessPayment_execute D libmsg repo cfg y
                        \<lparr>pcm_orderId = orderId, pcm_customerId = yi_customerId input, pcm_amount = ANum (yi_amount input),
                         pcm_currency = yi_currency input, pcm_idempotencyKey = idempotencyKey\<rparr>) (\<lambda>(p, success).
                    ret (json_response 201 (JObj (formatPayment D p)))))))"

definition refund ::
    "string safe_parse \<Rightarrow> string option safe_parse \<Rightarrow> 'd decimal_lib \<Rightarrow> (string \<Rightarrow> string) \<Rightarrow> ('s, 'd) payment_repository \<Rightarrow>
     's refund_repository \<Rightarrow> pay_config \<Rightarrow> pay_call \<Rightarrow> http_request \<Rightarrow> ('s, http_response) pay_op" where
  "refund parse_id parse D libmsg repo refunds cfg y rq =
     (case parse_id (Some (rq_params rq)) of
        Inl _ \<Rightarrow> throw (app_err ValidationError ''Invalid payment id'')
      | Inr paymentId \<Rightarrow>
          (case parse (Some (case nullish (rq_body rq) None of Some b \<Rightarrow> b | None \<Rightarrow> JObj [])) of
             Inl _ \<Rightarrow> throw (app_err ValidationError ''Invalid refund request'')
           | Inr reason \<Rightarrow>
               (case header_value rq ''idempotency-key'' of
                  None \<Rightarrow> throw (app_err ValidationError ''Idempotency-Key header is required'')
                | Some idempotencyKey \<Rightarrow>
                    bind_eff (Refund_execute D libmsg repo refunds cfg y
                        \<lparr>rc_paymentId = paymentId, rc_idempotencyKey = idempotencyKey, rc_reason = reason\<rparr>) (\<lambda>(p, r).
                    ret (json_response 200 (JObj (formatPayment D p @ [(''refund'', refund_json r)])))))))"

definition getPayment ::
    "string safe_parse \<Rightarrow> 'd decimal_lib \<Rightarrow> ('s, 'd) payment_repository \<Rightarrow> http_request \<Rightarrow> ('s, js_error, http_response) eff" where
  "getPayment parse_id D repo rq =
     (case parse_id (Some (rq_params rq)) of
        Inl _ \<Rightarrow> throw (app_err ValidationError ''Invalid order id'')
      | Inr orderId \<Rightarrow>
          bind_eff (GetPayment_execute repo orderId) (\<lambda>p. ret (json_response 200 (JObj (formatPayment D p)))))"

section \<open>WebhookController\<close>

text \<open>
  \<open>raw\<close> is the body as text (\<open>None\<close> when express gave no buffer), \<open>hmac\<close> the digest of the crypto
  module.  The signature is checked before the body is parsed.
\<close>

definition webhook_handle ::
    "(string \<Rightarrow> string \<Rightarrow> string) \<Rightarrow> string \<Rightarrow> webhook_event safe_parse \<Rightarrow> ('s, 'd) payment_repository \<Rightarrow> payment_call \<Rightarrow>
     string option \<Rightarrow> string option \<Rightarrow> ('s, js_error, http_response) eff" where
  "webhook_handle hmac secret parse repo cx raw_body signature_header =
     (let raw = (case raw_body of Some b \<Rightarrow> b | None \<Rightarrow> []); signature = (case signature_header of Some h \<Rightarrow> h | None \<Rightarrow> [])
      in if \<not> verifySignature hmac raw signature secret
         then throw (app_err AuthenticationError ''Invalid webhook signature'')
         else case json_parse raw of
           None \<Rightarrow> throw (app_err ValidationError ''Webhook body is not valid JSON'')
         | Some parsed \<Rightarrow>
             (case parse (Some parsed) of
                Inl _ \<Rightarrow> throw (app_err ValidationError ''Invalid webhook event payload'')
              | Inr event \<Rightarrow>
                  bind_eff (ProcessWebhook_execute repo cx event) (\<lambda>(applied, status).
                  ret (json_response 200 (JObj [(''received'', JBool True), (''applied'', JBool applied)])))))"

section \<open>The chain of app.ts\<close>

text \<open>
  A request to a route that moves money: sanitised, then through the idempotency middleware, which
  requires a key, to the controller method; errors are answered by the error handler, whose answers
  pass the middleware's \<open>res.json\<close> too.
\<close>

definition payment_api ::
    "string option \<Rightarrow> string option \<Rightarrow> (http_request \<Rightarrow> ('a, js_error, http_response) eff) \<Rightarrow> int \<Rightarrow> int \<Rightarrow> http_request \<Rightarrow>
     redis \<times> 'a \<Rightarrow> idempotency_result \<times> (redis \<times> 'a)" where
  "payment_api dev rid action now finished rq =
     idempotencyMiddleware redis_get redis_set \<lparr>io_ttlSeconds = None, io_headerName = None, io_required = True\<rparr>
       (\<lambda>a. case action (sanitizeMiddleware rq) a of (r, a') \<Rightarrow> (api_answer dev rid [] r, a')) now finished (sanitizeMiddleware rq)"

lemma required_header:
  "idempotency_header \<lparr>io_ttlSeconds = None, io_headerName = None, io_required = True\<rparr> = ''idempotency-key''"
  by (simp add: idempotency_header_def) code_simp

text \<open>Without a key nothing happens.\<close>

lemma payment_api_needs_key:
  "header_value rq ''idempotency-key'' = None \<Longrightarrow>
   payment_api dev rid action now finished rq st = (Refused (app_err ValidationError ''Idempotency-Key header is required''), st)"
  by (simp add: payment_api_def idempotencyMiddleware_def required_header Let_def)

text \<open>A request answered with success is answered again from the cache.\<close>

lemma payment_api_replays:
  assumes key: "header_value rq ''idempotency-key'' = Some key" and up: "rs_up c" and fresh: "redis_live now c (cache_key rq key) = None"
    and first: "payment_api dev rid action now finished rq (c, a) = (Answered res e, (c', a'))"
    and ok: "200 \<le> res_status res" "res_status res < 300" "json_ok (res_body res)"
    and again: "header_value rq' ''idempotency-key'' = Some key" "rq_method rq' = rq_method rq" "rq_originalUrl rq' = rq_originalUrl rq"
    and time: "finished \<le> later" "later < finished + 86400000"
  shows "payment_api dev rid action' later finished' rq' (c', b) =
    (Answered \<lparr>res_status = res_status res, res_headers = [(''Idempotent-Replay'', ''true'')], res_body = res_body res\<rparr> None, (c', b))"
proof -
  let ?opts = "\<lparr>io_ttlSeconds = None, io_headerName = None, io_required = True\<rparr>"
  have keys: "header_value (sanitizeMiddleware rq) (idempotency_header ?opts) = Some key"
    "header_value (sanitizeMiddleware rq') (idempotency_header ?opts) = Some key"
    using key again by (simp_all add: required_header)
  have "redis_live now c (cache_key (sanitizeMiddleware rq) key) = None" using fresh by simp
  note replay = redis_replays [OF keys(1) up this first [unfolded payment_api_def] ok keys(2)]
  show ?thesis unfolding payment_api_def by (rule replay) (use again time in simp_all)
qed

end
