(* ===== verification/Audit_Log.thy ===== *)
theory Audit_Log
  imports Sql Domain_Event Express
begin

text \<open>
  The audit service: the append-only table of its migration, \<open>KnexAuditRepository\<close>,
  \<open>AuditEventHandlers\<close>, \<open>AuditQueryHandler\<close> and \<open>AuditController\<close>.  Events arrive as parsed
  message bodies; the payload of an event is an object.  Rows recorded at the same instant are read
  in the order they were inserted.
\<close>

section \<open>Ports and table\<close>

record audit_input =
  ai_eventId :: "string option"
  ai_eventType :: string
  ai_source :: "string option"
  ai_aggregateType :: string
  ai_aggregateId :: "string option"
  ai_correlationId :: "string option"
  ai_causationId :: "string option"
  ai_payload :: json
  ai_metadata :: "json option"
  ai_occurredAt :: "int option"

record audit_row =
  aw_id :: string
  aw_event_id :: string
  aw_event_type :: string
  aw_source :: string
  aw_aggregate_type :: string
  aw_aggregate_id :: "string option"
  aw_correlation_id :: "string option"
  aw_causation_id :: "string option"
  aw_payload :: json
  aw_metadata :: "json option"
  aw_occurred_at :: "int option"
  aw_recorded_at :: int

definition not_null_violation :: string where "not_null_violation = ''23502''"

definition fits :: "nat \<Rightarrow> string option \<Rightarrow> bool" where
  "fits n s = (case s of Some t \<Rightarrow> length t \<le> n | None \<Rightarrow> True)"

definition uuid_or_null :: "sql_env \<Rightarrow> string option \<Rightarrow> bool" where
  "uuid_or_null E s = (case s of Some t \<Rightarrow> sql_uuid E t | None \<Rightarrow> True)"

text \<open>The columns' types and null constraints; uniqueness of the event id is \<open>ON CONFLICT\<close>'s.\<close>

definition audit_violation :: "sql_env \<Rightarrow> audit_input \<Rightarrow> string option" where
  "audit_violation E input = first_violation
     [(uuid_or_null E (ai_eventId input) \<and> uuid_or_null E (ai_aggregateId input), invalid_text),
      (length (ai_eventType input) \<le> 100 \<and> fits 50 (ai_source input) \<and> length (ai_aggregateType input) \<le> 50
         \<and> fits 100 (ai_correlationId input) \<and> fits 100 (ai_causationId input), too_long),
      (ai_eventId input \<noteq> None \<and> ai_source input \<noteq> None, not_null_violation)]"

definition audit_row_of :: "string \<Rightarrow> int \<Rightarrow> audit_input \<Rightarrow> audit_row" where
  "audit_row_of rowId now input =
     \<lparr>aw_id = rowId, aw_event_id = the (ai_eventId input), aw_event_type = ai_eventType input, aw_source = the (ai_source input),
      aw_aggregate_type = ai_aggregateType input, aw_aggregate_id = ai_aggregateId input,
      aw_correlation_id = ai_correlationId input, aw_causation_id = ai_causationId input,
      aw_payload = ai_payload input, aw_metadata = ai_metadata input, aw_occurred_at = ai_occurredAt input,
      aw_recorded_at = now\<rparr>"

section \<open>KnexAuditRepository\<close>

text \<open>A call supplies the generated row id and the database clock.\<close>

type_synonym audit_call = "string \<times> int"

definition audit_append :: "sql_env \<Rightarrow> audit_call \<Rightarrow> audit_input \<Rightarrow> (audit_row list, js_error, unit) eff" where
  "audit_append E cx input rows =
     (case audit_violation E input of
        Some t \<Rightarrow> (Inl (sql_err t), rows)
      | None \<Rightarrow>
          if list_ex (\<lambda>r. Some (aw_event_id r) = ai_eventId input) rows then (Inr (), rows)
          else (Inr (), rows @ [audit_row_of (fst cx) (snd cx) input]))"

record audit_record =
  ar_id :: string
  ar_input :: audit_input
  ar_recordedAt :: int

definition audit_toRecord :: "audit_row \<Rightarrow> audit_record" where
  "audit_toRecord r =
     \<lparr>ar_id = aw_id r,
      ar_input = \<lparr>ai_eventId = Some (aw_event_id r), ai_eventType = aw_event_type r, ai_source = Some (aw_source r),
        ai_aggregateType = aw_aggregate_type r, ai_aggregateId = aw_aggregate_id r, ai_correlationId = aw_correlation_id r,
        ai_causationId = aw_causation_id r, ai_payload = aw_payload r, ai_metadata = aw_metadata r, ai_occurredAt = aw_occurred_at r\<rparr>,
      ar_recordedAt = aw_recorded_at r\<rparr>"

record audit_filter =
  af_eventType :: "string option"
  af_aggregateId :: "string option"
  af_from :: "int option"
  af_to :: "int option"

record audit_pagination =
  ap_limit :: int
  ap_offset :: int

record audit_page =
  ag_data :: "audit_record list"
  ag_limit :: int
  ag_offset :: int
  ag_hasMore :: bool

definition audit_paginate :: "audit_row list \<Rightarrow> audit_pagination \<Rightarrow> audit_page" where
  "audit_paginate rows pg =
     (let hasMore = int (length rows) > ap_limit pg;
          page = (if hasMore then take (nat (ap_limit pg)) rows else rows)
      in \<lparr>ag_data = map audit_toRecord page, ag_limit = ap_limit pg, ag_offset = ap_offset pg, ag_hasMore = hasMore\<rparr>)"

text \<open>\<open>ORDER BY recorded_at ASC OFFSET o LIMIT l + 1\<close>.\<close>

definition audit_page_rows :: "audit_pagination \<Rightarrow> audit_row list \<Rightarrow> audit_row list" where
  "audit_page_rows pg rows = take (nat (ap_limit pg + 1)) (drop (nat (ap_offset pg)) (sort_key aw_recorded_at rows))"

definition audit_findByAggregateId :: "sql_env \<Rightarrow> string \<Rightarrow> audit_pagination \<Rightarrow> (audit_row list, js_error, audit_page) eff" where
  "audit_findByAggregateId E aggregateId pg rows =
     (if \<not> sql_uuid E aggregateId then (Inl (sql_err invalid_text), rows)
      else (Inr (audit_paginate (audit_page_rows pg (filter (\<lambda>r. aw_aggregate_id r = Some aggregateId) rows)) pg), rows))"

text \<open>A filter that is missing or falsy does not restrict.\<close>

definition given :: "string option \<Rightarrow> string option" where
  "given s = (case s of Some t \<Rightarrow> if t = [] then None else Some t | None \<Rightarrow> None)"

definition audit_matches :: "audit_filter \<Rightarrow> audit_row \<Rightarrow> bool" where
  "audit_matches f r \<longleftrightarrow>
     (case given (af_eventType f) of Some t \<Rightarrow> aw_event_type r = t | None \<Rightarrow> True) \<and>
     (case given (af_aggregateId f) of Some a \<Rightarrow> aw_aggregate_id r = Some a | None \<Rightarrow> True) \<and>
     (case af_from f of Some t \<Rightarrow> t \<le> aw_recorded_at r | None \<Rightarrow> True) \<and>
     (case af_to f of Some t \<Rightarrow> aw_recorded_at r \<le> t | None \<Rightarrow> True)"

definition audit_search :: "sql_env \<Rightarrow> audit_filter \<Rightarrow> audit_pagination \<Rightarrow> (audit_row list, js_error, audit_page) eff" where
  "audit_search E f pg rows =
     (if \<not> uuid_or_null E (given (af_aggregateId f)) then (Inl (sql_err invalid_text), rows)
      else (Inr (audit_paginate (audit_page_rows pg (filter (audit_matches f) rows)) pg), rows))"

section \<open>AuditEventHandlers\<close>

definition text_member :: "json \<Rightarrow> string \<Rightarrow> string option" where
  "text_member v k = map_option json_text (nullish (json_get v k) None)"

text \<open>\<open>toAuditInput\<close>: \<open>event.type.split\<close> throws when the type is no string.\<close>

definition toAuditInput :: "json \<Rightarrow> js_error + audit_input" where
  "toAuditInput event =
     (let data = the (nullish (json_get event ''data'') (Some (JObj [])));
          aggregateId = nullish (json_get data ''orderId'') (nullish (json_get data ''paymentId'')
                          (nullish (json_get data ''aggregateId'') (json_get event ''correlationId'')))
      in case get_str event ''type'' of
           None \<Rightarrow> Inl (PlainError ''event.type.split is not a function'')
         | Some t \<Rightarrow> Inr
             \<lparr>ai_eventId = text_member event ''id'', ai_eventType = t, ai_source = text_member event ''source'',
              ai_aggregateType = hd (split_on CHR ''.'' t),
              ai_aggregateId = map_option json_text (nullish aggregateId None),
              ai_correlationId = text_member event ''correlationId'', ai_causationId = text_member event ''causationId'',
              ai_payload = data, ai_metadata = nullish (json_get event ''metadata'') None,
              ai_occurredAt = (case get_num event ''timestamp'' of Some n \<Rightarrow> if n = 0 then None else Some \<lfloor>n\<rfloor> | None \<Rightarrow> None)\<rparr>)"

definition audit_handle ::
    "(audit_call \<Rightarrow> audit_input \<Rightarrow> ('s, js_error, unit) eff) \<Rightarrow> audit_call \<Rightarrow> json \<Rightarrow> ('s, js_error, unit) eff" where
  "audit_handle append_entry cx event = bind_eff (lift_res (toAuditInput event)) (append_entry cx)"

section \<open>AuditQueryHandler\<close>

record audit_query_options =
  aq_defaultLimit :: int
  aq_maxLimit :: int

record page_input =
  pi_limit :: "int option"
  pi_offset :: "int option"

definition resolvePage :: "audit_query_options \<Rightarrow> page_input \<Rightarrow> audit_pagination" where
  "resolvePage opts page =
     \<lparr>ap_limit = min (max 1 (case pi_limit page of Some n \<Rightarrow> n | None \<Rightarrow> aq_defaultLimit opts)) (aq_maxLimit opts),
      ap_offset = max 0 (case pi_offset page of Some n \<Rightarrow> n | None \<Rightarrow> 0)\<rparr>"

definition audit_byAggregate ::
    "sql_env \<Rightarrow> audit_query_options \<Rightarrow> string \<Rightarrow> page_input \<Rightarrow> (audit_row list, js_error, audit_page) eff" where
  "audit_byAggregate E opts aggregateId page = audit_findByAggregateId E aggregateId (resolvePage opts page)"

definition audit_query ::
    "sql_env \<Rightarrow> audit_query_options \<Rightarrow> audit_filter \<Rightarrow> page_input \<Rightarrow> (audit_row list, js_error, audit_page) eff" where
  "audit_query E opts f page = audit_search E f (resolvePage opts page)"

section \<open>An append-only log\<close>

text \<open>
  What a consumer of events needs of a log: an append that succeeds puts the entry at the end
  unless one of that key is there, and one that rejects changes nothing.
\<close>

locale append_only_log =
  fixes append_entry :: "'c \<Rightarrow> 'i \<Rightarrow> ('s, js_error, unit) eff"
    and log_entries :: "'s \<Rightarrow> 'r list"
    and entry_key :: "'r \<Rightarrow> string"
    and input_key :: "'i \<Rightarrow> string"
  assumes append_new: "append_entry cx i s = (Inr u, t) \<Longrightarrow> input_key i \<notin> entry_key ` set (log_entries s) \<Longrightarrow>
      \<exists>r. entry_key r = input_key i \<and> log_entries t = log_entries s @ [r]"
    and append_known: "append_entry cx i s = (Inr u, t) \<Longrightarrow> input_key i \<in> entry_key ` set (log_entries s) \<Longrightarrow> log_entries t = log_entries s"
    and append_rejected: "append_entry cx i s = (Inl e, t) \<Longrightarrow> log_entries t = log_entries s"
begin

lemma append_keeps: "\<exists>new. log_entries (snd (append_entry cx i s)) = log_entries s @ new"
  by (cases "append_entry cx i s"; cases "fst (append_entry cx i s)";
      cases "input_key i \<in> entry_key ` set (log_entries s)")
    (auto dest: append_new append_known append_rejected)

lemma append_distinct:
  "distinct (map entry_key (log_entries s)) \<Longrightarrow> distinct (map entry_key (log_entries (snd (append_entry cx i s))))"
proof -
  assume d: "distinct (map entry_key (log_entries s))"
  obtain r t where a: "append_entry cx i s = (r, t)" by fastforce
  show ?thesis
  proof (cases r)
    case (Inl e)
    with a d append_rejected show ?thesis by fastforce
  next
    case (Inr u)
    show ?thesis
    proof (cases "input_key i \<in> entry_key ` set (log_entries s)")
      case True
      with append_known [OF a [unfolded Inr]] a d show ?thesis by simp
    next
      case False
      from append_new [OF a [unfolded Inr] False] obtain x
        where "entry_key x = input_key i" "log_entries t = log_entries s @ [x]" by blast
      with a d False show ?thesis by auto
    qed
  qed
qed

lemma append_records: "append_entry cx i s = (Inr u, t) \<Longrightarrow> input_key i \<in> entry_key ` set (log_entries t)"
  by (cases "input_key i \<in> entry_key ` set (log_entries s)") (fastforce dest: append_new append_known)+

text \<open>Recording an input again changes nothing.\<close>

lemma append_idempotent:
  "append_entry cx i s = (Inr u, t) \<Longrightarrow> append_entry cx' i t = (Inr u', t') \<Longrightarrow> log_entries t' = log_entries t"
  using append_known append_records by blast

end

definition audit_key :: "audit_input \<Rightarrow> string" where
  "audit_key i = (case ai_eventId i of Some e \<Rightarrow> e | None \<Rightarrow> [])"

lemma audit_violation_None:
  "audit_violation E i = None \<Longrightarrow> \<exists>e. ai_eventId i = Some e \<and> sql_uuid E e"
  by (auto simp: audit_violation_def first_violation_None uuid_or_null_def split: if_splits)

interpretation audit_log: append_only_log "audit_append E" id aw_event_id audit_key
  for E :: sql_env
proof (unfold_locales, goal_cases)
  case (1 cx i s u t)
  then show ?case
    by (auto simp: audit_append_def audit_key_def audit_row_of_def list_ex_iff dest!: audit_violation_None
        split: option.splits if_splits)
next
  case (2 cx i s u t)
  then show ?case
    by (auto simp: audit_append_def audit_key_def list_ex_iff dest!: audit_violation_None split: option.splits if_splits)
next
  case (3 cx i s e t)
  then show ?case by (auto simp: audit_append_def split: option.splits if_splits)
qed

section \<open>A stream of events\<close>

text \<open>Events handled one after the other, whatever the outcome; a redelivery is another member of
  the list.\<close>

fun audit_consume :: "sql_env \<Rightarrow> (audit_call \<times> json) list \<Rightarrow> audit_row list \<Rightarrow> audit_row list" where
  "audit_consume E [] rows = rows"
| "audit_consume E ((cx, event) # evs) rows = audit_consume E evs (snd (audit_handle (audit_append E) cx event rows))"

lemma audit_handle_cases:
  obtains (ignored) e where "audit_handle (audit_append E) cx event rows = (Inl e, rows)"
  | (appended) i where "toAuditInput event = Inr i" "audit_handle (audit_append E) cx event rows = audit_append E cx i rows"
  by (cases "toAuditInput event") (auto simp: audit_handle_def bind_eff_def lift_res_def)

lemma audit_handle_keeps: "\<exists>new. snd (audit_handle (audit_append E) cx event rows) = rows @ new"
proof (cases rule: audit_handle_cases [of E cx event rows])
  case (appended i)
  then show ?thesis using audit_log.append_keeps [of E cx i rows] by simp
qed simp

lemma audit_handle_distinct:
  "distinct (map aw_event_id rows) \<Longrightarrow> distinct (map aw_event_id (snd (audit_handle (audit_append E) cx event rows)))"
  by (cases rule: audit_handle_cases [of E cx event rows]) (use audit_log.append_distinct in auto)

lemma audit_consume_keeps: "\<exists>new. audit_consume E evs rows = rows @ new"
proof (induction evs arbitrary: rows)
  case (Cons c evs)
  obtain cx event where c: "c = (cx, event)" by fastforce
  obtain n1 where n1: "snd (audit_handle (audit_append E) cx event rows) = rows @ n1" using audit_handle_keeps by blast
  obtain n2 where "audit_consume E evs (rows @ n1) = (rows @ n1) @ n2" using Cons by blast
  with n1 show ?case by (simp add: c)
qed simp

lemma audit_consume_distinct:
  "distinct (map aw_event_id rows) \<Longrightarrow> distinct (map aw_event_id (audit_consume E evs rows))"
proof (induction evs arbitrary: rows)
  case (Cons c evs)
  then show ?case by (cases c) (simp add: audit_handle_distinct)
qed simp

lemma toAuditInput_id: "toAuditInput event = Inr input \<Longrightarrow> ai_eventId input = text_member event ''id''"
  by (cases "get_str event ''type''") (auto simp: toAuditInput_def Let_def)

text \<open>An event that was handled successfully is in the log from then on.\<close>

lemma audit_recorded:
  assumes "audit_handle (audit_append E) cx event rows = (Inr (), t)" and "get_str event ''id'' = Some i"
  shows "i \<in> aw_event_id ` set (audit_consume E evs t)"
proof -
  obtain input where a: "toAuditInput event = Inr input" "audit_append E cx input rows = (Inr (), t)"
    using assms(1) by (cases "toAuditInput event") (auto simp: audit_handle_def bind_eff_def lift_res_def)
  have "json_get event ''id'' = Some (JStr i)"
    using assms(2) by (auto simp: get_str_def split: option.splits json.splits)
  then have "text_member event ''id'' = Some i" by (simp add: text_member_def nullish_def)
  with toAuditInput_id [OF a(1)] have "audit_key input = i" by (simp add: audit_key_def)
  with audit_log.append_records [OF a(2)] have "i \<in> aw_event_id ` set t" by simp
  moreover obtain new where "audit_consume E evs t = t @ new" using audit_consume_keeps by blast
  ultimately show ?thesis by auto
qed

text \<open>What the events of a stream leave in the log: rows made of accepted events only, and every
  accepted event.\<close>

lemma audit_handle_rows:
  "\<exists>new. snd (audit_handle (audit_append E) cx event rows) = rows @ new \<and>
     (new = [] \<or> (\<exists>i. toAuditInput event = Inr i \<and> audit_violation E i = None \<and> new = [audit_row_of (fst cx) (snd cx) i]))"
proof (cases rule: audit_handle_cases [of E cx event rows])
  case (appended i)
  then show ?thesis by (auto simp: audit_append_def split: option.split)
qed simp

definition audit_row_from :: "sql_env \<Rightarrow> (audit_call \<times> json) list \<Rightarrow> audit_row \<Rightarrow> bool" where
  "audit_row_from E evs r \<longleftrightarrow>
     (\<exists>cx event i. (cx, event) \<in> set evs \<and> toAuditInput event = Inr i \<and> audit_violation E i = None \<and>
        r = audit_row_of (fst cx) (snd cx) i)"

lemma audit_row_from_Cons: "audit_row_from E evs r \<Longrightarrow> audit_row_from E (c # evs) r"
  unfolding audit_row_from_def by (blast intro: list.set_intros(2))

lemma audit_consume_rows: "\<exists>new. audit_consume E evs rows = rows @ new \<and> (\<forall>r\<in>set new. audit_row_from E evs r)"
proof (induction evs arbitrary: rows)
  case (Cons c evs)
  obtain cx event where c: "c = (cx, event)" by fastforce
  obtain n1 where n1: "snd (audit_handle (audit_append E) cx event rows) = rows @ n1"
    "n1 = [] \<or> (\<exists>i. toAuditInput event = Inr i \<and> audit_violation E i = None \<and> n1 = [audit_row_of (fst cx) (snd cx) i])"
    using audit_handle_rows by blast
  then have "\<forall>r\<in>set n1. audit_row_from E (c # evs) r" unfolding audit_row_from_def c by (metis empty_iff empty_set list.set_intros(1) set_ConsD)
  moreover obtain n2 where n2: "audit_consume E evs (rows @ n1) = (rows @ n1) @ n2" "\<forall>r\<in>set n2. audit_row_from E evs r"
    using Cons.IH [of "rows @ n1"] by blast
  ultimately have "\<forall>r\<in>set (n1 @ n2). audit_row_from E (c # evs) r"
    using audit_row_from_Cons [of E evs _ c] by (simp add: ball_Un)
  with n1(1) n2(1) show ?case unfolding c by auto
qed simp

lemma audit_consume_complete:
  assumes "(cx, event) \<in> set evs" and "toAuditInput event = Inr i" and "audit_violation E i = None"
  shows "audit_key i \<in> aw_event_id ` set (audit_consume E evs rows)"
  using assms(1)
proof (induction evs arbitrary: rows)
  case (Cons c evs)
  show ?case
  proof (cases "c = (cx, event)")
    case True
    have "\<exists>t. audit_append E cx i rows = (Inr (), t)" using assms(3) by (simp add: audit_append_def)
    then obtain t where t: "audit_append E cx i rows = (Inr (), t)" ..
    have "audit_key i \<in> aw_event_id ` set t" using audit_log.append_records [OF t] by simp
    moreover obtain new where "audit_consume E evs t = t @ new" using audit_consume_keeps by blast
    ultimately show ?thesis using True t assms(2) by (auto simp: audit_handle_def bind_eff_def lift_res_def)
  next
    case False
    with Cons show ?thesis by (cases c) auto
  qed
qed simp

section \<open>Reading the log page by page\<close>

text \<open>Following the offset while there is more, at most \<open>fuel\<close> requests; with the requests made.\<close>

fun audit_read :: "nat \<Rightarrow> audit_row list \<Rightarrow> int \<Rightarrow> int \<Rightarrow> audit_record list \<times> nat" where
  "audit_read 0 rows limit offset = ([], 0)"
| "audit_read (Suc fuel) rows limit offset =
     (let page = audit_paginate (audit_page_rows \<lparr>ap_limit = limit, ap_offset = offset\<rparr> rows) \<lparr>ap_limit = limit, ap_offset = offset\<rparr>
      in if ag_hasMore page then (case audit_read fuel rows limit (offset + limit) of (ds, n) \<Rightarrow> (ag_data page @ ds, Suc n))
         else (ag_data page, 1))"

lemma audit_page_data:
  assumes "1 \<le> limit" and "0 \<le> offset"
  shows "ag_data (audit_paginate (audit_page_rows \<lparr>ap_limit = limit, ap_offset = offset\<rparr> rows) \<lparr>ap_limit = limit, ap_offset = offset\<rparr>) =
      map audit_toRecord (take (nat limit) (drop (nat offset) (sort_key aw_recorded_at rows)))"
    and "ag_hasMore (audit_paginate (audit_page_rows \<lparr>ap_limit = limit, ap_offset = offset\<rparr> rows) \<lparr>ap_limit = limit, ap_offset = offset\<rparr>)
      \<longleftrightarrow> offset + limit < int (length rows)"
  using assms by (auto simp: audit_paginate_def audit_page_rows_def Let_def min_def nat_le_iff nat_add_distrib)

lemma audit_read_all:
  assumes "1 \<le> limit" and "0 \<le> offset" and "int (length rows) < offset + limit * int fuel"
  shows "fst (audit_read fuel rows limit offset) = map audit_toRecord (drop (nat offset) (sort_key aw_recorded_at rows)) \<and>
    snd (audit_read fuel rows limit offset) \<le> fuel"
  using assms
proof (induction fuel arbitrary: offset)
  case 0
  then show ?case by simp
next
  case (Suc fuel)
  let ?L = "sort_key aw_recorded_at rows"
  note page = audit_page_data [OF Suc.prems(1,2), of rows]
  show ?case
  proof (cases "offset + limit < int (length rows)")
    case True
    have "int (length rows) < (offset + limit) + limit * int fuel" using Suc.prems(3) by (simp add: algebra_simps)
    with Suc.IH [of "offset + limit"] Suc.prems(1,2)
    have IH: "fst (audit_read fuel rows limit (offset + limit)) = map audit_toRecord (drop (nat limit + nat offset) ?L)"
      "snd (audit_read fuel rows limit (offset + limit)) \<le> fuel"
      by (simp_all add: nat_add_distrib add.commute)
    have "take (nat limit) (drop (nat offset) ?L) @ drop (nat limit + nat offset) ?L = drop (nat offset) ?L"
      by (metis append_take_drop_id drop_drop)
    then show ?thesis
      using page True IH by (simp add: Let_def case_prod_beta map_append [symmetric] del: map_append)
  next
    case False
    then have "take (nat limit) (drop (nat offset) ?L) = drop (nat offset) ?L" using Suc.prems(1,2) by simp
    with page False show ?thesis by (simp add: Let_def)
  qed
qed

end
