(* ===== verification/Query_Apis.thy ===== *)
theory Query_Apis
  imports Inventory_Service Audit_Log Order_Api
begin

text \<open>
  \<open>InventoryController\<close> of the inventory service with the schemas of its validators, and
  \<open>AuditController\<close> of the audit service.
\<close>

section \<open>Inventory schemas\<close>

record reserve_input =
  vi_orderId :: string
  vi_items :: "reservation_item list"

text \<open>\<open>checkStockSchema\<close>'s transformation and refinements: the SKUs of a comma-separated list.\<close>

definition split_skus :: "string \<Rightarrow> string list" where
  "split_skus s = filter (\<lambda>t. t \<noteq> []) (map trim (split_on CHR '','' s))"

definition checkStockSchema_accepts :: "string list \<Rightarrow> bool" where
  "checkStockSchema_accepts skus \<longleftrightarrow> 0 < length skus \<and> length skus \<le> 100"

definition reserve_item_accepted :: "reservation_item \<Rightarrow> bool" where
  "reserve_item_accepted i \<longleftrightarrow>
     1 \<le> length (ri_sku i) \<and> length (ri_sku i) \<le> 50 \<and> (\<exists>n. 0 < n \<and> ri_quantity i = Some (JNum (of_int n)))"

definition reserveStockSchema_accepts :: "(string \<Rightarrow> bool) \<Rightarrow> reserve_input \<Rightarrow> bool" where
  "reserveStockSchema_accepts uuid d \<longleftrightarrow>
     uuid (vi_orderId d) \<and> list_all reserve_item_accepted (vi_items d) \<and> 1 \<le> length (vi_items d) \<and> length (vi_items d) \<le> 50"

section \<open>InventoryController\<close>

definition level_json :: "stock_level \<Rightarrow> json" where
  "level_json l = JObj
     [(''sku'', JStr (sl_sku l)), (''available'', JNum (of_int (sl_available l))), (''reserved'', JNum (of_int (sl_reserved l))),
      (''found'', JBool (sl_found l))]"

definition getStock :: "string safe_parse \<Rightarrow> 's inventory_repository \<Rightarrow> http_request \<Rightarrow> ('s, js_error, http_response) eff" where
  "getStock parse repo rq =
     (case parse (Some (rq_params rq)) of
        Inl _ \<Rightarrow> throw (app_err ValidationError ''Invalid SKU'')
      | Inr sku \<Rightarrow>
          bind_eff (CheckStock_execute repo [sku]) (\<lambda>levels.
            case levels of
              [] \<Rightarrow> throw (App ((new_error NotFoundError (''SKU '' @ sku @ '' not found''))\<lparr>ae_instance := Some (''/api/v1/inventory/'' @ sku)\<rparr>))
            | level # _ \<Rightarrow>
                if \<not> sl_found level
                then throw (App ((new_error NotFoundError (''SKU '' @ sku @ '' not found''))\<lparr>ae_instance := Some (''/api/v1/inventory/'' @ sku)\<rparr>))
                else ret (json_response 200 (level_json level))))"

text \<open>Issues without a path are filed under \<open>skus\<close>.\<close>

definition sku_fields :: "zod_issue list \<Rightarrow> (string \<times> string) list" where
  "sku_fields issues =
     foldl (\<lambda>fs i. AList.update (let k = join_with ''.'' (zi_path i) in if k = [] then ''skus'' else k) (zi_message i) fs) [] issues"

definition checkStock :: "string list safe_parse \<Rightarrow> 's inventory_repository \<Rightarrow> http_request \<Rightarrow> ('s, js_error, http_response) eff" where
  "checkStock parse repo rq =
     (case parse (Some (rq_query rq)) of
        Inl issues \<Rightarrow> throw (validation_error ''Invalid stock check request'' (sku_fields issues))
      | Inr skus \<Rightarrow>
          bind_eff (CheckStock_execute repo skus) (\<lambda>levels.
          ret (json_response 200 (JObj [(''data'', JArr (map level_json levels))]))))"

definition reserveStock ::
    "reserve_input safe_parse \<Rightarrow> 's inventory_repository \<Rightarrow> int \<Rightarrow> stock_call \<Rightarrow> http_request \<Rightarrow> ('s, js_error, http_response) eff" where
  "reserveStock parse repo ttlSeconds cx rq =
     (case parse (rq_body rq) of
        Inl issues \<Rightarrow> throw (validation_error ''Invalid reservation request'' (issue_fields issues))
      | Inr input \<Rightarrow>
          bind_eff (ReserveStock_execute repo ttlSeconds cx (vi_orderId input) (vi_items input)) (\<lambda>r.
          ret (json_response 201 (JObj
            [(''orderId'', JStr (rs_orderId r)),
             (''reservations'', JArr (map (\<lambda>x. JObj [(''sku'', JStr (rr_sku x)), (''quantity'', JNum (of_int (rr_quantity x))),
                (''reservationId'', JStr (rr_reservationId x))]) (rs_reservations r)))]))))"

definition releaseStock ::
    "string safe_parse \<Rightarrow> 's inventory_repository \<Rightarrow> stock_call \<Rightarrow> http_request \<Rightarrow> ('s, js_error, http_response) eff" where
  "releaseStock parse repo cx rq =
     (case parse (rq_body rq) of
        Inl issues \<Rightarrow> throw (validation_error ''Invalid release request'' (issue_fields issues))
      | Inr orderId \<Rightarrow>
          bind_eff (ReleaseStock_execute repo cx orderId) (\<lambda>(oid, released).
          ret (json_response 200 (JObj [(''orderId'', JStr oid), (''releasedCount'', JNum (of_nat released))]))))"

text \<open>What the schema accepts the domain accepts.\<close>

lemma accepted_quantity:
  "reserve_item_accepted i \<Longrightarrow> \<exists>n. 0 < n \<and> assertPositiveInteger (ri_quantity i) = Inr n"
  by (auto simp: reserve_item_accepted_def assertPositiveInteger_def)

section \<open>AuditController\<close>

definition toFieldErrors :: "zod_issue list \<Rightarrow> (string \<times> string) list" where
  "toFieldErrors issues =
     foldl (\<lambda>fs i. AList.update (let k = join_with ''.'' (zi_path i) in if k = [] then ''query'' else k) (zi_message i) fs) [] issues"

definition audit_record_json :: "audit_record \<Rightarrow> json" where
  "audit_record_json r = JObj
     ([(''id'', JStr (ar_id r))] @ opt_member ''eventId'' JStr (ai_eventId (ar_input r)) @
      [(''eventType'', JStr (ai_eventType (ar_input r)))] @ opt_member ''source'' JStr (ai_source (ar_input r)) @
      [(''aggregateType'', JStr (ai_aggregateType (ar_input r)))] @ opt_member ''aggregateId'' JStr (ai_aggregateId (ar_input r)) @
      opt_member ''correlationId'' JStr (ai_correlationId (ar_input r)) @ opt_member ''causationId'' JStr (ai_causationId (ar_input r)) @
      [(''payload'', ai_payload (ar_input r))] @ opt_member ''metadata'' (\<lambda>m. m) (ai_metadata (ar_input r)) @
      opt_member ''occurredAt'' (\<lambda>t. JNum (of_int t)) (ai_occurredAt (ar_input r)) @ [(''recordedAt'', JNum (of_int (ar_recordedAt r)))])"

definition audit_page_json :: "audit_page \<Rightarrow> json" where
  "audit_page_json p = JObj
     [(''data'', JArr (map audit_record_json (ag_data p))),
      (''pagination'', JObj [(''limit'', JNum (of_int (ag_limit p))), (''offset'', JNum (of_int (ag_offset p))), (''hasMore'', JBool (ag_hasMore p))])]"

definition audit_controller_byAggregate ::
    "string safe_parse \<Rightarrow> page_input safe_parse \<Rightarrow> sql_env \<Rightarrow> audit_query_options \<Rightarrow> http_request \<Rightarrow>
     (audit_row list, js_error, http_response) eff" where
  "audit_controller_byAggregate parse_id parse_page E opts rq =
     (case parse_id (Some (rq_params rq)) of
        Inl _ \<Rightarrow> throw (app_err ValidationError ''Invalid aggregate id'')
      | Inr i \<Rightarrow>
          (case parse_page (Some (rq_query rq)) of
             Inl issues \<Rightarrow> throw (validation_error ''Invalid pagination'' (toFieldErrors issues))
           | Inr page \<Rightarrow>
               bind_eff (audit_byAggregate E opts i page) (\<lambda>result. ret (json_response 200 (audit_page_json result)))))"

definition audit_controller_search ::
    "(audit_filter \<times> page_input) safe_parse \<Rightarrow> sql_env \<Rightarrow> audit_query_options \<Rightarrow> http_request \<Rightarrow>
     (audit_row list, js_error, http_response) eff" where
  "audit_controller_search parse E opts rq =
     (case parse (Some (rq_query rq)) of
        Inl issues \<Rightarrow> throw (validation_error ''Invalid search query'' (toFieldErrors issues))
      | Inr (f, page) \<Rightarrow>
          bind_eff (audit_query E opts f page) (\<lambda>result. ret (json_response 200 (audit_page_json result))))"

text \<open>The audit API reads only.\<close>

lemma audit_api_reads:
  "snd (audit_controller_byAggregate parse_id parse_page E opts rq rows) = rows"
  "snd (audit_controller_search parse E opts rq rows) = rows"
  by (auto simp: audit_controller_byAggregate_def audit_controller_search_def bind_eff_def throw_def ret_def
      audit_byAggregate_def audit_findByAggregateId_def audit_query_def audit_search_def split: sum.split)

end
