(* ===== verification/Api_Properties.thy ===== *)
theory Api_Properties
  imports Order_Properties Payment_Api Query_Apis
begin

text \<open>
  What holds of the HTTP APIs: authentication, rate limiting, sanitisation and idempotency in front
  of the controllers, and what a creation over HTTP does to the order database.
\<close>

section \<open>Creating an order over HTTP\<close>

lemma create_rejected:
  "order_db_ok E D (fst s) \<Longrightarrow> CreateOrder_execute D (KnexOrderRepository E D C) cx c s = (Inl e, t) \<Longrightarrow> t = s"
  by (cases rule: knex_orders.create_cases) auto

lemma createOrder_cases:
  assumes "order_db_ok E D (fst s)" and "createOrder parse D (KnexOrderRepository E D C) cx rq s = (r, s')"
  obtains (rejected) e where "r = Inl e" "s' = s"
  | (answered) input key ord existing where "parse (rq_body rq) = Inr input" "header_value rq ''idempotency-key'' = Some key"
      "CreateOrder_execute D (KnexOrderRepository E D C) cx
         \<lparr>cc_customerId = customer_of rq, cc_idempotencyKey = key, cc_currency = ni_currency input,
          cc_items = ni_items input, cc_shippingAddress = ni_shippingAddress input\<rparr> s = (Inr (ord, existing), s')"
      "r = Inr (json_response (if existing then 200 else 201) (formatOrderResponse D ord))"
  using assms create_rejected [OF assms(1)]
  by (auto simp: createOrder_def throw_def bind_eff_def ret_def split: sum.splits option.splits prod.splits)


text \<open>A customer with a token creates an order.\<close>

definition demo_request :: http_request where
  "demo_request = \<lparr>rq_method = ''POST'', rq_originalUrl = ''/api/v1/orders'',
     rq_headers = [''authorization'' \<mapsto> ''Bearer t'', ''idempotency-key'' \<mapsto> ''k''], rq_body = None, rq_query = JObj [],
     rq_params = JObj [], rq_user = None\<rparr>"

definition demo_verify :: jwt_verify where
  "demo_verify token secret =
     (if token = ''t'' then Inr (JObj [(''sub'', JStr ''c'')])
      else if token = ''u'' then Inr (JObj [(''sub'', JStr ''other'')]) else Inl (LibraryError ''jwt malformed''))"

definition demo_hit :: "unit rate_limiter_store" where
  "demo_hit key w limit now l = (Inr \<lparr>rl_allowed = True, rl_remaining = 5, rl_resetMs = w\<rparr>, l)"

definition demo_redis :: redis where
  "demo_redis = \<lparr>rs_values = (\<lambda>_. None), rs_up = True\<rparr>"

definition demo_parse :: "create_input safe_parse" where
  "demo_parse body = Inr \<lparr>ni_items = cc_items demo_cmd, ni_currency = ''USD'', ni_shippingAddress = JNull\<rparr>"

lemma demo_bearer: "bearer_token demo_request = Some ''t''"
  by (simp add: bearer_token_def demo_request_def starts_with_def)

lemma demo_identity:
  "authMiddleware demo_verify \<lparr>ao_secret = sec, ao_optional = False\<rparr> (sanitizeMiddleware demo_request) None =
     (Next, (sanitizeMiddleware demo_request)\<lparr>rq_user := Some \<lparr>au_userId = ''c'', au_roles = []\<rparr>\<rparr>, None)"
  by (simp add: authMiddleware_def demo_bearer demo_verify_def token_user_def nullish_def Let_def)

lemma demo_key: "header_value demo_request ''idempotency-key'' = Some ''k''"
  by (simp add: header_value_def demo_request_def)

lemma demo_post:
  "\<exists>saved t c'. mutating_route None None (createOrder demo_parse rat_decimal demo_orders demo_ctx) 1 2
     ((sanitizeMiddleware demo_request)\<lparr>rq_user := Some \<lparr>au_userId = ''c'', au_roles = []\<rparr>\<rparr>) (demo_redis, demo_start) =
     (Inr (json_response 201 (formatOrderResponse rat_decimal saved)), (c', t))"
proof -
  obtain saved t where "CreateOrder_execute rat_decimal demo_orders demo_ctx demo_cmd demo_start = (Inr (saved, False), t)"
    using demo_create by blast
  then show ?thesis
    by (simp add: mutating_route_def idempotencyMiddleware_def default_header Let_def demo_key redis_get_def redis_live_def
        demo_redis_def createOrder_def demo_parse_def customer_of_def bind_eff_def ret_def api_answer_def json_response_def
        redis_set_def demo_cmd_def) blast
qed


section \<open>Replays\<close>


text \<open>Another customer repeats the request of the first, and gets the answer made for the first.\<close>

definition demo_other :: http_request where
  "demo_other = demo_request\<lparr>rq_headers := [''authorization'' \<mapsto> ''Bearer u'', ''idempotency-key'' \<mapsto> ''k'']\<rparr>"

definition demo_whoami :: "http_request \<Rightarrow> (nat, js_error, http_response) eff" where
  "demo_whoami rq n = (Inr (json_response 201 (JStr (customer_of rq))), n + 1)"


section \<open>Sanitisation\<close>

text \<open>C39: what the sanitiser lets through is clean.  After it no string of an object or array body
  or query contains a tag or white space at its ends, no key starts with $ or contains a dot,
  wherever they are nested; headers and parameters pass; and running it again changes nothing.\<close>

theorem sanitized_is_clean:
  "clean (case rq_body (sanitizeMiddleware rq) of Some b \<Rightarrow> if is_object b then b else JNull | None \<Rightarrow> JNull) \<and>
   clean (if is_object (rq_query (sanitizeMiddleware rq)) then rq_query (sanitizeMiddleware rq) else JNull) \<and>
   rq_headers (sanitizeMiddleware rq) = rq_headers rq \<and> rq_params (sanitizeMiddleware rq) = rq_params rq \<and>
   sanitizeMiddleware (sanitizeMiddleware rq) = sanitizeMiddleware rq"
  by (auto simp: sanitizeMiddleware_def Let_def sanitizeObject_clean sanitizeObject_idem is_object_sanitized split: option.split)

section \<open>Rate limit\<close>


definition demo_exec :: "keyspace redis_client" where
  "demo_exec t cs ks = (case redis_effects t cs ks of (replies, ks') \<Rightarrow> (Inr (map Some replies), ks'))"


section \<open>Payments\<close>

text \<open>A request that moves money and was answered with success is not processed again.  For a day
  every request of the payment or refund route with the same method, URL and Idempotency-Key gets
  the status and body of the first answer, marked as a replay, whatever it asks for; the controller
  does not run, so neither the payment database nor the gateway is reached.\<close>

theorem payment_request_replayed:
  assumes "header_value rq ''idempotency-key'' = Some key" and "rs_up c" and "redis_live now c (cache_key rq key) = None"
    and "payment_api dev rid action now finished rq (c, s) = (Answered res e, (c', s'))"
    and "200 \<le> res_status res" "res_status res < 300" "json_ok (res_body res)"
    and "header_value rq' ''idempotency-key'' = Some key" "rq_method rq' = rq_method rq" "rq_originalUrl rq' = rq_originalUrl rq"
    and "finished \<le> later" "later < finished + 86400000"
  shows "payment_api dev rid action' later finished' rq' (c', t) =
    (Answered \<lparr>res_status = res_status res, res_headers = [(''Idempotent-Replay'', ''true'')], res_body = res_body res\<rparr> None, (c', t))"
  by (rule payment_api_replays [OF assms])

theorem payment_request_replayed_witness:
  "\<exists>c. payment_api None None demo_whoami 1 2 demo_request (demo_redis, 0) = (Answered (json_response 201 (JStr ''anonymous'')) None, (c, 1)) \<and>
     payment_api None None demo_whoami 9 9 demo_request (c, 1) =
       (Answered \<lparr>res_status = 201, res_headers = [(''Idempotent-Replay'', ''true'')], res_body = JStr ''anonymous''\<rparr> None, (c, 1))"
proof -
  have user: "rq_user (sanitizeMiddleware demo_request) = None"
    by (simp add: sanitizeMiddleware_def demo_request_def Let_def)
  obtain c where first: "payment_api None None demo_whoami 1 2 demo_request (demo_redis, 0) =
      (Answered (json_response 201 (JStr ''anonymous'')) None, (c, 1))"
    using user
    by (simp add: payment_api_def idempotencyMiddleware_def required_header Let_def demo_key redis_get_def redis_live_def
        demo_redis_def demo_whoami_def customer_of_def api_answer_def json_response_def redis_set_def)
  have "payment_api None None demo_whoami 9 9 demo_request (c, 1) =
      (Answered \<lparr>res_status = res_status (json_response 201 (JStr ''anonymous'')),
         res_headers = [(''Idempotent-Replay'', ''true'')], res_body = res_body (json_response 201 (JStr ''anonymous''))\<rparr> None, (c, 1))"
    by (rule payment_request_replayed [OF demo_key _ _ first]) (simp_all add: demo_key demo_redis_def redis_live_def json_response_def)
  with first show ?thesis by (auto simp: json_response_def)
qed

end
