(* ===== verification/Notification.thy ===== *)
theory Notification
  imports Cache Domain_Event
begin

text \<open>
  The notification service: the template renderer (\<open>templates/renderer.ts\<close>), the templates
  (\<open>templates/index.ts\<close>), \<open>NotificationDispatcher\<close>, \<open>ConsumeOnceGuard\<close> and the event handler.
  Delivery is simulated in the code: the state keeps the list of what was sent.  Members an object
  inherits are not modelled.
\<close>

section \<open>Renderer\<close>

definition is_path_char :: "char \<Rightarrow> bool" where
  "is_path_char c =
     (let n = of_char c :: nat in
      (48 \<le> n \<and> n \<le> 57) \<or> (65 \<le> n \<and> n \<le> 90) \<or> (97 \<le> n \<and> n \<le> 122) \<or> c = CHR ''_'' \<or> c = CHR ''.'')"

text \<open>A match of \<open>{{ path }}\<close> at the start of the text: the path and the rest.\<close>

definition match_tag :: "string \<Rightarrow> (string \<times> string) option" where
  "match_tag s =
     (if starts_with s ''{{'' then
        let s1 = dropWhile is_space (drop 2 s); path = takeWhile is_path_char s1;
            s2 = dropWhile is_space (dropWhile is_path_char s1)
        in if path \<noteq> [] \<and> starts_with s2 ''}}'' then Some (path, drop 2 s2) else None
      else None)"

lemma match_tag_shorter: "match_tag s = Some (path, rest) \<Longrightarrow> length rest < length s"
proof -
  assume m: "match_tag s = Some (path, rest)"
  let ?s1 = "dropWhile is_space (drop 2 s)"
  have "rest = drop 2 (dropWhile is_space (dropWhile is_path_char ?s1))" "takeWhile is_path_char ?s1 \<noteq> []"
    using m by (auto simp: match_tag_def Let_def split: if_splits)
  moreover have "length (dropWhile P xs) \<le> length xs" for P and xs :: string by (rule length_dropWhile_le)
  moreover have "?s1 \<noteq> []" using calculation(2) by (metis takeWhile.simps(1))
  ultimately have "length rest \<le> length ?s1" "length ?s1 \<le> length s - 2" "0 < length ?s1"
    by (metis diff_le_self le_trans length_drop length_dropWhile_le, metis length_drop length_dropWhile_le, simp)
  then show ?thesis by linarith
qed

text \<open>\<open>resolvePath\<close>: member by member; an array has its indices and its length.\<close>

definition member_of :: "json option \<Rightarrow> string \<Rightarrow> json option" where
  "member_of acc key =
     (case acc of
        Some (JObj kvs) \<Rightarrow> map_of kvs key
      | Some (JArr vs) \<Rightarrow>
          if key = ''length'' then Some (JNum (of_nat (length vs)))
          else map_of (map (\<lambda>(i, v). (show_nat i, v)) (enumerate 0 vs)) key
      | _ \<Rightarrow> None)"

definition resolvePath :: "json option \<Rightarrow> string \<Rightarrow> json option" where
  "resolvePath data path = foldl member_of data (split_on CHR ''.'' path)"

definition value_text :: "json option \<Rightarrow> string" where
  "value_text v = (case nullish v None of None \<Rightarrow> [] | Some w \<Rightarrow> json_text w)"

function render :: "string \<Rightarrow> json option \<Rightarrow> string" where
  "render [] data = []"
| "render (c # cs) data =
     (case match_tag (c # cs) of
        Some (path, rest) \<Rightarrow> value_text (resolvePath data path) @ render rest data
      | None \<Rightarrow> c # render cs data)"
  by pat_completeness auto
termination
  by (relation "measure (\<lambda>(s, _). length s)") (auto dest: match_tag_shorter)

text \<open>Text without braces is copied, a tag is replaced by the text of its member.\<close>

lemma match_tag_needs_brace: "CHR ''{'' \<noteq> c \<Longrightarrow> match_tag (c # cs) = None"
  by (simp add: match_tag_def starts_with_def)

lemma render_copies: "CHR ''{'' \<notin> set s \<Longrightarrow> render (s @ t) data = s @ render t data"
  by (induction s) (auto simp: match_tag_needs_brace)

lemma match_tag_tag:
  assumes "path \<noteq> []" and "list_all is_path_char path"
  shows "match_tag (''{{ '' @ path @ '' }}'' @ rest) = Some (path, rest)"
proof -
  obtain c cs where path: "path = c # cs" using assms(1) by (cases path) auto
  have chars: "is_space CHR '' ''" "\<not> is_path_char CHR '' ''" "\<not> is_space CHR ''}''" by code_simp+
  have "\<not> is_space d" if "is_path_char d" for d
    using that by (auto simp: is_space_def is_path_char_def Let_def)
  with assms path have "\<not> is_space c" by simp
  moreover have "takeWhile is_path_char (path @ '' }}'' @ rest) = path" "dropWhile is_path_char (path @ '' }}'' @ rest) = '' }}'' @ rest"
    using assms(2) chars by (simp_all add: list_all_iff takeWhile_append2 dropWhile_append2)
  ultimately show ?thesis
    using chars path by (simp add: match_tag_def starts_with_def)
qed

lemma render_tag:
  assumes "path \<noteq> []" and "list_all is_path_char path"
  shows "render (''{{ '' @ path @ '' }}'' @ rest) data = value_text (resolvePath data path) @ render rest data"
  using match_tag_tag [OF assms, of rest] by (simp del: match_tag_def)

text \<open>A template as its parts, and what each part contributes.\<close>

datatype template_part = Words string | Tag string

fun part_text :: "template_part \<Rightarrow> string" where
  "part_text (Words s) = s"
| "part_text (Tag path) = ''{{ '' @ path @ '' }}''"

fun part_ok :: "template_part \<Rightarrow> bool" where
  "part_ok (Words s) = (CHR ''{'' \<notin> set s)"
| "part_ok (Tag path) = (path \<noteq> [] \<and> list_all is_path_char path)"

fun part_value :: "json option \<Rightarrow> template_part \<Rightarrow> string" where
  "part_value data (Words s) = s"
| "part_value data (Tag path) = value_text (resolvePath data path)"

lemma render_parts:
  "list_all part_ok ps \<Longrightarrow> render (concat (map part_text ps)) data = concat (map (part_value data) ps)"
proof (induction ps)
  case (Cons p ps)
  then show ?case
    by (cases p) (simp_all del: render.simps(2) add: render_copies render_tag [simplified])
qed simp

section \<open>Templates\<close>

record notification_template =
  nt_channel :: string
  nt_subject :: string
  nt_body :: string

definition templates :: "(string \<times> notification_template) list" where
  "templates =
     [(ORDER_CONFIRMED,
       \<lparr>nt_channel = ''email'', nt_subject = ''Your order {{ orderId }} is confirmed'',
        nt_body = ''Hi {{ customerId }}, your order {{ orderId }} for {{ totalAmount }} {{ currency }} has been confirmed and is being prepared.''\<rparr>),
      (ORDER_CANCELLED,
       \<lparr>nt_channel = ''email'', nt_subject = ''Your order {{ orderId }} was cancelled'',
        nt_body = ''Hi {{ customerId }}, your order {{ orderId }} was cancelled. Reason: {{ reason }}. No payment has been taken.''\<rparr>),
      (PAYMENT_FAILED,
       \<lparr>nt_channel = ''email'', nt_subject = ''Payment failed for order {{ orderId }}'',
        nt_body = ''We could not process the payment for order {{ orderId }}. Reason: {{ reason }}. Please update your payment method and try again.''\<rparr>)]"

definition templateFor :: "string \<Rightarrow> notification_template option" where
  "templateFor eventType = map_of templates eventType"

definition renderNotification :: "string \<Rightarrow> json option \<Rightarrow> notification_template option" where
  "renderNotification eventType data =
     (case templateFor eventType of
        None \<Rightarrow> None
      | Some t \<Rightarrow> Some \<lparr>nt_channel = nt_channel t, nt_subject = render (nt_subject t) data, nt_body = render (nt_body t) data\<rparr>)"

section \<open>Dispatcher, guard and handler\<close>

record notification_state =
  ns_redis :: redis
  ns_sent :: "(string \<times> notification_template) list"    \<comment> \<open>event type and message\<close>

definition event_type_text :: "json \<Rightarrow> string" where
  "event_type_text event = js_text (json_get event ''type'')"

definition dispatch :: "json \<Rightarrow> notification_state \<Rightarrow> bool \<times> notification_state" where
  "dispatch event s =
     (case renderNotification (event_type_text event) (json_get event ''data'') of
        None \<Rightarrow> (False, s)
      | Some n \<Rightarrow> (True, s\<lparr>ns_sent := ns_sent s @ [(event_type_text event, n)]\<rparr>))"

text \<open>\<open>SET key '1' EX ttl NX\<close>; a Redis that does not answer lets the event through.\<close>

definition seen_key :: "string \<Rightarrow> string" where
  "seen_key eventId = ''notif:seen:'' @ eventId"

definition guard_claim :: "int \<Rightarrow> int \<Rightarrow> string \<Rightarrow> redis \<Rightarrow> bool \<times> redis" where
  "guard_claim ttlSeconds t eventId r =
     (if \<not> rs_up r then (True, r)
      else if redis_live t r (seen_key eventId) = None
      then (True, redis_write (seen_key eventId) ''1'' (Some (t + 1000 * ttlSeconds)) r)
      else (False, r))"

definition notification_handle :: "int \<Rightarrow> int \<Rightarrow> json \<Rightarrow> notification_state \<Rightarrow> notification_state" where
  "notification_handle ttlSeconds t event s =
     (case guard_claim ttlSeconds t (js_text (json_get event ''id'')) (ns_redis s) of
        (isFirst, r) \<Rightarrow>
          if \<not> isFirst then s\<lparr>ns_redis := r\<rparr>
          else snd (dispatch event (s\<lparr>ns_redis := r\<rparr>)))"

section \<open>A stream of events\<close>

fun notification_run :: "int \<Rightarrow> (int \<times> json) list \<Rightarrow> notification_state \<Rightarrow> notification_state" where
  "notification_run ttl [] s = s"
| "notification_run ttl ((t, event) # evs) s = notification_run ttl evs (notification_handle ttl t event s)"

definition event_key :: "json \<Rightarrow> string" where
  "event_key event = js_text (json_get event ''id'')"

text \<open>The reference: what the first delivery of each event id says, in order of delivery.\<close>

definition message_of :: "json \<Rightarrow> (string \<times> notification_template) list" where
  "message_of event =
     (case renderNotification (event_type_text event) (json_get event ''data'') of
        None \<Rightarrow> [] | Some n \<Rightarrow> [(event_type_text event, n)])"

fun first_deliveries :: "string list \<Rightarrow> json list \<Rightarrow> json list" where
  "first_deliveries ids [] = []"
| "first_deliveries ids (e # es) =
     (if event_key e \<in> set ids then first_deliveries ids es else e # first_deliveries (event_key e # ids) es)"

lemma first_deliveries_distinct:
  "distinct (map event_key (first_deliveries ids es)) \<and> set ids \<inter> event_key ` set (first_deliveries ids es) = {}"
  by (induction ids es rule: first_deliveries.induct) auto

lemma first_deliveries_complete:
  "e \<in> set es \<Longrightarrow> event_key e \<in> set ids \<union> event_key ` set (first_deliveries ids es)"
  by (induction ids es rule: first_deliveries.induct) auto

text \<open>Redis knows exactly the ids of \<open>ids\<close> until \<open>until\<close>.\<close>

definition knows :: "string list \<Rightarrow> int \<Rightarrow> int \<Rightarrow> redis \<Rightarrow> bool" where
  "knows ids start until r \<longleftrightarrow> rs_up r \<and>
     (\<forall>t i. start \<le> t \<longrightarrow> t < until \<longrightarrow> (redis_live t r (seen_key i) \<noteq> None \<longleftrightarrow> i \<in> set ids))"

lemma knows_claim:
  assumes "knows ids start until r" and "start \<le> t" and "until \<le> t + 1000 * ttl" and "t < until"
  shows "guard_claim ttl t i r = (i \<notin> set ids, if i \<in> set ids then r else redis_write (seen_key i) ''1'' (Some (t + 1000 * ttl)) r)"
    and "i \<notin> set ids \<Longrightarrow> knows (i # ids) t until (redis_write (seen_key i) ''1'' (Some (t + 1000 * ttl)) r)"
proof -
  show "guard_claim ttl t i r = (i \<notin> set ids, if i \<in> set ids then r else redis_write (seen_key i) ''1'' (Some (t + 1000 * ttl)) r)"
    using assms by (auto simp: guard_claim_def knows_def)
  show "knows (i # ids) t until (redis_write (seen_key i) ''1'' (Some (t + 1000 * ttl)) r)"
    using assms by (auto simp: knows_def redis_live_write seen_key_def)
qed

lemma knows_later: "knows ids start until r \<Longrightarrow> start \<le> start' \<Longrightarrow> knows ids start' until r"
  by (auto simp: knows_def)

lemma notification_handle_first:
  assumes "guard_claim ttl t (event_key e) (ns_redis s) = (True, r)"
  shows "notification_handle ttl t e s = s\<lparr>ns_redis := r, ns_sent := ns_sent s @ message_of e\<rparr>"
  using assms by (simp add: notification_handle_def event_key_def dispatch_def message_of_def split: option.split)

lemma notification_handle_again:
  assumes "guard_claim ttl t (event_key e) (ns_redis s) = (False, r)"
  shows "notification_handle ttl t e s = s\<lparr>ns_redis := r\<rparr>"
  using assms by (simp add: notification_handle_def event_key_def)

lemma notification_run_exact:
  assumes "knows ids start until (ns_redis s)" and "sorted (start # map fst evs)" and "\<forall>(t, e)\<in>set evs. t < until \<and> until \<le> t + 1000 * ttl"
  shows "ns_sent (notification_run ttl evs s) = ns_sent s @ concat (map message_of (first_deliveries ids (map snd evs)))"
  using assms
proof (induction evs arbitrary: ids start s)
  case (Cons c evs)
  obtain t e where c: "c = (t, e)" by fastforce
  from Cons.prems have t: "start \<le> t" "t < until" "until \<le> t + 1000 * ttl" by (auto simp: c)
  note claim = knows_claim [OF Cons.prems(1) t(1,3,2), of "event_key e"]
  have sorted: "sorted (t # map fst evs)" using Cons.prems(2) by (simp add: c)
  show ?case
  proof (cases "event_key e \<in> set ids")
    case True
    with claim(1) have h: "notification_handle ttl t e s = s\<lparr>ns_redis := ns_redis s\<rparr>"
      by (intro notification_handle_again) simp
    have "knows ids t until (ns_redis (notification_handle ttl t e s))"
      using knows_later [OF Cons.prems(1) t(1)] h by simp
    from Cons.IH [OF this sorted] Cons.prems(3) True h show ?thesis by (simp add: c)
  next
    case False
    let ?r = "redis_write (seen_key (event_key e)) ''1'' (Some (t + 1000 * ttl)) (ns_redis s)"
    from False claim(1) have h: "notification_handle ttl t e s = s\<lparr>ns_redis := ?r, ns_sent := ns_sent s @ message_of e\<rparr>"
      by (intro notification_handle_first) simp
    have "knows (event_key e # ids) t until (ns_redis (notification_handle ttl t e s))"
      using claim(2) [OF False] h by simp
    from Cons.IH [OF this sorted] Cons.prems(3) False h show ?thesis by (simp add: c)
  qed
qed simp

text \<open>With Redis down every delivery is sent.\<close>

lemma notification_run_down:
  "\<not> rs_up (ns_redis s) \<Longrightarrow> ns_sent (notification_run ttl evs s) = ns_sent s @ concat (map message_of (map snd evs))"
proof (induction evs arbitrary: s)
  case (Cons c evs)
  obtain t e where c: "c = (t, e)" by fastforce
  have h: "notification_handle ttl t e s = s\<lparr>ns_redis := ns_redis s, ns_sent := ns_sent s @ message_of e\<rparr>"
    using Cons.prems by (intro notification_handle_first) (simp add: guard_claim_def)
  with Cons.IH [of "notification_handle ttl t e s"] Cons.prems show ?case by (simp add: c)
qed simp

end
