(* ===== verification/Event_Log_Properties.thy ===== *)
theory Event_Log_Properties
  imports Audit_Log Notification Order_Service Outbox_Relay Fixtures "HOL-Library.Sublist"
begin

text \<open>
  What holds of the two services that only listen: the audit log keeps every event once and can be
  read completely, and each event notifies the customer once, with the text of its template.
\<close>

section \<open>The audit log\<close>


definition demo_audit_event :: json where
  "demo_audit_event = JObj [(''id'', JStr ''e1''), (''type'', JStr ''order.created''), (''source'', JStr ''order-service''),
     (''data'', JObj [(''orderId'', JStr ''o1'')])]"


text \<open>Reading the log through the API, offset by offset, while the answer says there is more; with
  the number of requests made.\<close>

fun read_log :: "nat \<Rightarrow> sql_env \<Rightarrow> audit_query_options \<Rightarrow> audit_filter \<Rightarrow> int \<Rightarrow> int \<Rightarrow> audit_row list \<Rightarrow> audit_record list \<times> nat" where
  "read_log 0 E opts f limit offset rows = ([], 0)"
| "read_log (Suc fuel) E opts f limit offset rows =
     (case fst (audit_query E opts f \<lparr>pi_limit = Some limit, pi_offset = Some offset\<rparr> rows) of
        Inl e \<Rightarrow> ([], 1)
      | Inr page \<Rightarrow>
          if ag_hasMore page
          then (case read_log fuel E opts f limit (offset + ag_limit page) rows of (ds, n) \<Rightarrow> (ag_data page @ ds, Suc n))
          else (ag_data page, 1))"

lemma read_log_pages:
  assumes "uuid_or_null E (given (af_aggregateId f))" and "bound = min (max 1 limit) (aq_maxLimit opts)" and "0 \<le> offset"
    and "1 \<le> aq_maxLimit opts"
  shows "read_log fuel E opts f limit offset rows = audit_read fuel (filter (audit_matches f) rows) bound offset"
  using assms(3)
proof (induction fuel arbitrary: offset)
  case (Suc fuel)
  have "1 \<le> bound" using assms(2,4) by simp
  have page: "fst (audit_query E opts f \<lparr>pi_limit = Some limit, pi_offset = Some offset\<rparr> rows) =
      Inr (audit_paginate (audit_page_rows \<lparr>ap_limit = bound, ap_offset = offset\<rparr> (filter (audit_matches f) rows)) \<lparr>ap_limit = bound, ap_offset = offset\<rparr>)"
    using assms(1,2) Suc.prems by (simp add: audit_query_def audit_search_def resolvePage_def)
  have bound: "ag_limit (audit_paginate rs \<lparr>ap_limit = bound, ap_offset = offset\<rparr>) = bound" for rs
    by (simp add: audit_paginate_def Let_def)
  from Suc.IH [of "offset + bound"] Suc.prems \<open>1 \<le> bound\<close> page bound show ?case by (simp add: Let_def)
qed simp


definition demo_audit_row :: "string \<Rightarrow> int \<Rightarrow> audit_row" where
  "demo_audit_row i t = \<lparr>aw_id = i, aw_event_id = i, aw_event_type = ''order.created'', aw_source = ''order-service'',
     aw_aggregate_type = ''order'', aw_aggregate_id = Some ''o1'', aw_correlation_id = None, aw_causation_id = None,
     aw_payload = JObj [], aw_metadata = None, aw_occurred_at = None, aw_recorded_at = t\<rparr>"


section \<open>Notifications\<close>

text \<open>C25: with Redis answering, every event notifies once.  For a stream of deliveries within the
  lifetime of a mark, what is sent is, in order, the message of the first delivery of each event id;
  every delivered id is among them and none twice.\<close>

theorem notified_once:
  assumes "rs_up (ns_redis s)" and "\<And>i. rs_values (ns_redis s) (seen_key i) = None"
    and "sorted (map fst evs)" and "list_all (\<lambda>(t, event). 0 \<le> t \<and> t < 1000 * ttl) evs"
  shows "\<exists>firsts. ns_sent (notification_run ttl evs s) = ns_sent s @ concat (map message_of firsts) \<and>
    distinct (map event_key firsts) \<and> set (map event_key firsts) = set (map (event_key \<circ> snd) evs) \<and> subseq firsts (map snd evs)"
proof -
  let ?firsts = "first_deliveries [] (map snd evs)"
  have known: "knows [] 0 (1000 * ttl) (ns_redis s)"
    using assms(1,2) by (simp add: knows_def redis_live_def)
  have sorted: "sorted (0 # map fst evs)" using assms(3,4) by (auto simp: list_all_iff)
  have "\<forall>(t, e)\<in>set evs. t < 1000 * ttl \<and> 1000 * ttl \<le> t + 1000 * ttl" using assms(4) by (fastforce simp: list_all_iff)
  note sent = notification_run_exact [OF known sorted this]
  have sub: "subseq (first_deliveries ids es) es" for ids es
    by (induction ids es rule: first_deliveries.induct) auto
  have "event_key e \<in> event_key ` set ?firsts" if "e \<in> snd ` set evs" for e
    using first_deliveries_complete [of e "map snd evs" "[]"] that by simp
  moreover have "set ?firsts \<subseteq> snd ` set evs"
    using sub [of "[]" "map snd evs"] by (auto dest: list_emb_set)
  ultimately have "set (map event_key ?firsts) = set (map (event_key \<circ> snd) evs)" by (force simp: image_comp)
  with sent sub [of "[]" "map snd evs"] first_deliveries_distinct [of "[]" "map snd evs"] show ?thesis by blast
qed

text \<open>A confirmation delivered twice and another order's, three milliseconds apart.\<close>

definition demo_confirmed :: "string \<Rightarrow> json" where
  "demo_confirmed i = JObj [(''id'', JStr i), (''type'', JStr ORDER_CONFIRMED), (''data'', JObj [(''orderId'', JStr i)])]"

theorem notified_once_witness:
  "\<exists>firsts. ns_sent (notification_run 1 [(0, demo_confirmed ''a''), (3, demo_confirmed ''a''), (6, demo_confirmed ''b'')]
       \<lparr>ns_redis = \<lparr>rs_values = (\<lambda>_. None), rs_up = True\<rparr>, ns_sent = []\<rparr>) = concat (map message_of firsts) \<and>
     set (map event_key firsts) = {''a'', ''b''} \<and> length firsts = 2"
proof -
  let ?evs = "[(0, demo_confirmed ''a''), (3, demo_confirmed ''a''), (6, demo_confirmed ''b'')] :: (int \<times> json) list"
  let ?s = "\<lparr>ns_redis = \<lparr>rs_values = (\<lambda>_. None), rs_up = True\<rparr>, ns_sent = []\<rparr>"
  have key: "event_key (demo_confirmed i) = i" for i by (simp add: event_key_def demo_confirmed_def js_text_def)
  from notified_once [of ?s ?evs 1] obtain firsts where f: "ns_sent (notification_run 1 ?evs ?s) = concat (map message_of firsts)"
    "distinct (map event_key firsts)" "set (map event_key firsts) = {''a'', ''b''}"
    by (auto simp: key)
  have "length firsts = card (set (map event_key firsts))" using distinct_card [OF f(2)] by simp
  then have "length firsts = 2" unfolding f(3) by simp
  with f show ?thesis by blast
qed

text \<open>The parts of the two order templates.\<close>

definition confirmed_subject :: "template_part list" where
  "confirmed_subject = [Words ''Your order '', Tag ''orderId'', Words '' is confirmed'']"

definition confirmed_body :: "template_part list" where
  "confirmed_body = [Words ''Hi '', Tag ''customerId'', Words '', your order '', Tag ''orderId'', Words '' for '', Tag ''totalAmount'',
     Words '' '', Tag ''currency'', Words '' has been confirmed and is being prepared.'']"

definition cancelled_subject :: "template_part list" where
  "cancelled_subject = [Words ''Your order '', Tag ''orderId'', Words '' was cancelled'']"

definition cancelled_body :: "template_part list" where
  "cancelled_body = [Words ''Hi '', Tag ''customerId'', Words '', your order '', Tag ''orderId'', Words '' was cancelled. Reason: '',
     Tag ''reason'', Words ''. No payment has been taken.'']"

lemma order_templates:
  "templateFor ORDER_CONFIRMED = Some \<lparr>nt_channel = ''email'', nt_subject = concat (map part_text confirmed_subject),
     nt_body = concat (map part_text confirmed_body)\<rparr>"
  "templateFor ORDER_CANCELLED = Some \<lparr>nt_channel = ''email'', nt_subject = concat (map part_text cancelled_subject),
     nt_body = concat (map part_text cancelled_body)\<rparr>"
  by code_simp+

lemma order_parts_ok:
  "list_all part_ok confirmed_subject" "list_all part_ok confirmed_body"
  "list_all part_ok cancelled_subject" "list_all part_ok cancelled_body"
  by code_simp+

lemma member_paths:
  "resolvePath data ''orderId'' = member_of data ''orderId''" "resolvePath data ''customerId'' = member_of data ''customerId''"
  "resolvePath data ''totalAmount'' = member_of data ''totalAmount''" "resolvePath data ''currency'' = member_of data ''currency''"
  "resolvePath data ''reason'' = member_of data ''reason''"
proof -
  have "split_on CHR ''.'' ''orderId'' = [''orderId'']" "split_on CHR ''.'' ''customerId'' = [''customerId'']"
    "split_on CHR ''.'' ''totalAmount'' = [''totalAmount'']" "split_on CHR ''.'' ''currency'' = [''currency'']"
    "split_on CHR ''.'' ''reason'' = [''reason'']" by code_simp+
  then show "resolvePath data ''orderId'' = member_of data ''orderId''" "resolvePath data ''customerId'' = member_of data ''customerId''"
    "resolvePath data ''totalAmount'' = member_of data ''totalAmount''" "resolvePath data ''currency'' = member_of data ''currency''"
    "resolvePath data ''reason'' = member_of data ''reason''" by (simp_all add: resolvePath_def)
qed

lemma relayed_members:
  "event_type_text (event_to_json (outbox_toDomainEvent r)) = ob_eventType (obr_event r)"
  "json_get (event_to_json (outbox_toDomainEvent r)) ''data'' = Some (ob_payload (obr_event r))"
  by (simp_all add: event_type_text_def event_to_json_def outbox_toDomainEvent_def js_text_def)

text \<open>Order mails carry the order's own data.  What the notification service renders from the
  order.confirmed event that the order service writes and the relay publishes names the customer,
  the order, its total and its currency; from order.cancelled the customer, the order and the
  reason; nothing of a template is left unfilled.\<close>

theorem order_mails:
  assumes "obr_event r = orderConfirmedEvent D req ord" and "obr_event r' = orderCancelledEvent req' ord' reason"
  shows "message_of (event_to_json (outbox_toDomainEvent r)) = [(ORDER_CONFIRMED,
       \<lparr>nt_channel = ''email'', nt_subject = ''Your order '' @ o_id ord @ '' is confirmed'',
        nt_body = ''Hi '' @ o_customerId ord @ '', your order '' @ o_id ord @ '' for '' @ show_rat (money_toNumber D (o_totalAmount ord)) @
          '' '' @ o_currency ord @ '' has been confirmed and is being prepared.''\<rparr>)] \<and>
     message_of (event_to_json (outbox_toDomainEvent r')) = [(ORDER_CANCELLED,
       \<lparr>nt_channel = ''email'', nt_subject = ''Your order '' @ o_id ord' @ '' was cancelled'',
        nt_body = ''Hi '' @ o_customerId ord' @ '', your order '' @ o_id ord' @ '' was cancelled. Reason: '' @ reason @
          ''. No payment has been taken.''\<rparr>)]"
proof
  show "message_of (event_to_json (outbox_toDomainEvent r)) = [(ORDER_CONFIRMED,
       \<lparr>nt_channel = ''email'', nt_subject = ''Your order '' @ o_id ord @ '' is confirmed'',
        nt_body = ''Hi '' @ o_customerId ord @ '', your order '' @ o_id ord @ '' for '' @ show_rat (money_toNumber D (o_totalAmount ord)) @
          '' '' @ o_currency ord @ '' has been confirmed and is being prepared.''\<rparr>)]"
    using assms(1)
    by (simp add: message_of_def renderNotification_def relayed_members orderConfirmedEvent_def order_templates
        render_parts order_parts_ok)
      (simp add: confirmed_subject_def confirmed_body_def member_paths member_of_def value_text_def nullish_def)
  show "message_of (event_to_json (outbox_toDomainEvent r')) = [(ORDER_CANCELLED,
       \<lparr>nt_channel = ''email'', nt_subject = ''Your order '' @ o_id ord' @ '' was cancelled'',
        nt_body = ''Hi '' @ o_customerId ord' @ '', your order '' @ o_id ord' @ '' was cancelled. Reason: '' @ reason @
          ''. No payment has been taken.''\<rparr>)]"
    using assms(2)
    by (simp add: message_of_def renderNotification_def relayed_members orderCancelledEvent_def order_templates
        render_parts order_parts_ok)
      (simp add: cancelled_subject_def cancelled_body_def member_paths member_of_def value_text_def nullish_def)
qed

definition demo_sold :: "rat order" where
  "demo_sold = \<lparr>o_id = ''o1'', o_customerId = ''ann'', o_items = [], o_totalAmount = \<lparr>m_amount = 3, m_currency = ''USD''\<rparr>,
     o_currency = ''USD'', o_idempotencyKey = ''k'', o_shippingAddress = JNull, o_metadata = JNull, o_status = OS_CONFIRMED,
     o_version = 4, o_initialVersion = 4, o_createdAt = 1, o_updatedAt = 2\<rparr>"

definition demo_record :: "outbox_input \<Rightarrow> outbox_record" where
  "demo_record ev = \<lparr>obr_id = ''r'', obr_createdAt = 2, obr_event = ev\<rparr>"

theorem order_mails_witness:
  "map (nt_body \<circ> snd) (message_of (event_to_json (outbox_toDomainEvent (demo_record (orderConfirmedEvent rat_decimal None demo_sold))))) =
     [''Hi ann, your order o1 for 3 USD has been confirmed and is being prepared.'']"
proof -
  have "show_rat (money_toNumber rat_decimal (o_totalAmount demo_sold)) = ''3''" by code_simp
  with order_mails [of "demo_record (orderConfirmedEvent rat_decimal None demo_sold)" rat_decimal None demo_sold
      "demo_record (orderCancelledEvent None demo_sold ''x'')" None demo_sold "''x''"]
  show ?thesis by (simp add: demo_record_def) (simp add: demo_sold_def)
qed

end
