(* ===== verification/System.thy ===== *)
theory System
  imports Order_Service Outbox_Relay Inventory_Service Payment_Service Messaging
begin

text \<open>
  The services together.  The state is the order database with its outbox, the stock, the payment
  service with its gateway, and every message the broker ever accepted.  An action is one thing
  that can happen: a request of a client, a poll of the outbox, a sweep of the expiry job, a webhook
  of the gateway, or the broker delivering a message to a service whose queue is bound to it
  (\<open>startMessaging\<close> of each service: which queue has which handler).  A broker delivers at least
  once and in any order: any accepted message may be delivered any number of times, at any later
  moment.  The clocks, the generated identifiers, the confirms of the broker and the faults of the
  database are drawn anew by every action.
\<close>

section \<open>State and actions\<close>

record 'd system_env =
  se_sql :: sql_env
  se_decimal :: "'d decimal_lib"
  se_codec :: cursor_codec
  se_collate :: "string \<Rightarrow> string \<Rightarrow> bool"
  se_matches :: "string \<Rightarrow> string \<Rightarrow> bool"
  se_libmsg :: "string \<Rightarrow> string"
  se_ttlSeconds :: int
  se_pay :: pay_config

record system =
  sy_orders :: "order_db \<times> order_counters"
  sy_stock :: stock_db
  sy_pay :: "payment_db pay_state"
  sy_log :: "amqp_message list"

text \<open>A delivery: the place of the message in the log, and what the consumer draws.\<close>

record hop =
  hp_message :: nat
  hp_uuid :: string
  hp_traceBytes :: "nat list"
  hp_spanBytes :: "nat list"
  hp_now :: int
  hp_redelivered :: bool

datatype 'd action =
    Create call_ctx create_command
  | Cancel call_ctx cancel_command
  | Poll db_faults "amqp_message \<Rightarrow> js_error option" int
  | Sweep int
  | Reserve stock_call string "reservation_item list"
  | Release stock_call string
  | Pay pay_call "'d process_command"
  | Refund pay_call refund_command
  | Webhook payment_call webhook_event
  | To_Stock hop stock_call "amqp_message \<Rightarrow> js_error option"
  | To_Payment hop pay_call "amqp_message \<Rightarrow> js_error option"
  | To_Order hop call_ctx

section \<open>Deliveries\<close>

text \<open>The message as the consumer's callback sees it.\<close>

definition delivered :: "hop \<Rightarrow> amqp_message \<Rightarrow> delivery" where
  "delivered h m = \<lparr>dl_content = Some (am_content m), dl_headerTraceparent = map_of (am_headers m) ''traceparent'',
     dl_redelivered = hp_redelivered h\<rparr>"

text \<open>One delivery from one of the queues; when the broker has no such message there, nothing.\<close>

definition consume ::
    "'d system_env \<Rightarrow> string list \<Rightarrow> hop \<Rightarrow> amqp_message list \<Rightarrow>
     (request_context \<Rightarrow> json \<Rightarrow> ('s, js_error, unit) eff) \<Rightarrow> 's \<Rightarrow> 's" where
  "consume Env queues h msgs handler s =
     (if hp_message h < length msgs
      then let m = msgs ! hp_message h in
        if list_ex (\<lambda>q. q \<in> set queues) (route (se_matches Env) setupTopology (am_exchange m) (am_routingKey m))
        then snd (on_message handler (hp_uuid h) (hp_traceBytes h) (hp_spanBytes h) (hp_now h) (delivered h m) s)
        else s
      else s)"

definition stock_consumer ::
    "'d system_env \<Rightarrow> hop \<Rightarrow> stock_call \<Rightarrow> (amqp_message \<Rightarrow> js_error option) \<Rightarrow> system \<Rightarrow> system" where
  "stock_consumer Env h cx confirm s =
     (case consume Env [INVENTORY_ORDER_EVENTS] h (sy_log s)
             (\<lambda>ctx. stock_handle (se_libmsg Env) confirm (KnexInventoryRepository (se_sql Env) (se_collate Env))
                (se_ttlSeconds Env) (cx\<lparr>sc_request := Some ctx\<rparr>)) (sy_stock s, sy_log s) of
        (k, l) \<Rightarrow> s\<lparr>sy_stock := k, sy_log := l\<rparr>)"

definition payment_consumer ::
    "'d system_env \<Rightarrow> hop \<Rightarrow> pay_call \<Rightarrow> (amqp_message \<Rightarrow> js_error option) \<Rightarrow> system \<Rightarrow> system" where
  "payment_consumer Env h y confirm s =
     (case consume Env [PAYMENT_INVENTORY_EVENTS] h (sy_log s)
             (\<lambda>ctx. pay_handle (se_decimal Env) (se_libmsg Env) confirm (KnexPaymentRepository (se_sql Env) (se_decimal Env))
                (se_pay Env) (y\<lparr>yc_request := Some ctx\<rparr>)) (sy_pay s, sy_log s) of
        (p, l) \<Rightarrow> s\<lparr>sy_pay := p, sy_log := l\<rparr>)"

definition order_consumer :: "'d system_env \<Rightarrow> hop \<Rightarrow> call_ctx \<Rightarrow> system \<Rightarrow> system" where
  "order_consumer Env h cx s =
     s\<lparr>sy_orders := consume Env [ORDER_PAYMENT_EVENTS, ORDER_INVENTORY_EVENTS] h (sy_log s)
          (\<lambda>ctx. order_handle (se_decimal Env) (KnexOrderRepository (se_sql Env) (se_decimal Env) (se_codec Env))
             (KnexSagaStepRepository (se_sql Env)) (cx\<lparr>cx_request := Some ctx\<rparr>)) (sy_orders s)\<rparr>"

text \<open>The poller the order service starts, on its database and the broker.\<close>

definition relay_options :: poller_options where
  "relay_options = \<lparr>po_intervalMs = 500, po_batchSize = 100, po_exchange = ORDER_EXCHANGE\<rparr>"

definition outbox_poll ::
    "db_faults \<Rightarrow> (amqp_message \<Rightarrow> js_error option) \<Rightarrow> int \<Rightarrow> system \<Rightarrow> system" where
  "outbox_poll fl confirm now s =
     (case poll (KnexOutboxRepository fl) confirm relay_options now
             \<lparr>pl_store = fst (sy_orders s), pl_broker = sy_log s, pl_running = False, pl_timer = True\<rparr> of
        (n, p) \<Rightarrow> s\<lparr>sy_orders := (pl_store p, snd (sy_orders s)), sy_log := pl_broker p\<rparr>)"

section \<open>Steps\<close>

definition system_step :: "'d system_env \<Rightarrow> 'd action \<Rightarrow> system \<Rightarrow> system" where
  "system_step Env a s =
     (let E = se_sql Env; D = se_decimal Env; orders = KnexOrderRepository E D (se_codec Env); payments = KnexPaymentRepository E D in
      case a of
        Create cx c \<Rightarrow> s\<lparr>sy_orders := snd (CreateOrder_execute D orders cx c (sy_orders s))\<rparr>
      | Cancel cx c \<Rightarrow> s\<lparr>sy_orders := snd (CancelOrder_execute orders cx c (sy_orders s))\<rparr>
      | Poll fl confirm now \<Rightarrow> outbox_poll fl confirm now s
      | Sweep now \<Rightarrow> s\<lparr>sy_stock := jb_store (snd (runOnce (KnexInventoryRepository E (se_collate Env)) now
            \<lparr>jb_store = sy_stock s, jb_running = False, jb_timer = True\<rparr>))\<rparr>
      | Reserve cx oid items \<Rightarrow> s\<lparr>sy_stock :=
          snd (ReserveStock_execute (KnexInventoryRepository E (se_collate Env)) (se_ttlSeconds Env) cx oid items (sy_stock s))\<rparr>
      | Release cx oid \<Rightarrow> s\<lparr>sy_stock := snd (ReleaseStock_execute (KnexInventoryRepository E (se_collate Env)) cx oid (sy_stock s))\<rparr>
      | Pay y c \<Rightarrow> s\<lparr>sy_pay := snd (ProcessPayment_execute D (se_libmsg Env) payments (se_pay Env) y c (sy_pay s))\<rparr>
      | Refund y c \<Rightarrow> s\<lparr>sy_pay := snd (Refund_execute D (se_libmsg Env) payments (KnexRefundRepository E) (se_pay Env) y c (sy_pay s))\<rparr>
      | Webhook cx ev \<Rightarrow> s\<lparr>sy_pay := (sy_pay s)\<lparr>py_store := snd (ProcessWebhook_execute payments cx ev (py_store (sy_pay s)))\<rparr>\<rparr>
      | To_Stock h cx confirm \<Rightarrow> stock_consumer Env h cx confirm s
      | To_Payment h y confirm \<Rightarrow> payment_consumer Env h y confirm s
      | To_Order h cx \<Rightarrow> order_consumer Env h cx s)"

text \<open>What the payments of the saga are recognised by, and the charge that pays a payment.\<close>

definition saga_key :: "string \<Rightarrow> string" where
  "saga_key orderId = ''payment-'' @ orderId"

definition charge_for :: "'d decimal_lib \<Rightarrow> 'd payment \<Rightarrow> charge_request" where
  "charge_for D p = \<lparr>cr_amount = money_fixed D (p_amount p), cr_currency = m_currency (p_amount p),
     cr_idempotencyKey = p_idempotencyKey p\<rparr>"

text \<open>
  The world around the services: clients of the payment API do not use the idempotency keys of the
  saga, and the gateway reports a payment as succeeded only when it has carried out its charge.
\<close>

definition admitted :: "'d system_env \<Rightarrow> system \<Rightarrow> 'd action \<Rightarrow> bool" where
  "admitted Env s a =
     (case a of
        Pay y c \<Rightarrow> take 8 (pcm_idempotencyKey c) \<noteq> ''payment-''
      | Webhook cx ev \<Rightarrow> wh_type ev = ''payment.succeeded'' \<longrightarrow>
          (case payment_db_abs (se_decimal Env) (py_store (sy_pay s)) (wh_paymentId ev) of
             None \<Rightarrow> True
           | Some p \<Rightarrow> charge_for (se_decimal Env) p \<in> set (gw_charges (py_gateway (sy_pay s))))
      | _ \<Rightarrow> True)"

definition system_start :: "system \<Rightarrow> bool" where
  "system_start s \<longleftrightarrow> fst (sy_orders s) = order_db_empty \<and> stock_ok (sy_stock s) \<and>
     py_store (sy_pay s) = payment_db_empty \<and> gw_charges (py_gateway (sy_pay s)) = [] \<and> sy_log s = []"

inductive reachable :: "'d system_env \<Rightarrow> system \<Rightarrow> bool" for Env where
  reach_start: "system_start s \<Longrightarrow> reachable Env s"
| reach_step: "reachable Env s \<Longrightarrow> admitted Env s a \<Longrightarrow> reachable Env (system_step Env a s)"

end
