(* ===== verification/System_Invariant.thy ===== *)
theory System_Invariant
  imports System
begin

text \<open>
  What every reachable state of the system satisfies.  The facts the messages carry from service to
  service are stated over three sets that only grow: the events of the outbox, the reservations ever
  made, the charges of the gateway.
\<close>

section \<open>Facts about an order.created event\<close>

definition is_created :: "outbox_input \<Rightarrow> bool" where
  "is_created x \<longleftrightarrow> ob_eventType x = ORDER_CREATED"

definition is_settling :: "outbox_input \<Rightarrow> bool" where
  "is_settling x \<longleftrightarrow> ob_eventType x = ORDER_CONFIRMED \<and> OrderConfirmedPayload (ob_payload x) \<or>
     ob_eventType x = ORDER_CANCELLED \<and> OrderCancelledPayload (ob_payload x)"

lemma settling_not_created: "is_settling x \<Longrightarrow> \<not> is_created x"
  by (auto simp: is_settling_def is_created_def event_types)

definition event_skus :: "outbox_input \<Rightarrow> string list" where
  "event_skus x = (case json_get (ob_payload x) ''items'' of Some (JArr xs) \<Rightarrow> map (\<lambda>i. str_member i ''sku'') xs | _ \<Rightarrow> [])"

text \<open>The charge an order.created event makes due: its total, through the numeric column, under the
  key of the saga.\<close>

definition invoice :: "'d decimal_lib \<Rightarrow> outbox_input \<Rightarrow> charge_request option" where
  "invoice D x =
     (case money_of D (event_amount (ob_payload x)) (str_member (ob_payload x) ''currency'') of
        Inl e \<Rightarrow> None
      | Inr a \<Rightarrow>
          (case money_of D (AStr (money_fixed D a)) (m_currency a) of
             Inl e \<Rightarrow> None
           | Inr b \<Rightarrow> Some \<lparr>cr_amount = money_fixed D b, cr_currency = m_currency b,
                            cr_idempotencyKey = saga_key (ob_aggregateId x)\<rparr>))"

definition agree :: "json \<Rightarrow> json \<Rightarrow> bool" where
  "agree d d' \<longleftrightarrow> json_get d ''orderId'' = json_get d' ''orderId'' \<and>
     json_get d ''totalAmount'' = json_get d' ''totalAmount'' \<and> json_get d ''currency'' = json_get d' ''currency''"

definition reserved_in :: "(string \<times> string) set \<Rightarrow> outbox_input \<Rightarrow> bool" where
  "reserved_in H x \<longleftrightarrow> (\<forall>k\<in>set (event_skus x). (ob_aggregateId x, k) \<in> H)"

definition charged_in :: "'d decimal_lib \<Rightarrow> charge_request set \<Rightarrow> outbox_input \<Rightarrow> bool" where
  "charged_in D G x \<longleftrightarrow> (\<exists>c\<in>G. invoice D x = Some c)"

text \<open>
  What the services send: what the interface of the type declares, but reservations without
  \<open>productId\<close> and a failure without \<open>failedItems\<close>.
\<close>

definition sent_payload :: "string \<Rightarrow> json \<Rightarrow> bool" where
  "sent_payload ty d \<longleftrightarrow> has_str d ''orderId'' \<and>
     (if ty = INVENTORY_RESERVED
      then has_array d ''reservations''
             (\<lambda>r. has_str r ''sku'' \<and> has_num r ''quantity'' \<and> has_str r ''reservationId'' \<and> json_get r ''productId'' = None)
      else if ty = INVENTORY_FAILED then has_str d ''reason'' \<and> json_get d ''failedItems'' = None
      else declared_payload ty d)"

lemma sent_not_declared:
  "sent_payload INVENTORY_FAILED d \<Longrightarrow> \<not> declared_payload INVENTORY_FAILED d"
  "sent_payload INVENTORY_RESERVED d \<Longrightarrow> json_get d ''reservations'' \<noteq> Some (JArr []) \<Longrightarrow> \<not> declared_payload INVENTORY_RESERVED d"
proof -
  show "\<not> declared_payload INVENTORY_FAILED d" if "sent_payload INVENTORY_FAILED d"
    using that by (simp add: sent_payload_def declared_payload_def InventoryFailedPayload_def has_array_def event_types)
  show "\<not> declared_payload INVENTORY_RESERVED d"
    if "sent_payload INVENTORY_RESERVED d" "json_get d ''reservations'' \<noteq> Some (JArr [])"
  proof
    assume d: "declared_payload INVENTORY_RESERVED d"
    from that(1) obtain xs where xs: "json_get d ''reservations'' = Some (JArr xs)" "list_all (\<lambda>r. json_get r ''productId'' = None) xs"
      by (auto simp: sent_payload_def has_array_def list_all_iff split: option.splits json.splits)
    from d have "InventoryReservedPayload d" by (simp add: declared_payload_def)
    with xs(1) have "list_all (\<lambda>r. has_str r ''productId'') xs"
      by (simp add: InventoryReservedPayload_def has_array_def list_all_iff)
    with xs that(2) show False by (cases xs) (auto simp: has_str_def get_str_def)
  qed
qed

lemma sent_order_payloads:
  "OrderCreatedPayload d \<Longrightarrow> sent_payload ORDER_CREATED d" "OrderConfirmedPayload d \<Longrightarrow> sent_payload ORDER_CONFIRMED d"
  "OrderCancelledPayload d \<Longrightarrow> sent_payload ORDER_CANCELLED d"
  by (simp_all add: sent_payload_def declared_payload_def OrderCreatedPayload_def OrderConfirmedPayload_def OrderCancelledPayload_def event_types)

text \<open>What a message promises.\<close>

definition event_ok ::
    "'d decimal_lib \<Rightarrow> outbox_input set \<Rightarrow> (string \<times> string) set \<Rightarrow> charge_request set \<Rightarrow> domain_event \<Rightarrow> bool" where
  "event_ok D X H G e \<longleftrightarrow>
     sent_payload (ev_type e) (ev_data e) \<and>
     (ev_type e = ORDER_CREATED \<longrightarrow> (\<exists>x\<in>X. is_created x \<and> ev_data e = ob_payload x)) \<and>
     (ev_type e = INVENTORY_RESERVED \<longrightarrow>
        (\<exists>x\<in>X. is_created x \<and> agree (ev_data e) (ob_payload x) \<and> reserved_in H x)) \<and>
     (ev_type e = PAYMENT_COMPLETED \<longrightarrow>
        (\<exists>x\<in>X. is_created x \<and> get_str (ev_data e) ''orderId'' = Some (ob_aggregateId x) \<and>
           reserved_in H x \<and> charged_in D G x))"

definition typed_message :: "amqp_message \<Rightarrow> domain_event \<Rightarrow> bool" where
  "typed_message m e \<longleftrightarrow> am_content m = event_to_json e \<and> ev_type e \<in> set EventType \<and>
     am_routingKey m = ev_type e \<and> am_messageId m = ev_id e \<and> am_persistent m"

definition message_ok ::
    "'d decimal_lib \<Rightarrow> outbox_input set \<Rightarrow> (string \<times> string) set \<Rightarrow> charge_request set \<Rightarrow> amqp_message \<Rightarrow> bool" where
  "message_ok D X H G m \<longleftrightarrow> (\<exists>e. typed_message m e \<and> event_ok D X H G e)"

lemma message_ok_publish:
  "event_ok D X H G e \<Longrightarrow> ev_type e = ty \<Longrightarrow> ty \<in> set EventType \<Longrightarrow> message_ok D X H G (publish_message ctx now ex ty e)"
  by (auto simp: message_ok_def typed_message_def publish_message_def Let_def)

text \<open>What a stored payment rests on.\<close>

definition payment_ok ::
    "'d decimal_lib \<Rightarrow> outbox_input set \<Rightarrow> (string \<times> string) set \<Rightarrow> charge_request set \<Rightarrow> 'd payment \<Rightarrow> bool" where
  "payment_ok D X H G p \<longleftrightarrow>
     (p_status p = PS_PROCESSING \<or> p_status p = PS_COMPLETED \<longrightarrow>
        (\<forall>i. p_idempotencyKey p = saga_key i \<longrightarrow>
           (\<exists>x\<in>X. is_created x \<and> ob_aggregateId x = i \<and> reserved_in H x \<and> invoice D x = Some (charge_for D p)))) \<and>
     (p_status p = PS_COMPLETED \<longrightarrow> charge_for D p \<in> G \<and> p_gatewayTransactionId p \<noteq> None)"

lemma reserved_in_mono: "reserved_in H x \<Longrightarrow> H \<subseteq> H' \<Longrightarrow> reserved_in H' x"
  by (auto simp: reserved_in_def)

lemma charged_in_mono: "charged_in D G x \<Longrightarrow> G \<subseteq> G' \<Longrightarrow> charged_in D G' x"
  by (auto simp: charged_in_def)

lemma event_ok_mono:
  assumes "event_ok D X H G e" and "X \<subseteq> X'" and "H \<subseteq> H'" and "G \<subseteq> G'"
  shows "event_ok D X' H' G' e"
  using assms(1) reserved_in_mono [OF _ assms(3)] charged_in_mono [OF _ assms(4)] assms(2)
  unfolding event_ok_def by (meson subsetD)

lemma message_ok_mono:
  "message_ok D X H G m \<Longrightarrow> X \<subseteq> X' \<Longrightarrow> H \<subseteq> H' \<Longrightarrow> G \<subseteq> G' \<Longrightarrow> message_ok D X' H' G' m"
  unfolding message_ok_def using event_ok_mono by blast

lemma payment_ok_mono:
  assumes "payment_ok D X H G p" and "X \<subseteq> X'" and "H \<subseteq> H'" and "G \<subseteq> G'"
  shows "payment_ok D X' H' G' p"
  using assms(1) reserved_in_mono [OF _ assms(3)] assms(2,4) unfolding payment_ok_def by (meson subsetD)

text \<open>The payload the order service writes.\<close>

lemma created_payload:
  assumes "x = orderCreatedEvent D req ord"
  shows "ob_eventType x = ORDER_CREATED" and "ob_aggregateId x = o_id ord" and "is_created x"
    and "json_get (ob_payload x) ''orderId'' = Some (JStr (o_id ord))"
    and "event_amount (ob_payload x) = ANum (money_toNumber D (o_totalAmount ord))"
    and "str_member (ob_payload x) ''currency'' = o_currency ord"
    and "get_str (ob_payload x) ''currency'' = Some (o_currency ord)"
    and "event_items (ob_payload x) = Inr (map (item_payload D) (o_items ord))"
    and "event_skus x = map oi_sku (o_items ord)"
    and "\<exists>items. map_res item_of_json (map (item_payload D) (o_items ord)) = Inr items \<and> map ri_sku items = event_skus x"
    and "OrderCreatedPayload (ob_payload x)"
proof -
  show "OrderCreatedPayload (ob_payload x)"
    by (simp add: OrderCreatedPayload_def assms orderCreatedEvent_def has_member_intros)
      (simp add: has_array_def list_all_iff item_payload_def has_str_def has_num_def get_str_def get_num_def)
  have sku: "str_member (item_payload D i) ''sku'' = oi_sku i" "get_str (item_payload D i) ''sku'' = Some (oi_sku i)" for i
    by (simp_all add: item_payload_def str_member_def get_str_def)
  show "ob_eventType x = ORDER_CREATED" "ob_aggregateId x = o_id ord" "is_created x"
    "json_get (ob_payload x) ''orderId'' = Some (JStr (o_id ord))"
    "event_amount (ob_payload x) = ANum (money_toNumber D (o_totalAmount ord))"
    "str_member (ob_payload x) ''currency'' = o_currency ord"
    "get_str (ob_payload x) ''currency'' = Some (o_currency ord)"
    by (simp_all add: assms orderCreatedEvent_def is_created_def event_amount_def str_member_def get_str_def)
  have "JNull \<notin> item_payload D ` set (o_items ord)" by (auto simp: item_payload_def)
  then show "event_items (ob_payload x) = Inr (map (item_payload D) (o_items ord))"
    by (auto simp: assms orderCreatedEvent_def event_items_def)
  show skus: "event_skus x = map oi_sku (o_items ord)"
    by (simp add: assms orderCreatedEvent_def event_skus_def sku comp_def)
  have "map_res item_of_json (map (item_payload D) is) =
      Inr (map (\<lambda>i. \<lparr>ri_sku = oi_sku i, ri_quantity = json_get (item_payload D i) ''quantity''\<rparr>) is)" for "is"
    by (induction "is") (simp_all add: item_of_json_def sku)
  then show "\<exists>items. map_res item_of_json (map (item_payload D) (o_items ord)) = Inr items \<and> map ri_sku items = event_skus x"
    by (simp add: skus comp_def)
qed

section \<open>One delivery\<close>

lemma on_message_state:
  assumes "on_message handler uuid tb sb now msg s = (st, t)"
  obtains (kept) "t = s" | (handled) ctx v r where "dl_content msg = Some v" "handler ctx v s = (r, t)"
  using assms by (auto simp: on_message_def Let_def split: option.splits if_splits prod.splits sum.splits)

lemma consume_cases:
  obtains (kept) "consume Env queues h msgs handler s = s"
  | (handled) m ctx r where "m \<in> set msgs" "handler ctx (am_content m) s = (r, consume Env queues h msgs handler s)"
proof (cases "hp_message h < length msgs \<and>
    list_ex (\<lambda>q. q \<in> set queues) (route (se_matches Env) setupTopology (am_exchange (msgs ! hp_message h)) (am_routingKey (msgs ! hp_message h)))")
  case False
  then have "consume Env queues h msgs handler s = s" by (auto simp: consume_def Let_def)
  with kept show thesis .
next
  case True
  let ?m = "msgs ! hp_message h"
  obtain st t where o: "on_message handler (hp_uuid h) (hp_traceBytes h) (hp_spanBytes h) (hp_now h) (delivered h ?m) s = (st, t)"
    by (rule prod.exhaust)
  with True have c: "consume Env queues h msgs handler s = t" by (simp add: consume_def Let_def)
  from o show thesis
  proof (cases rule: on_message_state)
    case kept
    with c that(1) show thesis by simp
  next
    case (handled ctx v r)
    with c that(2) [of ?m ctx r] True show thesis by (simp add: delivered_def)
  qed
qed

lemma json_of_event [simp]:
  "json_get (event_to_json e) ''data'' = Some (ev_data e)"
  "get_str (event_to_json e) ''type'' = Some (ev_type e)"
  by (simp_all add: event_to_json_def get_str_def)

lemma content_published [simp]: "am_content (publish_message ctx now ex key e) = event_to_json e"
  by (simp add: publish_message_def Let_def)

section \<open>Orders\<close>

definition created_events :: "order_db \<Rightarrow> string \<Rightarrow> outbox_input list" where
  "created_events db i = filter (\<lambda>x. is_created x \<and> ob_aggregateId x = i) (order_db_sent db)"

text \<open>Every order was announced once, by an event with its data; nothing else was.\<close>

definition announced_once :: "sql_env \<Rightarrow> 'd decimal_lib \<Rightarrow> order_db \<Rightarrow> bool" where
  "announced_once E D db \<longleftrightarrow> order_db_ok E D db \<and>
     list_all (\<lambda>x. is_created x \<or> is_settling x) (order_db_sent db) \<and>
     (\<forall>i. if order_db_abs D db i = None then created_events db i = []
          else \<exists>req ord. o_id ord = i \<and> created_events db i = [orderCreatedEvent D req ord])"

definition confirmed_ok ::
    "'d decimal_lib \<Rightarrow> order_db \<Rightarrow> (string \<times> string) set \<Rightarrow> charge_request set \<Rightarrow> bool" where
  "confirmed_ok D db H G \<longleftrightarrow> (\<forall>i ord. order_db_abs D db i = Some ord \<longrightarrow> o_status ord = OS_CONFIRMED \<longrightarrow>
     (\<forall>x\<in>set (created_events db i). reserved_in H x \<and> charged_in D G x))"

lemma announced_event:
  assumes "announced_once E D db" and "x \<in> set (order_db_sent db)" and "is_created x"
  obtains req ord where "x = orderCreatedEvent D req ord" "created_events db (ob_aggregateId x) = [x]"
proof -
  let ?i = "ob_aggregateId x"
  have "x \<in> set (created_events db ?i)" using assms(2,3) by (simp add: created_events_def)
  moreover from this assms(1) obtain req ord where "created_events db ?i = [orderCreatedEvent D req ord]"
    unfolding announced_once_def by (metis empty_iff empty_set)
  ultimately show thesis using that by auto
qed

lemma other_event_types [simp]:
  "is_settling (orderCancelledEvent req ord reason)" "is_settling (orderConfirmedEvent D req ord)"
  by (simp_all add: is_settling_def orderCancelledEvent_def orderConfirmedEvent_def event_types
      OrderCancelledPayload_def OrderConfirmedPayload_def has_str_def has_num_def get_str_def get_num_def)

lemma saga_outbox_types [simp]: "list_all is_settling (saga_outbox D req ev ord)"
  by (cases ev) simp_all

text \<open>An update of an order and events that announce none.\<close>

lemma orders_update:
  assumes ok: "announced_once E D db" "confirmed_ok D db H G" and db': "order_db_ok E D db'"
    and abs': "order_db_abs D db' = (order_db_abs D db)(i \<mapsto> new)" and old: "order_db_abs D db i \<noteq> None"
    and sent: "order_db_sent db' = order_db_sent db @ evs" "list_all is_settling evs"
    and conf: "o_status new = OS_CONFIRMED \<Longrightarrow> \<forall>x\<in>set (created_events db i). reserved_in H x \<and> charged_in D G x"
  shows "announced_once E D db' \<and> confirmed_ok D db' H G"
proof -
  have "created_events db' j = created_events db j" for j
    using sent settling_not_created by (auto simp: created_events_def filter_empty_conv list_all_iff)
  moreover have "list_all (\<lambda>x. is_created x \<or> is_settling x) (order_db_sent db')"
    using ok(1) sent by (auto simp: announced_once_def list_all_iff)
  ultimately show ?thesis using assms by (auto simp: announced_once_def confirmed_ok_def split: if_splits)
qed

lemma orders_create:
  assumes ok: "announced_once E D db" "confirmed_ok D db H G" and db': "order_db_ok E D db'"
    and new: "order_db_abs D db (o_id ord) = None"
    and abs': "order_db_abs D db' = (order_db_abs D db)(o_id ord \<mapsto> st)" "o_status st = OS_CREATED"
    and sent: "order_db_sent db' = order_db_sent db @ [orderCreatedEvent D req ord]"
  shows "announced_once E D db' \<and> confirmed_ok D db' H G"
proof -
  note x = created_payload [of "orderCreatedEvent D req ord" D req ord, OF refl]
  have ev: "created_events db' j = created_events db j @ (if j = o_id ord then [orderCreatedEvent D req ord] else [])" for j
    using sent x(2,3) by (auto simp: created_events_def)
  have "created_events db (o_id ord) = []" using ok(1) new by (auto simp: announced_once_def split: if_splits)
  then have "announced_once E D db'"
    unfolding announced_once_def using ok(1) db' abs'(1) sent x(3) by (auto simp: ev announced_once_def)
  moreover have "confirmed_ok D db' H G"
    using ok(2) abs' by (auto simp: confirmed_ok_def ev)
  ultimately show ?thesis by simp
qed

lemma orders_after_create:
  assumes ok: "announced_once E D (fst s)" "confirmed_ok D (fst s) H G"
    and ex: "CreateOrder_execute D (KnexOrderRepository E D C) cx c s = (r, t)"
  shows "announced_once E D (fst t) \<and> confirmed_ok D (fst t) H G \<and> set (order_db_sent (fst s)) \<subseteq> set (order_db_sent (fst t))"
proof -
  have "order_db_ok E D (fst s)" using ok(1) by (simp add: announced_once_def)
  from this ex show ?thesis
  proof (cases rule: knex_orders.create_cases)
    case (created ord saved st)
    have "o_status st = OS_CREATED" using same_order_sel(3) [OF created(6)] created(8) by simp
    with orders_create [OF ok created(3,4,5) _ created(12)] created(12) show ?thesis by auto
  qed (use ok in auto)
qed

lemma orders_after_cancel:
  assumes ok: "announced_once E D (fst s)" "confirmed_ok D (fst s) H G"
    and ex: "CancelOrder_execute (KnexOrderRepository E D C) cx c s = (r, t)"
  shows "announced_once E D (fst t) \<and> confirmed_ok D (fst t) H G \<and> set (order_db_sent (fst s)) \<subseteq> set (order_db_sent (fst t))"
proof -
  have "order_db_ok E D (fst s)" using ok(1) by (simp add: announced_once_def)
  from this ex show ?thesis
  proof (cases rule: knex_orders.cancel_cases)
    case (cancelled old new reason)
    have "o_status new = OS_CANCELLED" using cancelled(5) by (simp add: stored_update_def)
    with orders_update [OF ok cancelled(6,7) _ cancelled(9)] cancelled(2,9) show ?thesis by auto
  qed (use ok in auto)
qed

lemma confirming_plan: "saga_plan ev st \<noteq> [] \<Longrightarrow> last (saga_plan ev st) = OS_CONFIRMED \<Longrightarrow> ev = PaymentCompleted"
  by (cases ev) (auto split: if_splits)

lemma orders_after_event:
  assumes ok: "announced_once E D (fst s)" "confirmed_ok D (fst s) H G"
    and e: "event_ok D (set (order_db_sent (fst s))) H G e"
    and ex: "order_handle D (KnexOrderRepository E D C) saga cx (event_to_json e) s = (r, t)" and saga: "saga = KnexSagaStepRepository E"
  shows "announced_once E D (fst t) \<and> confirmed_ok D (fst t) H G \<and> set (order_db_sent (fst s)) \<subseteq> set (order_db_sent (fst t))"
proof -
  have "order_db_ok E D (fst s)" using ok(1) by (simp add: announced_once_def)
  from this ex [unfolded saga] show ?thesis
  proof (cases rule: knex_saga.handle_cases)
    case (applied ev i old new)
    have "\<forall>x\<in>set (created_events (fst s) i). reserved_in H x \<and> charged_in D G x" if "o_status new = OS_CONFIRMED"
    proof -
      have "ev = PaymentCompleted"
        by (rule confirming_plan [OF applied(4)]) (use that applied(4,5) in \<open>simp add: stored_update_def\<close>)
      then have "ev_type e = PAYMENT_COMPLETED" using applied(1) by simp
      moreover have "get_str (ev_data e) ''orderId'' = Some i"
        using applied(2) by (simp add: event_orderId_def split: option.splits)
      ultimately obtain x where x: "x \<in> set (order_db_sent (fst s))" "is_created x" "ob_aggregateId x = i"
        "reserved_in H x" "charged_in D G x" using e by (auto simp: event_ok_def)
      obtain req ord where "created_events (fst s) i = [x]" using announced_event [OF ok(1) x(1,2)] x(3) by metis
      with x show ?thesis by simp
    qed
    with orders_update [OF ok applied(6,7) _ applied(8)] applied(3,8) show ?thesis by auto
  qed (use ok in auto)
qed

section \<open>The outbox relay\<close>

lemma poll_database:
  assumes "poll (KnexOutboxRepository fl) confirm opts now p = (n, q)"
  shows "od_orders (pl_store q) = od_orders (pl_store p)" and "od_items (pl_store q) = od_items (pl_store p)"
    and "order_db_sent (pl_store q) = order_db_sent (pl_store p)"
    and "map xw_id (od_outbox (pl_store q)) = map xw_id (od_outbox (pl_store p))"
proof -
  have mark: "map k (update_where P (\<lambda>r. r\<lparr>xw_published := True, xw_published_at := x\<rparr>) rows) = map k rows"
    if "\<And>r. k (r\<lparr>xw_published := True, xw_published_at := x\<rparr>) = k r" for k :: "outbox_row \<Rightarrow> 'k" and P x rows
    by (rule map_update_where) (simp add: that)
  show "od_orders (pl_store q) = od_orders (pl_store p)" "od_items (pl_store q) = od_items (pl_store p)"
    "order_db_sent (pl_store q) = order_db_sent (pl_store p)"
    "map xw_id (od_outbox (pl_store q)) = map xw_id (od_outbox (pl_store p))"
    using assms by (auto simp: poll_def KnexOutboxRepository_def knex_findUnpublished_def knex_markPublished_def order_db_sent_def mark
        split: if_splits prod.splits sum.splits)
qed

lemma pending_sent: "r \<in> set (outbox_pending db) \<Longrightarrow> obr_event r \<in> set (order_db_sent db)"
  by (auto simp: outbox_pending_def record_of_outbox_row_def order_db_sent_def)

lemma relayed_ok:
  assumes "announced_once E D db" and "obr_event r \<in> set (order_db_sent db)" and "set (order_db_sent db) \<subseteq> X"
  shows "message_ok D X H G (relay_message opts now r)"
proof -
  let ?e = "outbox_toDomainEvent r"
  have "ev_type ?e = ob_eventType (obr_event r)" "ev_data ?e = ob_payload (obr_event r)"
    by (simp_all add: outbox_toDomainEvent_def)
  moreover have kind: "is_created (obr_event r) \<or> is_settling (obr_event r)"
    using assms(1,2) by (auto simp: announced_once_def list_all_iff)
  moreover have "OrderCreatedPayload (ob_payload (obr_event r))" if created: "is_created (obr_event r)"
  proof -
    from announced_event [OF assms(1,2) created] obtain req ord where "obr_event r = orderCreatedEvent D req ord" by metis
    then show ?thesis by (rule created_payload(11))
  qed
  then have "sent_payload (ob_eventType (obr_event r)) (ob_payload (obr_event r))"
    using kind by (auto simp: is_created_def is_settling_def sent_order_payloads)
  ultimately have "event_ok D X H G ?e" "ev_type ?e = ob_eventType (obr_event r)" "ob_eventType (obr_event r) \<in> set EventType"
    using assms(2,3) event_type_members by (auto simp: event_ok_def is_created_def is_settling_def event_types)
  then show ?thesis unfolding relay_message_def by (rule message_ok_publish)
qed

lemma orders_after_poll:
  assumes ok: "announced_once E D db" "confirmed_ok D db H G" "list_all (message_ok D (set (order_db_sent db)) H G) msgs"
    and ex: "poll (KnexOutboxRepository fl) confirm opts now \<lparr>pl_store = db, pl_broker = msgs, pl_running = False, pl_timer = tm\<rparr> = (n, q)"
  shows "announced_once E D (pl_store q) \<and> confirmed_ok D (pl_store q) H G \<and>
    order_db_sent (pl_store q) = order_db_sent db \<and> list_all (message_ok D (set (order_db_sent db)) H G) (pl_broker q)"
proof -
  let ?p = "\<lparr>pl_store = db, pl_broker = msgs, pl_running = False, pl_timer = tm\<rparr>"
  note same = poll_database [OF ex, simplified]
  have db: "order_db_abs D (pl_store q) = order_db_abs D db" "items_of (pl_store q) = items_of db"
    by (rule abs_cong) (use same in simp_all, simp add: items_of_def fun_eq_iff same)
  have "order_db_ok E D (pl_store q)" "created_events (pl_store q) = created_events db"
    using ok(1) same db(2) by (auto simp: announced_once_def order_db_ok_def created_events_def fun_eq_iff)
  then have orders: "announced_once E D (pl_store q)" "confirmed_ok D (pl_store q) H G"
    using ok(1,2) same(3) db(1) by (simp_all add: announced_once_def confirmed_ok_def)
  have "outbox_ok db" using ok(1) by (simp add: announced_once_def order_db_ok_def outbox_ok_def)
  then obtain k where b: "pl_broker q = msgs @ map (relay_message opts now) (take k (outbox_pending db))"
    using knex_outbox.poll_effect [OF _ _ ex] by auto
  have "message_ok D (set (order_db_sent db)) H G (relay_message opts now r)" if "r \<in> set (take k (outbox_pending db))" for r
    using relayed_ok [OF ok(1) pending_sent subset_refl] that by (meson in_set_takeD)
  with ok(3) b same(3) orders show ?thesis by (auto simp: list_all_iff)
qed

section \<open>Stock\<close>

lemma released_stock:
  assumes "stock_ok k" and "ReleaseStock_execute (KnexInventoryRepository E collate) cx oid k = (r, k')"
  shows "stock_ok k' \<and> stock_hist k' = stock_hist k"
proof -
  obtain u k1 where u: "sp_release (KnexInventoryRepository E collate) (sc_now cx) oid k = (u, k1)" by fastforce
  with assms(2) have "k' = k1" by (cases u) (auto simp: ReleaseStock_execute_def bind_eff_def ret_def)
  with u assms(1) show ?thesis using knex_stock.release_ok knex_stock.release_err by (cases u) blast+
qed

lemma reserved_stock:
  assumes "stock_ok k" and "ReserveStock_execute (KnexInventoryRepository E collate) ttl cx oid items k = (r, k')"
  shows "stock_ok k' \<and> stock_hist k \<subseteq> stock_hist k'"
proof -
  let ?reserve = "sp_reserve (KnexInventoryRepository E collate) (sc_now cx) (sc_ids cx) oid items (sc_now cx + ttl * 1000) k"
  obtain u k1 where u: "?reserve = (u, k1)" by fastforce
  with assms(2) have "k' = k1" by (cases u) (auto simp: ReserveStock_execute_def bind_eff_def ret_def Let_def)
  with u assms(1) show ?thesis
    using knex_stock.reserve_ok [OF assms(1)] knex_stock.reserve_err by (cases u) blast+
qed

lemma swept_stock:
  assumes "stock_ok (jb_store j)" and "runOnce (KnexInventoryRepository E collate) now j = (n, j')"
  shows "stock_ok (jb_store j') \<and> stock_hist (jb_store j') = stock_hist (jb_store j)"
proof -
  obtain u k where u: "sp_releaseExpired (KnexInventoryRepository E collate) now now (jb_store j) = (u, k)" by fastforce
  with assms show ?thesis
    using knex_stock.expired_ok [OF assms(1), where E = E and collate = collate] knex_stock.expired_err
    by (cases u) (fastforce simp: runOnce_def split: if_splits)+
qed

lemma agree_reserved: "agree (reserved_payload d rs) d"
  by (simp add: agree_def reserved_payload_def option.map_id del: map_of_append)

lemma stock_published:
  assumes "stock_publish confirm cx ty causedBy d s = (r, t)" and "event_ok D X H G (stock_event cx ty causedBy d)"
    and "ty \<in> set EventType"
  shows "\<exists>new. snd t = snd s @ new \<and> list_all (message_ok D X H G) new"
proof -
  have "message_ok D X H G (stock_message cx ty causedBy d)"
    unfolding stock_message_def using assms(2,3) by (intro message_ok_publish) (simp_all add: stock_event_def)
  with assms(1) show ?thesis by (auto simp: stock_publish_result split: option.splits)
qed

text \<open>Of the messages of this service only inventory.reserved promises anything.\<close>

lemma stock_published_other:
  assumes "stock_publish confirm cx ty causedBy d s = (r, t)" and "ty = INVENTORY_FAILED \<or> ty = INVENTORY_RELEASED"
    and "sent_payload ty d"
  shows "\<exists>new. snd t = snd s @ new \<and> list_all (message_ok D X H G) new"
  using assms(1)
proof (rule stock_published)
  show "event_ok D X H G (stock_event cx ty causedBy d)"
    using assms(2,3) by (auto simp: event_ok_def stock_event_def event_types)
  show "ty \<in> set EventType" using assms(2) by (auto simp: EventType_def)
qed

lemma sent_stock_payloads:
  assumes "get_str d ''orderId'' = Some i"
  shows "sent_payload INVENTORY_RESERVED (reserved_payload d rs)" and "sent_payload INVENTORY_FAILED (failed_payload d reason)"
    and "sent_payload INVENTORY_RELEASED (JObj [(''orderId'', JStr i)])"
proof -
  from assms have oid: "json_get d ''orderId'' = Some (JStr i)" by (simp add: get_str_def split: option.splits json.splits)
  have "has_array (reserved_payload d rs) ''reservations''
      (\<lambda>r. has_str r ''sku'' \<and> has_num r ''quantity'' \<and> has_str r ''reservationId'' \<and> json_get r ''productId'' = None)"
    by (simp add: reserved_payload_def has_array_def list_all_iff reservation_json_def has_str_def has_num_def get_str_def get_num_def
        del: map_of_append) 
  moreover have "has_str (reserved_payload d rs) ''orderId''"
    by (simp add: reserved_payload_def has_str_def get_str_def oid opt_member_def)
  ultimately show "sent_payload INVENTORY_RESERVED (reserved_payload d rs)" by (simp add: sent_payload_def)
  show "sent_payload INVENTORY_FAILED (failed_payload d reason)"
    by (simp add: sent_payload_def failed_payload_def has_str_def get_str_def oid opt_member_def event_types)
  show "sent_payload INVENTORY_RELEASED (JObj [(''orderId'', JStr i)])"
    by (simp add: sent_payload_def declared_payload_def has_str_def get_str_def event_types)
qed

lemma stock_after_created:
  assumes x: "x \<in> X" "x = orderCreatedEvent D req ord" "ev_data e = ob_payload x" and stock: "stock_ok (fst s)"
    and ex: "onOrderCreated libmsg confirm (KnexInventoryRepository E collate) ttl cx (event_to_json e) s = (r, t)"
  shows "stock_ok (fst t) \<and> stock_hist (fst s) \<subseteq> stock_hist (fst t) \<and>
    (\<exists>new. snd t = snd s @ new \<and> list_all (message_ok D X (stock_hist (fst t)) G) new)"
proof -
  let ?ev = "event_to_json e"
  note p = created_payload [OF x(2)]
  from p(10) obtain items where items: "map_res item_of_json (map (item_payload D) (o_items ord)) = Inr items"
    "map ri_sku items = event_skus x" by blast
  have data: "json_get ?ev ''data'' = Some (ob_payload x)" "get_str (ob_payload x) ''orderId'' = Some (o_id ord)"
    using x(3) p(4) by (simp_all add: get_str_def)
  from stock data(1) p(8) items(1) data(2) ex show ?thesis
  proof (cases rule: knex_stock.onOrderCreated_cases)
    case (reserved rs)
    let ?d = "reserved_payload (ob_payload x) \<lparr>rs_orderId = o_id ord, rs_reservations = rs\<rparr>"
    note k = knex_stock.reserve_ok [OF stock reserved(2)]
    have "reserved_in (stock_hist (fst t)) x"
      using k arg_cong [OF items(2), of set] p(2) by (auto simp: reserved_in_def)
    then have "event_ok D X (stock_hist (fst t)) G (stock_event cx INVENTORY_RESERVED ?ev ?d)"
      using x(1) p(3) agree_reserved sent_stock_payloads(1) [OF data(2)] by (auto simp: event_ok_def stock_event_def event_types)
    then have "message_ok D X (stock_hist (fst t)) G (stock_message cx INVENTORY_RESERVED ?ev ?d)"
      unfolding stock_message_def by (rule message_ok_publish) (simp_all add: stock_event_def event_type_members)
    with k reserved(3) show ?thesis by auto
  next
    case (refused err)
    with stock stock_published_other [OF refused(3) [symmetric] _ sent_stock_payloads(2) [OF data(2)]] show ?thesis by simp
  next
    case (unconfirmed rs s1 err)
    note k = knex_stock.reserve_ok [OF stock unconfirmed(1)]
    with stock_published_other [OF unconfirmed(3) [symmetric] _ sent_stock_payloads(2) [OF data(2)]] unconfirmed(2) show ?thesis by auto
  qed
qed

lemma stock_after_cancelled:
  assumes stock: "stock_ok (fst s)"
    and ex: "onOrderCancelled confirm (KnexInventoryRepository E collate) cx (event_to_json e) s = (r, t)"
  shows "stock_ok (fst t) \<and> stock_hist (fst t) = stock_hist (fst s) \<and>
    (\<exists>new. snd t = snd s @ new \<and> list_all (message_ok D X H G) new)"
proof (cases "get_str (ev_data e) ''orderId''")
  case None
  with ex stock show ?thesis by (simp add: onOrderCancelled_def throw_def)
next
  case (Some oid)
  let ?d = "JObj [(''orderId'', JStr oid)]"
  obtain u k where u: "ReleaseStock_execute (KnexInventoryRepository E collate) cx oid (fst s) = (u, k)" by fastforce
  note k = released_stock [OF stock u]
  consider "t = (k, snd s)" | "stock_publish confirm cx INVENTORY_RELEASED (event_to_json e) ?d (k, snd s) = (r, t)"
    using ex Some u
    by (cases u) (auto simp: onOrderCancelled_def bind_eff_def on_stock_def ret_def split: if_splits prod.splits)
  then show ?thesis
  proof cases
    case 2
    then have "fst t = k" by (auto simp: stock_publish_result split: option.splits)
    with k stock_published_other [OF 2 _ sent_stock_payloads(3) [OF Some]] show ?thesis by simp
  qed (use k in simp)
qed

text \<open>The stock handler on a message that keeps its promise.\<close>

lemma stock_after_event:
  assumes ann: "announced_once SE D db" and X: "X = set (order_db_sent db)"
    and stock: "stock_ok (fst s)" and e: "event_ok D X (stock_hist (fst s)) G e"
    and ex: "stock_handle libmsg confirm (KnexInventoryRepository E collate) ttl cx (event_to_json e) s = (r, t)"
  shows "stock_ok (fst t) \<and> stock_hist (fst s) \<subseteq> stock_hist (fst t) \<and>
    (\<exists>new. snd t = snd s @ new \<and> list_all (message_ok D X (stock_hist (fst t)) G) new)"
proof -
  consider "ev_type e = ORDER_CREATED" | "ev_type e = ORDER_CANCELLED" "ev_type e \<noteq> ORDER_CREATED"
    | "ev_type e \<noteq> ORDER_CREATED" "ev_type e \<noteq> ORDER_CANCELLED" by blast
  then show ?thesis
  proof cases
    case 1
    with e obtain x where x: "x \<in> X" "is_created x" "ev_data e = ob_payload x" by (auto simp: event_ok_def)
    then obtain req ord where "x = orderCreatedEvent D req ord" using announced_event [OF ann] X by metis
    from stock_after_created [OF x(1) this x(3) stock] ex 1 show ?thesis by (simp add: stock_handle_def)
  next
    case 2
    with ex have "onOrderCancelled confirm (KnexInventoryRepository E collate) cx (event_to_json e) s = (r, t)"
      by (simp add: stock_handle_def)
    from stock_after_cancelled [OF stock this, where D = D and X = X and H = "stock_hist (fst t)" and G = G]
    show ?thesis by auto
  next
    case 3
    with ex stock show ?thesis by (simp add: stock_handle_def ret_def)
  qed
qed

section \<open>Payments\<close>

definition charges_backed :: "sql_env \<Rightarrow> 'd decimal_lib \<Rightarrow> payment_db pay_state \<Rightarrow> bool" where
  "charges_backed E D s \<longleftrightarrow> payment_db_ok E D (py_store s) \<and>
     distinct (map cr_idempotencyKey (gw_charges (py_gateway s))) \<and>
     (\<forall>req\<in>set (gw_charges (py_gateway s)). has_key (payment_db_abs D (py_store s)) (cr_idempotencyKey req))"

definition pay_inv ::
    "sql_env \<Rightarrow> 'd decimal_lib \<Rightarrow> outbox_input set \<Rightarrow> (string \<times> string) set \<Rightarrow> payment_db pay_state \<Rightarrow> bool" where
  "pay_inv E D X H s \<longleftrightarrow> charges_backed E D s \<and>
     (\<forall>i p. payment_db_abs D (py_store s) i = Some p \<longrightarrow> payment_ok D X H (set (gw_charges (py_gateway s))) p)"

lemma pay_inv_store: "pay_inv E D X H s \<Longrightarrow> payment_db_ok E D (py_store s)"
  by (simp add: pay_inv_def charges_backed_def)

lemma pay_inv_mono: "pay_inv E D X H s \<Longrightarrow> X \<subseteq> X' \<Longrightarrow> H \<subseteq> H' \<Longrightarrow> pay_inv E D X' H' s"
  unfolding pay_inv_def using payment_ok_mono by blast

text \<open>A command may use a key of the saga only when an order asks for exactly its amount.\<close>

definition command_ok :: "'d decimal_lib \<Rightarrow> outbox_input set \<Rightarrow> (string \<times> string) set \<Rightarrow> 'd process_command \<Rightarrow> bool" where
  "command_ok D X H c \<longleftrightarrow> (\<forall>i. pcm_idempotencyKey c = saga_key i \<longrightarrow>
     (\<exists>x\<in>X. is_created x \<and> ob_aggregateId x = i \<and> reserved_in H x \<and>
        (\<forall>a b. money_of D (pcm_amount c) (pcm_currency c) = Inr a \<longrightarrow> column_amount D a b \<longrightarrow>
           invoice D x = Some \<lparr>cr_amount = money_fixed D b, cr_currency = m_currency b, cr_idempotencyKey = saga_key i\<rparr>)))"

lemma payment_ok_upd:
  assumes "\<forall>i p. A i = Some p \<longrightarrow> payment_ok D X H G p" and "payment_ok D X H G' q" and "G \<subseteq> G'"
  shows "\<forall>j p. (A(i \<mapsto> q)) j = Some p \<longrightarrow> payment_ok D X H G' p"
  by (metis assms fun_upd_apply option.inject payment_ok_mono subset_refl)

lemma process_backed:
  assumes P: "pay_inv E D X H s" and c: "command_ok D X H c"
    and ex: "ProcessPayment_execute D libmsg (KnexPaymentRepository E D) cfg y c s = (r, t)"
  shows "pay_inv E D X H t \<and> set (gw_charges (py_gateway s)) \<subseteq> set (gw_charges (py_gateway t))"
proof -
  let ?A = "\<lambda>s. payment_db_abs D (py_store s)" and ?G = "\<lambda>s. set (gw_charges (py_gateway s))"
  have "charges_backed E D s" using P by (simp add: pay_inv_def)
  from knex_payments.process_charged_once [unfolded knex_payments.charged_once_def, OF this [unfolded charges_backed_def], of D libmsg cfg y c]
  have once: "charges_backed E D t" unfolding ex charges_backed_def by simp
  have old: "\<forall>i p. ?A s i = Some p \<longrightarrow> payment_ok D X H (?G s) p" using P by (simp add: pay_inv_def)
  have "?G s \<subseteq> ?G t \<and> (\<forall>i p. ?A t i = Some p \<longrightarrow> payment_ok D X H (?G t) p)"
    using pay_inv_store [OF P] ex
  proof (cases rule: knex_payments.process_start)
    case (unmarked i q e)
    have "payment_ok D X H (?G s) q" using unmarked(8) by (simp add: payment_ok_def)
    from payment_ok_upd [OF old this subset_refl] show ?thesis unfolding unmarked(4,6) by simp
  next
    case (processing i q s1)
    have at: "?A s1 i = Some q" using processing(4) by simp
    have saga: "\<exists>x\<in>X. is_created x \<and> ob_aggregateId x = j \<and> reserved_in H x \<and> invoice D x = Some (charge_for D p)"
      if "p_idempotencyKey p = p_idempotencyKey q" "p_amount p = p_amount q" "p_idempotencyKey p = saga_key j" for p j
    proof -
      have "pcm_idempotencyKey c = saga_key j" using that processing(2) by simp
      with c obtain x where x: "x \<in> X" "is_created x" "ob_aggregateId x = j" "reserved_in H x"
        "\<forall>a b. money_of D (pcm_amount c) (pcm_currency c) = Inr a \<longrightarrow> column_amount D a b \<longrightarrow>
           invoice D x = Some \<lparr>cr_amount = money_fixed D b, cr_currency = m_currency b, cr_idempotencyKey = saga_key j\<rparr>"
        unfolding command_ok_def by blast
      have "invoice D x = Some (charge_for D p)"
        using x(5) processing(11) that by (auto simp: charge_for_def)
      with x show ?thesis by blast
    qed
    have charge: "charge_of D c q = charge_for D p" if "p_idempotencyKey p = p_idempotencyKey q" "p_amount p = p_amount q" for p
      using that processing(2) by (simp add: charge_of_def charge_for_def)
    have "payment_ok D X H (?G s) q" using saga [of q] processing(7) by (simp add: payment_ok_def)
    note s1 = payment_ok_upd [OF old this subset_refl, of i, folded processing(4)]
    from processing(5,8) at processing(9,7,10) show ?thesis
    proof (cases rule: knex_payments.settle_cases)
      case (completed p tx)
      have g: "?G t = insert (charge_for D p) (?G s)"
        using completed(7) processing(6) charge [OF completed(4,8)] by simp
      have "payment_ok D X H (?G t) p"
        unfolding payment_ok_def g using saga [OF completed(4,8)] completed(3) by simp
      from payment_ok_upd [OF s1 this] show ?thesis unfolding completed(5) g by blast
    next
      case (failed p e)
      have g: "?G t = ?G s" using failed(7) processing(6) by simp
      have "payment_ok D X H (?G t) p" using failed(2) by (simp add: payment_ok_def)
      from payment_ok_upd [OF s1 this] show ?thesis unfolding failed(5) g by blast
    next
      case (uncharged e)
      then show ?thesis using s1 processing(6) by simp
    next
      case (charged e)
      then have "?G s \<subseteq> ?G t" "py_store t = py_store s1" using processing(6) by auto
      with s1 payment_ok_mono [OF _ subset_refl subset_refl] show ?thesis by metis
    qed
  qed (use old in simp_all)
  with once show ?thesis by (simp add: pay_inv_def)
qed

lemma saga_key_inject [simp]: "saga_key i = saga_key j \<longleftrightarrow> i = j"
  by (simp add: saga_key_def)

text \<open>The payment the reserved event of an order asks for.\<close>

lemma reserved_command:
  assumes x: "x \<in> X" "x = orderCreatedEvent D req ord" and d: "agree d (ob_payload x)" and r: "reserved_in H x"
  shows "command_ok D X H (command_of_event d :: 'd process_command)" (is "command_ok D X H ?c")
    and "pcm_idempotencyKey (command_of_event d :: 'd process_command) = saga_key (o_id ord)"
    and "json_get d ''orderId'' = Some (JStr (o_id ord))" and "d \<noteq> JNull"
proof -
  note p = created_payload [OF x(2)]
  show oid: "json_get d ''orderId'' = Some (JStr (o_id ord))" using d p(4) by (simp add: agree_def)
  then show "d \<noteq> JNull" by auto
  show key: "pcm_idempotencyKey (command_of_event d :: 'd process_command) = saga_key (o_id ord)"
    by (simp add: command_of_event_def saga_key_def oid js_text_def)
  have "json_get d ''totalAmount'' = json_get (ob_payload x) ''totalAmount''" "get_str d ''currency'' = get_str (ob_payload x) ''currency''"
    using d by (simp_all add: agree_def get_str_def)
  then have "pcm_amount ?c = event_amount (ob_payload x)" "pcm_currency ?c = str_member (ob_payload x) ''currency''"
    using p(6,7) by (simp_all add: command_of_event_def event_amount_def)
  then have "invoice D x = Some \<lparr>cr_amount = money_fixed D b, cr_currency = m_currency b, cr_idempotencyKey = saga_key (o_id ord)\<rparr>"
    if "money_of D (pcm_amount ?c) (pcm_currency ?c) = Inr a" "column_amount D a b" for a b
    using that p(2) by (simp add: invoice_def column_amount_def)
  then show "command_ok D X H ?c" using x(1) p(2,3) r by (auto simp: command_ok_def key)
qed

lemma sent_pay_payloads:
  assumes "p_id p = Some i"
  shows "p_gatewayTransactionId p = Some tx \<Longrightarrow> sent_payload PAYMENT_COMPLETED (JObj (opt_member ''orderId'' id (Some (JStr oid)) @
      opt_member ''paymentId'' JStr (p_id p) @ [(''amount'', JNum a), (''currency'', JStr c)] @
      opt_member ''gatewayTransactionId'' JStr (p_gatewayTransactionId p)))"
    and "sent_payload PAYMENT_FAILED (JObj (opt_member ''orderId'' id (Some (JStr oid)) @ opt_member ''paymentId'' JStr (p_id p) @
      [(''reason'', JStr reason), (''retryable'', JBool False)]))"
  using assms
  by (simp_all add: sent_payload_def declared_payload_def PaymentCompletedPayload_def PaymentFailedPayload_def has_str_def has_num_def
      has_bool_def get_str_def get_num_def event_types opt_member_def)

lemma payment_after_event:
  assumes ann: "announced_once SE D db" and X: "X = set (order_db_sent db)"
    and P: "pay_inv E D X H (fst s)" and e: "event_ok D X H G e"
    and ex: "pay_handle D libmsg confirm (KnexPaymentRepository E D) cfg y (event_to_json e) s = (r, t)"
  shows "pay_inv E D X H (fst t) \<and> set (gw_charges (py_gateway (fst s))) \<subseteq> set (gw_charges (py_gateway (fst t))) \<and>
    (\<exists>new. snd t = snd s @ new \<and> list_all (message_ok D X H (set (gw_charges (py_gateway (fst t))))) new)"
proof (cases "ev_type e = INVENTORY_RESERVED")
  case False
  with ex P show ?thesis by (simp add: pay_handle_def ret_def)
next
  case True
  let ?ev = "event_to_json e" and ?d = "ev_data e"
  from True e obtain x where x: "x \<in> X" "is_created x" "agree ?d (ob_payload x)" "reserved_in H x"
    by (auto simp: event_ok_def)
  obtain req ord where ord: "x = orderCreatedEvent D req ord" using announced_event [OF ann] x X by metis
  note c = reserved_command [OF x(1) ord x(3,4)]
  let ?c = "command_of_event ?d :: 'a process_command"
  obtain u p1 where u: "ProcessPayment_execute D libmsg (KnexPaymentRepository E D) cfg y ?c (fst s) = (u, p1)" by fastforce
  note b = process_backed [OF P c(1) u]
  let ?G = "set (gw_charges (py_gateway p1))"
  have published: "t' = (p1, snd s) \<or> t' = (p1, snd s @ [pay_message y ty ?ev d])"
    if "pay_publish confirm y ty ?ev d (p1, snd s) = (r', t')" for ty d r' t'
    using that by (auto simp: pay_publish_def pay_message_def publish_def Let_def split: option.splits)
  have h: "pay_onInventoryReserved D libmsg confirm (KnexPaymentRepository E D) cfg y ?ev s = (r, t)"
    using ex True by (simp add: pay_handle_def)
  show ?thesis
  proof (cases u)
    case (Inl err)
    with h u c(4) have "t = (p1, snd s)"
      by (cases ?d) (auto simp: pay_onInventoryReserved_def Let_def bind_eff_def on_payment_def)
    with b show ?thesis by simp
  next
    case (Inr v)
    then obtain p ok where v: "u = Inr (p, ok)" by (cases v) simp
    from knex_payments.process_result_stored [OF pay_inv_store [OF P] u [unfolded v]] obtain i where
      p: "ok = (p_status p = PS_COMPLETED)" "payment_db_abs D (py_store p1) i = Some p" "p_idempotencyKey p = saga_key (o_id ord)"
      using c(2) by auto
    have "p_id p = Some i" using knex_payments.abs_id [OF pay_inv_store p(2)] b by blast
    note payloads = sent_pay_payloads [OF this]
    have "payment_ok D X H ?G p" using b p(2) by (simp add: pay_inv_def)
    then have tx: "ok \<Longrightarrow> p_gatewayTransactionId p \<noteq> None" using p(1) by (simp add: payment_ok_def)
    obtain ty d where t: "pay_publish confirm y ty ?ev d (p1, snd s) = (r, t)"
      and ty: "if ok then ty = PAYMENT_COMPLETED \<and> get_str d ''orderId'' = Some (o_id ord) else ty = PAYMENT_FAILED"
      and sent: "sent_payload ty d"
      using h u v c(3,4) payloads tx
      by (cases ?d; cases ok) (auto simp: pay_onInventoryReserved_def Let_def bind_eff_def on_payment_def get_str_def simp del: map_of_append)
    have "event_ok D X H ?G (pay_event y ty ?ev d)"
    proof (cases ok)
      case False
      with ty sent show ?thesis by (simp add: event_ok_def pay_event_def event_types)
    next
      case True
      from b p(2) have "payment_ok D X H ?G p" by (simp add: pay_inv_def)
      with True p(1,3) obtain z where "z \<in> X" "is_created z" "ob_aggregateId z = o_id ord" "reserved_in H z"
        "invoice D z = Some (charge_for D p)" "charge_for D p \<in> ?G" by (auto simp: payment_ok_def)
      with True ty sent show ?thesis by (auto simp: event_ok_def pay_event_def event_types charged_in_def)
    qed
    then have "message_ok D X H ?G (pay_message y ty ?ev d)"
      unfolding pay_message_def
      by (rule message_ok_publish) (use ty event_type_members in \<open>auto simp: pay_event_def split: if_splits\<close>)
    with published [OF t] b show ?thesis by auto
  qed
qed

text \<open>Refunds and webhooks.\<close>

lemma refund_table:
  assumes "rf_findByIdempotencyKey (KnexRefundRepository E) k db = (r, db') \<or> rf_save (KnexRefundRepository E) cx n db = (r', db')"
  shows "payment_db_abs D db' = payment_db_abs D db \<and> (payment_db_ok E D db \<longrightarrow> payment_db_ok E D db')"
  using assms
  by (auto simp: KnexRefundRepository_def knex_refund_findByKey_def knex_refund_save_def Let_def payment_db_abs_def fun_eq_iff
      payment_db_ok_def events_of_def split: option.splits)

lemma pay_inv_cong:
  assumes "pay_inv E D X H s" and "payment_db_ok E D (py_store t)"
    and "payment_db_abs D (py_store t) = payment_db_abs D (py_store s)"
    and "gw_charges (py_gateway t) = gw_charges (py_gateway s)"
  shows "pay_inv E D X H t"
  using assms by (simp add: pay_inv_def charges_backed_def)

lemma pay_inv_move:
  assumes P: "pay_inv E D X H s" and t: "payment_db_ok E D (py_store t)"
    "payment_db_abs D (py_store t) = (payment_db_abs D (py_store s))(i \<mapsto> q)" "gw_charges (py_gateway t) = gw_charges (py_gateway s)"
    and old: "payment_db_abs D (py_store s) i = Some p" "p_idempotencyKey q = p_idempotencyKey p"
    and q: "payment_ok D X H (set (gw_charges (py_gateway s))) q"
  shows "pay_inv E D X H t"
proof -
  have "has_key (payment_db_abs D (py_store t)) k = has_key (payment_db_abs D (py_store s)) k" for k
    unfolding t(2) by (rule has_key_upd [where old = p]) (rule old)+
  then have "charges_backed E D t" using P t by (simp add: pay_inv_def charges_backed_def)
  moreover have "\<forall>j p. payment_db_abs D (py_store t) j = Some p \<longrightarrow> payment_ok D X H (set (gw_charges (py_gateway t))) p"
    unfolding t(2,3) using P by (intro payment_ok_upd [OF _ q subset_refl]) (simp add: pay_inv_def)
  ultimately show ?thesis by (simp add: pay_inv_def)
qed

lemma refund_backed:
  assumes P: "pay_inv E D X H s"
    and ex: "Refund_execute D libmsg (KnexPaymentRepository E D) (KnexRefundRepository E) cfg y c s = (r, t)"
  shows "pay_inv E D X H t \<and> gw_charges (py_gateway t) = gw_charges (py_gateway s)"
proof -
  let ?J = "\<lambda>u. pay_inv E D X H u \<and> gw_charges (py_gateway u) = gw_charges (py_gateway s)"
  have tables: "outcome ?J (on_pay m) (\<lambda>_. ?J) (\<lambda>_. ?J)"
    if table: "\<And>db r db'. m db = (r, db') \<Longrightarrow> payment_db_abs D db' = payment_db_abs D db \<and> (payment_db_ok E D db \<longrightarrow> payment_db_ok E D db')"
    for m :: "(payment_db, js_error, 'x) eff"
  proof -
    have "?J u'" if "?J u" "on_pay m u = (r, u')" for u r u'
    proof -
      obtain v w where "m (py_store u) = (v, w)" by fastforce
      with that(2) have "u' = u\<lparr>py_store := w\<rparr>" "m (py_store u) = (v, w)" by (auto simp: on_pay_def)
      with table [of "py_store u" v w] pay_inv_store [of E D X H u] that(1) pay_inv_cong [of E D X H u u']
      show ?thesis by simp
    qed
    then show ?thesis by (intro outcomeI) blast+
  qed
  show ?thesis
  proof (rule outcome_inv [OF knex_payments.refund_keeps [where J = ?J] _ ex])
    fix u i p q w and cx :: payment_call
    assume u: "?J u" "payment_db_abs D (py_store u) i = Some p" "p_status q = PS_REFUNDED"
      "payment_db_ok E D w" "payment_db_abs D w = (payment_db_abs D (py_store u))(i \<mapsto> stored_payment cx p q)"
    have "payment_ok D X H G (stored_payment cx p q)" for G using u(3) by (simp add: payment_ok_def)
    with u pay_inv_move [of E D X H u "u\<lparr>py_store := w\<rparr>" i "stored_payment cx p q" p] show "?J (u\<lparr>py_store := w\<rparr>)" by simp
  next
    fix k show "outcome ?J (on_pay (rf_findByIdempotencyKey (KnexRefundRepository E) k)) (\<lambda>_. ?J) (\<lambda>_. ?J)"
      by (rule tables) (rule refund_table, blast)
  next
    fix cx n show "outcome ?J (on_pay (rf_save (KnexRefundRepository E) cx n)) (\<lambda>_. ?J) (\<lambda>_. ?J)"
      by (rule tables) (rule refund_table, blast)
  next
    fix u w :: "payment_db pay_state"
    assume "?J u" and same: "py_store w = py_store u" "gw_charges (py_gateway w) = gw_charges (py_gateway u)"
    with pay_inv_cong [of E D X H u w] pay_inv_store [of E D X H u] show "?J w" by simp
  next
    fix u assume "?J u" then show "payment_db_ok E D (py_store u)" using pay_inv_store by blast
  qed (use P in simp)
qed

lemma webhook_backed:
  assumes P: "pay_inv E D X H s"
    and ex: "ProcessWebhook_execute (KnexPaymentRepository E D) cx ev (py_store s) = (r, db)"
    and honest: "\<And>p. wh_type ev = ''payment.succeeded'' \<Longrightarrow> payment_db_abs D (py_store s) (wh_paymentId ev) = Some p \<Longrightarrow>
      charge_for D p \<in> set (gw_charges (py_gateway s))"
  shows "pay_inv E D X H (s\<lparr>py_store := db\<rparr>)"
  using pay_inv_store [OF P] ex
proof (cases rule: knex_payments.webhook_cases)
  case (applied p q)
  have same: "charge_for D q = charge_for D p" using applied(7,8) by (simp add: charge_for_def)
  have "payment_ok D X H (set (gw_charges (py_gateway s))) p" using P applied(1) by (simp add: pay_inv_def)
  then have "payment_ok D X H (set (gw_charges (py_gateway s))) q"
    using applied(1,2,6,7,9) honest [OF _ applied(1)] by (auto simp: payment_ok_def same)
  from pay_inv_move [OF P _ _ _ applied(1,7) this, of "s\<lparr>py_store := db\<rparr>"] applied(4,5) show ?thesis by simp
qed (use P in simp_all)

section \<open>The invariant of the system\<close>

definition system_ok :: "'d system_env \<Rightarrow> system \<Rightarrow> bool" where
  "system_ok Env s \<longleftrightarrow>
     (let D = se_decimal Env; db = fst (sy_orders s); X = set (order_db_sent db); H = stock_hist (sy_stock s);
          G = set (gw_charges (py_gateway (sy_pay s)))
      in announced_once (se_sql Env) D db \<and> confirmed_ok D db H G \<and> stock_ok (sy_stock s) \<and>
         pay_inv (se_sql Env) D X H (sy_pay s) \<and> list_all (message_ok D X H G) (sy_log s))"

text \<open>A change that keeps the parts and takes nothing from the three sets keeps the whole.\<close>

lemma messages_mono:
  "list_all (message_ok D X H G) ms \<Longrightarrow> X \<subseteq> X' \<Longrightarrow> H \<subseteq> H' \<Longrightarrow> G \<subseteq> G' \<Longrightarrow> list_all (message_ok D X' H' G') ms"
  by (auto simp: list_all_iff intro: message_ok_mono)

lemma confirmed_mono: "confirmed_ok D db H G \<Longrightarrow> H \<subseteq> H' \<Longrightarrow> G \<subseteq> G' \<Longrightarrow> confirmed_ok D db H' G'"
  unfolding confirmed_ok_def using reserved_in_mono charged_in_mono by blast

lemma system_parts:
  assumes "system_ok Env s"
  shows "announced_once (se_sql Env) (se_decimal Env) (fst (sy_orders s))"
    and "confirmed_ok (se_decimal Env) (fst (sy_orders s)) (stock_hist (sy_stock s)) (set (gw_charges (py_gateway (sy_pay s))))"
    and "stock_ok (sy_stock s)"
    and "pay_inv (se_sql Env) (se_decimal Env) (set (order_db_sent (fst (sy_orders s)))) (stock_hist (sy_stock s)) (sy_pay s)"
    and "list_all (message_ok (se_decimal Env) (set (order_db_sent (fst (sy_orders s)))) (stock_hist (sy_stock s))
        (set (gw_charges (py_gateway (sy_pay s))))) (sy_log s)"
  using assms by (simp_all add: system_ok_def Let_def)

lemma orders_changed:
  assumes "system_ok Env s" and "announced_once (se_sql Env) (se_decimal Env) (fst o') \<and>
      confirmed_ok (se_decimal Env) (fst o') (stock_hist (sy_stock s)) (set (gw_charges (py_gateway (sy_pay s)))) \<and>
      set (order_db_sent (fst (sy_orders s))) \<subseteq> set (order_db_sent (fst o'))"
  shows "system_ok Env (s\<lparr>sy_orders := o'\<rparr>)"
  using assms pay_inv_mono messages_mono unfolding system_ok_def Let_def by fastforce

lemma stock_changed:
  assumes "system_ok Env s" and "stock_ok k \<and> stock_hist (sy_stock s) \<subseteq> stock_hist k"
    and "\<exists>new. l = sy_log s @ new \<and> list_all (message_ok (se_decimal Env) (set (order_db_sent (fst (sy_orders s)))) (stock_hist k)
        (set (gw_charges (py_gateway (sy_pay s))))) new"
  shows "system_ok Env (s\<lparr>sy_stock := k, sy_log := l\<rparr>)"
proof -
  note p = system_parts [OF assms(1)] and H = conjunct2 [OF assms(2)]
  from assms(3) messages_mono [OF p(5) subset_refl H subset_refl] show ?thesis
    unfolding system_ok_def Let_def
    using p(1) confirmed_mono [OF p(2) H subset_refl] assms(2) pay_inv_mono [OF p(4) subset_refl H] by auto
qed

lemma pay_changed:
  assumes "system_ok Env s"
    and "pay_inv (se_sql Env) (se_decimal Env) (set (order_db_sent (fst (sy_orders s)))) (stock_hist (sy_stock s)) p"
    and "set (gw_charges (py_gateway (sy_pay s))) \<subseteq> set (gw_charges (py_gateway p))"
    and "\<exists>new. l = sy_log s @ new \<and> list_all (message_ok (se_decimal Env) (set (order_db_sent (fst (sy_orders s))))
        (stock_hist (sy_stock s)) (set (gw_charges (py_gateway p)))) new"
  shows "system_ok Env (s\<lparr>sy_pay := p, sy_log := l\<rparr>)"
proof -
  note p = system_parts [OF assms(1)]
  from assms(4) messages_mono [OF p(5) subset_refl subset_refl assms(3)] show ?thesis
    unfolding system_ok_def Let_def
    using p(1,3) confirmed_mono [OF p(2) subset_refl assms(3)] assms(2) by auto
qed

lemma message_event:
  assumes "system_ok Env s" and "m \<in> set (sy_log s)"
  obtains e where "am_content m = event_to_json e"
    "event_ok (se_decimal Env) (set (order_db_sent (fst (sy_orders s)))) (stock_hist (sy_stock s)) (set (gw_charges (py_gateway (sy_pay s)))) e"
  using system_parts(5) [OF assms(1)] assms(2) by (auto simp: list_all_iff message_ok_def typed_message_def)

lemma stock_consumer_ok:
  assumes ok: "system_ok Env s"
  shows "system_ok Env (stock_consumer Env h cx confirm s)"
proof -
  let ?h = "\<lambda>ctx. stock_handle (se_libmsg Env) confirm (KnexInventoryRepository (se_sql Env) (se_collate Env))
      (se_ttlSeconds Env) (cx\<lparr>sc_request := Some ctx\<rparr>)"
  let ?t = "consume Env [INVENTORY_ORDER_EVENTS] h (sy_log s) ?h (sy_stock s, sy_log s)"
  have s: "stock_consumer Env h cx confirm s = s\<lparr>sy_stock := fst ?t, sy_log := snd ?t\<rparr>"
    by (simp add: stock_consumer_def split: prod.split)
  show ?thesis
  proof (cases rule: consume_cases [of Env "[INVENTORY_ORDER_EVENTS]" h "sy_log s" ?h "(sy_stock s, sy_log s)"])
    case kept
    then show ?thesis unfolding s using ok by simp
  next
    case (handled m ctx r)
    obtain e where e: "am_content m = event_to_json e" "event_ok (se_decimal Env) (set (order_db_sent (fst (sy_orders s))))
        (stock_hist (sy_stock s)) (set (gw_charges (py_gateway (sy_pay s)))) e" using message_event [OF ok handled(1)] .
    have "stock_ok (fst (sy_stock s, sy_log s))" using system_parts(3) [OF ok] by simp
    from stock_after_event [OF system_parts(1) [OF ok] refl this _ handled(2) [unfolded e(1)]] e(2)
    show ?thesis unfolding s by (intro stock_changed [OF ok]) auto
  qed
qed

lemma payment_consumer_ok:
  assumes ok: "system_ok Env s"
  shows "system_ok Env (payment_consumer Env h y confirm s)"
proof -
  let ?h = "\<lambda>ctx. pay_handle (se_decimal Env) (se_libmsg Env) confirm (KnexPaymentRepository (se_sql Env) (se_decimal Env))
      (se_pay Env) (y\<lparr>yc_request := Some ctx\<rparr>)"
  let ?t = "consume Env [PAYMENT_INVENTORY_EVENTS] h (sy_log s) ?h (sy_pay s, sy_log s)"
  have s: "payment_consumer Env h y confirm s = s\<lparr>sy_pay := fst ?t, sy_log := snd ?t\<rparr>"
    by (simp add: payment_consumer_def split: prod.split)
  show ?thesis
  proof (cases rule: consume_cases [of Env "[PAYMENT_INVENTORY_EVENTS]" h "sy_log s" ?h "(sy_pay s, sy_log s)"])
    case kept
    then show ?thesis unfolding s using ok by simp
  next
    case (handled m ctx r)
    obtain e where e: "am_content m = event_to_json e" "event_ok (se_decimal Env) (set (order_db_sent (fst (sy_orders s))))
        (stock_hist (sy_stock s)) (set (gw_charges (py_gateway (sy_pay s)))) e" using message_event [OF ok handled(1)] .
    have "pay_inv (se_sql Env) (se_decimal Env) (set (order_db_sent (fst (sy_orders s)))) (stock_hist (sy_stock s)) (fst (sy_pay s, sy_log s))"
      using system_parts(4) [OF ok] by simp
    from payment_after_event [OF system_parts(1) [OF ok] refl this e(2) handled(2) [unfolded e(1)]]
    show ?thesis unfolding s by (intro pay_changed [OF ok]) auto
  qed
qed

lemma order_consumer_ok:
  assumes ok: "system_ok Env s"
  shows "system_ok Env (order_consumer Env h cx s)"
proof -
  let ?h = "\<lambda>ctx. order_handle (se_decimal Env) (KnexOrderRepository (se_sql Env) (se_decimal Env) (se_codec Env))
      (KnexSagaStepRepository (se_sql Env)) (cx\<lparr>cx_request := Some ctx\<rparr>)"
  show ?thesis
  proof (cases rule: consume_cases [of Env "[ORDER_PAYMENT_EVENTS, ORDER_INVENTORY_EVENTS]" h "sy_log s" ?h "sy_orders s"])
    case kept
    then show ?thesis using ok by (simp add: order_consumer_def)
  next
    case (handled m ctx r)
    obtain e where e: "am_content m = event_to_json e" "event_ok (se_decimal Env) (set (order_db_sent (fst (sy_orders s))))
        (stock_hist (sy_stock s)) (set (gw_charges (py_gateway (sy_pay s)))) e" using message_event [OF ok handled(1)] .
    from orders_after_event [OF system_parts(1,2) [OF ok] e(2) handled(2) [unfolded e(1)] refl]
    show ?thesis unfolding order_consumer_def by (intro orders_changed [OF ok]) simp
  qed
qed

theorem system_step_ok:
  assumes ok: "system_ok Env s" and adm: "admitted Env s a"
  shows "system_ok Env (system_step Env a s)"
proof (cases a)
  case (Create cx c)
  obtain r t where "CreateOrder_execute (se_decimal Env) (KnexOrderRepository (se_sql Env) (se_decimal Env) (se_codec Env)) cx c (sy_orders s) = (r, t)"
    by (rule prod.exhaust)
  with orders_changed [OF ok orders_after_create [OF system_parts(1,2) [OF ok] this]] Create show ?thesis
    by (simp add: system_step_def)
next
  case (Cancel cx c)
  obtain r t where "CancelOrder_execute (KnexOrderRepository (se_sql Env) (se_decimal Env) (se_codec Env)) cx c (sy_orders s) = (r, t)"
    by (rule prod.exhaust)
  with orders_changed [OF ok orders_after_cancel [OF system_parts(1,2) [OF ok] this]] Cancel show ?thesis
    by (simp add: system_step_def)
next
  case (Poll fl confirm now)
  obtain n q where q: "poll (KnexOutboxRepository fl) confirm relay_options now
      \<lparr>pl_store = fst (sy_orders s), pl_broker = sy_log s, pl_running = False, pl_timer = True\<rparr> = (n, q)" by (rule prod.exhaust)
  note o = orders_after_poll [OF system_parts(1,2,5) [OF ok] q]
  with Poll q system_parts [OF ok] show ?thesis by (simp add: system_step_def outbox_poll_def system_ok_def)
next
  case (Sweep now)
  obtain n j where j: "runOnce (KnexInventoryRepository (se_sql Env) (se_collate Env)) now \<lparr>jb_store = sy_stock s, jb_running = False, jb_timer = True\<rparr> = (n, j)"
    by (rule prod.exhaust)
  have "stock_ok (jb_store \<lparr>jb_store = sy_stock s, jb_running = False, jb_timer = True\<rparr>)" using system_parts(3) [OF ok] by simp
  from swept_stock [OF this j] have "system_ok Env (s\<lparr>sy_stock := jb_store j, sy_log := sy_log s\<rparr>)"
    by (intro stock_changed [OF ok]) simp_all
  with Sweep j show ?thesis by (simp add: system_step_def)
next
  case (Reserve cx oid items)
  obtain r k where k: "ReserveStock_execute (KnexInventoryRepository (se_sql Env) (se_collate Env)) (se_ttlSeconds Env) cx oid items (sy_stock s) = (r, k)"
    by (rule prod.exhaust)
  from reserved_stock [OF system_parts(3) [OF ok] k] have "system_ok Env (s\<lparr>sy_stock := k, sy_log := sy_log s\<rparr>)"
    by (intro stock_changed [OF ok]) simp_all
  with Reserve k show ?thesis by (simp add: system_step_def)
next
  case (Release cx oid)
  obtain r k where k: "ReleaseStock_execute (KnexInventoryRepository (se_sql Env) (se_collate Env)) cx oid (sy_stock s) = (r, k)"
    by (rule prod.exhaust)
  from released_stock [OF system_parts(3) [OF ok] k] have "system_ok Env (s\<lparr>sy_stock := k, sy_log := sy_log s\<rparr>)"
    by (intro stock_changed [OF ok]) simp_all
  with Release k show ?thesis by (simp add: system_step_def)
next
  case (Pay y c)
  obtain r p where u: "ProcessPayment_execute (se_decimal Env) (se_libmsg Env) (KnexPaymentRepository (se_sql Env) (se_decimal Env)) (se_pay Env) y c (sy_pay s) = (r, p)"
    by (rule prod.exhaust)
  have "command_ok (se_decimal Env) X H c" for X H using adm Pay by (auto simp: admitted_def command_ok_def saga_key_def)
  from process_backed [OF system_parts(4) [OF ok] this u] have "system_ok Env (s\<lparr>sy_pay := p, sy_log := sy_log s\<rparr>)"
    by (intro pay_changed [OF ok]) simp_all
  with Pay u show ?thesis by (simp add: system_step_def)
next
  case (Refund y c)
  obtain r p where u: "Refund_execute (se_decimal Env) (se_libmsg Env) (KnexPaymentRepository (se_sql Env) (se_decimal Env)) (KnexRefundRepository (se_sql Env)) (se_pay Env) y c (sy_pay s) = (r, p)"
    by (rule prod.exhaust)
  from refund_backed [OF system_parts(4) [OF ok] u] have "system_ok Env (s\<lparr>sy_pay := p, sy_log := sy_log s\<rparr>)"
    by (intro pay_changed [OF ok]) simp_all
  with Refund u show ?thesis by (simp add: system_step_def)
next
  case (Webhook cx ev)
  obtain r db where u: "ProcessWebhook_execute (KnexPaymentRepository (se_sql Env) (se_decimal Env)) cx ev (py_store (sy_pay s)) = (r, db)"
    by (rule prod.exhaust)
  have "charge_for (se_decimal Env) p \<in> set (gw_charges (py_gateway (sy_pay s)))"
    if "wh_type ev = ''payment.succeeded''" "payment_db_abs (se_decimal Env) (py_store (sy_pay s)) (wh_paymentId ev) = Some p" for p
    using adm Webhook that by (simp add: admitted_def)
  from webhook_backed [OF system_parts(4) [OF ok] u this] have "system_ok Env (s\<lparr>sy_pay := (sy_pay s)\<lparr>py_store := db\<rparr>, sy_log := sy_log s\<rparr>)"
    by (intro pay_changed [OF ok]) simp_all
  with Webhook u show ?thesis by (simp add: system_step_def)
qed (simp_all add: system_step_def stock_consumer_ok payment_consumer_ok order_consumer_ok ok)

lemma system_start_ok:
  assumes "system_start s"
  shows "system_ok Env s"
proof -
  have none: "order_db_abs (se_decimal Env) order_db_empty = (\<lambda>_. None)" "order_db_sent order_db_empty = []"
    by (simp_all add: order_db_abs_def order_db_empty_def order_db_sent_def fun_eq_iff)
  have "payment_db_abs (se_decimal Env) payment_db_empty = (\<lambda>_. None)"
    by (simp add: payment_db_abs_def payment_db_empty_def fun_eq_iff)
  with assms show ?thesis
    by (simp add: system_start_def system_ok_def Let_def announced_once_def confirmed_ok_def created_events_def none order_db_empty_ok
        pay_inv_def charges_backed_def payment_db_empty_ok)
qed

lemma reachable_ok: "reachable Env s \<Longrightarrow> system_ok Env s"
  by (induction rule: reachable.induct) (auto intro: system_start_ok system_step_ok)

end
