(* ===== verification/System_Properties.thy ===== *)
theory System_Properties
  imports System_Invariant Order_Properties Stock_Properties Payment_Properties
begin

text \<open>
  What holds of the services together, whatever clients, broker, gateway and databases do, and a
  run that takes an order from its creation to its confirmation.
\<close>

section \<open>A confirmed order is paid and reserved\<close>

lemma invoice_created:
  assumes "invoice D (orderCreatedEvent D req ord) = Some c"
  obtains a b where "money_of D (ANum (money_toNumber D (o_totalAmount ord))) (o_currency ord) = Inr a" "column_amount D a b"
    "c = \<lparr>cr_amount = money_fixed D b, cr_currency = m_currency b, cr_idempotencyKey = ''payment-'' @ o_id ord\<rparr>"
proof -
  note p = created_payload(2,5,6) [of "orderCreatedEvent D req ord" D req ord, OF refl]
  from assms that show thesis by (auto simp: invoice_def column_amount_def saga_key_def p split: sum.splits)
qed


section \<open>What is on the broker\<close>


section \<open>A run from creation to confirmation\<close>

definition demo_world :: "rat system_env" where
  "demo_world = \<lparr>se_sql = demo_env, se_decimal = rat_decimal, se_codec = demo_codec, se_collate = demo_collate,
     se_matches = literal_match, se_libmsg = demo_libmsg, se_ttlSeconds = 900, se_pay = demo_cfg\<rparr>"

definition demo_begin :: system where
  "demo_begin = \<lparr>sy_orders = demo_start, sy_stock = demo_stock, sy_pay = demo_pay_state payment_db_empty 1, sy_log = []\<rparr>"

definition demo_hop :: "nat \<Rightarrow> hop" where
  "demo_hop n = \<lparr>hp_message = n, hp_uuid = ''u'', hp_traceBytes = [], hp_spanBytes = [], hp_now = 8, hp_redelivered = False\<rparr>"

lemma demo_begin_reachable: "reachable demo_world demo_begin"
  by (rule reach_start) (simp add: system_start_def demo_begin_def demo_start_def demo_stock_ok demo_pay_state_def demo_gateway_def)

text \<open>A delivery of a message that is routed to the queue and is an event.\<close>

lemma consume_event:
  assumes "n < length msgs" and "msgs ! n = m" and "am_content m = event_to_json e"
    and "q \<in> set queues" and "q \<in> set (route (se_matches Env) setupTopology (am_exchange m) (am_routingKey m))"
  shows "\<exists>ctx. consume Env queues (demo_hop n) msgs handler s = snd (handler ctx (event_to_json e) s)"
proof -
  have "list_ex (\<lambda>q. q \<in> set queues) (route (se_matches Env) setupTopology (am_exchange m) (am_routingKey m))"
    using assms(4,5) by (auto simp: list_ex_iff)
  moreover have settled: "snd (case p of (Inl e, t) \<Rightarrow> if b then (Some DeadLetter, t) else (Some Requeue, t) | (Inr u, t) \<Rightarrow> (Some Ack, t)) = snd p"
    for p :: "(js_error + unit) \<times> 's" and b
    by (auto split: prod.split sum.split)
  ultimately show ?thesis
    using assms(1-3)
    by (simp add: consume_def demo_hop_def delivered_def on_message_def event_metadata_readable Let_def settled) (rule exI, rule refl)
qed

text \<open>An event of the saga on the database of one order.\<close>

lemma demo_saga_step:
  assumes ev: "get_str v ''type'' = Some (saga_event_type ev)" "event_orderId v = Inr ''o''"
    and db: "od_orders db = [row]" "od_items db = [demo_item]" "order_toDomain rat_decimal row [demo_item] = Inr old" "o_id old = ''o''"
      "o_totalAmount old = \<lparr>m_amount = 3, m_currency = ''USD''\<rparr>"
    and plan: "saga_plan ev (o_status old) \<noteq> []" "new = advance (cx_now cx) (saga_plan ev (o_status old)) old" "int4 (o_version new)"
    and outbox: "insert_rows (outbox_row_violation demo_env) (od_outbox db) (outbox_rows cx (saga_outbox rat_decimal (cx_request cx) ev new)) = Inr rows"
    and ex: "order_handle rat_decimal demo_orders demo_saga cx v (db, c) = (r, (db', c'))"
  shows "od_items db' = [demo_item] \<and> od_outbox db' = rows \<and>
    (\<exists>row'. od_orders db' = [row'] \<and> order_toDomain rat_decimal row' [demo_item] = Inr (stored_update cx old new))"
proof -
  note sel = toDomain_sel [OF db(3)]
  have items: "items_of (db\<lparr>od_orders := o', od_outbox := x\<rparr>) ''o'' = [demo_item]" "items_of db ''o'' = [demo_item]" for o' x
    using db(2) by (simp_all add: items_of_def demo_item_def)
  have find: "repo_findById demo_orders ''o'' (fst (db, c)) = (Inr (Some old), fst (db, c))"
    using db sel items by (simp add: demo_orders_def KnexOrderRepository_def knex_order_findById_def demo_env_def)
  have new: "o_id new = ''o''" "o_initialVersion new = ow_version row" "o_totalAmount new = o_totalAmount old"
    using plan(2) db(4) sel by (simp_all add: advance_def)
  have m: "matches_version new row" using new sel db(4) by (simp add: matches_version_def)
  have d: "decimal_12_2 demo_env (money_fixed rat_decimal (o_totalAmount new))"
    using demo_total [of OS_CREATED] new(3) db(5) by (simp add: demo_order_def)
  have trx: "trx_update_order demo_env rat_decimal cx new db =
     (Inr (updated_row rat_decimal cx new row), db\<lparr>od_orders := [updated_row rat_decimal cx new row]\<rparr>)"
    using m d db(1) plan(3) new(1) by (simp add: trx_update_order_def demo_env_def update_where_def)
  let ?evs = "saga_outbox rat_decimal (cx_request cx) ev new"
  let ?db = "db\<lparr>od_orders := [updated_row rat_decimal cx new row], od_outbox := rows\<rparr>"
  have w: "writeOutbox demo_env cx ?evs (db\<lparr>od_orders := o'\<rparr>) = (Inr (), db\<lparr>od_orders := o', od_outbox := rows\<rparr>)" for o'
    using outbox by (cases "?evs = []") (auto simp: writeOutbox_def outbox_rows_def)
  have up: "repo_update demo_orders cx new ?evs db = (Inr (stored_update cx old new), ?db)"
    using trx w items new(1) toDomain_updated [OF db(3), of cx new]
    by (simp add: demo_orders_def KnexOrderRepository_def knex_order_update_def transaction_def bind_eff_def)
  from handle_found [OF ev find, of rat_decimal demo_saga cx] plan(1,2) ex
  have "saga_commit rat_decimal demo_orders demo_saga cx ev ''o'' new (db, c) = (r, (db', c'))" by simp
  then obtain c1 where n: "saga_note demo_saga cx ev ''o'' ?db = (r, db')"
    using up knex_saga.count_store [of ev "(?db, c)"]
    by (auto simp: saga_commit_def bind_eff_def on_store_def split: prod.splits)
  have "od_orders db' = od_orders ?db" "od_items db' = od_items ?db" "od_outbox db' = od_outbox ?db"
    using n by (cases ev; auto simp: demo_saga_def KnexSagaStepRepository_def knex_saga_record_def Let_def split: option.splits if_splits)+
  with db(2) toDomain_updated [OF db(3), of cx new] show ?thesis by simp
qed

text \<open>The run: the order is created, its event relayed, the stock reserved, the payment made, and
  the order service hears of both.\<close>

lemmas demo_world_defs = system_step_def demo_world_def Let_def

lemma demo_after_create:
  "\<exists>c. reachable demo_world (demo_begin\<lparr>sy_orders := (demo_created_db, c)\<rparr>)"
proof -
  obtain saved t where "CreateOrder_execute rat_decimal demo_orders demo_ctx demo_cmd demo_start = (Inr (saved, False), t)" "fst t = demo_created_db"
    using demo_create by blast
  then have "system_step demo_world (Create demo_ctx demo_cmd) demo_begin = demo_begin\<lparr>sy_orders := (demo_created_db, snd t)\<rparr>"
    by (simp add: demo_world_defs demo_orders_def [symmetric] demo_begin_def) (metis prod.collapse)
  with reach_step [OF demo_begin_reachable, of "Create demo_ctx demo_cmd"] show ?thesis by (auto simp: admitted_def)
qed

definition demo_relayed :: amqp_message where
  "demo_relayed = relay_message relay_options 8 \<lparr>obr_id = ''x'', obr_createdAt = 7, obr_event = demo_created_event\<rparr>"

definition demo_relayed_db :: order_db where
  "demo_relayed_db = demo_created_db\<lparr>od_outbox := [\<lparr>xw_id = ''x'', xw_event = demo_created_event, xw_published = True,
     xw_created_at = 7, xw_published_at = Some 8\<rparr>]\<rparr>"

lemma demo_after_poll:
  "\<exists>c. reachable demo_world (demo_begin\<lparr>sy_orders := (demo_relayed_db, c), sy_log := [demo_relayed]\<rparr>)"
proof -
  obtain c where c: "reachable demo_world (demo_begin\<lparr>sy_orders := (demo_created_db, c)\<rparr>)" using demo_after_create by blast
  have row: "demo_outbox [demo_created_event] = [\<lparr>xw_id = ''x'', xw_event = demo_created_event, xw_published = False, xw_created_at = 7, xw_published_at = None\<rparr>]"
    by (simp add: demo_outbox_def outbox_rows_def demo_ctx_def enumerate_eq_zip)
  have "outbox_poll \<lparr>df_find = False, df_mark = False\<rparr> (\<lambda>_. None) 8 (demo_begin\<lparr>sy_orders := (demo_created_db, c)\<rparr>) =
      demo_begin\<lparr>sy_orders := (demo_relayed_db, c), sy_log := [demo_relayed]\<rparr>"
    by (simp add: outbox_poll_def poll_def KnexOutboxRepository_def knex_findUnpublished_def knex_markPublished_def order_limit_def
        demo_created_db_def demo_relayed_db_def row record_of_outbox_row_def relay_options_def publish_def update_where_def
        demo_begin_def demo_relayed_def relay_message_def Let_def)
  with reach_step [OF c, of "Poll \<lparr>df_find = False, df_mark = False\<rparr> (\<lambda>_. None) 8"] show ?thesis
    by (auto simp: admitted_def system_step_def)
qed

lemma demo_relayed_sel:
  "am_exchange demo_relayed = ORDER_EXCHANGE" "am_routingKey demo_relayed = ORDER_CREATED"
  "\<exists>e. am_content demo_relayed = event_to_json e \<and> ev_type e = ORDER_CREATED \<and> ev_data e = ob_payload demo_created_event"
  by (simp_all add: demo_relayed_def relay_message_def publish_message_def relay_options_def outbox_toDomainEvent_def Let_def
      demo_created_event_def orderCreatedEvent_def) (rule exI, rule conjI, rule refl, simp)

lemma demo_wanted_reserved:
  "\<exists>rs k. sp_reserve demo_stock_repo 7 (\<lambda>_. ''r'') ''o'' [\<lparr>ri_sku = ''A'', ri_quantity = Some (JNum 2)\<rparr>] 900007 demo_stock = (Inr rs, k)"
proof -
  have "isl (fst (sp_reserve demo_stock_repo 7 (\<lambda>_. ''r'') ''o'' [\<lparr>ri_sku = ''A'', ri_quantity = Some (JNum 2)\<rparr>] 900007 demo_stock)) = False"
    by code_simp
  then show ?thesis
    by (cases "sp_reserve demo_stock_repo 7 (\<lambda>_. ''r'') ''o'' [\<lparr>ri_sku = ''A'', ri_quantity = Some (JNum 2)\<rparr>] 900007 demo_stock";
        cases "fst (sp_reserve demo_stock_repo 7 (\<lambda>_. ''r'') ''o'' [\<lparr>ri_sku = ''A'', ri_quantity = Some (JNum 2)\<rparr>] 900007 demo_stock)") auto
qed

lemma demo_after_stock:
  "\<exists>c k cx causedBy rs. reachable demo_world (demo_begin\<lparr>sy_orders := (demo_relayed_db, c), sy_stock := k,
     sy_log := [demo_relayed, stock_message cx INVENTORY_RESERVED causedBy (reserved_payload (ob_payload demo_created_event) rs)]\<rparr>)"
proof -
  obtain c where c: "reachable demo_world (demo_begin\<lparr>sy_orders := (demo_relayed_db, c), sy_log := [demo_relayed]\<rparr>)"
    (is "reachable demo_world ?s") using demo_after_poll by blast
  obtain e where e: "am_content demo_relayed = event_to_json e" "ev_type e = ORDER_CREATED" "ev_data e = ob_payload demo_created_event"
    using demo_relayed_sel(3) by blast
  let ?h = "\<lambda>ctx. stock_handle demo_libmsg (\<lambda>_. None) demo_stock_repo 900 (demo_stock_call\<lparr>sc_request := Some ctx\<rparr>)"
  obtain ctx where ctx: "consume demo_world [INVENTORY_ORDER_EVENTS] (demo_hop 0) [demo_relayed] ?h (demo_stock, [demo_relayed]) =
      snd (?h ctx (event_to_json e) (demo_stock, [demo_relayed]))"
    using consume_event [OF _ _ e(1), of 0 "[demo_relayed]" INVENTORY_ORDER_EVENTS "[INVENTORY_ORDER_EVENTS]" demo_world ?h]
    by (auto simp: demo_relayed_sel route_order [OF literal_match_laws] demo_world_def)
  have parts: "event_items (ob_payload demo_created_event) = Inr [item_payload rat_decimal (hd (o_items demo_new))]"
    "map_res item_of_json [item_payload rat_decimal (hd (o_items demo_new))] = Inr [\<lparr>ri_sku = ''A'', ri_quantity = Some (JNum 2)\<rparr>]"
    "get_str (ob_payload demo_created_event) ''orderId'' = Some ''o''"
    by code_simp+
  obtain rs k where rk: "sp_reserve demo_stock_repo 7 (\<lambda>_. ''r'') ''o'' [\<lparr>ri_sku = ''A'', ri_quantity = Some (JNum 2)\<rparr>] 900007 demo_stock = (Inr rs, k)"
    using demo_wanted_reserved by blast
  let ?cx = "demo_stock_call\<lparr>sc_request := Some ctx\<rparr>"
  let ?m = "stock_message ?cx INVENTORY_RESERVED (event_to_json e) (reserved_payload (ob_payload demo_created_event) \<lparr>rs_orderId = ''o'', rs_reservations = rs\<rparr>)"
  have "sc_now ?cx = 7" "sc_ids ?cx = (\<lambda>_. ''r'')" by (simp_all add: demo_stock_call_def)
  then have "?h ctx (event_to_json e) (demo_stock, [demo_relayed]) = (Inr (), (k, [demo_relayed, ?m]))"
    using e parts rk
    by (simp add: stock_handle_def onOrderCreated_def reserve_from_event_def ReserveStock_execute_def on_stock_def bind_eff_def
        catch_eff_def ret_def lift_res_def stock_publish_result Let_def)
  with ctx have "stock_consumer demo_world (demo_hop 0) demo_stock_call (\<lambda>_. None) ?s = ?s\<lparr>sy_stock := k, sy_log := [demo_relayed, ?m]\<rparr>"
    by (simp add: stock_consumer_def demo_begin_def) (simp add: demo_world_def demo_stock_repo_def)
  with reach_step [OF c, of "To_Stock (demo_hop 0) demo_stock_call (\<lambda>_. None)"]
  have "reachable demo_world (demo_begin\<lparr>sy_orders := (demo_relayed_db, c), sy_stock := k, sy_log := [demo_relayed, ?m]\<rparr>)"
    by (simp add: admitted_def system_step_def)
  then show ?thesis by blast
qed

lemma process_request:
  "ProcessPayment_execute D libmsg repo cfg (y\<lparr>yc_request := req\<rparr>) c = ProcessPayment_execute D libmsg repo cfg y c"
proof -
  have "payment_of_command D (y\<lparr>yc_request := req\<rparr>) c = payment_of_command D y c" by (simp add: payment_of_command_def cong: sum.case_cong)
  moreover have "settle D libmsg repo cfg (y\<lparr>yc_request := req\<rparr>) c = settle D libmsg repo cfg y c"
  proof -
    have same: "charge_through cfg (y\<lparr>yc_request := req\<rparr>) = charge_through cfg y"
      "settle_failed libmsg repo (y\<lparr>yc_request := req\<rparr>) = settle_failed libmsg repo y"
      by (simp_all add: charge_through_def settle_failed_def fun_eq_iff)
    show ?thesis by (simp add: settle_def fun_eq_iff same cong: sum.case_cong prod.case_cong)
  qed
  ultimately show ?thesis by (simp add: ProcessPayment_execute_def cong: option.case_cong)
qed

lemma demo_reserved_command:
  "command_of_event (reserved_payload (ob_payload demo_created_event) rs) = demo_command"
  "json_get (reserved_payload (ob_payload demo_created_event) rs) ''orderId'' = Some (JStr ''o'')"
proof -
  have d: "json_get (ob_payload demo_created_event) ''orderId'' = Some (JStr ''o'')"
    "json_get (ob_payload demo_created_event) ''customerId'' = Some (JStr ''c'')"
    "json_get (ob_payload demo_created_event) ''totalAmount'' = Some (JNum 3)"
    "json_get (ob_payload demo_created_event) ''currency'' = Some (JStr ''USD'')" by code_simp+
  then show "json_get (reserved_payload (ob_payload demo_created_event) rs) ''orderId'' = Some (JStr ''o'')"
    by (simp add: reserved_payload_def del: map_of_append)
  show "command_of_event (reserved_payload (ob_payload demo_created_event) rs) = demo_command"
    using d by (simp add: command_of_event_def demo_command_def reserved_payload_def member_text_def opt_text_def get_str_def
        event_amount_def js_text_def del: map_of_append)
qed

lemma demo_after_payment:
  "\<exists>c k p cx causedBy rs y by d. reachable demo_world (demo_begin\<lparr>sy_orders := (demo_relayed_db, c), sy_stock := k, sy_pay := p,
     sy_log := [demo_relayed, stock_message cx INVENTORY_RESERVED causedBy (reserved_payload (ob_payload demo_created_event) rs),
       pay_message y PAYMENT_COMPLETED by d]\<rparr>) \<and> get_str d ''orderId'' = Some ''o''"
proof -
  obtain c k cx causedBy rs where r: "reachable demo_world (demo_begin\<lparr>sy_orders := (demo_relayed_db, c), sy_stock := k,
     sy_log := [demo_relayed, stock_message cx INVENTORY_RESERVED causedBy (reserved_payload (ob_payload demo_created_event) rs)]\<rparr>)"
    (is "reachable demo_world ?s") using demo_after_stock by blast
  let ?d = "reserved_payload (ob_payload demo_created_event) rs"
  let ?m = "stock_message cx INVENTORY_RESERVED causedBy ?d" and ?e = "stock_event cx INVENTORY_RESERVED causedBy ?d"
  have m: "am_exchange ?m = INVENTORY_EXCHANGE" "am_content ?m = event_to_json ?e"
    by (simp_all add: stock_message_def publish_message_def Let_def)
  let ?h = "\<lambda>ctx. pay_handle rat_decimal demo_libmsg (\<lambda>_. None) demo_payments demo_cfg (demo_call\<lparr>yc_request := Some ctx\<rparr>)"
  let ?p = "demo_pay_state payment_db_empty 1"
  obtain ctx where ctx: "consume demo_world [PAYMENT_INVENTORY_EVENTS] (demo_hop 1) [demo_relayed, ?m] ?h (?p, [demo_relayed, ?m]) =
      snd (?h ctx (event_to_json ?e) (?p, [demo_relayed, ?m]))"
    using consume_event [OF _ _ m(2), of 1 "[demo_relayed, ?m]" PAYMENT_INVENTORY_EVENTS "[PAYMENT_INVENTORY_EVENTS]" demo_world ?h]
    by (auto simp: m(1) route_inventory [OF literal_match_laws] demo_world_def)
  have e: "ev_type ?e = INVENTORY_RESERVED" "ev_data ?e = ?d" by (simp_all add: stock_event_def)
  obtain kvs where d: "?d = JObj kvs" by (simp add: reserved_payload_def)
  obtain p q where pay: "ProcessPayment_execute rat_decimal demo_libmsg demo_payments demo_cfg demo_call demo_command ?p = (Inr (q, True), p)"
    using demo_run by blast
  obtain out where out: "?h ctx (event_to_json ?e) (?p, [demo_relayed, ?m]) =
      (Inr (), (p, [demo_relayed, ?m, pay_message (demo_call\<lparr>yc_request := Some ctx\<rparr>) PAYMENT_COMPLETED (event_to_json ?e) (JObj ((''orderId'', JStr ''o'') # out))]))"
    using pay e demo_reserved_command [of rs] d
    by (simp add: pay_handle_def pay_onInventoryReserved_def Let_def process_request on_payment_def bind_eff_def pay_publish_def publish_def
        pay_message_def opt_member_def)
  let ?n = "pay_message (demo_call\<lparr>yc_request := Some ctx\<rparr>) PAYMENT_COMPLETED (event_to_json ?e) (JObj ((''orderId'', JStr ''o'') # out))"
  have "payment_consumer demo_world (demo_hop 1) demo_call (\<lambda>_. None) ?s = ?s\<lparr>sy_pay := p, sy_log := [demo_relayed, ?m, ?n]\<rparr>"
    using ctx out by (simp add: payment_consumer_def demo_begin_def) (simp add: demo_world_def demo_payments_def)
  with reach_step [OF r, of "To_Payment (demo_hop 1) demo_call (\<lambda>_. None)"]
  have "reachable demo_world (demo_begin\<lparr>sy_orders := (demo_relayed_db, c), sy_stock := k, sy_pay := p, sy_log := [demo_relayed, ?m, ?n]\<rparr>)"
    by (simp add: admitted_def system_step_def)
  moreover have "get_str (JObj ((''orderId'', JStr ''o'') # out)) ''orderId'' = Some ''o''" by (simp add: get_str_def)
  ultimately show ?thesis by blast
qed

lemma demo_relayed_toDomain:
  "\<exists>ord. order_toDomain rat_decimal demo_new_row [demo_item] = Inr ord \<and> o_id ord = ''o'' \<and> o_status ord = OS_CREATED \<and>
     o_version ord = 1 \<and> o_currency ord = ''USD'' \<and> o_totalAmount ord = \<lparr>m_amount = 3, m_currency = ''USD''\<rparr>"
proof -
  have "(case order_toDomain rat_decimal demo_new_row [demo_item] of Inl e \<Rightarrow> False
      | Inr ord \<Rightarrow> o_id ord = ''o'' \<and> o_status ord = OS_CREATED \<and> o_version ord = 1 \<and> o_currency ord = ''USD'' \<and>
          o_totalAmount ord = \<lparr>m_amount = 3, m_currency = ''USD''\<rparr>)" by code_simp
  then show ?thesis by (auto split: sum.splits)
qed

text \<open>The order service on one of the two events.\<close>

lemma demo_order_delivery:
  assumes s: "reachable demo_world s" "sy_orders s = (db, c)"
    and m: "n < length (sy_log s)" "sy_log s ! n = m" "am_content m = event_to_json e" "ev_type e = saga_event_type ev"
      "get_str (ev_data e) ''orderId'' = Some ''o''"
      "q \<in> {ORDER_PAYMENT_EVENTS, ORDER_INVENTORY_EVENTS}" "q \<in> set (route literal_match setupTopology (am_exchange m) (am_routingKey m))"
    and db: "od_orders db = [row]" "od_items db = [demo_item]" "order_toDomain rat_decimal row [demo_item] = Inr old" "o_id old = ''o''"
      "o_totalAmount old = \<lparr>m_amount = 3, m_currency = ''USD''\<rparr>"
    and plan: "saga_plan ev (o_status old) \<noteq> []" "int4 (o_version old + int (length (saga_plan ev (o_status old))))"
    and outbox: "\<And>req new. o_id new = ''o'' \<Longrightarrow> o_currency new = o_currency old \<Longrightarrow> \<exists>rows. insert_rows (outbox_row_violation demo_env) (od_outbox db)
        (outbox_rows cx (saga_outbox rat_decimal req ev new)) = Inr rows \<and> map xw_id rows = ids"
  shows "\<exists>t db' c' row' new. reachable demo_world t \<and> sy_orders t = (db', c') \<and> sy_log t = sy_log s \<and>
    od_orders db' = [row'] \<and> od_items db' = [demo_item] \<and> map xw_id (od_outbox db') = ids \<and>
    order_toDomain rat_decimal row' [demo_item] = Inr new \<and> o_id new = ''o'' \<and> o_totalAmount new = o_totalAmount old \<and>
    o_status new = last (saga_plan ev (o_status old)) \<and> o_version new = o_version old + int (length (saga_plan ev (o_status old)))"
proof -
  let ?h = "\<lambda>ctx. order_handle rat_decimal demo_orders demo_saga (cx\<lparr>cx_request := Some ctx\<rparr>)"
  let ?qs = "[ORDER_PAYMENT_EVENTS, ORDER_INVENTORY_EVENTS]"
  obtain ctx where ctx: "consume demo_world ?qs (demo_hop n) (sy_log s) ?h (db, c) = snd (?h ctx (event_to_json e) (db, c))"
    using consume_event [OF m(1,2,3), of q ?qs demo_world ?h] m(6,7) by (auto simp: demo_world_def)
  let ?cx = "cx\<lparr>cx_request := Some ctx\<rparr>"
  let ?new = "advance (cx_now ?cx) (saga_plan ev (o_status old)) old"
  have new: "o_id ?new = ''o''" "o_currency ?new = o_currency old" using db(4) by (simp_all add: advance_def)
  have same: "outbox_rows ?cx evs = outbox_rows cx evs" for evs by (simp add: outbox_rows_def)
  obtain rows where rows: "insert_rows (outbox_row_violation demo_env) (od_outbox db)
      (outbox_rows ?cx (saga_outbox rat_decimal (cx_request ?cx) ev ?new)) = Inr rows" "map xw_id rows = ids"
    unfolding same using outbox [OF new] by blast
  obtain r db' c' where ex: "?h ctx (event_to_json e) (db, c) = (r, (db', c'))" by (metis prod.exhaust)
  have oid: "event_orderId (event_to_json e) = Inr ''o''" using m(5) by (simp add: event_orderId_def)
  have v: "int4 (o_version ?new)" using plan(2) by (simp add: advance_def)
  have "get_str (event_to_json e) ''type'' = Some (saga_event_type ev)" using m(4) by simp
  note step = demo_saga_step [OF this oid db plan(1) refl v rows(1) ex]
  have "order_consumer demo_world (demo_hop n) cx s = s\<lparr>sy_orders := (db', c')\<rparr>"
    using ctx ex s(2) by (simp add: order_consumer_def) (simp add: demo_world_def demo_orders_def demo_saga_def)
  with reach_step [OF s(1), of "To_Order (demo_hop n) cx"] have "reachable demo_world (s\<lparr>sy_orders := (db', c')\<rparr>)"
    by (simp add: admitted_def system_step_def)
  with step rows(2) db(4) plan(1) show ?thesis
    by (intro exI [of _ "s\<lparr>sy_orders := (db', c')\<rparr>"]) (auto simp: stored_update_def advance_def)
qed

text \<open>The order after the reservation was heard of; the answer of the payment service is still to come.\<close>

definition demo_waiting :: "system \<Rightarrow> rat order \<Rightarrow> bool" where
  "demo_waiting s ord \<longleftrightarrow> reachable demo_world s \<and> od_items (fst (sy_orders s)) = [demo_item] \<and>
     map xw_id (od_outbox (fst (sy_orders s))) = [''x''] \<and>
     (\<exists>row. od_orders (fst (sy_orders s)) = [row] \<and> order_toDomain rat_decimal row [demo_item] = Inr ord) \<and>
     o_id ord = ''o'' \<and> o_totalAmount ord = \<lparr>m_amount = 3, m_currency = ''USD''\<rparr> \<and> o_status ord = OS_PAYMENT_PENDING \<and> o_version ord = 3 \<and>
     2 < length (sy_log s) \<and> (\<exists>y causedBy d. sy_log s ! 2 = pay_message y PAYMENT_COMPLETED causedBy d \<and> get_str d ''orderId'' = Some ''o'')"

lemma demo_reserved_heard: "\<exists>s ord. demo_waiting s ord"
proof -
  obtain c k p cx causedBy rs y by_event d where r: "reachable demo_world (demo_begin\<lparr>sy_orders := (demo_relayed_db, c), sy_stock := k, sy_pay := p,
     sy_log := [demo_relayed, stock_message cx INVENTORY_RESERVED causedBy (reserved_payload (ob_payload demo_created_event) rs),
       pay_message y PAYMENT_COMPLETED by_event d]\<rparr>)" (is "reachable demo_world ?s") and d: "get_str d ''orderId'' = Some ''o''"
    using demo_after_payment by blast
  let ?e = "stock_event cx INVENTORY_RESERVED causedBy (reserved_payload (ob_payload demo_created_event) rs)"
  have m: "am_exchange (sy_log ?s ! 1) = INVENTORY_EXCHANGE" "am_routingKey (sy_log ?s ! 1) = INVENTORY_RESERVED"
    "am_content (sy_log ?s ! 1) = event_to_json ?e" "ev_type ?e = saga_event_type InventoryReserved"
    "get_str (ev_data ?e) ''orderId'' = Some ''o''"
    using demo_reserved_command(2) [of rs]
    by (simp_all add: stock_message_def publish_message_def Let_def stock_event_def get_str_def)
  obtain ord where ord: "order_toDomain rat_decimal demo_new_row [demo_item] = Inr ord" "o_id ord = ''o''" "o_status ord = OS_CREATED"
    "o_version ord = 1" "o_totalAmount ord = \<lparr>m_amount = 3, m_currency = ''USD''\<rparr>" using demo_relayed_toDomain by blast
  have db: "od_orders demo_relayed_db = [demo_new_row]" "od_items demo_relayed_db = [demo_item]" "map xw_id (od_outbox demo_relayed_db) = [''x'']"
    by (simp_all add: demo_relayed_db_def demo_created_db_def)
  have o: "sy_orders ?s = (demo_relayed_db, c)" "1 < length (sy_log ?s)" by simp_all
  have q: "ORDER_INVENTORY_EVENTS \<in> set (route literal_match setupTopology (am_exchange (sy_log ?s ! 1)) (am_routingKey (sy_log ?s ! 1)))"
    unfolding m by (simp add: route_inventory [OF literal_match_laws])
  obtain t db1 c1 row1 ord1 where t: "reachable demo_world t" "sy_orders t = (db1, c1)" "sy_log t = sy_log ?s"
    "od_orders db1 = [row1]" "od_items db1 = [demo_item]" "map xw_id (od_outbox db1) = [''x'']"
    "order_toDomain rat_decimal row1 [demo_item] = Inr ord1" "o_id ord1 = ''o''" "o_totalAmount ord1 = o_totalAmount ord"
    "o_status ord1 = OS_PAYMENT_PENDING" "o_version ord1 = 3"
    using demo_order_delivery [where cx = demo_ctx and ids = "[''x'']", OF r o refl m(3,4,5) _ q db(1,2) ord(1,2,5)] ord(3,4) db(3)
    by (auto simp: int4_def outbox_rows_def)
  with ord(5) d have "demo_waiting t ord1" unfolding demo_waiting_def by auto
  then show ?thesis by blast
qed

lemma demo_confirmed:
  "\<exists>s ord. reachable demo_world s \<and> order_db_abs rat_decimal (fst (sy_orders s)) ''o'' = Some ord \<and> o_status ord = OS_CONFIRMED"
proof -
  obtain s old db c row y causedBy d where s: "demo_waiting s old" "sy_orders s = (db, c)"
    "od_orders db = [row]" "od_items db = [demo_item]" "order_toDomain rat_decimal row [demo_item] = Inr old"
    and m: "sy_log s ! 2 = pay_message y PAYMENT_COMPLETED causedBy d" "get_str d ''orderId'' = Some ''o''"
    using demo_reserved_heard unfolding demo_waiting_def by (metis prod.collapse)
  let ?m = "pay_message y PAYMENT_COMPLETED causedBy d" and ?e = "pay_event y PAYMENT_COMPLETED causedBy d"
  let ?cx = "demo_ctx\<lparr>cx_outboxIds := (\<lambda>_. ''y'')\<rparr>"
  note w = s(1) [unfolded demo_waiting_def s(2), simplified]
  have e: "am_content ?m = event_to_json ?e" "ev_type ?e = saga_event_type PaymentCompleted" "get_str (ev_data ?e) ''orderId'' = Some ''o''"
    using m(2) by (simp_all add: pay_message_def publish_message_def Let_def pay_event_def)
  have q: "ORDER_PAYMENT_EVENTS \<in> set (route literal_match setupTopology (am_exchange ?m) (am_routingKey ?m))"
    by (simp add: pay_message_def publish_message_def Let_def route_payment [OF literal_match_laws])
  have rows: "\<exists>rows. insert_rows (outbox_row_violation demo_env) (od_outbox db)
        (outbox_rows ?cx (saga_outbox rat_decimal req PaymentCompleted new)) = Inr rows \<and> map xw_id rows = [''x'', ''y'']"
    if "o_id new = ''o''" for req and new :: "rat order"
  proof -
    have ids: "map xw_id (od_outbox db) = [''x'']" using w by simp
    from arg_cong [OF this, of set] have "''y'' \<notin> xw_id ` set (od_outbox db)" by simp
    then show ?thesis using ids that
      by (simp add: outbox_rows_def enumerate_eq_zip insert_rows_one outbox_row_violation_def orderConfirmedEvent_def demo_env_def
          demo_ctx_def ORDER_CONFIRMED_def)
  qed
  obtain u db2 c2 row2 ord2 where u: "reachable demo_world u" "sy_orders u = (db2, c2)" "od_orders db2 = [row2]" "od_items db2 = [demo_item]"
    "order_toDomain rat_decimal row2 [demo_item] = Inr ord2" "o_id ord2 = ''o''" "o_status ord2 = OS_CONFIRMED"
    using demo_order_delivery [OF _ s(2) _ m(1) e _ q s(3-5) _ _ _ _ rows] w by (auto simp: int4_def)
  have "items_of db2 ''o'' = [demo_item]" using u(4) by (simp add: items_of_def demo_item_def)
  then have "order_db_abs rat_decimal db2 ''o'' = Some ord2"
    using u(3,5,6) toDomain_sel [OF u(5)] by (simp add: order_db_abs_def)
  with u show ?thesis by (intro exI [of _ u] exI [of _ ord2]) simp
qed



end
