(* ===== verification/Lifecycle.thy ===== *)
theory Lifecycle
  imports Health Messaging Inventory_Service "HOL-Library.Sublist"
begin

text \<open>
  The life of a service's process: \<open>server.ts\<close> (start, signals, shutdown, exit), the start and stop
  of the messaging (\<open>interfaces/messaging/startMessaging.ts\<close>), the connection pool
  (\<open>infrastructure/database/connection.ts\<close>) and the readiness checks of \<open>app.ts\<close>.  What the event
  loop of node runs between two awaits is one step; which step is next, and whether an awaited
  operation succeeds, fails or never settles, is up to the environment.
\<close>

section \<open>Messaging\<close>

text \<open>The awaited calls of \<open>startMessaging\<close> in order, and those of the \<open>stop\<close> it returns.\<close>

datatype broker_call =
    Connect | CreateConfirmChannel | CreateChannel | SetPrefetch nat | DeclareTopology | OpenRedis | ConsumeFrom string | StartPoller

datatype close_call = StopPoller | CloseChannel | CloseConfirmChannel | CloseConnection | CloseRedis

definition order_start :: "broker_call list" where
  "order_start = [Connect, CreateConfirmChannel, CreateChannel, SetPrefetch 10, DeclareTopology,
     ConsumeFrom ORDER_PAYMENT_EVENTS, ConsumeFrom ORDER_INVENTORY_EVENTS, StartPoller]"

definition order_stop :: "close_call list" where
  "order_stop = [StopPoller, CloseChannel, CloseConfirmChannel, CloseConnection]"

definition inventory_start :: "broker_call list" where
  "inventory_start = [Connect, CreateConfirmChannel, CreateChannel, SetPrefetch 10, DeclareTopology, ConsumeFrom INVENTORY_ORDER_EVENTS]"

definition inventory_stop :: "close_call list" where
  "inventory_stop = [CloseChannel, CloseConfirmChannel, CloseConnection]"

definition payment_start :: "broker_call list" where
  "payment_start = [Connect, CreateConfirmChannel, CreateChannel, SetPrefetch 10, DeclareTopology, ConsumeFrom PAYMENT_INVENTORY_EVENTS]"

definition payment_stop :: "close_call list" where
  "payment_stop = [CloseChannel, CloseConfirmChannel, CloseConnection]"

definition notification_start :: "broker_call list" where
  "notification_start = [Connect, CreateChannel, SetPrefetch 10, DeclareTopology, OpenRedis, ConsumeFrom NOTIFICATION_EVENTS]"

definition notification_stop :: "close_call list" where
  "notification_stop = [CloseChannel, CloseConnection, CloseRedis]"

definition audit_start :: "broker_call list" where
  "audit_start = [Connect, CreateChannel, SetPrefetch 20, DeclareTopology, ConsumeFrom AUDIT_EVENTS]"

definition audit_stop :: "close_call list" where
  "audit_stop = [CloseChannel, CloseConnection]"

text \<open>Awaiting calls one after the other: the calls that were made, and whether all succeeded.\<close>

fun await_all :: "('c \<Rightarrow> bool) \<Rightarrow> 'c list \<Rightarrow> 'c list \<times> bool" where
  "await_all ok [] = ([], True)"
| "await_all ok (c # cs) =
     (if ok c then (case await_all ok cs of (made, all) \<Rightarrow> (c # made, all)) else ([], False))"

text \<open>What a call leaves to be closed.\<close>

fun opens :: "broker_call \<Rightarrow> close_call option" where
  "opens Connect = Some CloseConnection"
| "opens CreateConfirmChannel = Some CloseConfirmChannel"
| "opens CreateChannel = Some CloseChannel"
| "opens OpenRedis = Some CloseRedis"
| "opens StartPoller = Some StopPoller"
| "opens _ = None"

fun consumed :: "broker_call \<Rightarrow> string option" where
  "consumed (ConsumeFrom q) = Some q"
| "consumed _ = None"

definition service_starts :: "broker_call list list" where
  "service_starts = [order_start, inventory_start, payment_start, notification_start, audit_start]"

definition service_stops :: "close_call list list" where
  "service_stops = [order_stop, inventory_stop, payment_stop, notification_stop, audit_stop]"

lemmas start_defs = order_start_def inventory_start_def payment_start_def notification_start_def audit_start_def
lemmas stop_defs = order_stop_def inventory_stop_def payment_stop_def notification_stop_def audit_stop_def

lemma await_all_eq: "await_all ok cs = (takeWhile ok cs, list_all ok cs)"
  by (induction cs) auto

text \<open>A start that succeeds has opened what the stop closes, the channels before the connection.\<close>

lemma stop_closes_what_start_opened:
  "list_all2 (\<lambda>start stop. set (List.map_filter opens start) = set stop \<and> distinct stop) service_starts service_stops"
  by (simp add: service_starts_def service_stops_def start_defs stop_defs List.map_filter_simps insert_commute)

text \<open>Every queue of the topology but the dead-letter queue has one consuming service.\<close>

definition declared_queues :: "channel_op list \<Rightarrow> string list" where
  "declared_queues ops = List.map_filter (\<lambda>op. case op of AssertQueue q _ \<Rightarrow> Some q | _ \<Rightarrow> None) ops"

lemma every_queue_consumed_once:
  "distinct (DEAD_LETTER_QUEUE # concat (map (List.map_filter consumed) service_starts))"
  "set (DEAD_LETTER_QUEUE # concat (map (List.map_filter consumed) service_starts)) = set (declared_queues setupTopology)"
  by (simp_all add: service_starts_def start_defs declared_queues_def setupTopology_def List.map_filter_simps topology_names insert_commute)

text \<open>A start that fails after the connection leaves the connection open, and no handle to close it.\<close>

lemma failed_start_leaks:
  assumes "start \<in> set service_starts" and "await_all ok start = (made, False)" and "ok Connect"
  shows "CloseConnection \<in> set (List.map_filter opens made)"
proof -
  from assms(1) have "start = Connect # tl start" by (auto simp: service_starts_def start_defs)
  with assms(2,3) obtain cs where "made = Connect # cs" by (metis await_all_eq prod.inject takeWhile.simps(2))
  then show ?thesis by (simp add: List.map_filter_simps)
qed

text \<open>No service consumes before it bounded its unsettled messages and declared the topology.\<close>

lemma consumes_after_declaring:
  assumes "start \<in> set service_starts"
  obtains pre n post where "start = pre @ [SetPrefetch n, DeclareTopology] @ post" "0 < n" "List.map_filter consumed pre = []"
proof -
  let ?short = "[Connect, CreateChannel]" and ?long = "[Connect, CreateConfirmChannel, CreateChannel]"
  from assms consider "start = order_start \<or> start = inventory_start \<or> start = payment_start" | "start = notification_start" | "start = audit_start"
    by (auto simp: service_starts_def)
  then show thesis
    by cases (rule that [of ?long 10 "drop 5 start"] that [of ?short 10 "drop 4 start"] that [of ?short 20 "drop 4 start"],
      auto simp: start_defs List.map_filter_simps)+
qed

section \<open>The connection pool\<close>

record pool_options =
  po_connection :: string
  po_min :: nat
  po_max :: nat
  po_acquireTimeoutMillis :: nat
  po_idleTimeoutMillis :: nat

text \<open>The module's variable is empty or holds the pool; the functions return its new value.\<close>

definition getDatabase :: "string \<Rightarrow> pool_options option \<Rightarrow> pool_options \<times> pool_options option" where
  "getDatabase url db =
     (case db of
        None \<Rightarrow> let pool = \<lparr>po_connection = url, po_min = 2, po_max = 10, po_acquireTimeoutMillis = 30000, po_idleTimeoutMillis = 60000\<rparr>
                in (pool, Some pool)
      | Some pool \<Rightarrow> (pool, db))"

text \<open>\<open>destroyed\<close> tells whether the pool's \<open>destroy\<close> succeeds; when it rejects the variable keeps the pool.\<close>

definition closeDatabase :: "bool \<Rightarrow> pool_options option \<Rightarrow> bool \<times> pool_options option" where
  "closeDatabase destroyed db = (case db of None \<Rightarrow> (True, None) | Some pool \<Rightarrow> if destroyed then (True, None) else (False, db))"

definition checkDatabaseHealth ::
    "string \<Rightarrow> (pool_options \<Rightarrow> int \<Rightarrow> check_behaviour) \<Rightarrow> pool_options option \<Rightarrow> (int \<Rightarrow> check_behaviour) \<times> pool_options option" where
  "checkDatabaseHealth url select1 db = (case getDatabase url db of (pool, db') \<Rightarrow> (select1 pool, db'))"

lemma getDatabase_once: "getDatabase url (snd (getDatabase url db)) = (fst (getDatabase url db), snd (getDatabase url db))"
  by (simp add: getDatabase_def Let_def split: option.split)

section \<open>The process\<close>

text \<open>In what the \<open>server.ts\<close> of the services differ.\<close>

record server_kind =
  sk_job :: bool
  sk_database :: bool
  sk_readyFlag :: bool

text \<open>
  The module's variables, the continuations that wait for something, and the timers: the calls of
  \<open>shutdown\<close> that await \<open>messaging.stop()\<close>, those whose callback waits for the HTTP server to close,
  those that await \<open>closeDatabase()\<close>, and the times at which the forced exits are due.
\<close>

record process =
  pc_listened :: bool
  pc_starting :: bool
  pc_messaging :: bool
  pc_messagingReady :: bool
  pc_job :: "unit expiry_job"
  pc_stopping :: nat
  pc_closing :: nat
  pc_destroying :: nat
  pc_deadlines :: "int list"
  pc_now :: int
  pc_exit :: "int option"

definition process_exit :: "int \<Rightarrow> process \<Rightarrow> process" where
  "process_exit code p = p\<lparr>pc_exit := Some code\<rparr>"

definition on_listening :: "server_kind \<Rightarrow> process \<Rightarrow> process" where
  "on_listening k p =
     p\<lparr>pc_listened := True, pc_starting := True, pc_job := (if sk_job k then job_start (pc_job p) else pc_job p)\<rparr>"

text \<open>\<open>startMessaging().then(...).catch(...)\<close>.\<close>

definition on_started :: "server_kind \<Rightarrow> process \<Rightarrow> process" where
  "on_started k p =
     p\<lparr>pc_starting := False, pc_messaging := True, pc_messagingReady := (sk_readyFlag k \<or> pc_messagingReady p)\<rparr>"

definition on_start_failed :: "process \<Rightarrow> process" where
  "on_start_failed p = p\<lparr>pc_starting := False\<rparr>"

text \<open>\<open>shutdown\<close> after the messaging: \<open>server.close\<close> is asked for, the forced exit armed.\<close>

definition close_server :: "process \<Rightarrow> process" where
  "close_server p = p\<lparr>pc_closing := Suc (pc_closing p), pc_deadlines := (pc_now p + 10000) # pc_deadlines p\<rparr>"

definition shutdown :: "server_kind \<Rightarrow> process \<Rightarrow> process" where
  "shutdown k p =
     (let p1 = p\<lparr>pc_job := (if sk_job k then job_stop (pc_job p) else pc_job p)\<rparr> in
      if pc_messaging p1 then p1\<lparr>pc_stopping := Suc (pc_stopping p1)\<rparr> else close_server p1)"

text \<open>\<open>messaging.stop()\<close> has settled; a rejection is logged.\<close>

definition on_stopped :: "server_kind \<Rightarrow> bool \<Rightarrow> process \<Rightarrow> process" where
  "on_stopped k ok p =
     close_server (p\<lparr>pc_stopping := pc_stopping p - 1,
       pc_messagingReady := (if ok \<and> sk_readyFlag k then False else pc_messagingReady p)\<rparr>)"

text \<open>The callback of \<open>server.close\<close>.\<close>

definition on_closed :: "server_kind \<Rightarrow> process \<Rightarrow> process" where
  "on_closed k p =
     (let p1 = p\<lparr>pc_closing := pc_closing p - 1\<rparr> in
      if sk_database k then p1\<lparr>pc_destroying := Suc (pc_destroying p1)\<rparr> else process_exit 0 p1)"

definition on_destroyed :: "process \<Rightarrow> process" where
  "on_destroyed p = process_exit 0 (p\<lparr>pc_destroying := pc_destroying p - 1\<rparr>)"

datatype process_event =
    Listening | Start_Resolved | Start_Rejected | Signal | Stop_Settled bool | Http_Closed | Destroy_Settled bool
  | Deadline | Unhandled_Rejection | Pass int

text \<open>A step of the event loop; nothing happens after the exit.\<close>

fun react :: "server_kind \<Rightarrow> process_event \<Rightarrow> process \<Rightarrow> process" where
  "react k Listening p = on_listening k p"
| "react k Start_Resolved p = on_started k p"
| "react k Start_Rejected p = on_start_failed p"
| "react k Signal p = shutdown k p"
| "react k (Stop_Settled ok) p = on_stopped k ok p"
| "react k Http_Closed p = on_closed k p"
| "react k (Destroy_Settled ok) p = on_destroyed p"
| "react k Deadline p = process_exit 1 p"
| "react k Unhandled_Rejection p = process_exit 1 p"
| "react k (Pass t) p = p\<lparr>pc_now := pc_now p + t\<rparr>"

definition process_step :: "server_kind \<Rightarrow> process_event \<Rightarrow> process \<Rightarrow> process" where
  "process_step k e p = (if pc_exit p = None then react k e p else p)"

definition order_server :: "process_event \<Rightarrow> process \<Rightarrow> process" where
  "order_server = process_step \<lparr>sk_job = False, sk_database = True, sk_readyFlag = False\<rparr>"

definition inventory_server :: "process_event \<Rightarrow> process \<Rightarrow> process" where
  "inventory_server = process_step \<lparr>sk_job = True, sk_database = True, sk_readyFlag = False\<rparr>"

definition payment_server :: "process_event \<Rightarrow> process \<Rightarrow> process" where
  "payment_server = process_step \<lparr>sk_job = False, sk_database = True, sk_readyFlag = False\<rparr>"

definition audit_server :: "process_event \<Rightarrow> process \<Rightarrow> process" where
  "audit_server = process_step \<lparr>sk_job = False, sk_database = True, sk_readyFlag = False\<rparr>"

definition notification_server :: "process_event \<Rightarrow> process \<Rightarrow> process" where
  "notification_server = process_step \<lparr>sk_job = False, sk_database = False, sk_readyFlag = True\<rparr>"

section \<open>Runs\<close>

text \<open>Which events can come next: only what is awaited settles, a timer fires when it is due and time
  does not pass over one that is.\<close>

fun enabled :: "process \<Rightarrow> process_event \<Rightarrow> bool" where
  "enabled p Listening = (\<not> pc_listened p)"
| "enabled p Start_Resolved = pc_starting p"
| "enabled p Start_Rejected = pc_starting p"
| "enabled p (Stop_Settled ok) = (0 < pc_stopping p)"
| "enabled p Http_Closed = (0 < pc_closing p)"
| "enabled p (Destroy_Settled ok) = (0 < pc_destroying p)"
| "enabled p Deadline = (\<exists>d\<in>set (pc_deadlines p). d \<le> pc_now p)"
| "enabled p (Pass t) = (0 \<le> t \<and> (\<forall>d\<in>set (pc_deadlines p). pc_now p + t \<le> d))"
| "enabled p _ = True"

text \<open>A run, \<open>None\<close> when one of its events cannot happen.\<close>

fun process_run :: "server_kind \<Rightarrow> process_event list \<Rightarrow> process \<Rightarrow> process option" where
  "process_run k [] p = Some p"
| "process_run k (e # es) p =
     (if pc_exit p = None \<and> enabled p e then process_run k es (process_step k e p) else None)"

definition process_begin :: "int \<Rightarrow> process" where
  "process_begin now = \<lparr>pc_listened = False, pc_starting = False, pc_messaging = False, pc_messagingReady = False,
     pc_job = \<lparr>jb_store = (), jb_running = False, jb_timer = False\<rparr>, pc_stopping = 0, pc_closing = 0, pc_destroying = 0,
     pc_deadlines = [], pc_now = now, pc_exit = None\<rparr>"

lemmas react_defs = process_step_def process_exit_def on_listening_def on_started_def on_start_failed_def close_server_def
  shutdown_def on_stopped_def on_closed_def on_destroyed_def Let_def

lemma process_run_append:
  "process_run k (es @ fs) p = Option.bind (process_run k es p) (process_run k fs)"
  by (induction es arbitrary: p) auto

lemma process_run_snoc:
  "process_run k (es @ [e]) p = Some q \<longleftrightarrow>
     (\<exists>r. process_run k es p = Some r \<and> pc_exit r = None \<and> enabled r e \<and> q = process_step k e r)"
  by (auto simp: process_run_append split: bind_splits if_splits)

lemma process_run_induct [consumes 1, case_names start step]:
  assumes "process_run k es p = Some q" and "P [] p"
    and "\<And>es r e. process_run k es p = Some r \<Longrightarrow> P es r \<Longrightarrow> pc_exit r = None \<Longrightarrow> enabled r e \<Longrightarrow> P (es @ [e]) (process_step k e r)"
  shows "P es q"
  using assms(1)
proof (induction es arbitrary: q rule: rev_induct)
  case (snoc e es)
  then show ?case using assms(3) by (auto simp: process_run_snoc)
qed (use assms(2) in simp)

text \<open>Timers are not overrun, and none is taken back.\<close>

lemma deadlines_respected:
  assumes "process_run k es p = Some q" and "\<forall>d\<in>set (pc_deadlines p). pc_now p \<le> d"
  shows "\<forall>d\<in>set (pc_deadlines q). pc_now q \<le> d"
  using assms
proof (induction rule: process_run_induct)
  case (step es r e)
  then show ?case by (cases e) (auto simp: react_defs)
qed

lemma deadlines_kept:
  assumes "process_run k es p = Some q"
  shows "set (pc_deadlines p) \<subseteq> set (pc_deadlines q)"
  using assms
proof (induction rule: process_run_induct)
  case (step es r e)
  then show ?case by (cases e) (auto simp: react_defs)
qed simp

text \<open>The messaging, once started, is never taken back; before the first signal nothing closes.\<close>

definition connected_first :: "process_event list \<Rightarrow> bool" where
  "connected_first es \<longleftrightarrow> Start_Resolved \<in> set (takeWhile (\<lambda>e. e \<noteq> Signal) es)"

definition closing_path :: "process_event list \<Rightarrow> process_event list \<Rightarrow> bool" where
  "closing_path es then_events \<longleftrightarrow>
     (\<exists>ok. subseq ((if connected_first es then [Signal, Stop_Settled ok] else [Signal]) @ then_events) es)"

lemma connected_first_snoc:
  "connected_first (es @ [e]) \<longleftrightarrow> connected_first es \<or> (Signal \<notin> set es \<and> e = Start_Resolved)"
  by (induction es) (auto simp: connected_first_def)

lemma closing_path_snoc:
  assumes "closing_path es then_events" and "Signal \<in> set es"
  shows "closing_path (es @ [e]) then_events" "closing_path (es @ [e]) (then_events @ [e])"
proof -
  have c: "connected_first (es @ [e]) = connected_first es" using assms(2) by (simp add: connected_first_snoc)
  from assms(1) obtain ok where s: "subseq ((if connected_first es then [Signal, Stop_Settled ok] else [Signal]) @ then_events) es"
    by (auto simp: closing_path_def)
  show "closing_path (es @ [e]) then_events" unfolding closing_path_def c using subseq_order.trans [OF s] by (meson subseq_rev_drop_many s)
  show "closing_path (es @ [e]) (then_events @ [e])"
    unfolding closing_path_def c using list_emb_append_mono [OF s, of "[e]" "[e]"] by auto
qed

text \<open>What the counters of a reached process say of the events so far.\<close>

definition shutdown_inv :: "server_kind \<Rightarrow> process_event list \<Rightarrow> process \<Rightarrow> bool" where
  "shutdown_inv k es p \<longleftrightarrow>
     (Signal \<notin> set es \<longrightarrow> pc_stopping p = 0 \<and> pc_closing p = 0 \<and> pc_destroying p = 0 \<and> pc_exit p \<noteq> Some 0 \<and> pc_deadlines p = []) \<and>
     (connected_first es \<longrightarrow> pc_messaging p) \<and>
     (0 < pc_closing p \<longrightarrow> closing_path es []) \<and>
     (0 < pc_destroying p \<longrightarrow> closing_path es [Http_Closed]) \<and>
     (pc_exit p = Some 0 \<longrightarrow> (\<exists>ok. closing_path es (Http_Closed # (if sk_database k then [Destroy_Settled ok] else []))))"

lemma closing_path_signal: "\<not> connected_first es \<Longrightarrow> closing_path (es @ [Signal]) []"
  by (simp add: closing_path_def connected_first_snoc list_emb_append2)

lemma closing_path_stopped: "Signal \<in> set es \<Longrightarrow> closing_path (es @ [Stop_Settled ok]) []"
  using list_emb_append_mono [of "(=)" "[Signal]" es "[Stop_Settled ok]" "[Stop_Settled ok]"]
  by (auto simp: closing_path_def subseq_singleton_left intro: list_emb_append2)

lemma shutdown_inv_run:
  assumes "process_run k es (process_begin t) = Some p"
  shows "shutdown_inv k es p"
  using assms
proof (induction rule: process_run_induct)
  case start
  show ?case by (simp add: shutdown_inv_def process_begin_def connected_first_def)
next
  case (step es r e)
  note inv = step.IH [unfolded shutdown_inv_def] and alive = step.hyps(2,3)
  have sig: "Signal \<in> set es" if "0 < pc_stopping r \<or> 0 < pc_closing r \<or> 0 < pc_destroying r \<or> pc_deadlines r \<noteq> []"
    using inv that by auto
  have keep: "closing_path (es @ [e]) m" if "closing_path es m" "0 < pc_stopping r \<or> 0 < pc_closing r \<or> 0 < pc_destroying r" for m
    using that sig by (auto intro: closing_path_snoc(1))
  show ?case
  proof (cases e)
    case Signal
    with inv alive keep show ?thesis
      by (auto simp: shutdown_inv_def react_defs connected_first_snoc intro: closing_path_signal)
  next
    case (Stop_Settled ok)
    with alive(2) have "0 < pc_stopping r" by simp
    then have s: "Signal \<in> set es" using sig by blast
    with Stop_Settled have "closing_path (es @ [e]) []" by (simp add: closing_path_stopped)
    with Stop_Settled s inv alive keep show ?thesis
      by (simp add: shutdown_inv_def react_defs connected_first_snoc)
  next
    case Http_Closed
    with alive(2) have "0 < pc_closing r" by simp
    then have s: "Signal \<in> set es" "closing_path es []" using sig inv by blast+
    from closing_path_snoc [OF s(2,1)] have "closing_path (es @ [e]) []" "closing_path (es @ [e]) [Http_Closed]"
      using Http_Closed by simp_all
    with Http_Closed s inv alive keep show ?thesis
      by (simp add: shutdown_inv_def react_defs connected_first_snoc)
  next
    case (Destroy_Settled ok)
    with alive(2) have "0 < pc_destroying r" by simp
    then have s: "Signal \<in> set es" "closing_path es [Http_Closed]" using sig inv by blast+
    from closing_path_snoc [OF s(2,1)] have p: "closing_path (es @ [e]) [Http_Closed]" "closing_path (es @ [e]) [Http_Closed, Destroy_Settled ok]"
      using Destroy_Settled by simp_all
    have "\<exists>x. closing_path (es @ [e]) (Http_Closed # (if sk_database k then [Destroy_Settled x] else []))"
      using p by (cases "sk_database k") auto
    with Destroy_Settled s inv alive keep show ?thesis
      by (simp add: shutdown_inv_def react_defs connected_first_snoc)
  qed (use inv alive(1) keep in \<open>simp_all add: shutdown_inv_def react_defs connected_first_snoc\<close>)
qed

section \<open>Shutdown\<close>

text \<open>A call of \<open>shutdown\<close> that has no messaging to stop, or whose stop has settled.\<close>

definition past_messaging :: "process \<Rightarrow> process_event \<Rightarrow> bool" where
  "past_messaging p e \<longleftrightarrow> (e = Signal \<and> \<not> pc_messaging p) \<or> (\<exists>ok. e = Stop_Settled ok)"

lemma exit_armed:
  assumes "process_run k (before @ e # after) (process_begin t) = Some q" and "process_run k before (process_begin t) = Some p"
    and "past_messaging p e"
  shows "pc_now p + 10000 \<in> set (pc_deadlines q)" and "pc_now q \<le> pc_now p + 10000"
proof -
  have "process_run k after (process_step k e p) = Some q" and alive: "pc_exit p = None"
    using assms(1,2) by (auto simp: process_run_append split: if_splits)
  moreover have "pc_now p + 10000 \<in> set (pc_deadlines (process_step k e p))"
    using assms(3) alive by (auto simp: past_messaging_def react_defs)
  ultimately show armed: "pc_now p + 10000 \<in> set (pc_deadlines q)" using deadlines_kept by blast
  then show "pc_now q \<le> pc_now p + 10000" using deadlines_respected [OF assms(1)] by (simp add: process_begin_def)
qed

text \<open>At the deadline no time passes any more, and the forced exit can be taken.\<close>

lemma due_exit:
  assumes "process_run k es (process_begin t) = Some q" and "d \<in> set (pc_deadlines q)" and "pc_now q = d"
  shows "enabled q Deadline" "enabled q (Pass s) \<Longrightarrow> s = 0"
  using assms by (auto intro: order_antisym)

text \<open>A stop that does not settle is waited for without limit: no timer has been armed yet.\<close>

lemma unsettled_stop_waits: "pc_deadlines p = [] \<Longrightarrow> 0 \<le> s \<Longrightarrow> enabled p (Pass s)"
  by simp

text \<open>Which events end the process, and with which code.\<close>

lemma exit_code:
  assumes "process_run k es (process_begin t) = Some q"
  shows "pc_exit q \<in> {None, Some 0, Some 1} \<and>
    (pc_exit q = Some 1 \<longrightarrow> es \<noteq> [] \<and> last es \<in> {Deadline, Unhandled_Rejection})"
  using assms
proof (induction rule: process_run_induct)
  case (step es r e)
  then show ?case by (cases e) (auto simp: react_defs)
qed (simp add: process_begin_def)

section \<open>Readiness\<close>

lemma ready_needs_messaging:
  assumes "process_run k es (process_begin t) = Some p"
  shows "(pc_messagingReady p \<longrightarrow> pc_messaging p \<and> sk_readyFlag k) \<and>
    (sk_readyFlag k \<longrightarrow> pc_messaging p \<longrightarrow> pc_messagingReady p \<or> Stop_Settled True \<in> set es)"
  using assms
proof (induction rule: process_run_induct)
  case (step es r e)
  then show ?case by (cases e) (auto simp: react_defs)
qed (simp add: process_begin_def)

text \<open>The readiness of the notification service is its flag; that of the others asks the database.\<close>

definition notification_checker :: "int \<Rightarrow> process \<Rightarrow> health_checker" where
  "notification_checker started p = health_register ''messaging''
     (\<lambda>now. if pc_messagingReady p then CheckOk 0 else CheckThrows 0 ''messaging not connected'')
     \<lparr>hc_checks = [], hc_startTime = started\<rparr>"

definition database_checker ::
    "string \<Rightarrow> (pool_options \<Rightarrow> int \<Rightarrow> check_behaviour) \<Rightarrow> int \<Rightarrow> pool_options option \<Rightarrow> health_checker" where
  "database_checker url select1 started db =
     health_register ''database'' (fst (checkDatabaseHealth url select1 db)) \<lparr>hc_checks = [], hc_startTime = started\<rparr>"

lemma notification_ready: "ready_status now (notification_checker t0 p) = (if pc_messagingReady p then 200 else 503)"
  by (simp add: ready_status_def notification_checker_def health_register_def health_check_def race_timeout_def overall_status_iff)

end
