(* ===== verification/Routing.thy ===== *)
theory Routing
  imports Cache
begin

text \<open>
  The express applications of the services (\<open>app.ts\<close>) and their route tables
  (\<open>interfaces/http/routes/*.ts\<close>): which middleware and which controller method a request meets, in
  order.  How express matches a mounted path and a route's pattern is an argument, with its
  documented laws (\<open>express_paths\<close>).
\<close>

section \<open>Applications\<close>

datatype handler =
    SecurityHeaders | Compression | JsonParser | RawParser | Sanitize | RequestId | RequestLogger | HttpMetrics
  | LiveCheck | ReadyCheck | MetricsText | Auth | RateLimiter | Passthrough | Idempotency bool | Controller string

text \<open>\<open>app.use(h)\<close>, \<open>app.use(path, h)\<close>, \<open>app.METHOD(pattern, ...hs)\<close> and \<open>app.use(path, router)\<close>.\<close>

datatype layer =
    Use handler
  | UseAt string handler
  | On string string "handler list"
  | Mount string "layer list"

text \<open>
  What express does with paths: \<open>under\<close> strips a mount path from the front and gives what is left,
  \<open>endpoint\<close> matches a whole path with a pattern and gives the parameters.
\<close>

record path_matcher =
  pm_under :: "string \<Rightarrow> string \<Rightarrow> string option"
  pm_endpoint :: "string \<Rightarrow> string \<Rightarrow> (string \<times> string) list option"

text \<open>The handlers a request meets, in order, with the parameters of its route; a HEAD request is
  answered by the GET routes.\<close>

fun chain :: "path_matcher \<Rightarrow> layer list \<Rightarrow> string \<Rightarrow> string \<Rightarrow> (handler \<times> (string \<times> string) list) list"
  and chain_of :: "path_matcher \<Rightarrow> layer \<Rightarrow> string \<Rightarrow> string \<Rightarrow> (handler \<times> (string \<times> string) list) list" where
  "chain m [] meth path = []"
| "chain m (l # ls) meth path = chain_of m l meth path @ chain m ls meth path"
| "chain_of m (Use h) meth path = [(h, [])]"
| "chain_of m (UseAt pre h) meth path = (if pm_under m pre path = None then [] else [(h, [])])"
| "chain_of m (On meth' pat hs) meth path =
     (if meth = meth' \<or> (meth = ''HEAD'' \<and> meth' = ''GET'')
      then (case pm_endpoint m pat path of None \<Rightarrow> [] | Some ps \<Rightarrow> map (\<lambda>h. (h, ps)) hs)
      else [])"
| "chain_of m (Mount pre ls) meth path = (case pm_under m pre path of None \<Rightarrow> [] | Some rest \<Rightarrow> chain m ls meth rest)"

section \<open>The order service\<close>

text \<open>A router built without an idempotency handler gets \<open>passthrough\<close>.\<close>

definition createOrderRoutes :: "handler option \<Rightarrow> layer list" where
  "createOrderRoutes idempotency =
     (let guard = (\<lambda>h. [case idempotency of None \<Rightarrow> Passthrough | Some g \<Rightarrow> g, h]) in
      [On ''POST'' ''/'' (guard (Controller ''createOrder'')),
       On ''GET'' ''/'' [Controller ''listOrders''],
       On ''GET'' ''/:id/timeline'' [Controller ''getTimeline''],
       On ''GET'' ''/:id'' [Controller ''getOrder''],
       On ''POST'' ''/:id/cancel'' (guard (Controller ''cancelOrder''))])"

definition order_registerRoutes :: "handler option \<Rightarrow> layer list" where
  "order_registerRoutes idempotency = [Mount ''/api/v1/orders'' (createOrderRoutes idempotency)]"

definition order_app :: "layer list" where
  "order_app =
     [Use SecurityHeaders, Use Compression, Use JsonParser, Use Sanitize, Use RequestId, Use RequestLogger, Use HttpMetrics,
      On ''GET'' ''/health/live'' [LiveCheck], On ''GET'' ''/health/ready'' [ReadyCheck], On ''GET'' ''/metrics'' [MetricsText],
      UseAt ''/api/v1'' Auth, UseAt ''/api/v1'' RateLimiter]
     @ order_registerRoutes (Some (Idempotency False))"

section \<open>The inventory service\<close>

definition createInventoryRoutes :: "layer list" where
  "createInventoryRoutes =
     [On ''GET'' ''/check'' [Controller ''checkStock''],
      On ''GET'' ''/:sku'' [Controller ''getStock''],
      On ''POST'' ''/reserve'' [Controller ''reserveStock''],
      On ''POST'' ''/release'' [Controller ''releaseStock'']]"

definition inventory_registerRoutes :: "layer list" where
  "inventory_registerRoutes = [Mount ''/api/v1/inventory'' createInventoryRoutes]"

definition inventory_app :: "layer list" where
  "inventory_app =
     [Use SecurityHeaders, Use Compression, Use JsonParser, Use Sanitize, Use RequestId, Use RequestLogger,
      On ''GET'' ''/health/live'' [LiveCheck], On ''GET'' ''/health/ready'' [ReadyCheck]]
     @ inventory_registerRoutes"

section \<open>The payment service\<close>

definition createPaymentRoutes :: "handler option \<Rightarrow> layer list" where
  "createPaymentRoutes idempotency =
     (let guard = (\<lambda>h. [case idempotency of None \<Rightarrow> Passthrough | Some g \<Rightarrow> g, h]) in
      [On ''POST'' ''/:orderId/process'' (guard (Controller ''processPayment'')),
       On ''POST'' ''/:id/refund'' (guard (Controller ''refund'')),
       On ''GET'' ''/:orderId'' [Controller ''getPayment'']])"

definition payment_registerRoutes :: "handler option \<Rightarrow> layer list" where
  "payment_registerRoutes idempotency = [Mount ''/api/v1/payments'' (createPaymentRoutes idempotency)]"

definition createWebhookRoutes :: "layer list" where
  "createWebhookRoutes = [On ''POST'' ''/payment'' [RawParser, Controller ''webhook'']]"

definition payment_app :: "layer list" where
  "payment_app =
     [Use SecurityHeaders, Use Compression, Use RequestId, Use RequestLogger, Mount ''/webhooks'' createWebhookRoutes,
      Use JsonParser, Use Sanitize,
      On ''GET'' ''/health/live'' [LiveCheck], On ''GET'' ''/health/ready'' [ReadyCheck], On ''GET'' ''/metrics'' [MetricsText]]
     @ payment_registerRoutes (Some (Idempotency True))"

section \<open>The audit and notification services\<close>

definition createAuditRoutes :: "layer list" where
  "createAuditRoutes = [On ''GET'' ''/search'' [Controller ''search''], On ''GET'' ''/orders/:id'' [Controller ''byAggregate'']]"

definition audit_registerRoutes :: "layer list" where
  "audit_registerRoutes = [Mount ''/api/v1/audit'' createAuditRoutes]"

definition audit_app :: "layer list" where
  "audit_app =
     [Use SecurityHeaders, Use Compression, Use JsonParser, Use RequestId, Use RequestLogger, Use HttpMetrics,
      On ''GET'' ''/health/live'' [LiveCheck], On ''GET'' ''/health/ready'' [ReadyCheck], On ''GET'' ''/metrics'' [MetricsText]]
     @ audit_registerRoutes"

definition notification_app :: "layer list" where
  "notification_app =
     [Use SecurityHeaders, Use Compression, Use JsonParser, Use RequestId, Use RequestLogger, Use HttpMetrics,
      On ''GET'' ''/health/live'' [LiveCheck], On ''GET'' ''/health/ready'' [ReadyCheck], On ''GET'' ''/metrics'' [MetricsText]]"

lemmas app_defs = order_app_def order_registerRoutes_def createOrderRoutes_def inventory_app_def inventory_registerRoutes_def
  createInventoryRoutes_def payment_app_def payment_registerRoutes_def createPaymentRoutes_def createWebhookRoutes_def
  audit_app_def audit_registerRoutes_def createAuditRoutes_def notification_app_def Let_def

section \<open>What express promises of paths\<close>

text \<open>A path written as its segments, and a pattern's segments: a literal or a named parameter.\<close>

definition path_of :: "string list \<Rightarrow> string" where
  "path_of segs = (if segs = [] then ''/'' else concat (map ((#) CHR ''/'') segs))"

definition plain_char :: "char \<Rightarrow> bool" where
  "plain_char c =
     (let n = of_char c :: nat in
      (48 \<le> n \<and> n \<le> 57) \<or> (65 \<le> n \<and> n \<le> 90) \<or> (97 \<le> n \<and> n \<le> 122) \<or> c = CHR ''_'' \<or> c = CHR ''-'')"

definition plain_segment :: "string \<Rightarrow> bool" where
  "plain_segment s \<longleftrightarrow> s \<noteq> [] \<and> list_all plain_char s"

definition plain_pattern :: "string \<Rightarrow> bool" where
  "plain_pattern p \<longleftrightarrow> plain_segment (if starts_with p '':'' then tl p else p)"

fun strip_segments :: "string list \<Rightarrow> string list \<Rightarrow> string list option" where
  "strip_segments [] segs = Some segs"
| "strip_segments (p # ps) [] = None"
| "strip_segments (p # ps) (s # segs) = (if to_lower p = to_lower s then strip_segments ps segs else None)"

fun match_segments :: "string list \<Rightarrow> string list \<Rightarrow> (string \<times> string) list option" where
  "match_segments [] [] = Some []"
| "match_segments (p # ps) (s # segs) =
     (if starts_with p '':'' then map_option ((#) (tl p, s)) (match_segments ps segs)
      else if to_lower p = to_lower s then match_segments ps segs
      else None)"
| "match_segments _ _ = None"

text \<open>
  Case does not count, a parameter takes one segment, a mount path stands for everything below it;
  and whatever the path looks like, one that is below a longer mount path is below the shorter.
\<close>

definition express_paths :: "path_matcher \<Rightarrow> bool" where
  "express_paths m \<longleftrightarrow>
     (\<forall>pre more path. pm_under m (pre @ CHR ''/'' # more) path \<noteq> None \<longrightarrow> pm_under m pre path \<noteq> None) \<and>
     (\<forall>pre segs. list_all plain_segment pre \<longrightarrow> list_all plain_segment segs \<longrightarrow>
        pm_under m (path_of pre) (path_of segs) = map_option path_of (strip_segments pre segs)) \<and>
     (\<forall>pats segs. list_all plain_pattern pats \<longrightarrow> list_all plain_segment segs \<longrightarrow>
        pm_endpoint m (path_of pats) (path_of segs) = match_segments pats segs)"

section \<open>Guards\<close>

text \<open>
  Every handler of a chain is met after those it needs and after none of those it must not follow.
\<close>

fun guarded :: "(handler \<Rightarrow> handler list) \<Rightarrow> (handler \<Rightarrow> handler list) \<Rightarrow> handler list \<Rightarrow> handler list \<Rightarrow> bool" where
  "guarded needs avoids seen [] = True"
| "guarded needs avoids seen (h # hs) =
     (list_all (\<lambda>g. g \<in> set seen) (needs h) \<and> list_all (\<lambda>g. g \<notin> set seen) (avoids h) \<and> guarded needs avoids (h # seen) hs)"

lemma guarded_append: "guarded needs avoids seen (xs @ ys) \<longleftrightarrow> guarded needs avoids seen xs \<and> guarded needs avoids (rev xs @ seen) ys"
  by (induction xs arbitrary: seen) auto

lemma guarded_mono:
  "guarded needs (\<lambda>_. []) seen hs \<Longrightarrow> set seen \<subseteq> set seen' \<Longrightarrow> guarded needs (\<lambda>_. []) seen' hs"
proof (induction hs arbitrary: seen seen')
  case (Cons h hs)
  then have "guarded needs (\<lambda>_. []) (h # seen') hs" using Cons.IH [of "h # seen" "h # seen'"] by auto
  with Cons.prems show ?case by (auto simp: list_all_iff)
qed simp

text \<open>What the handlers rely on: the limiter counts per user, a cached answer is not given to the
  unauthenticated, the controllers read sanitised input, and the webhook's signature is over the raw body.\<close>

fun order_needs :: "handler \<Rightarrow> handler list" where
  "order_needs Sanitize = [JsonParser]"
| "order_needs RateLimiter = [Auth]"
| "order_needs (Idempotency b) = [Auth, RateLimiter]"
| "order_needs (Controller c) =
     [Sanitize, RequestId, Auth, RateLimiter] @ (if c = ''createOrder'' \<or> c = ''cancelOrder'' then [Idempotency False] else [])"
| "order_needs _ = []"

fun payment_needs :: "handler \<Rightarrow> handler list" where
  "payment_needs Sanitize = [JsonParser]"
| "payment_needs (Controller c) =
     (if c = ''webhook'' then [RawParser]
      else Sanitize # (if c = ''processPayment'' \<or> c = ''refund'' then [Idempotency True] else []))"
| "payment_needs _ = []"

fun payment_avoids :: "handler \<Rightarrow> handler list" where
  "payment_avoids (Controller c) = (if c = ''webhook'' then [JsonParser, Sanitize] else [])"
| "payment_avoids _ = []"

fun inventory_needs :: "handler \<Rightarrow> handler list" where
  "inventory_needs (Controller c) = [JsonParser, Sanitize]"
| "inventory_needs _ = []"

definition handlers :: "path_matcher \<Rightarrow> layer list \<Rightarrow> string \<Rightarrow> string \<Rightarrow> handler list" where
  "handlers m ls meth path = map fst (chain m ls meth path)"

lemma chain_append: "chain m (ls @ ls') meth path = chain m ls meth path @ chain m ls' meth path"
  by (induction ls) simp_all

lemma guarded_no_avoids:
  "list_all (\<lambda>h. avoids h = []) hs \<Longrightarrow> guarded needs avoids seen hs = guarded needs (\<lambda>_. []) seen hs"
  by (induction hs arbitrary: seen) simp_all

lemma guarded_chain:
  "list_all (\<lambda>l. guarded needs (\<lambda>_. []) seen (map fst (chain_of m l meth path))) ls \<Longrightarrow>
   guarded needs (\<lambda>_. []) seen (map fst (chain m ls meth path))"
proof (induction ls)
  case (Cons l ls)
  then have "guarded needs (\<lambda>_. []) seen (map fst (chain m ls meth path))" by simp
  then have "guarded needs (\<lambda>_. []) (rev (map fst (chain_of m l meth path)) @ seen) (map fst (chain m ls meth path))"
    by (rule guarded_mono) simp
  with Cons.prems show ?case by (simp add: guarded_append)
qed simp

text \<open>A request meets only handlers the table mentions.\<close>

fun mentions :: "layer \<Rightarrow> handler list" where
  "mentions (Use h) = [h]"
| "mentions (UseAt pre h) = [h]"
| "mentions (On meth pat hs) = hs"
| "mentions (Mount pre ls) = concat (map mentions ls)"

lemma chain_mentions:
  "h \<in> set (map fst (chain m ls meth path)) \<Longrightarrow> h \<in> set (concat (map mentions ls))"
  "h \<in> set (map fst (chain_of m l meth path)) \<Longrightarrow> h \<in> set (mentions l)"
proof (induction m ls meth path and m l meth path rule: chain_chain_of.induct)
  case (5 m meth' pat hs meth path)
  have "map fst (map (\<lambda>h. (h, ps)) hs) = hs" for ps :: "(string \<times> string) list" by (induction hs) simp_all
  with 5 show ?case by (simp only: chain_of.simps split: option.splits if_splits) simp_all
next
  case (6 m pre ls meth path)
  then show ?case by (cases "pm_under m pre path") simp_all
qed (auto split: if_splits)

lemma chain_all_mentions: "list_all P (concat (map mentions ls)) \<Longrightarrow> list_all P (map fst (chain m ls meth path))"
  using chain_mentions(1) [of _ m ls meth path] by (auto simp: list_all_iff simp del: set_concat)

lemma under_api: "express_paths m \<Longrightarrow> pm_under m ''/api/v1/orders'' path = Some rest \<Longrightarrow> \<exists>r. pm_under m ''/api/v1'' path = Some r"
  unfolding express_paths_def by (metis (no_types, lifting) append_Cons append_Nil option.distinct(1) option.exhaust)

text \<open>The first controller method a request meets, with its parameters.\<close>

definition resolve :: "path_matcher \<Rightarrow> layer list \<Rightarrow> string \<Rightarrow> string list \<Rightarrow> (string \<times> (string \<times> string) list) option" where
  "resolve m ls meth segs =
     List.find (\<lambda>_. True) (List.map_filter (\<lambda>(h, ps). case h of Controller c \<Rightarrow> Some (c, ps) | _ \<Rightarrow> None) (chain m ls meth (path_of segs)))"

section \<open>A matcher with these laws\<close>

definition segments_of :: "string \<Rightarrow> string list" where
  "segments_of path = filter (\<lambda>s. s \<noteq> []) (split_on CHR ''/'' path)"

definition segment_matcher :: path_matcher where
  "segment_matcher = \<lparr>pm_under = (\<lambda>pre path. map_option path_of (strip_segments (segments_of pre) (segments_of path))),
     pm_endpoint = (\<lambda>pat path. match_segments (segments_of pat) (segments_of path))\<rparr>"

lemma split_on_append: "split_on sep (xs @ sep # ys) = split_on sep xs @ split_on sep ys"
  by (induction xs) (auto split: list.splits)

lemma split_on_word: "sep \<notin> set s \<Longrightarrow> split_on sep s = [s]"
  by (induction s) auto

lemma segments_of_slash: "segments_of (xs @ CHR ''/'' # ys) = segments_of xs @ segments_of ys"
  by (simp add: segments_of_def split_on_append)

lemma segments_of_path:
  assumes "list_all (\<lambda>s. s \<noteq> [] \<and> CHR ''/'' \<notin> set s) segs"
  shows "segments_of (path_of segs) = segs"
proof -
  have "segments_of (xs @ concat (map ((#) CHR ''/'') segs)) = segments_of xs @ segs" for xs
    using assms
  proof (induction segs arbitrary: xs)
    case (Cons s segs)
    have "segments_of (xs @ concat (map ((#) CHR ''/'') (s # segs))) = segments_of xs @ segments_of (s @ concat (map ((#) CHR ''/'') segs))"
      using segments_of_slash [of xs "s @ concat (map ((#) CHR ''/'') segs)"] by simp
    also have "\<dots> = segments_of xs @ segments_of s @ segs" using Cons by simp
    finally show ?case using Cons.prems by (simp add: segments_of_def split_on_word)
  qed simp
  from this [of "[]"] show ?thesis by (simp add: path_of_def segments_of_def)
qed

lemma strip_segments_append: "strip_segments (ps @ qs) segs = Option.bind (strip_segments ps segs) (strip_segments qs)"
  by (induction ps segs rule: strip_segments.induct) auto

lemma plain_no_slash: "plain_segment s \<Longrightarrow> s \<noteq> [] \<and> CHR ''/'' \<notin> set s"
  by (auto simp: plain_segment_def plain_char_def list_all_iff Let_def)

lemma pattern_no_slash: "plain_pattern s \<Longrightarrow> s \<noteq> [] \<and> CHR ''/'' \<notin> set s"
  using plain_no_slash [of "tl s"] plain_no_slash [of s]
  by (cases s) (auto simp: plain_pattern_def plain_segment_def starts_with_def split: if_splits)

lemma segment_matcher_laws: "express_paths segment_matcher"
proof -
  have s: "segments_of (path_of segs) = segs" if "list_all plain_segment segs" for segs
    using that plain_no_slash by (intro segments_of_path) (auto simp: list_all_iff)
  have p: "segments_of (path_of pats) = pats" if "list_all plain_pattern pats" for pats
    using that pattern_no_slash by (intro segments_of_path) (auto simp: list_all_iff)
  show ?thesis
    by (auto simp: express_paths_def segment_matcher_def s p segments_of_slash strip_segments_append split: bind_splits)
qed

end
