(* ===== verification/Service_Properties.thy ===== *)
theory Service_Properties
  imports Lifecycle Routing
begin

text \<open>
  What holds of the services as processes: in which order a request meets middleware and controllers,
  which controller it reaches, and how a process ends.
\<close>

section \<open>Routes\<close>

text \<open>The parts the applications share.\<close>

definition base_layers :: "layer list" where
  "base_layers = [Use SecurityHeaders, Use Compression, Use JsonParser, Use Sanitize, Use RequestId, Use RequestLogger]"

definition check_layers :: "layer list" where
  "check_layers = [On ''GET'' ''/health/live'' [LiveCheck], On ''GET'' ''/health/ready'' [ReadyCheck]]"

definition metrics_layers :: "layer list" where
  "metrics_layers = [On ''GET'' ''/metrics'' [MetricsText]]"

definition limit_layers :: "layer list" where
  "limit_layers = [UseAt ''/api/v1'' Auth, UseAt ''/api/v1'' RateLimiter]"

definition webhook_layers :: "layer list" where
  "webhook_layers = [Use SecurityHeaders, Use Compression, Use RequestId, Use RequestLogger, Mount ''/webhooks'' createWebhookRoutes]"

lemma apps_split:
  "order_app = base_layers @ [Use HttpMetrics] @ check_layers @ metrics_layers @ limit_layers @ order_registerRoutes (Some (Idempotency False))"
  "inventory_app = base_layers @ check_layers @ inventory_registerRoutes"
  "payment_app = webhook_layers @ [Use JsonParser, Use Sanitize] @ check_layers @ metrics_layers @ payment_registerRoutes (Some (Idempotency True))"
  by (simp_all add: order_app_def inventory_app_def payment_app_def base_layers_def check_layers_def metrics_layers_def limit_layers_def
      webhook_layers_def)

lemma base_handlers: "map fst (chain m base_layers meth path) = [SecurityHeaders, Compression, JsonParser, Sanitize, RequestId, RequestLogger]"
  by (simp add: base_layers_def)

text \<open>The checks need nothing.\<close>

lemma checks_guarded:
  assumes "needs LiveCheck = []" "needs ReadyCheck = []"
  shows "guarded needs (\<lambda>_. []) seen (map fst (chain m check_layers meth path))"
  unfolding check_layers_def by (rule guarded_chain) (simp add: assms split: option.split)

lemma metrics_guarded:
  "needs MetricsText = [] \<Longrightarrow> guarded needs (\<lambda>_. []) seen (map fst (chain m metrics_layers meth path))"
  unfolding metrics_layers_def by (rule guarded_chain) (simp split: option.split)

lemma routes_guarded:
  "set [RateLimiter, Auth, RequestId, Sanitize] \<subseteq> set seen \<Longrightarrow>
     guarded order_needs (\<lambda>_. []) seen (map fst (chain m (order_registerRoutes (Some (Idempotency False))) meth path))"
  "set [Sanitize] \<subseteq> set seen \<Longrightarrow>
     guarded payment_needs (\<lambda>_. []) seen (map fst (chain m (payment_registerRoutes (Some (Idempotency True))) meth path))"
  "set [JsonParser, Sanitize] \<subseteq> set seen \<Longrightarrow>
     guarded inventory_needs (\<lambda>_. []) seen (map fst (chain m inventory_registerRoutes meth path))"
  by (erule guarded_mono [rotated], auto simp: app_defs guarded_chain split: option.split)+

lemma order_guarded:
  assumes "express_paths m"
  shows "guarded order_needs (\<lambda>_. []) [] (handlers m order_app meth path)"
proof -
  note parts = handlers_def apps_split chain_append guarded_append base_handlers checks_guarded metrics_guarded
  show ?thesis
  proof (cases "pm_under m ''/api/v1/orders'' path")
    case None
    then have "chain m (order_registerRoutes (Some (Idempotency False))) meth path = []" by (simp add: order_registerRoutes_def)
    then show ?thesis by (simp add: parts) (simp add: limit_layers_def)
  next
    case (Some rest)
    from under_api [OF assms Some] have "map fst (chain m limit_layers meth path) = [Auth, RateLimiter]" by (auto simp: limit_layers_def)
    then show ?thesis by (simp add: parts routes_guarded)
  qed
qed

lemma payment_guarded: "guarded payment_needs payment_avoids [] (handlers m payment_app meth path)"
proof -
  let ?met = "\<lambda>ls. map fst (chain m ls meth path)"
  have "list_all (\<lambda>h. payment_avoids h = []) (concat (map mentions ls))"
    if "ls \<in> {check_layers, metrics_layers, payment_registerRoutes (Some (Idempotency True))}" for ls
    using that by (elim insertE emptyE; hypsubst) code_simp+
  then have plain: "guarded payment_needs payment_avoids seen (?met ls) = guarded payment_needs (\<lambda>_. []) seen (?met ls)"
    if "ls \<in> {check_layers, metrics_layers, payment_registerRoutes (Some (Idempotency True))}" for ls seen
    using that by (intro guarded_no_avoids chain_all_mentions) blast
  have "guarded payment_needs payment_avoids [] (?met webhook_layers)"
    by (auto simp: webhook_layers_def createWebhookRoutes_def split: option.split)
  then show ?thesis
    by (simp add: handlers_def apps_split chain_append guarded_append plain checks_guarded metrics_guarded routes_guarded)
qed

lemma inventory_guarded: "guarded inventory_needs (\<lambda>_. []) [] (handlers m inventory_app meth path)"
  by (simp add: handlers_def apps_split chain_append guarded_append base_handlers checks_guarded routes_guarded)

text \<open>C28: no request gets around the middleware.  Whatever its method and path, in the order service a
  request reaches a controller only sanitised, authenticated and counted by the limiter, in that
  order, and a creation or cancellation only through the idempotency middleware; in the payment
  service a charge or refund only through the required idempotency key, and the webhook's controller
  only with the raw body, before any parser; in the inventory service only sanitised.  The payment,
  inventory and audit services authenticate nobody.\<close>

theorem apis_guarded:
  assumes "express_paths m"
  shows "guarded order_needs (\<lambda>_. []) [] (handlers m order_app meth path) \<and>
    guarded payment_needs payment_avoids [] (handlers m payment_app meth path) \<and>
    guarded inventory_needs (\<lambda>_. []) [] (handlers m inventory_app meth path) \<and>
    list_all (\<lambda>app. Auth \<notin> set (handlers m app meth path)) [payment_app, inventory_app, audit_app]"
proof (intro conjI order_guarded payment_guarded inventory_guarded assms)
  have met: "set (handlers m app meth path) \<subseteq> set (concat (map mentions app))" for app
    unfolding handlers_def using chain_mentions(1) by blast
  have "list_all (\<lambda>app. Auth \<notin> set (concat (map mentions app))) [payment_app, inventory_app, audit_app]" by code_simp
  then show "list_all (\<lambda>app. Auth \<notin> set (handlers m app meth path)) [payment_app, inventory_app, audit_app]"
    using met [of payment_app] met [of inventory_app] met [of audit_app] by (simp only: list.pred_inject) blast
qed

theorem apis_guarded_witness:
  "Controller ''cancelOrder'' \<in> set (handlers segment_matcher order_app ''POST'' ''/API/v1/orders/7/cancel'') \<and>
   guarded order_needs (\<lambda>_. []) [] (handlers segment_matcher order_app ''POST'' ''/API/v1/orders/7/cancel'') \<and>
   Auth \<notin> set (handlers segment_matcher payment_app ''POST'' ''/api/v1/payments/7/refund'')"
proof -
  have "Controller ''cancelOrder'' \<in> set (handlers segment_matcher order_app ''POST'' ''/API/v1/orders/7/cancel'')"
    by code_simp
  then show ?thesis using apis_guarded [OF segment_matcher_laws] by simp
qed

text \<open>The mount paths and patterns of the tables, segment by segment.\<close>

lemma plain_words:
  "plain_segment ''api''"
  "plain_segment ''audit''"
  "plain_segment ''cancel''"
  "plain_segment ''check''"
  "plain_segment ''health''"
  "plain_segment ''inventory''"
  "plain_segment ''live''"
  "plain_segment ''metrics''"
  "plain_segment ''orders''"
  "plain_segment ''payment''"
  "plain_segment ''payments''"
  "plain_segment ''process''"
  "plain_segment ''ready''"
  "plain_segment ''refund''"
  "plain_segment ''release''"
  "plain_segment ''reserve''"
  "plain_segment ''search''"
  "plain_segment ''timeline''"
  "plain_segment ''v1''"
  "plain_segment ''webhooks''"
  by code_simp+

lemma table_mounts:
  assumes "express_paths m" and "list_all plain_segment segs"
  shows "pm_under m ''/api/v1'' (path_of segs) = map_option path_of (strip_segments [''api'', ''v1''] segs)"
    and "pm_under m ''/api/v1/orders'' (path_of segs) = map_option path_of (strip_segments [''api'', ''v1'', ''orders''] segs)"
    and "pm_under m ''/api/v1/inventory'' (path_of segs) = map_option path_of (strip_segments [''api'', ''v1'', ''inventory''] segs)"
    and "pm_under m ''/api/v1/payments'' (path_of segs) = map_option path_of (strip_segments [''api'', ''v1'', ''payments''] segs)"
    and "pm_under m ''/api/v1/audit'' (path_of segs) = map_option path_of (strip_segments [''api'', ''v1'', ''audit''] segs)"
    and "pm_under m ''/webhooks'' (path_of segs) = map_option path_of (strip_segments [''webhooks''] segs)"
proof -
  have law: "pm_under m (path_of pre) (path_of segs) = map_option path_of (strip_segments pre segs)" if "list_all plain_segment pre" for pre
    using assms that unfolding express_paths_def by blast
  show "pm_under m ''/api/v1'' (path_of segs) = map_option path_of (strip_segments [''api'', ''v1''] segs)"
    using law [of "[''api'', ''v1'']"] by (simp add: plain_words path_of_def)
  show "pm_under m ''/api/v1/orders'' (path_of segs) = map_option path_of (strip_segments [''api'', ''v1'', ''orders''] segs)"
    using law [of "[''api'', ''v1'', ''orders'']"] by (simp add: plain_words path_of_def)
  show "pm_under m ''/api/v1/inventory'' (path_of segs) = map_option path_of (strip_segments [''api'', ''v1'', ''inventory''] segs)"
    using law [of "[''api'', ''v1'', ''inventory'']"] by (simp add: plain_words path_of_def)
  show "pm_under m ''/api/v1/payments'' (path_of segs) = map_option path_of (strip_segments [''api'', ''v1'', ''payments''] segs)"
    using law [of "[''api'', ''v1'', ''payments'']"] by (simp add: plain_words path_of_def)
  show "pm_under m ''/api/v1/audit'' (path_of segs) = map_option path_of (strip_segments [''api'', ''v1'', ''audit''] segs)"
    using law [of "[''api'', ''v1'', ''audit'']"] by (simp add: plain_words path_of_def)
  show "pm_under m ''/webhooks'' (path_of segs) = map_option path_of (strip_segments [''webhooks''] segs)"
    using law [of "[''webhooks'']"] by (simp add: plain_words path_of_def)
qed

lemma table_patterns:
  assumes "express_paths m" and "list_all plain_segment segs"
  shows "pm_endpoint m ''/'' (path_of segs) = match_segments [] segs"
    and "pm_endpoint m ''/check'' (path_of segs) = match_segments [''check''] segs"
    and "pm_endpoint m ''/:sku'' (path_of segs) = match_segments ['':sku''] segs"
    and "pm_endpoint m ''/:id'' (path_of segs) = match_segments ['':id''] segs"
    and "pm_endpoint m ''/:orderId'' (path_of segs) = match_segments ['':orderId''] segs"
    and "pm_endpoint m ''/:id/timeline'' (path_of segs) = match_segments ['':id'', ''timeline''] segs"
    and "pm_endpoint m ''/:id/cancel'' (path_of segs) = match_segments ['':id'', ''cancel''] segs"
    and "pm_endpoint m ''/reserve'' (path_of segs) = match_segments [''reserve''] segs"
    and "pm_endpoint m ''/release'' (path_of segs) = match_segments [''release''] segs"
    and "pm_endpoint m ''/:orderId/process'' (path_of segs) = match_segments ['':orderId'', ''process''] segs"
    and "pm_endpoint m ''/:id/refund'' (path_of segs) = match_segments ['':id'', ''refund''] segs"
    and "pm_endpoint m ''/payment'' (path_of segs) = match_segments [''payment''] segs"
    and "pm_endpoint m ''/search'' (path_of segs) = match_segments [''search''] segs"
    and "pm_endpoint m ''/orders/:id'' (path_of segs) = match_segments [''orders'', '':id''] segs"
    and "pm_endpoint m ''/health/live'' (path_of segs) = match_segments [''health'', ''live''] segs"
    and "pm_endpoint m ''/health/ready'' (path_of segs) = match_segments [''health'', ''ready''] segs"
    and "pm_endpoint m ''/metrics'' (path_of segs) = match_segments [''metrics''] segs"
proof -
  have law: "pm_endpoint m (path_of pats) (path_of segs) = match_segments pats segs" if "list_all plain_pattern pats" for pats
    using assms that unfolding express_paths_def by blast
  have words: "plain_pattern '':id''"
    "plain_pattern '':orderId''"
    "plain_pattern '':sku''"
    "plain_pattern ''cancel''"
    "plain_pattern ''check''"
    "plain_pattern ''health''"
    "plain_pattern ''live''"
    "plain_pattern ''metrics''"
    "plain_pattern ''orders''"
    "plain_pattern ''payment''"
    "plain_pattern ''process''"
    "plain_pattern ''ready''"
    "plain_pattern ''refund''"
    "plain_pattern ''release''"
    "plain_pattern ''reserve''"
    "plain_pattern ''search''"
    "plain_pattern ''timeline''"
    by code_simp+
  note plain = words path_of_def
  show "pm_endpoint m ''/'' (path_of segs) = match_segments [] segs"
    using law [of "[]"] by (simp add: plain)
  show "pm_endpoint m ''/check'' (path_of segs) = match_segments [''check''] segs"
    using law [of "[''check'']"] by (simp add: plain)
  show "pm_endpoint m ''/:sku'' (path_of segs) = match_segments ['':sku''] segs"
    using law [of "['':sku'']"] by (simp add: plain)
  show "pm_endpoint m ''/:id'' (path_of segs) = match_segments ['':id''] segs"
    using law [of "['':id'']"] by (simp add: plain)
  show "pm_endpoint m ''/:orderId'' (path_of segs) = match_segments ['':orderId''] segs"
    using law [of "['':orderId'']"] by (simp add: plain)
  show "pm_endpoint m ''/:id/timeline'' (path_of segs) = match_segments ['':id'', ''timeline''] segs"
    using law [of "['':id'', ''timeline'']"] by (simp add: plain)
  show "pm_endpoint m ''/:id/cancel'' (path_of segs) = match_segments ['':id'', ''cancel''] segs"
    using law [of "['':id'', ''cancel'']"] by (simp add: plain)
  show "pm_endpoint m ''/reserve'' (path_of segs) = match_segments [''reserve''] segs"
    using law [of "[''reserve'']"] by (simp add: plain)
  show "pm_endpoint m ''/release'' (path_of segs) = match_segments [''release''] segs"
    using law [of "[''release'']"] by (simp add: plain)
  show "pm_endpoint m ''/:orderId/process'' (path_of segs) = match_segments ['':orderId'', ''process''] segs"
    using law [of "['':orderId'', ''process'']"] by (simp add: plain)
  show "pm_endpoint m ''/:id/refund'' (path_of segs) = match_segments ['':id'', ''refund''] segs"
    using law [of "['':id'', ''refund'']"] by (simp add: plain)
  show "pm_endpoint m ''/payment'' (path_of segs) = match_segments [''payment''] segs"
    using law [of "[''payment'']"] by (simp add: plain)
  show "pm_endpoint m ''/search'' (path_of segs) = match_segments [''search''] segs"
    using law [of "[''search'']"] by (simp add: plain)
  show "pm_endpoint m ''/orders/:id'' (path_of segs) = match_segments [''orders'', '':id''] segs"
    using law [of "[''orders'', '':id'']"] by (simp add: plain)
  show "pm_endpoint m ''/health/live'' (path_of segs) = match_segments [''health'', ''live''] segs"
    using law [of "[''health'', ''live'']"] by (simp add: plain)
  show "pm_endpoint m ''/health/ready'' (path_of segs) = match_segments [''health'', ''ready''] segs"
    using law [of "[''health'', ''ready'']"] by (simp add: plain)
  show "pm_endpoint m ''/metrics'' (path_of segs) = match_segments [''metrics''] segs"
    using law [of "[''metrics'']"] by (simp add: plain)
qed

text \<open>Where the requests of the APIs go; \<open>/check\<close> is not taken for a SKU.\<close>

lemma routes_resolve:
  assumes "express_paths m" and "plain_segment i"
  shows "resolve m order_app ''POST'' [''api'', ''v1'', ''orders''] = Some (''createOrder'', [])"
    and "resolve m order_app ''GET'' [''api'', ''v1'', ''orders''] = Some (''listOrders'', [])"
    and "resolve m order_app ''GET'' [''api'', ''v1'', ''orders'', i] = Some (''getOrder'', [(''id'', i)])"
    and "resolve m order_app ''GET'' [''api'', ''v1'', ''orders'', i, ''timeline''] = Some (''getTimeline'', [(''id'', i)])"
    and "resolve m order_app ''POST'' [''api'', ''v1'', ''orders'', i, ''cancel''] = Some (''cancelOrder'', [(''id'', i)])"
    and "resolve m inventory_app ''GET'' [''api'', ''v1'', ''inventory'', i] =
      Some (if to_lower i = ''check'' then (''checkStock'', []) else (''getStock'', [(''sku'', i)]))"
    and "resolve m inventory_app ''POST'' [''api'', ''v1'', ''inventory'', ''reserve''] = Some (''reserveStock'', [])"
    and "resolve m inventory_app ''POST'' [''api'', ''v1'', ''inventory'', ''release''] = Some (''releaseStock'', [])"
    and "resolve m payment_app ''POST'' [''api'', ''v1'', ''payments'', i, ''process''] = Some (''processPayment'', [(''orderId'', i)])"
    and "resolve m payment_app ''POST'' [''api'', ''v1'', ''payments'', i, ''refund''] = Some (''refund'', [(''id'', i)])"
    and "resolve m payment_app ''GET'' [''api'', ''v1'', ''payments'', i] = Some (''getPayment'', [(''orderId'', i)])"
    and "resolve m payment_app ''POST'' [''webhooks'', ''payment''] = Some (''webhook'', [])"
    and "resolve m audit_app ''GET'' [''api'', ''v1'', ''audit'', ''search''] = Some (''search'', [])"
    and "resolve m audit_app ''GET'' [''api'', ''v1'', ''audit'', ''orders'', i] = Some (''byAggregate'', [(''id'', i)])"
proof -
  note u = table_mounts [OF assms(1)] and e = table_patterns [OF assms(1)]
  have l: "to_lower ''check'' = ''check''" "to_lower ''reserve'' \<noteq> to_lower ''release''"
    "to_lower ''process'' \<noteq> to_lower ''refund''" "to_lower ''search'' \<noteq> to_lower ''orders''" by code_simp+
  note defs = l resolve_def app_defs chain_append List.map_filter_simps plain_words assms(2) starts_with_def
  show "resolve m order_app ''POST'' [''api'', ''v1'', ''orders''] = Some (''createOrder'', [])"
    by (simp add: defs u e)
  show "resolve m order_app ''GET'' [''api'', ''v1'', ''orders''] = Some (''listOrders'', [])"
    by (simp add: defs u e)
  show "resolve m order_app ''GET'' [''api'', ''v1'', ''orders'', i] = Some (''getOrder'', [(''id'', i)])"
    by (simp add: defs u e)
  show "resolve m order_app ''GET'' [''api'', ''v1'', ''orders'', i, ''timeline''] = Some (''getTimeline'', [(''id'', i)])"
    by (simp add: defs u e)
  show "resolve m order_app ''POST'' [''api'', ''v1'', ''orders'', i, ''cancel''] = Some (''cancelOrder'', [(''id'', i)])"
    by (simp add: defs u e)
  show "resolve m inventory_app ''GET'' [''api'', ''v1'', ''inventory'', i] =
      Some (if to_lower i = ''check'' then (''checkStock'', []) else (''getStock'', [(''sku'', i)]))"
    by (simp add: defs u e)
  show "resolve m inventory_app ''POST'' [''api'', ''v1'', ''inventory'', ''reserve''] = Some (''reserveStock'', [])"
    by (simp add: defs u e)
  show "resolve m inventory_app ''POST'' [''api'', ''v1'', ''inventory'', ''release''] = Some (''releaseStock'', [])"
    by (simp add: defs u e)
  show "resolve m payment_app ''POST'' [''api'', ''v1'', ''payments'', i, ''process''] = Some (''processPayment'', [(''orderId'', i)])"
    by (simp add: defs u e)
  show "resolve m payment_app ''POST'' [''api'', ''v1'', ''payments'', i, ''refund''] = Some (''refund'', [(''id'', i)])"
    by (simp add: defs u e)
  show "resolve m payment_app ''GET'' [''api'', ''v1'', ''payments'', i] = Some (''getPayment'', [(''orderId'', i)])"
    by (simp add: defs u e)
  show "resolve m payment_app ''POST'' [''webhooks'', ''payment''] = Some (''webhook'', [])"
    by (simp add: defs u e)
  show "resolve m audit_app ''GET'' [''api'', ''v1'', ''audit'', ''search''] = Some (''search'', [])"
    by (simp add: defs u e)
  show "resolve m audit_app ''GET'' [''api'', ''v1'', ''audit'', ''orders'', i] = Some (''byAggregate'', [(''id'', i)])"
    by (simp add: defs u e)
qed

section \<open>Shutdown\<close>

text \<open>C29: a shutdown ends.  Once the messaging has stopped, or there was none to stop, the process is
  gone within ten seconds: at that moment no time passes any more and the forced exit is due.  It
  exits with 0 only after a signal, the settled stop of a messaging connected before the signal,
  the closed HTTP server and, where there is a database, the settled destruction of its pool, in
  that order; with 1 only by the forced exit or an unhandled rejection.  While the stop has not
  settled no timer is armed and any amount of time can pass.\<close>

theorem shutdown_ends:
  assumes "process_run k (before @ e # after) (process_begin t) = Some q"
    and "process_run k before (process_begin t) = Some p" and "past_messaging p e"
  shows "pc_now q \<le> pc_now p + 10000 \<and>
    (pc_now q = pc_now p + 10000 \<longrightarrow> enabled q Deadline \<and> (\<forall>s. enabled q (Pass s) \<longrightarrow> s = 0)) \<and>
    (pc_exit q = Some 0 \<longrightarrow> (\<exists>ok ok'. subseq (Signal # (if connected_first (before @ e # after) then [Stop_Settled ok] else []) @
       Http_Closed # (if sk_database k then [Destroy_Settled ok'] else [])) (before @ e # after))) \<and>
    (pc_exit q = Some 1 \<longrightarrow> last (before @ e # after) \<in> {Deadline, Unhandled_Rejection}) \<and>
    (pc_deadlines p = [] \<longrightarrow> (\<forall>s\<ge>0. enabled p (Pass s)))"
proof -
  note armed = exit_armed [OF assms]
  have "\<exists>ok ok'. subseq (Signal # (if connected_first (before @ e # after) then [Stop_Settled ok] else []) @
       Http_Closed # (if sk_database k then [Destroy_Settled ok'] else [])) (before @ e # after)" if "pc_exit q = Some 0"
    using shutdown_inv_run [OF assms(1)] that by (fastforce simp: shutdown_inv_def closing_path_def split: if_splits)
  with armed due_exit [OF assms(1) armed(1)] exit_code [OF assms(1)] unsettled_stop_waits show ?thesis by auto
qed

theorem shutdown_ends_witness:
  "\<exists>q. process_run \<lparr>sk_job = True, sk_database = True, sk_readyFlag = False\<rparr>
      [Listening, Start_Resolved, Pass 60000, Signal, Pass 400, Stop_Settled True, Pass 9000, Http_Closed, Destroy_Settled True] (process_begin 0) = Some q \<and>
    pc_exit q = Some 0 \<and> pc_now q \<le> 60400 + 10000"
proof -
  let ?k = "\<lparr>sk_job = True, sk_database = True, sk_readyFlag = False\<rparr>"
  let ?before = "[Listening, Start_Resolved, Pass 60000, Signal, Pass 400]" and ?after = "[Pass 9000, Http_Closed, Destroy_Settled True]"
  obtain q where q: "process_run ?k (?before @ Stop_Settled True # ?after) (process_begin 0) = Some q" "pc_exit q = Some 0"
    by (auto simp: process_begin_def react_defs)
  obtain p where p: "process_run ?k ?before (process_begin 0) = Some p" "pc_now p = 60400"
    by (auto simp: process_begin_def react_defs)
  from shutdown_ends [OF q(1) p(1)] q p(2) show ?thesis by (auto simp: past_messaging_def)
qed

end
