(* ===== verification/Turns.thy ===== *)
theory Turns
  imports Main
begin

text \<open>
  Operations that are cut into steps and run at the same time.  A run is at a program point; a step
  takes it to its next point and changes the shared state.  \<open>drive\<close> is one run alone, \<open>run_turns\<close> any
  number of runs that take their steps in a given order.
\<close>

section \<open>One run\<close>

fun drive :: "('q \<Rightarrow> 's \<Rightarrow> 'q \<times> 's) \<Rightarrow> nat \<Rightarrow> 'q \<Rightarrow> 's \<Rightarrow> 'q \<times> 's" where
  "drive step 0 q s = (q, s)"
| "drive step (Suc n) q s = (case step q s of (q', s') \<Rightarrow> drive step n q' s')"

text \<open>Within \<open>n\<close> steps the run is at \<open>q'\<close>, the state \<open>t\<close>.\<close>

definition ends :: "('q \<Rightarrow> 's \<Rightarrow> 'q \<times> 's) \<Rightarrow> nat \<Rightarrow> 'q \<Rightarrow> 's \<Rightarrow> 'q \<Rightarrow> 's \<Rightarrow> bool" where
  "ends step n q s q' t \<longleftrightarrow> (\<exists>m\<le>n. drive step m q s = (q', t))"

lemma drive_add: "drive step (m + n) q s = (case drive step m q s of (q', s') \<Rightarrow> drive step n q' s')"
  by (induction m arbitrary: q s) (auto split: prod.split)

lemma ends_here: "ends step n q s q s"
  unfolding ends_def by (intro exI [of _ 0]) simp

lemma ends_later: "ends step n q s q' t \<Longrightarrow> n \<le> k \<Longrightarrow> ends step k q s q' t"
  unfolding ends_def by (meson le_trans)

lemma ends_drive: "drive step m q s = (q1, s1) \<Longrightarrow> ends step n q1 s1 q' t \<Longrightarrow> m + n \<le> k \<Longrightarrow> ends step k q s q' t"
  unfolding ends_def by (metis (no_types, lifting) add_le_mono1 add_le_cancel_left case_prod_conv drive_add le_trans nat_le_linear)

lemma ends_step: "step q s = (q1, s1) \<Longrightarrow> ends step n q1 s1 q' t \<Longrightarrow> Suc n \<le> k \<Longrightarrow> ends step k q s q' t"
  by (rule ends_drive [of _ 1]) simp_all

section \<open>Runs side by side\<close>

text \<open>A turn of the \<open>n\<close>-th run.\<close>

definition take_turn :: "(nat \<Rightarrow> 'q \<Rightarrow> 's \<Rightarrow> 'q \<times> 's) \<Rightarrow> nat \<Rightarrow> 'q list \<times> 's \<Rightarrow> 'q list \<times> 's" where
  "take_turn step n w =
     (if n < length (fst w) then (case step n (fst w ! n) (snd w) of (q, s) \<Rightarrow> ((fst w)[n := q], s)) else w)"

definition run_turns :: "(nat \<Rightarrow> 'q \<Rightarrow> 's \<Rightarrow> 'q \<times> 's) \<Rightarrow> nat list \<Rightarrow> 'q list \<times> 's \<Rightarrow> 'q list \<times> 's" where
  "run_turns step turns w = foldl (\<lambda>w n. take_turn step n w) w turns"

lemma run_turns_Cons:
  "run_turns step (n # turns) w = run_turns step turns (take_turn step n w)"
  by (simp add: run_turns_def)

lemma run_turns_Nil [simp]: "run_turns step [] w = w"
  by (simp add: run_turns_def)

lemma run_turns_length: "run_turns step turns (qs, s) = (qs', s') \<Longrightarrow> length qs' = length qs"
proof (induction turns arbitrary: qs s)
  case (Cons n turns)
  obtain qs1 s1 where one: "take_turn step n (qs, s) = (qs1, s1)" by fastforce
  then have "length qs1 = length qs" by (auto simp: take_turn_def split: if_splits prod.splits)
  with Cons one show ?case by (simp add: run_turns_Cons)
qed simp

text \<open>When every step lowers a rank, enough turns bring it to zero.\<close>

lemma rank_turns:
  assumes lower: "\<And>n q s q' s'. step n q s = (q', s') \<Longrightarrow> rank q' \<le> rank q - (1::nat)"
    and "run_turns step turns (qs, s) = (qs', s')"
  shows "length qs' = length qs \<and> (\<forall>j<length qs. rank (qs' ! j) \<le> rank (qs ! j) - count_list turns j)"
  using assms(2)
proof (induction turns arbitrary: qs s)
  case (Cons n turns)
  obtain qs1 s1 where one: "take_turn step n (qs, s) = (qs1, s1)" by fastforce
  have "length qs1 = length qs \<and> (\<forall>j<length qs. rank (qs1 ! j) \<le> rank (qs ! j) - (if j = n then 1 else 0))"
    using one by (auto simp: take_turn_def nth_list_update dest: lower split: if_splits prod.splits)
  moreover have "run_turns step turns (qs1, s1) = (qs', s')" using Cons.prems one by (simp add: run_turns_Cons)
  ultimately show ?case using Cons.IH by fastforce
qed simp

section \<open>Invariants of runs side by side\<close>

text \<open>
  What a run has reached is \<open>session n s q\<close>; a step keeps it for the run that makes it and, of two
  runs that are \<open>apart\<close>, for the other one.
\<close>

locale side_by_side =
  fixes step :: "nat \<Rightarrow> 'q \<Rightarrow> 's \<Rightarrow> 'q \<times> 's"
    and shared :: "'s \<Rightarrow> bool"
    and session :: "nat \<Rightarrow> 's \<Rightarrow> 'q \<Rightarrow> bool"
    and apart :: "'q \<Rightarrow> 'q \<Rightarrow> bool"
  assumes mine: "shared s \<Longrightarrow> session n s q \<Longrightarrow> step n q s = (q', s') \<Longrightarrow> shared s' \<and> session n s' q'"
    and others: "shared s \<Longrightarrow> session n s q \<Longrightarrow> step n q s = (q', s') \<Longrightarrow> session m s q2 \<Longrightarrow> apart q q2 \<Longrightarrow>
          session m s' q2 \<and> apart q' q2"
    and apart_sym: "apart q q2 \<Longrightarrow> apart q2 q"
begin

definition together :: "'q list \<Rightarrow> 's \<Rightarrow> bool" where
  "together qs s \<longleftrightarrow> shared s \<and> (\<forall>n<length qs. session n s (qs ! n)) \<and>
     (\<forall>m<length qs. \<forall>n<length qs. m \<noteq> n \<longrightarrow> apart (qs ! m) (qs ! n))"

lemma turn_together:
  assumes ok: "together qs s" and turn: "take_turn step n (qs, s) = (qs', s')"
  shows "together qs' s'"
proof (cases "n < length qs")
  case False
  with turn ok show ?thesis by (simp add: take_turn_def)
next
  case True
  obtain q where st: "step n (qs ! n) s = (q, s')" and qs': "qs' = qs[n := q]"
    using turn True by (auto simp: take_turn_def split: prod.splits)
  have sh: "shared s" and each: "\<And>j. j < length qs \<Longrightarrow> session j s (qs ! j)"
    and ap: "\<And>i j. i < length qs \<Longrightarrow> j < length qs \<Longrightarrow> i \<noteq> j \<Longrightarrow> apart (qs ! i) (qs ! j)"
    using ok unfolding together_def by blast+
  note own = mine [OF sh each [OF True] st]
  note rest = others [OF sh each [OF True] st each ap [OF True]]
  have "session j s' (qs' ! j)" if "j < length qs" for j
    using own rest [OF that that] that True by (cases "j = n") (simp_all add: qs')
  moreover have "apart (qs' ! i) (qs' ! j)" if "i < length qs" "j < length qs" "i \<noteq> j" for i j
    using ap [OF that] rest [OF that(1,1)] rest [OF that(2,2)] that True apart_sym
    by (cases "i = n"; cases "j = n") (auto simp: qs')
  ultimately show ?thesis using own unfolding together_def by (simp add: qs')
qed

lemma turns_together: "together qs s \<Longrightarrow> run_turns step turns (qs, s) = (qs', s') \<Longrightarrow> together qs' s'"
proof (induction turns arbitrary: qs s)
  case (Cons n turns)
  obtain qs1 s1 where one: "take_turn step n (qs, s) = (qs1, s1)" by fastforce
  show ?case
    by (rule Cons.IH [OF turn_together [OF Cons.prems(1) one]]) (use Cons.prems(2) one in \<open>simp add: run_turns_Cons\<close>)
qed simp

end

end
