(* ===== verification/Payment_Interleaving.thy ===== *)
theory Payment_Interleaving
  imports Payment_Service Turns
begin

text \<open>
  Payments that run at the same time.  A run of \<open>ProcessPaymentHandler.execute\<close> is cut at its awaits
  into steps: each does the awaited operation on the shared state and what the handler computes up to
  the next await.  (The breaker's admission is a step of its own although the code reaches it without
  an await, so there are more interleavings here than in the code.)  One run taken alone is the
  handler of \<open>Payment_Service\<close>; any number of runs take their steps in any order.
\<close>

section \<open>A run of the handler, step by step\<close>

datatype 'd pay_session =
    Finding
  | Saving "'d payment"
  | Marking "'d payment"
  | Admitting "'d payment"
  | Charging "'d payment" nat "js_error option"
  | Completing "'d payment"
  | Failing "'d payment"
  | Answered "js_error + 'd payment \<times> bool"

text \<open>The breaker moves and the metrics hear of it.\<close>

definition with_breaker :: "breaker \<Rightarrow> 's pay_state \<Rightarrow> 's pay_state" where
  "with_breaker b s = s\<lparr>py_breaker := b,
     py_metrics := (if length (cb_changes (py_breaker s)) < length (cb_changes b)
                    then (py_metrics s)\<lparr>pm_circuit := snd (last (cb_changes b))\<rparr> else py_metrics s)\<rparr>"

text \<open>The catch block up to its \<open>update\<close>.\<close>

definition give_up :: "(string \<Rightarrow> string) \<Rightarrow> pay_call \<Rightarrow> 'd payment \<Rightarrow> js_error \<Rightarrow> 'd pay_session" where
  "give_up libmsg y p err =
     (case markFailed (yc_now y) (failure_reason libmsg err) p of Inl e \<Rightarrow> Answered (Inl e) | Inr p1 \<Rightarrow> Failing p1)"

fun session_step ::
    "'d decimal_lib \<Rightarrow> (string \<Rightarrow> string) \<Rightarrow> ('s, 'd) payment_repository \<Rightarrow> pay_config \<Rightarrow> pay_call \<Rightarrow> 'd process_command \<Rightarrow>
     'd pay_session \<Rightarrow> 's pay_state \<Rightarrow> 'd pay_session \<times> 's pay_state" where
  "session_step D libmsg repo cfg y c Finding s =
     (case on_pay (pr_findByIdempotencyKey repo (pcm_idempotencyKey c)) s of
        (Inl e, t) \<Rightarrow> (Answered (Inl e), t)
      | (Inr (Some p), t) \<Rightarrow> (Answered (Inr (p, p_status p = PS_COMPLETED)), t)
      | (Inr None, t) \<Rightarrow> (case payment_of_command D y c of Inl e \<Rightarrow> (Answered (Inl e), t) | Inr p \<Rightarrow> (Saving p, t)))"
| "session_step D libmsg repo cfg y c (Saving p) s =
     (case on_pay (pr_save repo (yc_calls y 0) p) s of
        (Inl e, t) \<Rightarrow> (Answered (Inl e), t)
      | (Inr p1, t) \<Rightarrow> (case markProcessing (yc_now y) p1 of Inl e \<Rightarrow> (Answered (Inl e), t) | Inr p2 \<Rightarrow> (Marking p2, t)))"
| "session_step D libmsg repo cfg y c (Marking p) s =
     (case on_pay (pr_update repo (yc_calls y 1) p) s of
        (Inl e, t) \<Rightarrow> (Answered (Inl e), t) | (Inr p1, t) \<Rightarrow> (Admitting p1, t))"
| "session_step D libmsg repo cfg y c (Admitting p) s =
     (case breaker_admit (yc_admitted y) (py_breaker s) of
        Inl e \<Rightarrow> (give_up libmsg y p e, s) | Inr b \<Rightarrow> (Charging p 1 None, with_breaker b s))"
| "session_step D libmsg repo cfg y c (Charging p attempt lastError) s =
     (let opts = retry_of cfg;
          failed = (\<lambda>e s. (give_up libmsg y p e, with_breaker (breaker_onFailure (breaker_of cfg) (yc_failed y) e (py_breaker s)) s)) in
      if attempt \<le> rt_maxAttempts opts then
        (case gateway_charge (pc_gateway cfg) (charge_of D c p) (py_gateway s) of
           (Inr tx, g) \<Rightarrow>
             (case markCompleted (yc_now y) tx p of
                Inl e \<Rightarrow> give_up libmsg y (p\<lparr>p_gatewayTransactionId := Some tx\<rparr>) e
              | Inr p1 \<Rightarrow> Completing p1, with_breaker (breaker_onSuccess (py_breaker s)) (s\<lparr>py_gateway := g\<rparr>))
         | (Inl e, g) \<Rightarrow>
             if rt_maxAttempts opts \<le> attempt \<or> \<not> rt_isRetryable opts e then failed e (s\<lparr>py_gateway := g\<rparr>)
             else (Charging p (attempt + 1) (Some e),
               s\<lparr>py_gateway := g, py_slept := py_slept s @ [backoff_delay opts (yc_random y attempt) attempt]\<rparr>))
      else failed (case lastError of Some e \<Rightarrow> e | None \<Rightarrow> LibraryError ''undefined'') s)"
| "session_step D libmsg repo cfg y c (Completing p) s =
     (case on_pay (pr_update repo (yc_calls y 2) p) s of
        (Inl e, t) \<Rightarrow> (give_up libmsg y (snd (pullEvents p)) e, t)
      | (Inr p1, t) \<Rightarrow> (Answered (Inr (p1, True)), snd (recordPaymentResult True t)))"
| "session_step D libmsg repo cfg y c (Failing p) s =
     (case on_pay (pr_update repo (yc_calls y 3) p) s of
        (Inl e, t) \<Rightarrow> (Answered (Inl e), t)
      | (Inr p1, t) \<Rightarrow> (Answered (Inr (p1, False)), snd (recordPaymentResult False t)))"
| "session_step D libmsg repo cfg y c (Answered r) s = (Answered r, s)"

section \<open>A run alone is the handler\<close>

lemma breaker_changes_grow:
  "breaker_admit now b = Inr b' \<Longrightarrow> \<exists>grown. cb_changes b' = cb_changes b @ grown"
  "\<exists>grown. cb_changes (breaker_onSuccess b) = cb_changes b @ grown"
  "\<exists>grown. cb_changes (breaker_onFailure opts now e b) = cb_changes b @ grown"
  by (auto simp: breaker_admit_def breaker_onSuccess_def breaker_onFailure_def breaker_open_def breaker_transition_def Let_def
      split: if_splits)

lemma with_breaker_twice:
  assumes "cb_changes b = cb_changes (py_breaker s) @ grown" and "cb_changes b' = cb_changes b @ grown'"
  shows "with_breaker b' ((with_breaker b s)\<lparr>py_gateway := g, py_slept := ds\<rparr>) = with_breaker b' (s\<lparr>py_gateway := g, py_slept := ds\<rparr>)"
  using assms by (cases "grown' = []") (auto simp: with_breaker_def)

text \<open>
  The retry loop as steps: an attempt per step, the point \<open>K k le\<close> before the \<open>k\<close>-th attempt with the
  last error, \<open>finish\<close> what the run does with the outcome.
\<close>

lemma retry_steps:
  fixes step :: "'q \<Rightarrow> 's pay_state \<Rightarrow> 'q \<times> 's pay_state"
  assumes step: "\<And>k le s. step (K k le) s =
      (if k \<le> rt_maxAttempts opts then
         (case fn (py_gateway s) of
            (Inr x, g) \<Rightarrow> finish (Inr x) (s\<lparr>py_gateway := g\<rparr>)
          | (Inl e, g) \<Rightarrow>
              if rt_maxAttempts opts \<le> k \<or> \<not> rt_isRetryable opts e then finish (Inl e) (s\<lparr>py_gateway := g\<rparr>)
              else (K (k + 1) (Some e), s\<lparr>py_gateway := g, py_slept := py_slept s @ [backoff_delay opts (rnd k) k]\<rparr>))
       else finish (Inl (case le of Some e \<Rightarrow> e | None \<Rightarrow> LibraryError ''undefined'')) s)"
    and "retry_from opts rnd fn le k (py_gateway s, py_slept s) = (r, (g, ds))" and "k \<le> rt_maxAttempts opts + 1"
  shows "\<exists>n \<le> rt_maxAttempts opts + 1 - k + 1. drive step n (K k le) s = finish r (s\<lparr>py_gateway := g, py_slept := ds\<rparr>)"
  using assms(2,3)
proof (induction "rt_maxAttempts opts + 1 - k" arbitrary: k le s)
  case 0
  then have "\<not> k \<le> rt_maxAttempts opts" by simp
  with 0(2) show ?case
    by (subst (asm) retry_from.simps) (auto intro!: exI [of _ 1] simp: step split: prod.split)
next
  case (Suc d)
  have k: "k \<le> rt_maxAttempts opts" using Suc.hyps(2) by simp
  obtain q u where q: "fn (py_gateway s) = (q, u)" by fastforce
  show ?case
  proof (cases "\<exists>e. q = Inl e \<and> k < rt_maxAttempts opts \<and> rt_isRetryable opts e")
    case False
    with Suc.prems(1) q k show ?thesis
      by (subst (asm) retry_from.simps) (auto intro!: exI [of _ 1] simp: step split: sum.splits if_splits prod.split)
  next
    case True
    then obtain e where e: "q = Inl e" "k < rt_maxAttempts opts" "rt_isRetryable opts e" by blast
    let ?s = "s\<lparr>py_gateway := u, py_slept := py_slept s @ [backoff_delay opts (rnd k) k]\<rparr>"
    have rest: "retry_from opts rnd fn (Some e) (k + 1) (py_gateway ?s, py_slept ?s) = (r, (g, ds))"
      using Suc.prems(1) q k e by (subst (asm) retry_from.simps) auto
    have hyp: "d = rt_maxAttempts opts + 1 - (k + 1)" "k + 1 \<le> rt_maxAttempts opts + 1" using Suc.hyps(2) by simp_all
    from Suc.hyps(1) [OF hyp(1) rest hyp(2)] obtain n where n: "n \<le> rt_maxAttempts opts + 1 - (k + 1) + 1"
      "drive step n (K (k + 1) (Some e)) ?s = finish r (s\<lparr>py_gateway := g, py_slept := ds\<rparr>)" by auto
    have "step (K k le) s = (K (k + 1) (Some e), ?s)" using q k e by (simp add: step)
    then have "drive step (Suc n) (K k le) s = finish r (s\<lparr>py_gateway := g, py_slept := ds\<rparr>)" using n(2) by simp
    moreover have "Suc n \<le> rt_maxAttempts opts + 1 - k + 1" using n(1) hyp by simp
    ultimately show ?thesis by blast
  qed
qed

text \<open>The attempts from the \<open>k\<close>-th on, and how the run goes on with their outcome.\<close>

definition attempts_end ::
    "'d decimal_lib \<Rightarrow> (string \<Rightarrow> string) \<Rightarrow> pay_config \<Rightarrow> pay_call \<Rightarrow> 'd process_command \<Rightarrow> 'd payment \<Rightarrow>
     js_error + string \<Rightarrow> 'd pay_session" where
  "attempts_end D libmsg cfg y c p r =
     (case r of
        Inl e \<Rightarrow> give_up libmsg y p e
      | Inr tx \<Rightarrow> (case markCompleted (yc_now y) tx p of
            Inl e \<Rightarrow> give_up libmsg y (p\<lparr>p_gatewayTransactionId := Some tx\<rparr>) e | Inr p1 \<Rightarrow> Completing p1))"

definition breaker_after :: "pay_config \<Rightarrow> pay_call \<Rightarrow> js_error + string \<Rightarrow> breaker \<Rightarrow> breaker" where
  "breaker_after cfg y r b =
     (case r of Inl e \<Rightarrow> breaker_onFailure (breaker_of cfg) (yc_failed y) e b | Inr tx \<Rightarrow> breaker_onSuccess b)"

lemma drive_attempts:
  assumes "retry_from (retry_of cfg) (yc_random y) (gateway_charge (pc_gateway cfg) (charge_of D c p)) le k (py_gateway s, py_slept s) = (r, (g, ds))"
    and "k \<le> pc_maxAttempts cfg + 1"
  shows "\<exists>n. n \<le> pc_maxAttempts cfg + 1 - k + 1 \<and> drive (session_step D libmsg repo cfg y c) n (Charging p k le) s =
    (attempts_end D libmsg cfg y c p r, with_breaker (breaker_after cfg y r (py_breaker s)) (s\<lparr>py_gateway := g, py_slept := ds\<rparr>))"
proof -
  let ?finish = "\<lambda>r s. (attempts_end D libmsg cfg y c p r, with_breaker (breaker_after cfg y r (py_breaker s)) s)"
  have "session_step D libmsg repo cfg y c (Charging p k le) s =
      (if k \<le> rt_maxAttempts (retry_of cfg) then
         (case gateway_charge (pc_gateway cfg) (charge_of D c p) (py_gateway s) of
            (Inr x, g) \<Rightarrow> ?finish (Inr x) (s\<lparr>py_gateway := g\<rparr>)
          | (Inl e, g) \<Rightarrow>
              if rt_maxAttempts (retry_of cfg) \<le> k \<or> \<not> rt_isRetryable (retry_of cfg) e then ?finish (Inl e) (s\<lparr>py_gateway := g\<rparr>)
              else (Charging p (k + 1) (Some e),
                s\<lparr>py_gateway := g, py_slept := py_slept s @ [backoff_delay (retry_of cfg) (yc_random y k) k]\<rparr>))
       else ?finish (Inl (case le of Some e \<Rightarrow> e | None \<Rightarrow> LibraryError ''undefined'')) s)" for k le s
    by (auto simp: Let_def attempts_end_def breaker_after_def split: sum.split prod.split)
  note steps = retry_steps [where finish = ?finish, OF this assms(1)]
  have max: "rt_maxAttempts (retry_of cfg) = pc_maxAttempts cfg" by (simp add: retry_of_def)
  from steps [unfolded max, OF assms(2)] show ?thesis by simp
qed

lemma give_up_ends:
  assumes "settle_failed libmsg repo y p err s = (r, t)"
  shows "ends (session_step D libmsg repo cfg y c) 1 (give_up libmsg y p err) s (Answered r) t"
proof (cases "markFailed (yc_now y) (failure_reason libmsg err) p")
  case (Inl e)
  with assms show ?thesis
    by (auto simp: give_up_def settle_failed_def bind_eff_def lift_res_def intro: ends_here)
next
  case (Inr p1)
  obtain u s1 where u: "on_pay (pr_update repo (yc_calls y 3) p1) s = (u, s1)" by fastforce
  have "session_step D libmsg repo cfg y c (Failing p1) s = (Answered r, t)"
    using assms Inr u by (cases u) (auto simp: settle_failed_def bind_eff_def lift_res_def recordPaymentResult_def ret_def)
  with Inr show ?thesis unfolding give_up_def by (auto intro: ends_step ends_here)
qed

lemma settle_ends:
  assumes "settle D libmsg repo cfg y c p s = (r, t)"
  shows "ends (session_step D libmsg repo cfg y c) (pc_maxAttempts cfg + 4) (Admitting p) s (Answered r) t"
proof (cases "breaker_admit (yc_admitted y) (py_breaker s)")
  case (Inl e)
  have "charge_through cfg y (charge_of D c p) s = (Inl e, s)" using Inl by (simp add: charge_through_def breaker_execute_def)
  with assms have "settle_failed libmsg repo y p e s = (r, t)" by (simp add: settle_def)
  from give_up_ends [OF this] show ?thesis by (rule ends_step [rotated]) (use Inl in simp_all)
next
  case (Inr b)
  obtain q g ds where q: "retry (retry_of cfg) (yc_random y) (gateway_charge (pc_gateway cfg) (charge_of D c p)) (py_gateway s, py_slept s) = (q, (g, ds))"
    by (metis prod.exhaust)
  let ?b = "breaker_after cfg y q b" and ?g = "s\<lparr>py_gateway := g, py_slept := ds\<rparr>"
  have charged: "charge_through cfg y (charge_of D c p) s = (q, with_breaker ?b ?g)"
    using Inr q by (cases q) (auto simp: charge_through_def breaker_execute_def breaker_after_def with_breaker_def)
  from q have "retry_from (retry_of cfg) (yc_random y) (gateway_charge (pc_gateway cfg) (charge_of D c p)) None 1
      (py_gateway (with_breaker b s), py_slept (with_breaker b s)) = (q, (g, ds))" by (simp add: retry_def with_breaker_def)
  from drive_attempts [OF this] obtain n where n: "n \<le> pc_maxAttempts cfg + 1"
    "drive (session_step D libmsg repo cfg y c) n (Charging p 1 None) (with_breaker b s) =
     (attempts_end D libmsg cfg y c p q, with_breaker (breaker_after cfg y q (py_breaker (with_breaker b s))) ((with_breaker b s)\<lparr>py_gateway := g, py_slept := ds\<rparr>))"
    by auto
  obtain grown where grown: "cb_changes b = cb_changes (py_breaker s) @ grown" using breaker_changes_grow(1) [OF Inr] by blast
  have "\<exists>grown'. cb_changes ?b = cb_changes b @ grown'"
    using breaker_changes_grow(2,3) by (cases q) (simp_all add: breaker_after_def)
  then obtain grown' where grown': "cb_changes ?b = cb_changes b @ grown'" by blast
  have charging: "drive (session_step D libmsg repo cfg y c) n (Charging p 1 None) (with_breaker b s) = (attempts_end D libmsg cfg y c p q, with_breaker ?b ?g)"
    unfolding n(2) with_breaker_twice [OF grown grown', symmetric] by (simp add: with_breaker_def)
  have rest: "ends (session_step D libmsg repo cfg y c) 2 (attempts_end D libmsg cfg y c p q) (with_breaker ?b ?g) (Answered r) t"
  proof (cases q)
    case (Inl e)
    with assms charged have "settle_failed libmsg repo y p e (with_breaker ?b ?g) = (r, t)" by (simp add: settle_def)
    from ends_later [OF give_up_ends [OF this], of 2] Inl show ?thesis by (simp add: attempts_end_def)
  next
    case (Inr tx)
    show ?thesis
    proof (cases "markCompleted (yc_now y) tx p")
      case (Inl e)
      with Inr assms charged have "settle_failed libmsg repo y (p\<lparr>p_gatewayTransactionId := Some tx\<rparr>) e (with_breaker ?b ?g) = (r, t)"
        by (simp add: settle_def)
      from ends_later [OF give_up_ends [OF this], of 2] Inl Inr show ?thesis by (simp add: attempts_end_def)
    next
      case p1: (Inr p1)
      obtain v u where v: "on_pay (pr_update repo (yc_calls y 2) p1) (with_breaker ?b ?g) = (v, u)" by fastforce
      show ?thesis
      proof (cases v)
        case (Inl e)
        with Inr p1 v assms charged have "settle_failed libmsg repo y (snd (pullEvents p1)) e u = (r, t)" by (simp add: settle_def)
        from give_up_ends [OF this] have "ends (session_step D libmsg repo cfg y c) 2 (Completing p1) (with_breaker ?b ?g) (Answered r) t"
          by (rule ends_step [rotated]) (use v Inl in simp_all)
        with Inr p1 show ?thesis by (simp add: attempts_end_def)
      next
        case p2: (Inr p2)
        with Inr p1 v assms charged have "r = Inr (p2, True)" "t = snd (recordPaymentResult True u)"
          by (auto simp: settle_def bind_eff_def recordPaymentResult_def ret_def)
        then have "ends (session_step D libmsg repo cfg y c) 2 (Completing p1) (with_breaker ?b ?g) (Answered r) t"
          by (intro ends_step [OF _ ends_here]) (use v p2 in auto)
        with Inr p1 show ?thesis by (simp add: attempts_end_def)
      qed
    qed
  qed
  have "ends (session_step D libmsg repo cfg y c) (pc_maxAttempts cfg + 3) (Charging p 1 None) (with_breaker b s) (Answered r) t"
    by (rule ends_drive [OF charging rest]) (use n(1) in simp)
  then show ?thesis by (rule ends_step [rotated]) (use Inr in simp_all)
qed

lemma run_alone:
  assumes "ProcessPayment_execute D libmsg repo cfg y c s = (r, t)"
  shows "ends (session_step D libmsg repo cfg y c) (pc_maxAttempts cfg + 7) Finding s (Answered r) t"
proof -
  obtain a s0 where a: "on_pay (pr_findByIdempotencyKey repo (pcm_idempotencyKey c)) s = (a, s0)" by fastforce
  note start = assms [unfolded ProcessPayment_execute_def bind_eff_def a, simplified]
  consider (err) e where "a = Inl e" | (found) p where "a = Inr (Some p)" | (invalid) e where "a = Inr None" "payment_of_command D y c = Inl e"
    | (new) p where "a = Inr None" "payment_of_command D y c = Inr p"
    by (metis option.exhaust sum.exhaust)
  then show ?thesis
  proof cases
    case err
    with start a show ?thesis by (intro ends_step [OF _ ends_here]) auto
  next
    case found
    with start a show ?thesis by (intro ends_step [OF _ ends_here]) (auto simp: ret_def)
  next
    case invalid
    with start a show ?thesis by (intro ends_step [OF _ ends_here]) (auto simp: lift_res_def)
  next
    case (new p)
    obtain u s1 where u: "on_pay (pr_save repo (yc_calls y 0) p) s0 = (u, s1)" by fastforce
    have "ends (session_step D libmsg repo cfg y c) (pc_maxAttempts cfg + 6) (Saving p) s0 (Answered r) t"
    proof (cases "\<exists>p1 p2. u = Inr p1 \<and> markProcessing (yc_now y) p1 = Inr p2")
      case False
      with start new u show ?thesis
        by (intro ends_step [OF _ ends_here]) (auto simp: lift_res_def split: sum.splits)
    next
      case True
      then obtain p1 p2 where p: "u = Inr p1" "markProcessing (yc_now y) p1 = Inr p2" by blast
      obtain v s2 where v: "on_pay (pr_update repo (yc_calls y 1) p2) s1 = (v, s2)" by fastforce
      have "ends (session_step D libmsg repo cfg y c) (pc_maxAttempts cfg + 5) (Marking p2) s1 (Answered r) t"
      proof (cases v)
        case (Inl e)
        with start new u p v show ?thesis by (intro ends_step [OF _ ends_here]) (auto simp: lift_res_def)
      next
        case (Inr p3)
        with start new u p v have "settle D libmsg repo cfg y c p3 s2 = (r, t)" by (simp add: lift_res_def)
        from settle_ends [OF this] show ?thesis by (rule ends_step [rotated]) (use v Inr in simp_all)
      qed
      then show ?thesis by (rule ends_step [rotated]) (use u p in simp_all)
    qed
    then show ?thesis by (rule ends_step [rotated]) (use a new in simp_all)
  qed
qed

section \<open>Runs side by side\<close>

text \<open>\<open>requests\<close> are the commands with what each run draws.\<close>

definition payment_turns ::
    "'d decimal_lib \<Rightarrow> (string \<Rightarrow> string) \<Rightarrow> ('s, 'd) payment_repository \<Rightarrow> pay_config \<Rightarrow> (pay_call \<times> 'd process_command) list \<Rightarrow>
     nat list \<Rightarrow> 's pay_state \<Rightarrow> 'd pay_session list \<times> 's pay_state" where
  "payment_turns D libmsg repo cfg requests turns s =
     run_turns (\<lambda>n. session_step D libmsg repo cfg (fst (requests ! n)) (snd (requests ! n))) turns
       (replicate (length requests) Finding, s)"

section \<open>Every run comes to its end\<close>

text \<open>How many steps a run can still take.\<close>

fun rank :: "nat \<Rightarrow> 'd pay_session \<Rightarrow> nat" where
  "rank M Finding = M + 7"
| "rank M (Saving p) = M + 6"
| "rank M (Marking p) = M + 5"
| "rank M (Admitting p) = M + 4"
| "rank M (Charging p attempt e) = M + 1 - attempt + 3"
| "rank M (Completing p) = 2"
| "rank M (Failing p) = 1"
| "rank M (Answered r) = 0"

lemma rank_give_up: "0 < n \<Longrightarrow> rank M (give_up libmsg y p e) \<le> n"
  by (simp add: give_up_def split: sum.split)

lemma rank_step:
  assumes "session_step D libmsg repo cfg y c q s = (q', s')"
  shows "rank (pc_maxAttempts cfg) q' \<le> rank (pc_maxAttempts cfg) q - 1"
proof (cases q)
  case (Charging p k e)
  let ?M = "pc_maxAttempts cfg"
  obtain u g where u: "gateway_charge (pc_gateway cfg) (charge_of D c p) (py_gateway s) = (u, g)" by fastforce
  have "(\<exists>p e. q' = give_up libmsg y p e) \<or> (\<exists>p1. q' = Completing p1) \<or> (k < ?M \<and> (\<exists>e. q' = Charging p (k + 1) e))"
    using assms Charging u by (auto simp: Let_def retry_of_def split: if_splits sum.splits)
  then show ?thesis
  proof (elim disjE conjE exE)
    fix p e assume "q' = give_up libmsg y p e"
    then show ?thesis by (simp add: Charging rank_give_up)
  qed (simp_all add: Charging)
next
  case (Admitting p)
  with assms show ?thesis by (auto simp: rank_give_up split: sum.splits)
next
  case (Completing p)
  with assms show ?thesis by (auto simp: rank_give_up split: sum.splits prod.splits)
qed (use assms in \<open>auto split: sum.splits prod.splits option.splits\<close>)

lemma turns_length: "payment_turns D libmsg repo cfg requests turns s = (qs, t) \<Longrightarrow> length qs = length requests"
  unfolding payment_turns_def by (drule run_turns_length) simp

lemma turns_answer:
  fixes D :: "'d decimal_lib"
  assumes "payment_turns D libmsg repo cfg requests turns s = (qs, t)" and "n < length requests"
    and "pc_maxAttempts cfg + 7 \<le> count_list turns n"
  shows "\<exists>r. qs ! n = Answered r"
proof -
  let ?step = "\<lambda>n. session_step D libmsg repo cfg (fst (requests ! n)) (snd (requests ! n))"
  let ?start = "replicate (length requests) Finding :: 'd pay_session list"
  have "length qs = length ?start \<and> (\<forall>j<length ?start. rank (pc_maxAttempts cfg) (qs ! j) \<le> rank (pc_maxAttempts cfg) (?start ! j) - count_list turns j)"
    by (rule rank_turns [of ?step "rank (pc_maxAttempts cfg)", OF _ assms(1) [unfolded payment_turns_def]]) (rule rank_step)
  then have "rank (pc_maxAttempts cfg) (qs ! n) \<le> rank (pc_maxAttempts cfg) (?start ! n) - count_list turns n"
    using assms(2) by simp
  then have "rank (pc_maxAttempts cfg) (qs ! n) = 0" using assms(2,3) by simp
  then show ?thesis by (cases "qs ! n") simp_all
qed

section \<open>Payments and charges agree\<close>

text \<open>The stored payment a run has made and works on.\<close>

fun own :: "'d pay_session \<Rightarrow> string option" where
  "own (Marking p) = p_id p"
| "own (Admitting p) = p_id p"
| "own (Charging p k e) = p_id p"
| "own (Completing p) = p_id p"
| "own (Failing p) = p_id p"
| "own _ = None"

text \<open>An aggregate in memory that was loaded from the stored one, and one that is just as stored.\<close>

definition loaded :: "(string \<Rightarrow> 'd payment option) \<Rightarrow> string \<Rightarrow> 'd payment \<Rightarrow> bool" where
  "loaded a k p \<longleftrightarrow> (\<exists>i old. p_id p = Some i \<and> a i = Some old \<and> p_idempotencyKey old = k \<and>
     p_status old \<in> {PS_PENDING, PS_PROCESSING} \<and> payment_from (p_status old) (p_version old) p)"

definition held :: "(string \<Rightarrow> 'd payment option) \<Rightarrow> string \<Rightarrow> 'd payment \<Rightarrow> bool" where
  "held a k p \<longleftrightarrow> (\<exists>i. p_id p = Some i \<and> a i = Some p \<and> p_idempotencyKey p = k \<and> p_events p = [] \<and> p_status p = PS_PROCESSING)"

text \<open>What a run of a command with key \<open>k\<close> has reached; \<open>keys\<close> are those of the charges made.\<close>

fun session_ok :: "(string \<Rightarrow> 'd payment option) \<Rightarrow> string \<Rightarrow> string list \<Rightarrow> 'd pay_session \<Rightarrow> bool" where
  "session_ok a k keys Finding = True"
| "session_ok a k keys (Saving p) = (p_events p = [] \<and> p_status p = PS_PENDING \<and> p_version p = 1 \<and> p_idempotencyKey p = k)"
| "session_ok a k keys (Marking p) = (loaded a k p \<and> p_status p = PS_PROCESSING \<and> k \<notin> set keys)"
| "session_ok a k keys (Admitting p) = (held a k p \<and> k \<notin> set keys)"
| "session_ok a k keys (Charging p n e) = (held a k p \<and> k \<notin> set keys)"
| "session_ok a k keys (Completing p) = (loaded a k p \<and> p_status p = PS_COMPLETED \<and> k \<in> set keys)"
| "session_ok a k keys (Failing p) = (loaded a k p \<and> p_status p = PS_FAILED \<and> k \<notin> set keys)"
| "session_ok a k keys (Answered (Inl e)) = True"
| "session_ok a k keys (Answered (Inr (p, success))) =
     (success = (p_status p = PS_COMPLETED) \<and> p_idempotencyKey p = k \<and> (success \<longrightarrow> k \<in> set keys))"

text \<open>Payments and charges agree: one charge at most per key, each for a stored payment; a completed
  payment is charged, a failed one is not.\<close>

definition books_ok :: "(string \<Rightarrow> 'd payment option) \<Rightarrow> string list \<Rightarrow> bool" where
  "books_ok a keys \<longleftrightarrow> distinct keys \<and> (\<forall>k\<in>set keys. has_key a k) \<and>
     (\<forall>i p. a i = Some p \<longrightarrow> (p_status p = PS_COMPLETED \<longrightarrow> p_idempotencyKey p \<in> set keys) \<and>
        (p_status p \<in> {PS_PENDING, PS_FAILED} \<longrightarrow> p_idempotencyKey p \<notin> set keys))"

definition charged_keys :: "'s pay_state \<Rightarrow> string list" where
  "charged_keys s = map cr_idempotencyKey (gw_charges (py_gateway s))"

text \<open>What one step can do to payments, charges and the run's own payment.\<close>

inductive moves ::
    "string \<Rightarrow> (string \<Rightarrow> 'd payment option) \<Rightarrow> string list \<Rightarrow> string option \<Rightarrow>
     (string \<Rightarrow> 'd payment option) \<Rightarrow> string list \<Rightarrow> string option \<Rightarrow> bool" for k a keys where
  moves_none: "o' = o1 \<or> o' = None \<Longrightarrow> moves k a keys o1 a keys o'"
| moves_new: "a i = None \<Longrightarrow> p_idempotencyKey p = k \<Longrightarrow> p_status p = PS_PENDING \<Longrightarrow> k \<notin> set keys \<Longrightarrow> o' = Some i \<or> o' = None \<Longrightarrow>
    moves k a keys None (a(i \<mapsto> p)) keys o'"
| moves_write: "a i = Some old \<Longrightarrow> p_idempotencyKey old = k \<Longrightarrow> p_idempotencyKey p = k \<Longrightarrow>
    (p_status p = PS_COMPLETED \<longrightarrow> k \<in> set keys) \<Longrightarrow> (p_status p \<in> {PS_PENDING, PS_FAILED} \<longrightarrow> k \<notin> set keys) \<Longrightarrow>
    o' = Some i \<or> o' = None \<Longrightarrow> moves k a keys (Some i) (a(i \<mapsto> p)) keys o'"
| moves_charge: "a i = Some p \<Longrightarrow> p_idempotencyKey p = k \<Longrightarrow> p_status p = PS_PROCESSING \<Longrightarrow> k \<notin> set keys \<Longrightarrow>
    moves k a keys (Some i) a (keys @ [k]) (Some i)"

lemma session_ok_answered:
  "session_ok a k keys (Answered r) = (case r of Inl e \<Rightarrow> True | Inr (p, success) \<Rightarrow>
     success = (p_status p = PS_COMPLETED) \<and> p_idempotencyKey p = k \<and> (success \<longrightarrow> k \<in> set keys))"
  by (cases r) auto

lemma own_stored: "session_ok a k keys q \<Longrightarrow> own q = Some i \<Longrightarrow> \<exists>p. a i = Some p \<and> p_idempotencyKey p = k"
  by (cases q) (auto simp: session_ok_answered loaded_def held_def)

lemma session_ok_frame:
  assumes "session_ok a k keys q" and "\<And>j. own q = Some j \<Longrightarrow> a' j = a j"
  shows "session_ok a' k keys q"
  using assms by (cases q) (auto simp: session_ok_answered loaded_def held_def)

context payment_store
begin

abbreviation unique_keys :: "(string \<Rightarrow> 'd payment option) \<Rightarrow> bool" where
  "unique_keys a \<equiv> \<forall>i j p q. a i = Some p \<longrightarrow> a j = Some q \<longrightarrow> p_idempotencyKey p = p_idempotencyKey q \<longrightarrow> i = j"

lemma inv_unique: "inv s \<Longrightarrow> unique_keys (abs s)"
  using abs_key by blast

text \<open>The books stay in order.\<close>

lemma moves_books:
  assumes "moves k a keys o1 a' keys' o'" and "books_ok a keys" and "unique_keys a" "unique_keys a'"
  shows "books_ok a' keys'"
  using assms(1)
proof cases
  case moves_none
  with assms(2) show ?thesis by simp
next
  case (moves_new i p)
  have "has_key a' x" if "has_key a x" for x
    using that moves_new unfolding has_key_def by (metis fun_upd_apply option.discI)
  with moves_new assms(2) show ?thesis by (auto simp: books_ok_def)
next
  case (moves_write i old p)
  have "has_key a' x" if "has_key a x" for x
    using that has_key_upd [of a i old p] moves_write by simp
  with moves_write assms(2) show ?thesis by (auto simp: books_ok_def)
next
  case (moves_charge i p)
  have "p_idempotencyKey q \<noteq> k" if "a j = Some q" "p_status q \<in> {PS_PENDING, PS_FAILED}" for j q
  proof
    assume "p_idempotencyKey q = k"
    with assms(3) that(1) moves_charge have "j = i" by metis
    with that moves_charge show False by auto
  qed
  moreover have "has_key a k" using moves_charge by (auto simp: has_key_def)
  ultimately show ?thesis using moves_charge assms(2) by (auto simp: books_ok_def)
qed

text \<open>The other runs are not disturbed.\<close>

lemma moves_frame:
  assumes "moves k a keys o1 a' keys' o'" and "unique_keys a" and "session_ok a k2 keys q" and "own q = None \<or> own q \<noteq> o1"
  shows "session_ok a' k2 keys' q"
  using assms(1)
proof cases
  case moves_none
  with assms(3) show ?thesis by simp
next
  case (moves_new i p)
  have "own q \<noteq> Some i" using own_stored [OF assms(3)] moves_new by fastforce
  with assms(3) moves_new show ?thesis by (auto intro: session_ok_frame)
next
  case (moves_write i old p)
  with assms(3,4) show ?thesis by (auto intro: session_ok_frame)
next
  case (moves_charge i p)
  have "k2 \<noteq> k" if "own q = Some j" for j
    using own_stored [OF assms(3) that] assms(2,4) moves_charge that by (metis option.discI)
  with assms(3) moves_charge show ?thesis by (cases q) (auto simp: session_ok_answered loaded_def held_def split: sum.splits prod.splits)
qed

text \<open>Every step is one of the moves and keeps what the run has reached.\<close>

lemma give_up_ok:
  assumes "held a k p" and "k \<notin> set keys"
  shows "session_ok a k keys (give_up libmsg y p e) \<and> (own (give_up libmsg y p e) = p_id p \<or> own (give_up libmsg y p e) = None)"
proof (cases "markFailed (yc_now y) (failure_reason libmsg e) p")
  case (Inr p1)
  obtain i where i: "p_id p = Some i" "a i = Some p" "p_idempotencyKey p = k" "p_status p = PS_PROCESSING" "p_events p = []"
    using assms(1) by (auto simp: held_def)
  have p1: "p_status p1 = PS_FAILED" "p_id p1 = Some i"
    using Inr i by (auto simp: markFailed_def payment_transitionTo_Inr)
  have "payment_from (p_status p) (p_version p) p" using i by (simp add: payment_from_def)
  from payment_from_marks(3) [OF this Inr] have "loaded a k p1" unfolding loaded_def using i p1 by auto
  with p1 i assms(2) show ?thesis by (simp add: give_up_def Inr)
qed (simp add: give_up_def)

lemma loaded_update:
  assumes "inv s" and "loaded (abs s) k p" and "pr_update repo cx p s = (Inr q, t)"
    and "p_status p = PS_COMPLETED \<longrightarrow> k \<in> set keys" "p_status p \<in> {PS_PENDING, PS_FAILED} \<longrightarrow> k \<notin> set keys"
  shows "inv t \<and> p_status q = p_status p \<and> p_idempotencyKey q = k \<and> abs t (the (p_id p)) = Some q \<and> p_id q = p_id p \<and> p_events q = [] \<and>
    (\<forall>o'. o' = p_id p \<or> o' = None \<longrightarrow> moves k (abs s) keys (p_id p) (abs t) keys o')"
proof -
  from assms(2) obtain i old where i: "p_id p = Some i" "abs s i = Some old" "p_idempotencyKey old = k"
    "payment_from (p_status old) (p_version old) p" by (auto simp: loaded_def)
  note u = update_ok [OF assms(1) i(1,2,4) assms(3)]
  have "moves k (abs s) keys (Some i) ((abs s)(i \<mapsto> q)) keys o'" if "o' = Some i \<or> o' = None" for o'
    by (rule moves_write [of "abs s" i old k q keys o']) (use u i assms(4,5) that in simp_all)
  with u i abs_id [OF assms(1) i(2)] show ?thesis by simp
qed

lemma session_moves:
  assumes inv: "inv (py_store s)" and books: "books_ok (abs (py_store s)) (charged_keys s)"
    and ok: "session_ok (abs (py_store s)) (pcm_idempotencyKey c) (charged_keys s) q"
    and step: "session_step D libmsg repo cfg y c q s = (q', s')"
  shows "inv (py_store s') \<and>
    moves (pcm_idempotencyKey c) (abs (py_store s)) (charged_keys s) (own q) (abs (py_store s')) (charged_keys s') (own q') \<and>
    session_ok (abs (py_store s')) (pcm_idempotencyKey c) (charged_keys s') q'"
proof (cases q)
  case Finding
  from inv show ?thesis
  proof (cases rule: key_cases [where k = "pcm_idempotencyKey c"])
    case absent
    have "session_ok (abs (py_store s)) (pcm_idempotencyKey c) (charged_keys s) (Saving p)" if "payment_of_command D y c = Inr p" for p
      using that by (auto simp: payment_of_command_def newPayment_def split: sum.splits if_splits)
    with step absent Finding inv show ?thesis
      by (auto simp: on_pay_def charged_keys_def intro: moves_none split: sum.splits)
  next
    case (present i p)
    have "p_status p = PS_COMPLETED \<longrightarrow> pcm_idempotencyKey c \<in> set (charged_keys s)"
      using books present unfolding books_ok_def by metis
    with step Finding inv present show ?thesis by (auto simp: on_pay_def charged_keys_def intro: moves_none)
  qed
next
  case (Saving p)
  then have p: "p_events p = []" "p_status p = PS_PENDING" "p_version p = 1" "p_idempotencyKey p = pcm_idempotencyKey c" using ok by simp_all
  obtain u t where u: "pr_save repo (yc_calls y 0) p (py_store s) = (u, t)" by fastforce
  show ?thesis
  proof (cases u)
    case (Inl e)
    with u save_err have "t = py_store s" by blast
    with step Saving u Inl inv show ?thesis by (auto simp: on_pay_def charged_keys_def intro: moves_none)
  next
    case (Inr p1)
    note saved = save_ok [OF inv p(1-3) u [unfolded Inr]]
    from saved obtain i where i: "p_id p1 = Some i" "abs (py_store s) i = None" "abs t = (abs (py_store s))(i \<mapsto> p1)" by blast
    have f: "inv t" "p_idempotencyKey p1 = pcm_idempotencyKey c" "p_status p1 = PS_PENDING" "p_events p1 = []" "p_version p1 = 1"
      using saved p(4) by simp_all
    obtain p2 where p2: "markProcessing (yc_now y) p1 = Inr p2"
      using f by (auto simp: markProcessing_def payment_transitionTo_def payment_canTransition_def)
    have st2: "p_status p2 = PS_PROCESSING" "p_id p2 = Some i"
      using p2 i(1) by (auto simp: markProcessing_def payment_transitionTo_Inr)
    have "payment_from (p_status p1) (p_version p1) p1" using f by (simp add: payment_from_def)
    from payment_from_marks(1) [OF this p2] have l: "loaded (abs t) (pcm_idempotencyKey c) p2"
      unfolding loaded_def using i(1,3) f(2,3) st2 by simp
    have new: "pcm_idempotencyKey c \<notin> set (charged_keys s)"
    proof
      assume "pcm_idempotencyKey c \<in> set (charged_keys s)"
      with books obtain j r where j: "abs (py_store s) j = Some r" "p_idempotencyKey r = pcm_idempotencyKey c"
        by (auto simp: books_ok_def has_key_def)
      then have "j \<noteq> i" using i(2) by auto
      with i(3) j(1) have "abs t j = Some r" "abs t i = Some p1" by simp_all
      from abs_key [OF f(1) this] j(2) f(2) \<open>j \<noteq> i\<close> show False by simp
    qed
    have "s' = s\<lparr>py_store := t\<rparr>" "q' = Marking p2" using step Saving u Inr p2 by (simp_all add: on_pay_def)
    with l st2 f i new show ?thesis by (auto simp: charged_keys_def Saving intro: moves_new)
  qed
next
  case (Marking p)
  obtain u t where u: "pr_update repo (yc_calls y 1) p (py_store s) = (u, t)" by fastforce
  show ?thesis
  proof (cases u)
    case (Inl e)
    with u update_err have "t = py_store s" by blast
    with step Marking u Inl inv show ?thesis by (auto simp: on_pay_def charged_keys_def intro: moves_none)
  next
    case (Inr p1)
    note l = loaded_update [OF inv _ u [unfolded Inr], of "pcm_idempotencyKey c" "charged_keys s"]
    have "s' = s\<lparr>py_store := t\<rparr>" "q' = Admitting p1" using step Marking u Inr by (simp_all add: on_pay_def)
    with l ok Marking show ?thesis by (auto simp: charged_keys_def held_def loaded_def)
  qed
next
  case (Admitting p)
  show ?thesis
  proof (cases "breaker_admit (yc_admitted y) (py_breaker s)")
    case (Inl e)
    with give_up_ok [of _ _ p "charged_keys s" libmsg y e] step Admitting ok inv show ?thesis by (auto intro: moves_none)
  next
    case (Inr b)
    with step Admitting ok inv show ?thesis by (auto simp: with_breaker_def charged_keys_def intro: moves_none)
  qed
next
  case (Charging p n e)
  then have p: "held (abs (py_store s)) (pcm_idempotencyKey c) p" "pcm_idempotencyKey c \<notin> set (charged_keys s)" using ok by simp_all
  have gave_up: "session_ok (abs (py_store s)) (pcm_idempotencyKey c) (charged_keys s) (give_up libmsg y p e)"
    "moves (pcm_idempotencyKey c) (abs (py_store s)) (charged_keys s) (p_id p) (abs (py_store s)) (charged_keys s) (own (give_up libmsg y p e))" for e
    using give_up_ok [OF p, of libmsg y e] by (blast intro: moves_none)+
  obtain u g where u: "gateway_charge (pc_gateway cfg) (charge_of D c p) (py_gateway s) = (u, g)" by fastforce
  note charged = gateway_charge_log [OF u]
  show ?thesis
  proof (cases "n \<le> rt_maxAttempts (retry_of cfg) \<and> (\<exists>tx. u = Inr tx)")
    case True
    then obtain tx where tx: "u = Inr tx" by blast
    obtain i where i: "p_id p = Some i" "abs (py_store s) i = Some p" "p_idempotencyKey p = pcm_idempotencyKey c" "p_events p = []"
      "p_status p = PS_PROCESSING" using p(1) by (auto simp: held_def)
    obtain p1 where m: "markCompleted (yc_now y) tx p = Inr p1"
      using i by (auto simp: markCompleted_def payment_transitionTo_def payment_canTransition_def)
    then have p1: "p_status p1 = PS_COMPLETED" "p_id p1 = Some i"
      using i by (auto simp: markCompleted_def payment_transitionTo_Inr)
    have "payment_from (p_status p) (p_version p) p" using i by (simp add: payment_from_def)
    from payment_from_marks(2) [OF this m] have l: "loaded (abs (py_store s)) (pcm_idempotencyKey c) p1"
      unfolding loaded_def using i p1 by auto
    have "q' = Completing p1" "py_store s' = py_store s" "charged_keys s' = charged_keys s @ [pcm_idempotencyKey c]"
      using step Charging True u tx m charged by (auto simp: Let_def with_breaker_def charged_keys_def charge_of_def)
    with l p1 i inv p(2) show ?thesis by (auto simp: Charging intro: moves_charge)
  next
    case False
    then have "py_store s' = py_store s" "charged_keys s' = charged_keys s" "(\<exists>e. q' = give_up libmsg y p e) \<or> (\<exists>n e. q' = Charging p n e)"
      using step Charging u charged by (auto simp: Let_def with_breaker_def charged_keys_def split: if_splits sum.splits)
    with gave_up p inv show ?thesis by (auto simp: Charging intro: moves_none)
  qed
next
  case (Completing p)
  obtain u t where u: "pr_update repo (yc_calls y 2) p (py_store s) = (u, t)" by fastforce
  show ?thesis
  proof (cases u)
    case (Inl e)
    with u update_err have t: "t = py_store s" by blast
    have "\<exists>e'. give_up libmsg y (snd (pullEvents p)) e = Answered (Inl e')"
      using ok Completing by (auto simp: give_up_def pullEvents_def markFailed_def payment_transitionTo_def payment_canTransition_def)
    with step Completing u Inl t inv show ?thesis by (auto simp: on_pay_def charged_keys_def intro: moves_none)
  next
    case (Inr p1)
    note l = loaded_update [OF inv _ u [unfolded Inr], of "pcm_idempotencyKey c" "charged_keys s"]
    have "q' = Answered (Inr (p1, True))" "py_store s' = t" "charged_keys s' = charged_keys s"
      using step Completing u Inr by (auto simp: on_pay_def recordPaymentResult_def charged_keys_def)
    with l ok Completing show ?thesis by auto
  qed
next
  case (Failing p)
  obtain u t where u: "pr_update repo (yc_calls y 3) p (py_store s) = (u, t)" by fastforce
  show ?thesis
  proof (cases u)
    case (Inl e)
    with u update_err have t: "t = py_store s" by blast
    with step Failing u Inl inv show ?thesis by (auto simp: on_pay_def charged_keys_def intro: moves_none)
  next
    case (Inr p1)
    note l = loaded_update [OF inv _ u [unfolded Inr], of "pcm_idempotencyKey c" "charged_keys s"]
    have "q' = Answered (Inr (p1, False))" "py_store s' = t" "charged_keys s' = charged_keys s"
      using step Failing u Inr by (auto simp: on_pay_def recordPaymentResult_def charged_keys_def)
    with l ok Failing show ?thesis by auto
  qed
next
  case (Answered r)
  with step ok inv show ?thesis by (auto intro: moves_none)
qed

lemma moves_own: "moves k a keys o1 a' keys' o' \<Longrightarrow> o' = o1 \<or> o' = None \<or> (\<exists>i. o' = Some i \<and> a i = None)"
  by (auto elim: moves.cases)

text \<open>No two runs work on one payment.\<close>

lemma moves_apart:
  assumes "moves k a keys (own q) a' keys' (own q')" and "session_ok a k2 keys q2" and "own q = None \<or> own q \<noteq> own q2"
  shows "own q' = None \<or> own q' \<noteq> own q2"
  using moves_own [OF assms(1)]
proof (elim disjE exE conjE)
  assume "own q' = own q"
  with assms(3) show ?thesis by simp
next
  fix i assume i: "own q' = Some i" "a i = None"
  have "own q2 \<noteq> Some i" using own_stored [OF assms(2), of i] i(2) by auto
  with i(1) show ?thesis by auto
qed simp

end

interpretation payment_runs: side_by_side
  "\<lambda>n. session_step D libmsg (KnexPaymentRepository E D) cfg (fst (requests ! n)) (snd (requests ! n))"
  "\<lambda>s. payment_db_ok E D (py_store s) \<and> books_ok (payment_db_abs D (py_store s)) (charged_keys s)"
  "\<lambda>n s. session_ok (payment_db_abs D (py_store s)) (pcm_idempotencyKey (snd (requests ! n))) (charged_keys s)"
  "\<lambda>q q2. own q = None \<or> own q \<noteq> own q2"
  for E :: sql_env and D :: "'d decimal_lib" and libmsg cfg and requests :: "(pay_call \<times> 'd process_command) list"
proof (unfold_locales, goal_cases)
  case (1 s n q q' s')
  note m = knex_payments.session_moves [OF conjunct1 [OF 1(1)] conjunct2 [OF 1(1)] 1(2,3)]
  have "books_ok (payment_db_abs D (py_store s')) (charged_keys s')"
    by (rule knex_payments.moves_books [OF conjunct1 [OF conjunct2 [OF m]] conjunct2 [OF 1(1)]
        knex_payments.inv_unique [OF conjunct1 [OF 1(1)]] knex_payments.inv_unique [OF conjunct1 [OF m]]])
  with m show ?case by simp
next
  case (2 s n q q' s' m q2)
  note m = knex_payments.session_moves [OF conjunct1 [OF 2(1)] conjunct2 [OF 2(1)] 2(2,3)]
  have apart: "own q2 = None \<or> own q2 \<noteq> own q" using 2(5) by auto
  note step = conjunct1 [OF conjunct2 [OF m]]
  show ?case
    using knex_payments.moves_frame [OF step knex_payments.inv_unique [OF conjunct1 [OF 2(1)]] 2(4) apart]
      knex_payments.moves_apart [OF step 2(4,5)] by (rule conjI)
qed auto

end
