(* ===== verification/Refund_Interleaving.thy ===== *)
theory Refund_Interleaving
  imports Payment_Interleaving
begin

text \<open>
  Refunds that run at the same time: \<open>RefundHandler.execute\<close> cut at its awaits, over any store of
  payments and refunds that keeps the contract \<open>refund_store\<close>.  The database never records two
  refunds of one payment; the gateway is asked before the database decides, so it can be asked twice.
\<close>

section \<open>A run of the handler, step by step\<close>

datatype 'd refund_session =
    Looking
  | Repeating refund_record
  | Loading
  | Refunding "'d payment" nat "js_error option"
  | Storing "'d payment" string
  | Recording "'d payment" string
  | Refunded "js_error + 'd payment \<times> refund_record"

definition refund_request :: "'d decimal_lib \<Rightarrow> refund_command \<Rightarrow> 'd payment \<Rightarrow> charge_request" where
  "refund_request D c p = \<lparr>cr_amount = money_fixed D (p_amount p), cr_currency = m_currency (p_amount p),
     cr_idempotencyKey = rc_idempotencyKey c\<rparr>"

definition refund_failed :: "(string \<Rightarrow> string) \<Rightarrow> js_error \<Rightarrow> 'd refund_session" where
  "refund_failed libmsg err = Refunded (Inl (app_err ExternalServiceError (''Refund failed: '' @ error_message libmsg err)))"

text \<open>The gateway has confirmed: the marks up to the \<open>update\<close>.\<close>

definition mark_refund :: "pay_call \<Rightarrow> 'd payment \<Rightarrow> string \<Rightarrow> 'd refund_session" where
  "mark_refund y p refundId =
     (case requestRefund (yc_now y) p of
        Inl e \<Rightarrow> Refunded (Inl e)
      | Inr p1 \<Rightarrow> (case markRefunded (yc_now y) refundId p1 of Inl e \<Rightarrow> Refunded (Inl e) | Inr p2 \<Rightarrow> Storing p2 refundId))"

fun refund_step ::
    "'d decimal_lib \<Rightarrow> (string \<Rightarrow> string) \<Rightarrow> ('s, 'd) payment_repository \<Rightarrow> 's refund_repository \<Rightarrow> pay_config \<Rightarrow> pay_call \<Rightarrow>
     refund_command \<Rightarrow> 'd refund_session \<Rightarrow> 's pay_state \<Rightarrow> 'd refund_session \<times> 's pay_state" where
  "refund_step D libmsg repo refunds cfg y c Looking s =
     (case on_pay (rf_findByIdempotencyKey refunds (rc_idempotencyKey c)) s of
        (Inl e, t) \<Rightarrow> (Refunded (Inl e), t)
      | (Inr (Some r), t) \<Rightarrow> (Repeating r, t)
      | (Inr None, t) \<Rightarrow> (Loading, t))"
| "refund_step D libmsg repo refunds cfg y c (Repeating r) s =
     (case on_pay (pr_findById repo (fr_paymentId r)) s of
        (Inl e, t) \<Rightarrow> (Refunded (Inl e), t)
      | (Inr None, t) \<Rightarrow> (Refunded (Inl (app_err NotFoundError (''Payment '' @ fr_paymentId r @ '' not found''))), t)
      | (Inr (Some p), t) \<Rightarrow> (Refunded (Inr (p, r)), t))"
| "refund_step D libmsg repo refunds cfg y c Loading s =
     (case on_pay (pr_findById repo (rc_paymentId c)) s of
        (Inl e, t) \<Rightarrow> (Refunded (Inl e), t)
      | (Inr None, t) \<Rightarrow> (Refunded (Inl (payment_missing (rc_paymentId c))), t)
      | (Inr (Some p), t) \<Rightarrow> (if p_status p \<noteq> PS_COMPLETED then Refunded (Inl (not_completed p)) else Refunding p 1 None, t))"
| "refund_step D libmsg repo refunds cfg y c (Refunding p attempt lastError) s =
     (let opts = retry_of cfg in
      if attempt \<le> rt_maxAttempts opts then
        (case gateway_refund (pc_gateway cfg) (opt_text (p_gatewayTransactionId p)) (refund_request D c p) (py_gateway s) of
           (Inr refundId, g) \<Rightarrow> (mark_refund y p refundId, s\<lparr>py_gateway := g\<rparr>)
         | (Inl e, g) \<Rightarrow>
             if rt_maxAttempts opts \<le> attempt \<or> \<not> rt_isRetryable opts e then (refund_failed libmsg e, s\<lparr>py_gateway := g\<rparr>)
             else (Refunding p (attempt + 1) (Some e),
               s\<lparr>py_gateway := g, py_slept := py_slept s @ [backoff_delay opts (yc_random y attempt) attempt]\<rparr>))
      else (refund_failed libmsg (case lastError of Some e \<Rightarrow> e | None \<Rightarrow> LibraryError ''undefined''), s))"
| "refund_step D libmsg repo refunds cfg y c (Storing p refundId) s =
     (case on_pay (pr_update repo (yc_calls y 0) p) s of
        (Inl e, t) \<Rightarrow> (Refunded (Inl e), t) | (Inr _, t) \<Rightarrow> (Recording p refundId, t))"
| "refund_step D libmsg repo refunds cfg y c (Recording p refundId) s =
     (case on_pay (rf_save refunds (yc_calls y 1)
             \<lparr>nf_paymentId = opt_text (p_id p), nf_amount = money_fixed D (p_amount p), nf_currency = m_currency (p_amount p),
              nf_status = ''COMPLETED'', nf_gatewayRefundId = Some refundId, nf_idempotencyKey = rc_idempotencyKey c,
              nf_reason = rc_reason c\<rparr>) s of
        (Inl e, t) \<Rightarrow> (Refunded (Inl e), t) | (Inr r, t) \<Rightarrow> (Refunded (Inr (snd (pullEvents p), r)), t))"
| "refund_step D libmsg repo refunds cfg y c (Refunded r) s = (Refunded r, s)"

section \<open>A run alone is the handler\<close>

lemma refunding_ends:
  assumes "refund_through cfg y (opt_text (p_gatewayTransactionId p)) (refund_request D c p) s = (r, t)"
    and "ends (refund_step D libmsg repo refunds cfg y c) n
      (case r of Inl e \<Rightarrow> refund_failed libmsg e | Inr refundId \<Rightarrow> mark_refund y p refundId) t q' t'"
  shows "ends (refund_step D libmsg repo refunds cfg y c) (pc_maxAttempts cfg + 1 + n) (Refunding p 1 None) s q' t'"
proof -
  let ?finish = "\<lambda>r s. (case r of Inl e \<Rightarrow> refund_failed libmsg e | Inr refundId \<Rightarrow> mark_refund y p refundId, s)"
  let ?fn = "gateway_refund (pc_gateway cfg) (opt_text (p_gatewayTransactionId p)) (refund_request D c p)"
  obtain g ds where g: "retry_from (retry_of cfg) (yc_random y) ?fn None 1 (py_gateway s, py_slept s) = (r, (g, ds))"
    and t: "t = s\<lparr>py_gateway := g, py_slept := ds\<rparr>"
    using assms(1) by (auto simp: refund_through_def retry_def split: prod.splits)
  have "refund_step D libmsg repo refunds cfg y c (Refunding p k le) s =
      (if k \<le> rt_maxAttempts (retry_of cfg) then
         (case ?fn (py_gateway s) of
            (Inr x, g) \<Rightarrow> ?finish (Inr x) (s\<lparr>py_gateway := g\<rparr>)
          | (Inl e, g) \<Rightarrow>
              if rt_maxAttempts (retry_of cfg) \<le> k \<or> \<not> rt_isRetryable (retry_of cfg) e then ?finish (Inl e) (s\<lparr>py_gateway := g\<rparr>)
              else (Refunding p (k + 1) (Some e),
                s\<lparr>py_gateway := g, py_slept := py_slept s @ [backoff_delay (retry_of cfg) (yc_random y k) k]\<rparr>))
       else ?finish (Inl (case le of Some e \<Rightarrow> e | None \<Rightarrow> LibraryError ''undefined'')) s)" for k le s
    by (auto simp: Let_def split: sum.split prod.split)
  from retry_steps [where finish = ?finish, OF this g] obtain m where
    m: "m \<le> rt_maxAttempts (retry_of cfg) + 1" "drive (refund_step D libmsg repo refunds cfg y c) m (Refunding p 1 None) s = ?finish r t"
    unfolding t by auto
  show ?thesis by (rule ends_drive [OF m(2) assms(2)]) (use m(1) in \<open>simp add: retry_of_def\<close>)
qed

lemma refund_alone:
  assumes "Refund_execute D libmsg repo refunds cfg y c s = (r, t)"
  shows "ends (refund_step D libmsg repo refunds cfg y c) (pc_maxAttempts cfg + 6) Looking s (Refunded r) t"
proof -
  obtain a s0 where a: "on_pay (rf_findByIdempotencyKey refunds (rc_idempotencyKey c)) s = (a, s0)" by fastforce
  note start = assms [unfolded Refund_execute_def bind_eff_def a, simplified]
  consider (err) e where "a = Inl e" | (again) x where "a = Inr (Some x)" | (new) "a = Inr None"
    by (metis option.exhaust sum.exhaust)
  then show ?thesis
  proof cases
    case err
    with start a show ?thesis by (intro ends_step [OF _ ends_here]) auto
  next
    case (again x)
    obtain b s1 where b: "on_pay (pr_findById repo (fr_paymentId x)) s0 = (b, s1)" by fastforce
    have "ends (refund_step D libmsg repo refunds cfg y c) 1 (Repeating x) s0 (Refunded r) t"
      using start again b by (intro ends_step [OF _ ends_here]) (auto simp: throw_def ret_def split: sum.splits option.splits)
    then show ?thesis by (rule ends_step [rotated]) (use a again in simp_all)
  next
    case new
    obtain b s1 where b: "on_pay (pr_findById repo (rc_paymentId c)) s0 = (b, s1)" by fastforce
    have "ends (refund_step D libmsg repo refunds cfg y c) (pc_maxAttempts cfg + 5) Loading s0 (Refunded r) t"
    proof (cases "\<exists>p. b = Inr (Some p) \<and> p_status p = PS_COMPLETED")
      case False
      with start new b show ?thesis
        by (intro ends_step [OF _ ends_here]) (auto simp: throw_def split: sum.splits option.splits)
    next
      case True
      then obtain p where p: "b = Inr (Some p)" "p_status p = PS_COMPLETED" by blast
      obtain u s2 where u: "refund_through cfg y (opt_text (p_gatewayTransactionId p)) (refund_request D c p) s1 = (u, s2)" by fastforce
      note go = start [unfolded new, simplified, unfolded b p(1), simplified, simplified p(2), simplified,
          unfolded catch_eff_def refund_request_def [symmetric] u, simplified]
      have "ends (refund_step D libmsg repo refunds cfg y c) 2
          (case u of Inl e \<Rightarrow> refund_failed libmsg e | Inr refundId \<Rightarrow> mark_refund y p refundId) s2 (Refunded r) t"
      proof (cases "\<exists>rid p1 p2. u = Inr rid \<and> requestRefund (yc_now y) p = Inr p1 \<and> markRefunded (yc_now y) rid p1 = Inr p2")
        case False
        with go have "(case u of Inl e \<Rightarrow> refund_failed libmsg e | Inr refundId \<Rightarrow> mark_refund y p refundId) = Refunded r \<and> t = s2"
          by (auto simp: refund_failed_def mark_refund_def lift_res_def throw_def split: sum.splits)
        then show ?thesis by (auto intro: ends_here)
      next
        case True
        then obtain rid p1 p2 where m: "u = Inr rid" "requestRefund (yc_now y) p = Inr p1" "markRefunded (yc_now y) rid p1 = Inr p2" by blast
        obtain v s3 where v: "on_pay (pr_update repo (yc_calls y 0) p2) s2 = (v, s3)" by fastforce
        have "ends (refund_step D libmsg repo refunds cfg y c) 2 (Storing p2 rid) s2 (Refunded r) t"
        proof (cases v)
          case (Inl e)
          with go m v show ?thesis by (intro ends_step [OF _ ends_here]) (auto simp: lift_res_def)
        next
          case (Inr w)
          have "ends (refund_step D libmsg repo refunds cfg y c) 1 (Recording p2 rid) s3 (Refunded r) t"
            using go m v Inr by (intro ends_step [OF _ ends_here]) (auto simp: lift_res_def ret_def split: sum.splits prod.splits)
          then show ?thesis by (rule ends_step [rotated]) (use v Inr in simp_all)
        qed
        with m show ?thesis by (simp add: mark_refund_def)
      qed
      from refunding_ends [OF u this]
      have "ends (refund_step D libmsg repo refunds cfg y c) (pc_maxAttempts cfg + 4) (Refunding p 1 None) s1 (Refunded r) t"
        by (rule ends_later) simp
      then show ?thesis by (rule ends_step [rotated]) (use b p in simp_all)
    qed
    then show ?thesis by (rule ends_step [rotated]) (use a new in simp_all)
  qed
qed

section \<open>Runs side by side\<close>

definition refund_turns ::
    "'d decimal_lib \<Rightarrow> (string \<Rightarrow> string) \<Rightarrow> ('s, 'd) payment_repository \<Rightarrow> 's refund_repository \<Rightarrow> pay_config \<Rightarrow>
     (pay_call \<times> refund_command) list \<Rightarrow> nat list \<Rightarrow> 's pay_state \<Rightarrow> 'd refund_session list \<times> 's pay_state" where
  "refund_turns D libmsg repo refunds cfg requests turns s =
     run_turns (\<lambda>n. refund_step D libmsg repo refunds cfg (fst (requests ! n)) (snd (requests ! n))) turns
       (replicate (length requests) Looking, s)"

lemma refund_turns_length: "refund_turns D libmsg repo refunds cfg requests turns s = (qs, t) \<Longrightarrow> length qs = length requests"
  unfolding refund_turns_def by (drule run_turns_length) simp

text \<open>Every run comes to its end.\<close>

fun refund_rank :: "nat \<Rightarrow> 'd refund_session \<Rightarrow> nat" where
  "refund_rank M Looking = M + 6"
| "refund_rank M (Repeating r) = 1"
| "refund_rank M Loading = M + 5"
| "refund_rank M (Refunding p attempt e) = M + 1 - attempt + 3"
| "refund_rank M (Storing p refundId) = 2"
| "refund_rank M (Recording p refundId) = 1"
| "refund_rank M (Refunded r) = 0"

lemma refund_rank_bounds:
  "refund_rank M (refund_failed libmsg e) = 0" "refund_rank M (mark_refund y p refundId) \<le> 2"
  by (simp_all add: refund_failed_def mark_refund_def split: sum.split)

lemma refund_rank_step:
  assumes "refund_step D libmsg repo refunds cfg y c q s = (q', s')"
  shows "refund_rank (pc_maxAttempts cfg) q' \<le> refund_rank (pc_maxAttempts cfg) q - 1"
proof (cases q)
  case (Refunding p k e)
  let ?M = "pc_maxAttempts cfg"
  obtain u g where u: "gateway_refund (pc_gateway cfg) (opt_text (p_gatewayTransactionId p)) (refund_request D c p) (py_gateway s) = (u, g)"
    by fastforce
  have "(\<exists>e. q' = refund_failed libmsg e) \<or> (\<exists>refundId. q' = mark_refund y p refundId) \<or> (k < ?M \<and> (\<exists>e. q' = Refunding p (k + 1) e))"
    using assms Refunding u by (auto simp: Let_def retry_of_def split: if_splits sum.splits)
  then show ?thesis
  proof (elim disjE conjE exE)
    fix refundId assume "q' = mark_refund y p refundId"
    with refund_rank_bounds(2) [of ?M y p refundId] show ?thesis by (simp add: Refunding)
  qed (simp_all add: Refunding refund_rank_bounds)
qed (use assms in \<open>auto split: sum.splits prod.splits option.splits if_splits\<close>)

lemma refund_turns_answer:
  fixes D :: "'d decimal_lib"
  assumes "refund_turns D libmsg repo refunds cfg requests turns s = (qs, t)" and "n < length requests"
    and "pc_maxAttempts cfg + 6 \<le> count_list turns n"
  shows "\<exists>r. qs ! n = Refunded r"
proof -
  let ?step = "\<lambda>n. refund_step D libmsg repo refunds cfg (fst (requests ! n)) (snd (requests ! n))"
  let ?start = "replicate (length requests) Looking :: 'd refund_session list"
  have "length qs = length ?start \<and>
      (\<forall>j<length ?start. refund_rank (pc_maxAttempts cfg) (qs ! j) \<le> refund_rank (pc_maxAttempts cfg) (?start ! j) - count_list turns j)"
    by (rule rank_turns [of ?step "refund_rank (pc_maxAttempts cfg)", OF _ assms(1) [unfolded refund_turns_def]]) (rule refund_rank_step)
  then have "refund_rank (pc_maxAttempts cfg) (qs ! n) \<le> refund_rank (pc_maxAttempts cfg) (?start ! n) - count_list turns n"
    using assms(2) by simp
  then have "refund_rank (pc_maxAttempts cfg) (qs ! n) = 0" using assms(2,3) by simp
  then show ?thesis by (cases "qs ! n") simp_all
qed

section \<open>One recorded refund per payment\<close>

text \<open>Each payment has one recorded refund at most, and it is REFUNDED then.\<close>

definition refunds_ok :: "(string \<Rightarrow> 'd payment option) \<Rightarrow> refund_record list \<Rightarrow> bool" where
  "refunds_ok a rows \<longleftrightarrow> distinct (map fr_paymentId rows) \<and>
     (\<forall>r\<in>set rows. \<exists>p. a (fr_paymentId r) = Some p \<and> p_status p = PS_REFUNDED)"

text \<open>A payment loaded when it was completed: the stored one is the same, or has a later version.\<close>

definition seen_completed :: "(string \<Rightarrow> 'd payment option) \<Rightarrow> 'd payment \<Rightarrow> bool" where
  "seen_completed a p \<longleftrightarrow> p_status p = PS_COMPLETED \<and> p_events p = [] \<and>
     (\<exists>i old. p_id p = Some i \<and> a i = Some old \<and> p_version p \<le> p_version old \<and> (p_version old = p_version p \<longrightarrow> old = p))"

fun refund_ok :: "(string \<Rightarrow> 'd payment option) \<Rightarrow> refund_record list \<Rightarrow> 'd refund_session \<Rightarrow> bool" where
  "refund_ok a rows (Repeating r) = (r \<in> set rows)"
| "refund_ok a rows (Refunding p k e) = seen_completed a p"
| "refund_ok a rows (Storing p refundId) =
     (\<exists>p0. seen_completed a p0 \<and> p_id p = p_id p0 \<and> p_status p = PS_REFUNDED \<and> p_events p \<noteq> [] \<and>
        payment_from PS_COMPLETED (p_version p0) p)"
| "refund_ok a rows (Recording p refundId) =
     (\<exists>i old. p_id p = Some i \<and> a i = Some old \<and> p_status old = PS_REFUNDED \<and> i \<notin> fr_paymentId ` set rows)"
| "refund_ok a rows (Refunded (Inr (p, r))) = (r \<in> set rows)"
| "refund_ok a rows _ = True"

text \<open>The payment whose refund a run is about to record.\<close>

fun recording :: "'d refund_session \<Rightarrow> string option" where
  "recording (Recording p refundId) = p_id p"
| "recording _ = None"

inductive refund_moves ::
    "(string \<Rightarrow> 'd payment option) \<Rightarrow> refund_record list \<Rightarrow> string option \<Rightarrow>
     (string \<Rightarrow> 'd payment option) \<Rightarrow> refund_record list \<Rightarrow> string option \<Rightarrow> bool" for a rows where
  refund_stays: "refund_moves a rows h a rows None"
| refund_stores: "a i = Some old \<Longrightarrow> p_status old = PS_COMPLETED \<Longrightarrow> p_status new = PS_REFUNDED \<Longrightarrow> p_version old < p_version new \<Longrightarrow>
    refund_moves a rows None (a(i \<mapsto> new)) rows (Some i)"
| refund_records: "a i = Some old \<Longrightarrow> p_status old = PS_REFUNDED \<Longrightarrow> i \<notin> fr_paymentId ` set rows \<Longrightarrow> fr_paymentId r = i \<Longrightarrow>
    refund_moves a rows (Some i) a (rows @ [r]) None"

lemma moves_refunds:
  assumes "refund_moves a rows h a' rows' h'" and "refunds_ok a rows"
  shows "refunds_ok a' rows'"
  using assms by cases (auto simp: refunds_ok_def)

lemma seen_completed_later:
  assumes "seen_completed a p" and "a i = Some old" and "p_version old < p_version new"
  shows "seen_completed (a(i \<mapsto> new)) p"
proof -
  obtain j cur where j: "p_id p = Some j" "a j = Some cur" "p_version p \<le> p_version cur" "p_version cur = p_version p \<longrightarrow> cur = p"
    and p: "p_status p = PS_COMPLETED" "p_events p = []" using assms(1) unfolding seen_completed_def by blast
  show ?thesis
  proof (cases "j = i")
    case True
    with j(2,3) assms(2,3) have "p_version p < p_version new" by simp
    with True j(1) p show ?thesis by (simp add: seen_completed_def)
  next
    case False
    with j p show ?thesis by (simp add: seen_completed_def)
  qed
qed

lemma refund_ok_Refunded: "refund_ok a rows (Refunded r) = (case r of Inl e \<Rightarrow> True | Inr (p, x) \<Rightarrow> x \<in> set rows)"
  by (cases r) auto

lemma moves_other:
  assumes m: "refund_moves a rows h a' rows' h'" and ok: "refund_ok a rows q2" "refunds_ok a rows" and h: "h = None \<or> h \<noteq> recording q2"
  shows "refund_ok a' rows' q2 \<and> (h' = None \<or> h' \<noteq> recording q2)"
  using m
proof cases
  case refund_stays
  with ok show ?thesis by simp
next
  case (refund_stores i old new)
  have rec: "recording q2 \<noteq> Some i"
  proof
    assume "recording q2 = Some i"
    with ok(1) refund_stores show False by (cases q2) auto
  qed
  have later: "seen_completed a p \<Longrightarrow> seen_completed (a(i \<mapsto> new)) p" for p
    by (rule seen_completed_later) (use refund_stores in simp_all)
  have "refund_ok (a(i \<mapsto> new)) rows q2"
  proof (cases q2)
    case (Recording p refundId)
    with ok(1) rec show ?thesis by auto
  next
    case (Storing p refundId)
    with ok(1) later show ?thesis by auto
  qed (use ok(1) later in \<open>simp_all add: refund_ok_Refunded split: sum.splits\<close>)
  with refund_stores rec show ?thesis by auto
next
  case (refund_records i old r)
  with ok(1) h have "refund_ok a' rows' q2" by (cases q2) (auto simp: refund_ok_Refunded split: sum.splits)
  with refund_records show ?thesis by simp
qed

section \<open>The contract of the two tables\<close>

locale refund_store = payment_store repo inv abs timeline valid_id column
  for repo :: "('s, 'd) payment_repository" and inv and abs and timeline and valid_id and column +
  fixes refunds :: "'s refund_repository"
    and recorded :: "'s \<Rightarrow> refund_record list"
  assumes refund_find: "rf_findByIdempotencyKey refunds k s = (found, t) \<Longrightarrow>
          t = s \<and> (\<exists>x. found = Inr x \<and> (\<forall>row. x = Some row \<longrightarrow> row \<in> set (recorded s)))"
    and refund_save: "inv s \<Longrightarrow> rf_save refunds cx n s = (Inr row, t) \<Longrightarrow>
          inv t \<and> abs t = abs s \<and> recorded t = recorded s @ [row] \<and> fr_paymentId row = nf_paymentId n"
    and refund_save_err: "rf_save refunds cx n s = (Inl e, t) \<Longrightarrow> t = s"
    and update_recorded: "pr_update repo cx p s = (updated, t) \<Longrightarrow> recorded t = recorded s"
begin

lemma mark_refund_ok:
  assumes "seen_completed a p"
  shows "refund_ok a rows (mark_refund y p refundId) \<and> recording (mark_refund y p refundId) = None"
proof -
  have p: "p_status p = PS_COMPLETED" "p_events p = []" using assms by (simp_all add: seen_completed_def)
  have base: "payment_from PS_COMPLETED (p_version p) p" using p by (simp add: payment_from_def)
  obtain p1 where p1: "requestRefund (yc_now y) p = Inr p1"
    using p by (simp add: requestRefund_def payment_transitionTo_def payment_canTransition_def)
  have st1: "p_status p1 = PS_REFUND_PENDING" "p_id p1 = p_id p" using p1 by (auto simp: requestRefund_def payment_transitionTo_Inr)
  obtain p2 where p2: "markRefunded (yc_now y) refundId p1 = Inr p2"
    using st1 by (simp add: markRefunded_def payment_transitionTo_def payment_canTransition_def)
  have st2: "p_status p2 = PS_REFUNDED" "p_id p2 = p_id p" "p_events p2 \<noteq> []"
    using p2 st1 by (auto simp: markRefunded_def payment_transitionTo_Inr)
  have "payment_from PS_COMPLETED (p_version p) p2"
    by (rule payment_from_marks(5) [OF payment_from_marks(4) [OF base p1] p2])
  with assms st2 show ?thesis by (auto simp: mark_refund_def p1 p2)
qed

text \<open>A stored refund is that of a payment that was still as it was seen.\<close>

lemma storing_update:
  assumes inv: "inv s" and ok: "refund_ok (abs s) rows (Storing p refundId)" and up: "pr_update repo cx p s = (Inr q, t)"
  obtains i old where "p_id p = Some i" "abs s i = Some old" "p_status old = PS_COMPLETED" "inv t" "abs t = (abs s)(i \<mapsto> q)"
    "p_status q = PS_REFUNDED" "p_version old < p_version q"
proof -
  from ok obtain p0 i old where p0: "p_status p0 = PS_COMPLETED" "p_id p = Some i" "abs s i = Some old" "p_version p0 \<le> p_version old"
      "p_version old = p_version p0 \<longrightarrow> old = p0" "p_status p = PS_REFUNDED" "p_events p \<noteq> []" "payment_from PS_COMPLETED (p_version p0) p"
    by (auto simp: seen_completed_def)
  have "p_version old = p_version p0"
  proof (rule ccontr)
    assume "p_version old \<noteq> p_version p0"
    with p0(3,8) have "p_version (the (abs s i)) \<noteq> p_version p - int (length (p_events p))" by (simp add: payment_from_def)
    from update_conflict [OF inv p0(2) _ disjI2 [OF this]] abs_id [OF inv p0(3)] up show False by simp
  qed
  with p0(5) have "old = p0" by simp
  with p0(1,8) have "p_status old = PS_COMPLETED" "payment_from (p_status old) (p_version old) p" by simp_all
  note u = update_ok [OF inv p0(2,3) this(2) up]
  have "p_version old < p_version q" using u p0(7,8) \<open>old = p0\<close> by (simp add: stored_payment_def payment_from_def)
  with that [OF p0(2,3)] u p0(6) \<open>p_status old = PS_COMPLETED\<close> show thesis by (simp add: stored_payment_def)
qed

lemma refund_step_moves:
  assumes inv: "inv (py_store s)" and rows: "refunds_ok (abs (py_store s)) (recorded (py_store s))"
    and ok: "refund_ok (abs (py_store s)) (recorded (py_store s)) q"
    and step: "refund_step D libmsg repo refunds cfg y c q s = (q', s')"
  shows "inv (py_store s') \<and>
    refund_moves (abs (py_store s)) (recorded (py_store s)) (recording q) (abs (py_store s')) (recorded (py_store s')) (recording q') \<and>
    refund_ok (abs (py_store s')) (recorded (py_store s')) q'"
proof (cases q)
  case Looking
  obtain r t where r: "rf_findByIdempotencyKey refunds (rc_idempotencyKey c) (py_store s) = (r, t)" by fastforce
  from refund_find [OF this] obtain x where x: "t = py_store s" "r = Inr x" "\<forall>row. x = Some row \<longrightarrow> row \<in> set (recorded (py_store s))" by blast
  with step r Looking inv show ?thesis by (cases x) (auto simp: on_pay_def intro: refund_stays)
next
  case (Repeating r)
  from inv show ?thesis
    by (cases rule: find_cases [where i = "fr_paymentId r"])
      (use step Repeating inv ok in \<open>auto simp: on_pay_def intro: refund_stays\<close>)
next
  case Loading
  from inv show ?thesis
  proof (cases rule: find_cases [where i = "rc_paymentId c"])
    case (found p)
    with step Loading inv show ?thesis by (auto simp: on_pay_def seen_completed_def intro: refund_stays)
  qed (use step Loading inv in \<open>auto simp: on_pay_def intro: refund_stays\<close>)
next
  case (Refunding p k e)
  obtain u g where u: "gateway_refund (pc_gateway cfg) (opt_text (p_gatewayTransactionId p)) (refund_request D c p) (py_gateway s) = (u, g)"
    by fastforce
  have "py_store s' = py_store s"
    and "(\<exists>e. q' = refund_failed libmsg e) \<or> (\<exists>refundId. q' = mark_refund y p refundId) \<or> (\<exists>k e. q' = Refunding p k e)"
    using step Refunding u by (auto simp: Let_def split: if_splits sum.splits)
  with mark_refund_ok [of "abs (py_store s)" p] ok inv Refunding show ?thesis by (auto simp: refund_failed_def intro: refund_stays)
next
  case (Storing p refundId)
  obtain u t where u: "pr_update repo (yc_calls y 0) p (py_store s) = (u, t)" by fastforce
  show ?thesis
  proof (cases u)
    case (Inl e)
    with u update_err have "t = py_store s" by blast
    with step Storing u Inl inv show ?thesis by (auto simp: on_pay_def intro: refund_stays)
  next
    case (Inr w)
    from storing_update [OF inv ok [unfolded Storing] u [unfolded Inr]] obtain i old where
      i: "p_id p = Some i" "abs (py_store s) i = Some old" "p_status old = PS_COMPLETED" "inv t"
        "abs t = (abs (py_store s))(i \<mapsto> w)" "p_status w = PS_REFUNDED" "p_version old < p_version w" .
    have r: "recorded t = recorded (py_store s)" by (rule update_recorded [OF u])
    have new: "i \<notin> fr_paymentId ` set (recorded (py_store s))" using rows i(2,3) by (fastforce simp: refunds_ok_def)
    have "refund_moves (abs (py_store s)) (recorded (py_store s)) None (abs t) (recorded t) (Some i)"
      unfolding i(5) r by (rule refund_stores [where old = old]) (use i in simp_all)
    with step Storing u Inr i r new show ?thesis by (auto simp: on_pay_def)
  qed
next
  case (Recording p refundId)
  with ok obtain i old where i: "p_id p = Some i" "abs (py_store s) i = Some old" "p_status old = PS_REFUNDED"
    "i \<notin> fr_paymentId ` set (recorded (py_store s))" by auto
  let ?n = "\<lparr>nf_paymentId = opt_text (p_id p), nf_amount = money_fixed D (p_amount p), nf_currency = m_currency (p_amount p),
     nf_status = ''COMPLETED'', nf_gatewayRefundId = Some refundId, nf_idempotencyKey = rc_idempotencyKey c, nf_reason = rc_reason c\<rparr>"
  obtain u t where u: "rf_save refunds (yc_calls y 1) ?n (py_store s) = (u, t)" by fastforce
  show ?thesis
  proof (cases u)
    case (Inl e)
    with u refund_save_err have "t = py_store s" by blast
    with step Recording u Inl inv show ?thesis by (auto simp: on_pay_def intro: refund_stays)
  next
    case (Inr row)
    from refund_save [OF inv u [unfolded Inr]] i(1)
    have r: "inv t" "abs t = abs (py_store s)" "recorded t = recorded (py_store s) @ [row]" "fr_paymentId row = i"
      by (simp_all add: opt_text_def)
    have "refund_moves (abs (py_store s)) (recorded (py_store s)) (Some i) (abs t) (recorded t) None"
      unfolding r(2,3) by (rule refund_records [where old = old]) (use i(2,3,4) r(4) in simp_all)
    with step Recording u Inr i r show ?thesis by (auto simp: on_pay_def)
  qed
next
  case (Refunded r)
  with step ok inv show ?thesis by (auto intro: refund_stays)
qed

end

lemma knex_payment_update_refunds:
  assumes "knex_payment_update E D cx p db = (r, db')"
  shows "yd_refunds db' = yd_refunds db"
  using assms
  by (auto simp: knex_payment_update_def Let_def transaction_def bind_eff_def lift_res_def trx_update_payment_def appendEvents_def
      split: prod.splits sum.splits option.splits if_splits)

interpretation knex_refunds: refund_store "KnexPaymentRepository E D" "payment_db_ok E D" "payment_db_abs D"
    events_of "sql_uuid E" "column_amount D" "KnexRefundRepository E" yd_refunds
  for E :: sql_env and D :: "'d decimal_lib"
proof (unfold_locales, goal_cases)
  case (1 k s r t)
  then show ?case by (auto simp: KnexRefundRepository_def knex_refund_findByKey_def find_Some_iff)
next
  case (2 s cx n row t)
  then show ?case
    by (auto simp: KnexRefundRepository_def knex_refund_save_def Let_def payment_db_abs_def fun_eq_iff
        payment_db_ok_def events_of_def split: option.splits)
next
  case (3 cx n s e t)
  then show ?case by (auto simp: KnexRefundRepository_def knex_refund_save_def Let_def split: option.splits)
next
  case (4 cx p s r t)
  then show ?case by (auto simp: KnexPaymentRepository_def dest: knex_payment_update_refunds)
qed

text \<open>No two runs are about to record a refund of one payment.\<close>

interpretation refund_runs: side_by_side
  "\<lambda>n. refund_step D libmsg (KnexPaymentRepository E D) (KnexRefundRepository E) cfg (fst (requests ! n)) (snd (requests ! n))"
  "\<lambda>s. payment_db_ok E D (py_store s) \<and> refunds_ok (payment_db_abs D (py_store s)) (yd_refunds (py_store s))"
  "\<lambda>n s. refund_ok (payment_db_abs D (py_store s)) (yd_refunds (py_store s))"
  "\<lambda>q q2. recording q = None \<or> recording q \<noteq> recording q2"
  for E :: sql_env and D :: "'d decimal_lib" and libmsg cfg and requests :: "(pay_call \<times> refund_command) list"
proof (unfold_locales, goal_cases)
  case (1 s n q q' s')
  note m = knex_refunds.refund_step_moves [OF conjunct1 [OF 1(1)] conjunct2 [OF 1(1)] 1(2,3)]
  have "refunds_ok (payment_db_abs D (py_store s')) (yd_refunds (py_store s'))"
    by (rule moves_refunds [OF conjunct1 [OF conjunct2 [OF m]] conjunct2 [OF 1(1)]])
  with m show ?case by simp
next
  case (2 s n q q' s' m q2)
  note step = knex_refunds.refund_step_moves [OF conjunct1 [OF 2(1)] conjunct2 [OF 2(1)] 2(2,3)]
  show ?case by (rule moves_other [OF conjunct1 [OF conjunct2 [OF step]] 2(4) conjunct2 [OF 2(1)] 2(5)])
qed auto

end
