(* ===== verification/Interleaving_Properties.thy ===== *)
theory Interleaving_Properties
  imports Payment_Properties Refund_Interleaving
begin

text \<open>
  What holds of the payment service when requests are handled at the same time: the runs of
  \<open>ProcessPaymentHandler.execute\<close> take their steps in any order over one database, one gateway and
  one circuit breaker.
\<close>

section \<open>Two requests for one key\<close>

text \<open>Both look the key up before either has saved; the unique index decides between them.\<close>

definition demo_second_call :: pay_call where
  "demo_second_call = demo_call\<lparr>yc_calls := (\<lambda>k. \<lparr>px_now = 6, px_rowId = ''p2'', px_eventIds = (\<lambda>i. ''f'')\<rparr>)\<rparr>"

definition demo_both :: "(pay_call \<times> rat process_command) list" where
  "demo_both = [(demo_call, demo_command), (demo_second_call, demo_command)]"

definition demo_turns :: "nat list" where
  "demo_turns = [0, 1, 0, 1, 0, 0, 0, 0]"

definition demo_charged_state :: "payment_db \<Rightarrow> payment_db pay_state" where
  "demo_charged_state db = (demo_pay_state db 1)\<lparr>py_gateway := (demo_gateway 1)\<lparr>gw_drawn := 1, gw_uuids := 1, gw_charges := [demo_request]\<rparr>\<rparr>"

lemma demo_second_new: "payment_of_command rat_decimal demo_second_call demo_command =
    Inr ((demo_payment PS_PENDING None 1)\<lparr>p_id := None\<rparr>)"
  by code_simp

lemma demo_second_refused:
  "knex_payment_save demo_env rat_decimal (yc_calls demo_second_call 0) ((demo_payment PS_PENDING None 1)\<lparr>p_id := None\<rparr>) demo_pending =
     (Inl (LibraryError ''23505''), demo_pending)"
  by code_simp

abbreviation demo_step :: "pay_call \<Rightarrow> rat pay_session \<Rightarrow> payment_db pay_state \<Rightarrow> rat pay_session \<times> payment_db pay_state" where
  "demo_step y \<equiv> session_step rat_decimal demo_libmsg demo_payments demo_cfg y demo_command"

lemma demo_steps:
  "demo_step demo_call Finding (demo_pay_state payment_db_empty 1) =
     (Saving ((demo_payment PS_PENDING None 1)\<lparr>p_id := None\<rparr>), demo_pay_state payment_db_empty 1)"
  "demo_step demo_second_call Finding (demo_pay_state payment_db_empty 1) =
     (Saving ((demo_payment PS_PENDING None 1)\<lparr>p_id := None\<rparr>), demo_pay_state payment_db_empty 1)"
  "demo_step demo_call (Saving ((demo_payment PS_PENDING None 1)\<lparr>p_id := None\<rparr>)) (demo_pay_state payment_db_empty 1) =
     (Marking (demo_moved PS_PROCESSING [demo_started] None 2), demo_pay_state demo_pending 1)"
  "demo_step demo_second_call (Saving ((demo_payment PS_PENDING None 1)\<lparr>p_id := None\<rparr>)) (demo_pay_state demo_pending 1) =
     (Answered (Inl (LibraryError ''23505'')), demo_pay_state demo_pending 1)"
  "demo_step demo_call (Marking (demo_moved PS_PROCESSING [demo_started] None 2)) (demo_pay_state demo_pending 1) =
     (Admitting (demo_payment PS_PROCESSING None 2), demo_pay_state demo_processing 1)"
  "demo_step demo_call (Admitting (demo_payment PS_PROCESSING None 2)) (demo_pay_state demo_processing 1) =
     (Charging (demo_payment PS_PROCESSING None 2) 1 None, demo_pay_state demo_processing 1)"
  "demo_step demo_call (Charging (demo_payment PS_PROCESSING None 2) 1 None) (demo_pay_state demo_processing 1) =
     (Completing (demo_moved PS_COMPLETED [demo_charged] (Some ''txn_u'') 3), demo_charged_state demo_processing)"
  "demo_step demo_call (Completing (demo_moved PS_COMPLETED [demo_charged] (Some ''txn_u'') 3)) (demo_charged_state demo_processing) =
     (Answered (Inr (demo_payment PS_COMPLETED (Some ''txn_u'') 3, True)),
      (demo_charged_state demo_completed)\<lparr>py_metrics := demo_metrics\<lparr>pm_succeeded := 1\<rparr>\<rparr>)"
proof -
  have find: "knex_payment_findByKey rat_decimal ''payment-o'' payment_db_empty = (Inr None, payment_db_empty)" by code_simp
  have key: "pcm_idempotencyKey demo_command = ''payment-o''" "yc_now demo_call = 5" "yc_now demo_second_call = 5" "yc_admitted demo_call = 1"
    by (simp_all add: demo_command_def demo_call_def demo_second_call_def)
  note defs = demo_payments_def KnexPaymentRepository_def on_pay_def key demo_pay_state_def
  show "demo_step demo_call Finding (demo_pay_state payment_db_empty 1) =
     (Saving ((demo_payment PS_PENDING None 1)\<lparr>p_id := None\<rparr>), demo_pay_state payment_db_empty 1)"
    using find demo_new by (simp add: defs)
  show "demo_step demo_second_call Finding (demo_pay_state payment_db_empty 1) =
     (Saving ((demo_payment PS_PENDING None 1)\<lparr>p_id := None\<rparr>), demo_pay_state payment_db_empty 1)"
    using find demo_second_new by (simp add: defs)
  show "demo_step demo_call (Saving ((demo_payment PS_PENDING None 1)\<lparr>p_id := None\<rparr>)) (demo_pay_state payment_db_empty 1) =
     (Marking (demo_moved PS_PROCESSING [demo_started] None 2), demo_pay_state demo_pending 1)"
    using demo_pay_save demo_mark by (simp add: defs)
  show "demo_step demo_second_call (Saving ((demo_payment PS_PENDING None 1)\<lparr>p_id := None\<rparr>)) (demo_pay_state demo_pending 1) =
     (Answered (Inl (LibraryError ''23505'')), demo_pay_state demo_pending 1)"
    using demo_second_refused by (simp add: defs)
  show "demo_step demo_call (Marking (demo_moved PS_PROCESSING [demo_started] None 2)) (demo_pay_state demo_pending 1) =
     (Admitting (demo_payment PS_PROCESSING None 2), demo_pay_state demo_processing 1)"
    using demo_mark_stored by (simp add: defs)
  show "demo_step demo_call (Admitting (demo_payment PS_PROCESSING None 2)) (demo_pay_state demo_processing 1) =
     (Charging (demo_payment PS_PROCESSING None 2) 1 None, demo_pay_state demo_processing 1)"
    by (simp add: defs breaker_admit_def breaker_init_def with_breaker_def)
  have "breaker_onSuccess breaker_init = breaker_init" by (simp add: breaker_onSuccess_def breaker_init_def)
  then show "demo_step demo_call (Charging (demo_payment PS_PROCESSING None 2) 1 None) (demo_pay_state demo_processing 1) =
     (Completing (demo_moved PS_COMPLETED [demo_charged] (Some ''txn_u'') 3), demo_charged_state demo_processing)"
    using demo_complete
    by (simp add: defs demo_charged_state_def demo_charge_of with_breaker_def retry_of_def demo_gateway_defs)
  show "demo_step demo_call (Completing (demo_moved PS_COMPLETED [demo_charged] (Some ''txn_u'') 3)) (demo_charged_state demo_processing) =
     (Answered (Inr (demo_payment PS_COMPLETED (Some ''txn_u'') 3, True)),
      (demo_charged_state demo_completed)\<lparr>py_metrics := demo_metrics\<lparr>pm_succeeded := 1\<rparr>\<rparr>)"
    using demo_complete_stored by (simp add: defs demo_charged_state_def recordPaymentResult_def ret_def demo_metrics_def)
qed

lemma demo_turns_run:
  "payment_turns rat_decimal demo_libmsg demo_payments demo_cfg demo_both demo_turns (demo_pay_state payment_db_empty 1) =
     ([Answered (Inr (demo_payment PS_COMPLETED (Some ''txn_u'') 3, True)), Answered (Inl (LibraryError ''23505''))],
      (demo_charged_state demo_completed)\<lparr>py_metrics := demo_metrics\<lparr>pm_succeeded := 1\<rparr>\<rparr>)"
  by (simp add: payment_turns_def run_turns_def take_turn_def demo_turns_def demo_both_def demo_steps [unfolded One_nat_def] del: session_step.simps)

section \<open>Charges\<close>

text \<open>C15: however the steps of concurrent payment requests interleave (also of requests for one key),
  payments and charges stay in agreement: the gateway carries out at most one charge per idempotency
  key, each for a stored payment; a COMPLETED payment is charged, a PENDING or FAILED one is not; the
  database keeps its invariant.  A run that answers with success is for its own key and that key is
  charged.  And every run that gets \<open>maxAttempts + 7\<close> turns has answered.\<close>

theorem concurrent_payments:
  assumes "payment_db_ok E D (py_store s)" and "books_ok (payment_db_abs D (py_store s)) (charged_keys s)"
    and "payment_turns D libmsg (KnexPaymentRepository E D) cfg requests turns s = (qs, t)"
  shows "payment_db_ok E D (py_store t) \<and> books_ok (payment_db_abs D (py_store t)) (charged_keys t) \<and>
    (\<forall>n<length requests.
       (\<forall>p success. qs ! n = Answered (Inr (p, success)) \<longrightarrow>
          p_idempotencyKey p = pcm_idempotencyKey (snd (requests ! n)) \<and> (success \<longrightarrow> p_idempotencyKey p \<in> set (charged_keys t))) \<and>
       (pc_maxAttempts cfg + 7 \<le> count_list turns n \<longrightarrow> (\<exists>r. qs ! n = Answered r)))"
proof -
  have "payment_runs.together E D requests (replicate (length requests) Finding) s"
    using assms(1,2) by (simp add: payment_runs.together_def)
  from payment_runs.turns_together [OF this assms(3) [unfolded payment_turns_def]]
  have ok: "payment_runs.together E D requests qs t" .
  have len: "length qs = length requests" by (rule turns_length [OF assms(3)])
  have "p_idempotencyKey p = pcm_idempotencyKey (snd (requests ! n)) \<and> (success \<longrightarrow> p_idempotencyKey p \<in> set (charged_keys t))"
    if "n < length requests" "qs ! n = Answered (Inr (p, success))" for n p success
  proof -
    from ok len that(1) have "session_ok (payment_db_abs D (py_store t)) (pcm_idempotencyKey (snd (requests ! n))) (charged_keys t) (qs ! n)"
      by (simp add: payment_runs.together_def)
    with that(2) show ?thesis by simp
  qed
  with ok turns_answer [OF assms(3)] show ?thesis unfolding payment_runs.together_def by blast
qed

theorem concurrent_payments_witness:
  "\<exists>qs t. payment_turns rat_decimal demo_libmsg demo_payments demo_cfg demo_both demo_turns (demo_pay_state payment_db_empty 1) = (qs, t) \<and>
     qs = [Answered (Inr (demo_payment PS_COMPLETED (Some ''txn_u'') 3, True)), Answered (Inl (LibraryError ''23505''))] \<and>
     books_ok (payment_db_abs rat_decimal (py_store t)) (charged_keys t) \<and> charged_keys t = [''payment-o'']"
proof -
  have "payment_db_ok demo_env rat_decimal (py_store (demo_pay_state payment_db_empty 1))"
    by (simp add: demo_pay_state_def payment_db_empty_ok)
  moreover have "books_ok (payment_db_abs rat_decimal (py_store (demo_pay_state payment_db_empty 1))) (charged_keys (demo_pay_state payment_db_empty 1))"
    by (simp add: books_ok_def demo_pay_state_def payment_db_empty_def payment_db_abs_def charged_keys_def demo_gateway_def)
  ultimately show ?thesis
    using concurrent_payments [OF _ _ demo_turns_run [unfolded demo_payments_def]]
    by (auto simp: demo_turns_run charged_keys_def demo_charged_state_def demo_request_def)
qed

section \<open>Two refunds of one payment\<close>

text \<open>Both load the payment while it is COMPLETED and both ask the gateway, which pays out twice.\<close>

definition demo_refund_again :: refund_command where
  "demo_refund_again = demo_refund\<lparr>rc_idempotencyKey := ''rk2''\<rparr>"

definition demo_two_refunds :: "(pay_call \<times> refund_command) list" where
  "demo_two_refunds = [(demo_call, demo_refund), (demo_second_call, demo_refund_again)]"

definition demo_refund_turns :: "nat list" where
  "demo_refund_turns = [0, 1, 0, 1, 0, 1, 0, 1, 0]"

definition demo_paid_out :: "string list \<Rightarrow> payment_db \<Rightarrow> payment_db pay_state" where
  "demo_paid_out keys db = (demo_pay_state db 1)\<lparr>py_gateway := (demo_gateway 1)\<lparr>gw_drawn := length keys, gw_uuids := length keys,
     gw_refunds := map (\<lambda>k. (''txn_u'', demo_request\<lparr>cr_idempotencyKey := k\<rparr>)) keys\<rparr>\<rparr>"

abbreviation demo_refund_step ::
    "pay_call \<Rightarrow> refund_command \<Rightarrow> rat refund_session \<Rightarrow> payment_db pay_state \<Rightarrow> rat refund_session \<times> payment_db pay_state" where
  "demo_refund_step \<equiv> refund_step rat_decimal demo_libmsg demo_payments demo_refunds demo_cfg"

abbreviation demo_conflict :: js_error where
  "demo_conflict \<equiv> payment_version_conflict (demo_moved PS_REFUNDED demo_refund_events (Some ''txn_u'') 5) 3"

lemma demo_refund_conflict:
  "knex_payment_update demo_env rat_decimal (yc_calls demo_second_call 0) (demo_moved PS_REFUNDED demo_refund_events (Some ''txn_u'') 5) (demo_refunded []) =
     (Inl demo_conflict, demo_refunded [])"
  by code_simp

lemma demo_refund_request: "refund_request rat_decimal c (demo_payment st tx v) = demo_request\<lparr>cr_idempotencyKey := rc_idempotencyKey c\<rparr>"
proof -
  have "money_fixed rat_decimal (p_amount (demo_payment st tx v)) = ''3.00''" by code_simp
  then show ?thesis by (simp add: refund_request_def demo_request_def demo_payment_def)
qed

lemma demo_refund_steps:
  "demo_refund_step y c Looking (demo_paid_out [] demo_completed) = (Loading, demo_paid_out [] demo_completed)"
  "rc_paymentId c = ''p'' \<Longrightarrow> demo_refund_step y c Loading (demo_paid_out [] demo_completed) =
     (Refunding (demo_payment PS_COMPLETED (Some ''txn_u'') 3) 1 None, demo_paid_out [] demo_completed)"
  "yc_now y = 5 \<Longrightarrow> demo_refund_step y c (Refunding (demo_payment PS_COMPLETED (Some ''txn_u'') 3) 1 None) (demo_paid_out keys db) =
     (Storing (demo_moved PS_REFUNDED demo_refund_events (Some ''txn_u'') 5) ''rf_u'', demo_paid_out (keys @ [rc_idempotencyKey c]) db)"
  "demo_refund_step demo_call c (Storing (demo_moved PS_REFUNDED demo_refund_events (Some ''txn_u'') 5) ''rf_u'') (demo_paid_out keys demo_completed) =
     (Recording (demo_moved PS_REFUNDED demo_refund_events (Some ''txn_u'') 5) ''rf_u'', demo_paid_out keys (demo_refunded []))"
  "demo_refund_step demo_second_call c (Storing (demo_moved PS_REFUNDED demo_refund_events (Some ''txn_u'') 5) ''rf_u'') (demo_paid_out keys (demo_refunded [])) =
     (Refunded (Inl demo_conflict), demo_paid_out keys (demo_refunded []))"
  "demo_refund_step demo_call demo_refund (Recording (demo_moved PS_REFUNDED demo_refund_events (Some ''txn_u'') 5) ''rf_u'') (demo_paid_out keys (demo_refunded [])) =
     (Refunded (Inr (demo_payment PS_REFUNDED (Some ''txn_u'') 5, demo_refund_record)), demo_paid_out keys (demo_refunded [demo_refund_record]))"
proof -
  note defs = demo_payments_def demo_refunds_def KnexPaymentRepository_def KnexRefundRepository_def on_pay_def demo_paid_out_def demo_pay_state_def
  have find: "knex_payment_findById demo_env rat_decimal ''p'' demo_completed = (Inr (Some (demo_payment PS_COMPLETED (Some ''txn_u'') 3)), demo_completed)"
    by code_simp
  have status: "p_status (demo_payment st tx v) = st" "p_gatewayTransactionId (demo_payment st tx v) = tx" for st tx v
    by (simp_all add: demo_payment_def)
  show "demo_refund_step y c Looking (demo_paid_out [] demo_completed) = (Loading, demo_paid_out [] demo_completed)"
    by (simp add: defs knex_refund_findByKey_def demo_completed_def)
  show "demo_refund_step y c Loading (demo_paid_out [] demo_completed) =
     (Refunding (demo_payment PS_COMPLETED (Some ''txn_u'') 3) 1 None, demo_paid_out [] demo_completed)" if "rc_paymentId c = ''p''"
    using find that by (simp add: defs status)
  show "demo_refund_step y c (Refunding (demo_payment PS_COMPLETED (Some ''txn_u'') 3) 1 None) (demo_paid_out keys db) =
     (Storing (demo_moved PS_REFUNDED demo_refund_events (Some ''txn_u'') 5) ''rf_u'', demo_paid_out (keys @ [rc_idempotencyKey c]) db)"
    if "yc_now y = 5"
    using that demo_refund_marks
    by (simp add: defs demo_refund_request status opt_text_def retry_of_def mark_refund_def demo_gateway_defs)
  show "demo_refund_step demo_call c (Storing (demo_moved PS_REFUNDED demo_refund_events (Some ''txn_u'') 5) ''rf_u'') (demo_paid_out keys demo_completed) =
     (Recording (demo_moved PS_REFUNDED demo_refund_events (Some ''txn_u'') 5) ''rf_u'', demo_paid_out keys (demo_refunded []))"
    using demo_refund_stored by (simp add: defs)
  show "demo_refund_step demo_second_call c (Storing (demo_moved PS_REFUNDED demo_refund_events (Some ''txn_u'') 5) ''rf_u'') (demo_paid_out keys (demo_refunded [])) =
     (Refunded (Inl demo_conflict), demo_paid_out keys (demo_refunded []))"
    using demo_refund_conflict by (simp add: defs)
  have amount: "money_fixed rat_decimal (p_amount (demo_moved st evs tx v)) = ''3.00''" for st evs tx v by code_simp
  have moved: "m_currency (p_amount (demo_moved st evs tx v)) = ''USD''" "p_id (demo_moved st evs tx v) = Some ''p''"
    "snd (pullEvents (demo_moved st evs tx v)) = demo_payment st tx v" for st evs tx v
    by (simp_all add: demo_moved_def demo_payment_def pullEvents_def)
  have key: "rc_idempotencyKey demo_refund = ''rk''" "rc_reason demo_refund = None" by (simp_all add: demo_refund_def)
  show "demo_refund_step demo_call demo_refund (Recording (demo_moved PS_REFUNDED demo_refund_events (Some ''txn_u'') 5) ''rf_u'') (demo_paid_out keys (demo_refunded [])) =
     (Refunded (Inr (demo_payment PS_REFUNDED (Some ''txn_u'') 5, demo_refund_record)), demo_paid_out keys (demo_refunded [demo_refund_record]))"
    using demo_refund_saved by (simp add: defs amount moved key opt_text_def)
qed

lemma demo_double_refund:
  "refund_turns rat_decimal demo_libmsg demo_payments demo_refunds demo_cfg demo_two_refunds demo_refund_turns (demo_pay_state demo_completed 1) =
     ([Refunded (Inr (demo_payment PS_REFUNDED (Some ''txn_u'') 5, demo_refund_record)), Refunded (Inl demo_conflict)],
      demo_paid_out [''rk'', ''rk2''] (demo_refunded [demo_refund_record]))"
proof -
  have start: "demo_pay_state demo_completed 1 = demo_paid_out [] demo_completed"
    by (simp add: demo_paid_out_def demo_pay_state_def demo_gateway_def)
  have key: "rc_idempotencyKey demo_refund = ''rk''" "rc_idempotencyKey demo_refund_again = ''rk2''" "rc_paymentId demo_refund = ''p''"
    "rc_paymentId demo_refund_again = ''p''" "yc_now demo_call = 5" "yc_now demo_second_call = 5"
    by (simp_all add: demo_refund_def demo_refund_again_def demo_call_def demo_second_call_def)
  show ?thesis
    unfolding start
    by (simp add: refund_turns_def run_turns_def take_turn_def demo_refund_turns_def demo_two_refunds_def key
        demo_refund_steps [unfolded One_nat_def] del: refund_step.simps)
qed

section \<open>Refunds\<close>

text \<open>C19: however the steps of concurrent refund requests interleave, the database keeps its invariant
  and records at most one refund per payment, of a payment that is REFUNDED.  A run that answers with
  a refund answers with a recorded one, and every run that gets \<open>maxAttempts + 6\<close> turns has answered.
  (The gateway may be asked more often: in the witness two requests for one payment both make it pay
  out, and the second then fails with a version conflict.)\<close>

theorem concurrent_refunds:
  assumes "payment_db_ok E D (py_store s)" and "refunds_ok (payment_db_abs D (py_store s)) (yd_refunds (py_store s))"
    and "refund_turns D libmsg (KnexPaymentRepository E D) (KnexRefundRepository E) cfg requests turns s = (qs, t)"
  shows "payment_db_ok E D (py_store t) \<and> refunds_ok (payment_db_abs D (py_store t)) (yd_refunds (py_store t)) \<and>
    (\<forall>n<length requests.
       (\<forall>p r. qs ! n = Refunded (Inr (p, r)) \<longrightarrow> r \<in> set (yd_refunds (py_store t))) \<and>
       (pc_maxAttempts cfg + 6 \<le> count_list turns n \<longrightarrow> (\<exists>r. qs ! n = Refunded r)))"
proof -
  have "refund_runs.together E D (replicate (length requests) Looking) s"
    using assms(1,2) by (simp add: refund_runs.together_def)
  from refund_runs.turns_together [OF this assms(3) [unfolded refund_turns_def]]
  have ok: "refund_runs.together E D qs t" .
  have len: "length qs = length requests" by (rule refund_turns_length [OF assms(3)])
  have "r \<in> set (yd_refunds (py_store t))" if "n < length requests" "qs ! n = Refunded (Inr (p, r))" for n p r
  proof -
    from ok len that(1) have "refund_ok (payment_db_abs D (py_store t)) (yd_refunds (py_store t)) (qs ! n)"
      by (simp add: refund_runs.together_def)
    with that(2) show ?thesis by simp
  qed
  with ok refund_turns_answer [OF assms(3)] show ?thesis unfolding refund_runs.together_def by blast
qed

theorem concurrent_refunds_witness:
  "\<exists>qs t. refund_turns rat_decimal demo_libmsg demo_payments demo_refunds demo_cfg demo_two_refunds demo_refund_turns (demo_pay_state demo_completed 1) = (qs, t) \<and>
     refunds_ok (payment_db_abs rat_decimal (py_store t)) (yd_refunds (py_store t)) \<and> yd_refunds (py_store t) = [demo_refund_record] \<and>
     map fst (gw_refunds (py_gateway t)) = [''txn_u'', ''txn_u'']"
proof -
  have a: "payment_db_ok demo_env rat_decimal (py_store (demo_pay_state demo_completed 1))"
    by (simp add: demo_pay_state_def demo_pay_ok)
  have b: "refunds_ok (payment_db_abs rat_decimal (py_store (demo_pay_state demo_completed 1))) (yd_refunds (py_store (demo_pay_state demo_completed 1)))"
    by (simp add: refunds_ok_def demo_pay_state_def demo_completed_def)
  note ok = concurrent_refunds [OF a b demo_double_refund [unfolded demo_payments_def demo_refunds_def]]
  show ?thesis
    by (intro exI conjI, rule demo_double_refund, rule conjunct1 [OF conjunct2 [OF ok]])
      (simp_all add: demo_paid_out_def demo_pay_state_def demo_refunded_def)
qed

end
