(* ===== verification/Seed.thy ===== *)
theory Seed
  imports Stock_Runs Lifecycle
begin

text \<open>
  The script that fills the catalogue (\<open>services/inventory-service/scripts/seed-inventory.ts\<close>) with
  the tables it writes: the products of migration 001 and the inventory rows of migration 002.  A
  statement is an insert that updates some columns of the row with its SKU when there is one; it
  succeeds unless \<open>fault\<close> has an error for it.
\<close>

record product_row =
  pw_id :: string
  pw_sku :: string
  pw_name :: string
  pw_price :: string
  pw_currency :: string
  pw_created_at :: int
  pw_updated_at :: int

record catalog =
  ct_products :: "product_row list"
  ct_stock :: stock_db

record seed_product =
  sp_sku :: string
  sp_name :: string
  sp_price :: string
  sp_stock :: int

definition seed_entry :: "string \<Rightarrow> string \<Rightarrow> string \<Rightarrow> int \<Rightarrow> seed_product" where
  "seed_entry sku name price stock = \<lparr>sp_sku = sku, sp_name = name, sp_price = price, sp_stock = stock\<rparr>"

definition PRODUCTS :: "seed_product list" where
  "PRODUCTS =
     [seed_entry ''LAPTOP-PRO-15'' ''NexusBook Pro 15\"'' ''1999.00'' 25,
      seed_entry ''LAPTOP-AIR-13'' ''NexusBook Air 13\"'' ''1199.00'' 40,
      seed_entry ''PHONE-X-256'' ''Nexus Phone X 256GB'' ''999.00'' 60,
      seed_entry ''PHONE-X-128'' ''Nexus Phone X 128GB'' ''899.00'' 80,
      seed_entry ''TABLET-11'' ''Nexus Tablet 11\"'' ''649.00'' 35,
      seed_entry ''WATCH-S2'' ''Nexus Watch Series 2'' ''399.00'' 50,
      seed_entry ''EARBUDS-PRO'' ''Nexus Earbuds Pro'' ''249.00'' 120,
      seed_entry ''HEADPHONE-MAX'' ''Nexus Headphones Max'' ''549.00'' 30,
      seed_entry ''MONITOR-27-4K'' ''Nexus Display 27\" 4K'' ''699.00'' 22,
      seed_entry ''MONITOR-32-5K'' ''Nexus Display 32\" 5K'' ''1299.00'' 15,
      seed_entry ''KEYBOARD-MX'' ''Nexus Mechanical Keyboard'' ''149.00'' 90,
      seed_entry ''MOUSE-ERGO'' ''Nexus Ergo Mouse'' ''89.00'' 110,
      seed_entry ''USB-C-CABLE'' ''USB-C Charge Cable 2m'' ''19.99'' 500,
      seed_entry ''CHARGER-65W'' ''Nexus 65W USB-C Charger'' ''49.00'' 200,
      seed_entry ''DOCK-TB4'' ''Nexus Thunderbolt 4 Dock'' ''299.00'' 18,
      seed_entry ''WEBCAM-4K'' ''Nexus Webcam 4K'' ''129.00'' 45,
      seed_entry ''SSD-1TB'' ''Nexus Portable SSD 1TB'' ''159.00'' 75,
      seed_entry ''SSD-2TB'' ''Nexus Portable SSD 2TB'' ''279.00'' 40,
      seed_entry ''ROUTER-WIFI7'' ''Nexus Router WiFi 7'' ''349.00'' 28,
      seed_entry ''SPEAKER-360'' ''Nexus Speaker 360'' ''199.00'' 55]"

text \<open>\<open>insert(row).onConflict(key).merge(columns)\<close>.\<close>

definition upsert :: "('r \<Rightarrow> bool) \<Rightarrow> 'r \<Rightarrow> ('r \<Rightarrow> 'r) \<Rightarrow> 'r list \<Rightarrow> 'r list" where
  "upsert same row merge rows = (if list_ex same rows then update_where same merge rows else rows @ [row])"

definition seed_product_row :: "string \<Rightarrow> int \<Rightarrow> seed_product \<Rightarrow> product_row list \<Rightarrow> product_row list" where
  "seed_product_row rid now p =
     upsert (\<lambda>r. pw_sku r = sp_sku p)
       \<lparr>pw_id = rid, pw_sku = sp_sku p, pw_name = sp_name p, pw_price = sp_price p, pw_currency = ''USD'',
        pw_created_at = now, pw_updated_at = now\<rparr>
       (\<lambda>r. r\<lparr>pw_name := sp_name p, pw_price := sp_price p\<rparr>)"

definition seed_inventory_row :: "string \<Rightarrow> string \<Rightarrow> int \<Rightarrow> seed_product \<Rightarrow> inventory_row list \<Rightarrow> inventory_row list" where
  "seed_inventory_row rid pid now p =
     upsert (\<lambda>r. nw_sku r = sp_sku p)
       \<lparr>nw_id = rid, nw_product_id = pid, nw_sku = sp_sku p, nw_available = sp_stock p, nw_reserved = 0, nw_version = 1, nw_updated_at = now\<rparr>
       (\<lambda>r. r\<lparr>nw_available := sp_stock p\<rparr>)"

text \<open>The two statements of one product, the second with the id the first returns.\<close>

fun seed_loop :: "(nat \<Rightarrow> js_error option) \<Rightarrow> (nat \<Rightarrow> string) \<Rightarrow> int \<Rightarrow> nat \<Rightarrow> seed_product list \<Rightarrow> (catalog, js_error, unit) eff" where
  "seed_loop fault ids now n [] c = (Inr (), c)"
| "seed_loop fault ids now n (p # ps) c =
     (case fault n of
        Some e \<Rightarrow> (Inl e, c)
      | None \<Rightarrow>
          (let c1 = c\<lparr>ct_products := seed_product_row (ids n) now p (ct_products c)\<rparr> in
           case fault (Suc n) of
             Some e \<Rightarrow> (Inl e, c1)
           | None \<Rightarrow>
               (case List.find (\<lambda>r. pw_sku r = sp_sku p) (ct_products c1) of
                  None \<Rightarrow> seed_loop fault ids now (n + 2) ps c1
                | Some row \<Rightarrow> seed_loop fault ids now (n + 2) ps
                    (c1\<lparr>ct_stock := (ct_stock c1)\<lparr>sd_inventory :=
                       seed_inventory_row (ids (Suc n)) (pw_id row) now p (sd_inventory (ct_stock c1))\<rparr>\<rparr>))))"

text \<open>The script: it exits with 0 when the seed and the closing of the pool succeed.\<close>

definition seed_main :: "(nat \<Rightarrow> js_error option) \<Rightarrow> (nat \<Rightarrow> string) \<Rightarrow> int \<Rightarrow> bool \<Rightarrow> catalog \<Rightarrow> int \<times> catalog" where
  "seed_main fault ids now destroyed c =
     (case seed_loop fault ids now 0 PRODUCTS c of
        (Inl e, c') \<Rightarrow> (1, c')
      | (Inr _, c') \<Rightarrow> (if destroyed then 0 else 1, c'))"

section \<open>What a run leaves\<close>

definition settled :: "('r \<Rightarrow> bool) \<Rightarrow> ('r \<Rightarrow> 'r) \<Rightarrow> 'r list \<Rightarrow> bool" where
  "settled same merge rows \<longleftrightarrow> list_ex same rows \<and> (\<forall>r\<in>set rows. same r \<longrightarrow> merge r = r)"

lemma upsert_settled [simp]: "settled same merge rows \<Longrightarrow> upsert same row merge rows = rows"
  by (auto simp: settled_def upsert_def update_where_def map_idI)

lemma upsert_settles:
  assumes "same row" "merge row = row" "\<And>r. same (merge r) = same r" "\<And>r. merge (merge r) = merge r"
  shows "settled same merge (upsert same row merge rows)"
  using assms by (auto simp: settled_def upsert_def update_where_def list_ex_iff)

lemma upsert_keeps:
  assumes "settled same merge rows" and "\<not> same row'" and "\<And>r. same (merge' r) = same r" and "\<And>r. same' r \<Longrightarrow> \<not> same r"
  shows "settled same merge (upsert same' row' merge' rows)"
  using assms by (auto simp: settled_def upsert_def update_where_def list_ex_iff)

abbreviation "stocked p \<equiv> settled (\<lambda>r. nw_sku r = sp_sku p) (\<lambda>r. r\<lparr>nw_available := sp_stock p\<rparr>)"
abbreviation "listed p \<equiv> settled (\<lambda>r. pw_sku r = sp_sku p) (\<lambda>r. r\<lparr>pw_name := sp_name p, pw_price := sp_price p\<rparr>)"

lemma seed_product_row_settles: "listed p (seed_product_row rid now p rows)"
  unfolding seed_product_row_def by (rule upsert_settles) simp_all

lemma seed_product_row_keeps: "listed q rows \<Longrightarrow> sp_sku q \<noteq> sp_sku p \<Longrightarrow> listed q (seed_product_row rid now p rows)"
  unfolding seed_product_row_def by (rule upsert_keeps) auto

lemma seed_inventory_row_settles: "stocked p (seed_inventory_row rid pid now p rows)"
  unfolding seed_inventory_row_def by (rule upsert_settles) simp_all

lemma seed_inventory_row_keeps: "stocked q rows \<Longrightarrow> sp_sku q \<noteq> sp_sku p \<Longrightarrow> stocked q (seed_inventory_row rid pid now p rows)"
  unfolding seed_inventory_row_def by (rule upsert_keeps) auto

lemma listed_found: "listed p rows \<Longrightarrow> \<exists>row. List.find (\<lambda>r. pw_sku r = sp_sku p) rows = Some row"
  by (cases "List.find (\<lambda>r. pw_sku r = sp_sku p) rows") (auto simp: settled_def list_ex_iff find_None_iff)

text \<open>A run keeps what is settled of the other products.\<close>

lemma seed_loop_keeps:
  assumes "seed_loop fault ids now n ps c = (r, c')" and "sp_sku q \<notin> sp_sku ` set ps"
    and "listed q (ct_products c)" "stocked q (sd_inventory (ct_stock c))"
  shows "listed q (ct_products c') \<and> stocked q (sd_inventory (ct_stock c'))"
  using assms
proof (induction fault ids now n ps c rule: seed_loop.induct)
  case (2 fault ids now n p ps c)
  then show ?case
    by (auto simp: Let_def seed_product_row_keeps seed_inventory_row_keeps split: option.splits)
qed simp

text \<open>After a run that succeeded every product is listed with its name and price and has its stock
  available.\<close>

lemma seed_loop_Cons:
  assumes "seed_loop fault ids now n (p # ps) c = (Inr u, c')"
  obtains c2 where "seed_loop fault ids now (n + 2) ps c2 = (Inr u, c')" "listed p (ct_products c2)" "stocked p (sd_inventory (ct_stock c2))"
proof -
  obtain row where row: "List.find (\<lambda>r. pw_sku r = sp_sku p) (seed_product_row (ids n) now p (ct_products c)) = Some row"
    using listed_found [OF seed_product_row_settles] by blast
  let ?c1 = "c\<lparr>ct_products := seed_product_row (ids n) now p (ct_products c)\<rparr>"
  let ?c2 = "?c1\<lparr>ct_stock := (ct_stock c)\<lparr>sd_inventory := seed_inventory_row (ids (Suc n)) (pw_id row) now p (sd_inventory (ct_stock c))\<rparr>\<rparr>"
  have "seed_loop fault ids now (n + 2) ps ?c2 = (Inr u, c')"
    using assms row by (simp add: Let_def split: option.splits)
  then show thesis by (rule that) (simp_all add: seed_product_row_settles seed_inventory_row_settles)
qed

lemma seed_loop_settles:
  assumes "seed_loop fault ids now n ps c = (Inr u, c')" and "distinct (map sp_sku ps)" and "q \<in> set ps"
  shows "listed q (ct_products c') \<and> stocked q (sd_inventory (ct_stock c'))"
  using assms
proof (induction ps arbitrary: n c)
  case (Cons p ps)
  from Cons.prems(1) obtain c2 where c2: "seed_loop fault ids now (n + 2) ps c2 = (Inr u, c')"
    "listed p (ct_products c2)" "stocked p (sd_inventory (ct_stock c2))" by (rule seed_loop_Cons)
  show ?case
  proof (cases "q = p")
    case True
    with c2(2,3) Cons.prems(2) show ?thesis by (intro seed_loop_keeps [OF c2(1)]) auto
  next
    case False
    with Cons.IH [OF c2(1)] Cons.prems(2,3) show ?thesis by simp
  qed
qed simp

text \<open>Running it again changes nothing, as the script says, when nothing was sold in between.\<close>

lemma seed_loop_again:
  assumes "\<forall>q\<in>set ps. listed q (ct_products c) \<and> stocked q (sd_inventory (ct_stock c))" and "\<And>n. fault n = None"
  shows "seed_loop fault ids now n ps c = (Inr (), c)"
  using assms(1)
proof (induction ps arbitrary: n)
  case (Cons p ps)
  then have p: "listed p (ct_products c)" "stocked p (sd_inventory (ct_stock c))" by simp_all
  from listed_found [OF p(1)] obtain row where "List.find (\<lambda>r. pw_sku r = sp_sku p) (ct_products c) = Some row" by blast
  with p Cons show ?case by (simp add: assms(2) seed_product_row_def seed_inventory_row_def Let_def)
qed simp

lemma PRODUCTS_distinct: "distinct (map sp_sku PRODUCTS)"
  by code_simp

theorem seed_idempotent:
  assumes "seed_main fault ids now True c = (0, c')" and "\<And>n. fault' n = None"
  shows "seed_main fault' ids' now' True c' = (0, c')"
proof -
  obtain u where u: "seed_loop fault ids now 0 PRODUCTS c = (Inr u, c')"
    using assms(1) by (auto simp: seed_main_def split: prod.splits sum.splits)
  have "seed_loop fault' ids' now' 0 PRODUCTS c' = (Inr (), c')"
    using seed_loop_settles [OF u PRODUCTS_distinct] assms(2) by (intro seed_loop_again) simp_all
  then show ?thesis by (simp add: seed_main_def)
qed

text \<open>
  Run while units are held it makes stock out of nothing: the available units are set back to the
  initial stock and the held ones stay reserved, so releasing them leaves more than was seeded.
\<close>

lemma seeded_row:
  assumes "stocked p rows" and "r \<in> set rows" and "nw_sku r = sp_sku p"
  shows "nw_available r = sp_stock p"
proof -
  from assms have "r\<lparr>nw_available := sp_stock p\<rparr> = r" by (simp add: settled_def)
  then have "nw_available (r\<lparr>nw_available := sp_stock p\<rparr>) = nw_available r" by simp
  then show ?thesis by simp
qed

lemma reseeding_mints:
  assumes "r \<in> set rows" and "nw_sku r = sp_sku p"
  shows "r\<lparr>nw_available := sp_stock p\<rparr> \<in> set (seed_inventory_row rid pid now p rows)"
    and "nw_available (r\<lparr>nw_available := sp_stock p\<rparr>) + nw_reserved (r\<lparr>nw_available := sp_stock p\<rparr>) = sp_stock p + nw_reserved r"
  using assms by (force simp: seed_inventory_row_def upsert_def update_where_def list_ex_iff)+

end
