(* ===== verification/Request_Log.thy ===== *)
theory Request_Log
  imports Express
begin

text \<open>
  What the services write to their log about a request: \<open>observability/logger.ts\<close> (the options every
  logger is built with) and \<open>middleware/requestLogger.ts\<close>.  The log is a list of entries.  How pino
  censors the members it is told to (\<open>redact\<close>) is an argument, with the law its documentation gives.
\<close>

section \<open>The logger\<close>

record logger_options =
  lo_level :: string
  lo_base :: "(string \<times> json) list"
  lo_paths :: "string list"
  lo_censor :: string

definition createLogger :: "(string \<rightharpoonup> string) \<Rightarrow> (string \<times> json) list \<Rightarrow> logger_options" where
  "createLogger env context =
     \<lparr>lo_level = (case env ''LOG_LEVEL'' of Some l \<Rightarrow> l | None \<Rightarrow> ''info''), lo_base = context,
      lo_paths = [''password'', ''token'', ''authorization'', ''secret'', ''creditCard''], lo_censor = ''[REDACTED]''\<rparr>"

definition childLogger :: "logger_options \<Rightarrow> (string \<times> json) list \<Rightarrow> logger_options" where
  "childLogger parent context = parent\<lparr>lo_base := lo_base parent @ context\<rparr>"

record log_entry =
  le_level :: log_level
  le_members :: json
  le_message :: string

type_synonym redactor = "string list \<Rightarrow> string \<Rightarrow> json \<Rightarrow> json"

text \<open>A member of a path is censored when it is there, every other member stays.\<close>

definition redact_laws :: "redactor \<Rightarrow> bool" where
  "redact_laws redact \<longleftrightarrow> (\<forall>paths censor v k. json_get (redact paths censor v) k =
     (if k \<in> set paths then map_option (\<lambda>_. JStr censor) (json_get v k) else json_get v k))"

definition redact_members :: redactor where
  "redact_members paths censor v =
     (case v of JObj kvs \<Rightarrow> JObj (map (\<lambda>(k, x). (k, if k \<in> set paths then JStr censor else x)) kvs) | _ \<Rightarrow> v)"

lemma redact_members_laws: "redact_laws redact_members"
proof -
  have "map_of (map (\<lambda>(k, x). (k, if k \<in> set paths then JStr censor else x)) kvs) j =
      (if j \<in> set paths then map_option (\<lambda>_. JStr censor) (map_of kvs j) else map_of kvs j)" for paths :: "string list" and censor kvs j
    by (induction kvs) auto
  then show ?thesis by (simp add: redact_laws_def redact_members_def split: json.split)
qed

text \<open>One call of a level method.\<close>

definition log_line :: "redactor \<Rightarrow> logger_options \<Rightarrow> log_level \<Rightarrow> (string \<times> json) list \<Rightarrow> string \<Rightarrow> log_entry list \<Rightarrow> log_entry list" where
  "log_line redact logger level members msg entries =
     entries @ [\<lparr>le_level = level, le_members = redact (lo_paths logger) (lo_censor logger) (JObj (lo_base logger @ members)),
                 le_message = msg\<rparr>]"

section \<open>The request logger\<close>

text \<open>What the handler of one request closes over.\<close>

record logged_request =
  lq_logger :: logger_options
  lq_method :: string
  lq_path :: string
  lq_startTime :: int

definition request_logger :: "logger_options \<Rightarrow> request_context option \<Rightarrow> logger_options" where
  "request_logger logger ctx = childLogger logger (case ctx of
       None \<Rightarrow> []
     | Some c \<Rightarrow> [(''requestId'', JStr (rc_requestId c)), (''correlationId'', JStr (rc_correlationId c))]
         @ opt_member ''traceId'' JStr (rc_traceId c) @ opt_member ''spanId'' JStr (rc_spanId c))"

definition requestLoggerMiddleware ::
    "redactor \<Rightarrow> logger_options \<Rightarrow> request_context option \<Rightarrow> string option \<Rightarrow> int \<Rightarrow> http_request \<Rightarrow> log_entry list \<Rightarrow>
     logged_request \<times> log_entry list" where
  "requestLoggerMiddleware redact logger ctx ip now rq entries =
     (let reqLogger = request_logger logger ctx in
      (\<lparr>lq_logger = reqLogger, lq_method = rq_method rq, lq_path = rq_originalUrl rq, lq_startTime = now\<rparr>,
       log_line redact reqLogger LInfo
         ([(''method'', JStr (rq_method rq)), (''path'', JStr (rq_originalUrl rq))]
          @ opt_member ''userAgent'' JStr (rq_headers rq ''user-agent'') @ opt_member ''ip'' JStr ip)
         ''Incoming request'' entries))"

definition logFinish :: "redactor \<Rightarrow> logged_request \<Rightarrow> int \<Rightarrow> int \<Rightarrow> log_entry list \<Rightarrow> log_entry list" where
  "logFinish redact q code now entries =
     (let logData = [(''method'', JStr (lq_method q)), (''path'', JStr (lq_path q)), (''statusCode'', JNum (of_int code)),
                     (''duration_ms'', JNum (of_int (now - lq_startTime q)))] in
      if 500 \<le> code then log_line redact (lq_logger q) LError logData ''Request completed with server error'' entries
      else if 400 \<le> code then log_line redact (lq_logger q) LWarn logData ''Request completed with client error'' entries
      else log_line redact (lq_logger q) LInfo logData ''Request completed'' entries)"

section \<open>What is in the log\<close>

definition redacted :: "log_entry \<Rightarrow> bool" where
  "redacted e \<longleftrightarrow> (\<forall>k\<in>{''password'', ''token'', ''authorization'', ''secret'', ''creditCard''}.
     json_get (le_members e) k \<in> {None, Some (JStr ''[REDACTED]'')})"

lemma log_line_redacted:
  assumes "redact_laws redact" and "lo_paths logger = lo_paths (createLogger env c)" and "lo_censor logger = lo_censor (createLogger env c)"
    and "list_all redacted entries"
  shows "list_all redacted (log_line redact logger level members msg entries)"
  using assms by (auto simp: log_line_def redacted_def redact_laws_def createLogger_def)

lemma child_options [simp]:
  "lo_paths (childLogger l c) = lo_paths l" "lo_censor (childLogger l c) = lo_censor l" "lo_level (childLogger l c) = lo_level l"
  by (simp_all add: childLogger_def)

text \<open>Both entries of a request are redacted.\<close>

lemma request_entries_redacted:
  assumes "redact_laws redact" and "list_all redacted entries"
    and "requestLoggerMiddleware redact (createLogger env context) ctx ip now rq entries = (q, entries')"
  shows "list_all redacted entries' \<and> list_all redacted (logFinish redact q code now' entries')"
proof -
  have q: "lq_logger q = request_logger (createLogger env context) ctx"
    and e: "list_all redacted entries'"
    using assms by (auto simp: requestLoggerMiddleware_def Let_def request_logger_def intro!: log_line_redacted)
  have "list_all redacted (log_line redact (lq_logger q) level members msg entries')" for level members msg
    by (rule log_line_redacted [OF assms(1) _ _ e, of _ env "context"]) (simp_all add: q request_logger_def)
  with e show ?thesis by (simp add: logFinish_def Let_def)
qed

text \<open>
  No header but \<open>user-agent\<close> reaches the log: requests that differ in the others leave the same
  entries, before and after the response.
\<close>

lemma headers_never_logged:
  assumes "rq_method rq = rq_method rq'" and "rq_originalUrl rq = rq_originalUrl rq'"
    and "rq_headers rq ''user-agent'' = rq_headers rq' ''user-agent''"
  shows "requestLoggerMiddleware redact logger ctx ip now rq entries = requestLoggerMiddleware redact logger ctx ip now rq' entries"
  using assms by (simp add: requestLoggerMiddleware_def)

text \<open>The level of the second entry tells the class of the status.\<close>

lemma finish_level:
  "le_level (last (logFinish redact q code now entries)) =
     (if 500 \<le> code then LError else if 400 \<le> code then LWarn else LInfo)"
  by (simp add: logFinish_def log_line_def Let_def)

text \<open>The paths are those of the top level: a nested member of that name is written as it is.\<close>

lemma nested_not_redacted:
  assumes "redact_laws redact"
  shows "json_get (le_members (last (log_line redact (createLogger env []) level [(''headers'', JObj [(''authorization'', v)])] msg entries)))
    ''headers'' = Some (JObj [(''authorization'', v)])"
  using assms by (simp add: log_line_def redact_laws_def createLogger_def)

end
