(* ===== verification/Spec2Isabelle.thy ===== *)
theory Spec2Isabelle
  imports Order_Properties Stock_Properties Payment_Properties Platform_Properties Observability_Properties Api_Properties
    Event_Log_Properties System_Properties Service_Properties Interleaving_Properties Seed Request_Log Config
begin

text \<open>
  NexusPay: five services that carry an order from its creation to its payment, and the package they
  share (\<open>src/packages/shared\<close>, \<open>src/services/*-service\<close>).

  \<^bold>\<open>The program.\<close>  The order service takes orders over HTTP, stores an order, its lines and an
  outbox event in one transaction, and relays the outbox to RabbitMQ.  The inventory service reserves
  stock for \<open>order.created\<close> and gives it back for \<open>order.cancelled\<close>; the payment service charges for
  \<open>inventory.reserved\<close> through a gateway behind retry and circuit breaker; the order service hears
  both and confirms or cancels.  The notification service mails customers, the audit service records
  every event.  Services meet only in messages: no database is shared.

  \<^bold>\<open>Conventions.\<close>  An effectful operation is a function from a state to an outcome and a state
  (\<open>eff\<close> of \<open>Prelude\<close>: left what was thrown, right what was returned), so that every throw and early
  return of the code is a branch; \<open>transaction\<close> restores the state of a throw.  Tables are lists of
  rows, a constraint of a migration is a condition under which a statement throws the driver's error.
  Clocks, generated identifiers, random numbers and the answers of brokers are arguments of the
  operation that draws them.  JavaScript objects that are read by name are \<open>json\<close> values, classes
  are records, unions of literals are datatypes.  Third-party code is an argument with its documented
  laws: decimal.js (\<open>decimal_lib\<close>, \<open>decimal_laws\<close>), jsonwebtoken, HMAC, zod's \<open>safeParse\<close>
  (\<open>schema_sound\<close>, \<open>zod_laws\<close>), ioredis (\<open>redis_laws\<close>), the topic matching of RabbitMQ
  (\<open>topic_laws\<close>), the paths of express (\<open>express_paths\<close>), PostgreSQL's casts and collation
  (\<open>sql_env\<close>).  Each has a concrete instance that the witnesses run.

  \<^bold>\<open>The shared package.\<close>
  \<^item> \<open>Json\<close>, \<open>Json_Text\<close>: untyped values, \<open>JSON.stringify\<close> and \<open>JSON.parse\<close> (numbers are rationals).
  \<^item> \<open>App_Error\<close>: \<open>errors/AppError.ts\<close>, \<open>middleware/errorHandler.ts\<close>.
  \<^item> \<open>Money\<close>: \<open>domain/Money.ts\<close>.
  \<^item> \<open>Domain_Event\<close>, \<open>Trace_Context\<close>: \<open>events/DomainEvent.ts\<close>, \<open>observability/trace.ts\<close>,
    \<open>context/RequestContext.ts\<close>, \<open>middleware/requestId.ts\<close>.
  \<^item> \<open>Messaging\<close>: \<open>messaging/{topology,Publisher,Consumer,RabbitMQConnection}.ts\<close>.
  \<^item> \<open>Resilience\<close>: \<open>resilience/retry.ts\<close> and the payment service's circuit breaker, the latter also as
    a step relation over interleaved calls.
  \<^item> \<open>Metrics\<close>, \<open>Http_Metrics\<close>: \<open>observability/metrics.ts\<close>, \<open>observability/metricNames.ts\<close>,
    \<open>middleware/httpMetrics.ts\<close>.
  \<^item> \<open>Express\<close>, \<open>Auth\<close>, \<open>Rate_Limiter\<close>, \<open>Cache\<close>, \<open>Sanitize\<close>: the request, and
    \<open>middleware/{auth,rateLimiter,idempotency,sanitize}.ts\<close>, \<open>cache/RedisClient.ts\<close>.
  \<^item> \<open>Request_Log\<close>: \<open>middleware/requestLogger.ts\<close> and the options of \<open>observability/logger.ts\<close>: entries are
    redacted at the top level, no header but \<open>user-agent\<close> is logged.
  \<^item> \<open>Health\<close>, \<open>Config\<close>: \<open>health/HealthChecker.ts\<close>, \<open>config/ConfigLoader.ts\<close>, and the schemas of every
    service's \<open>config/index.ts\<close> with \<open>knexfile.ts\<close>: the command line uses the service's database, no
    variable is required.

  \<^bold>\<open>The services.\<close>
  \<^item> \<open>Order\<close>, \<open>Order_Store\<close>, \<open>Order_Service\<close>, \<open>Outbox_Relay\<close>, \<open>Order_Api\<close>: the aggregate and its
    status table (\<open>domain\<close>); orders, lines, outbox and saga steps with \<open>KnexOrderRepository\<close>,
    \<open>KnexOutboxRepository\<close>, \<open>KnexSagaStepRepository\<close> and the migrations (state \<open>order_db\<close>); command,
    query and event handlers; \<open>OutboxPoller\<close> (state \<open>poller\<close>); validators, \<open>OrderController\<close> and
    the middleware in front of it.
  \<^item> \<open>Inventory\<close>, \<open>Inventory_Service\<close>, \<open>Stock_Runs\<close>: aggregates, \<open>KnexInventoryRepository\<close>
    (state \<open>stock_db\<close>), handlers, expiry job and event handlers, and any interleaving of transactions.
  \<^item> \<open>Payment\<close>, \<open>Payment_Service\<close>, \<open>Payment_Api\<close>: the event-recording aggregate, the Knex
    repositories (state \<open>payment_db\<close>: payments, their timelines, refunds), the simulated gateway (state
    \<open>gateway_state\<close>, with the charges it carried out), the handlers that combine them (state \<open>pay_state\<close>),
    webhooks and controllers.
  \<^item> \<open>Turns\<close>, \<open>Payment_Interleaving\<close>, \<open>Refund_Interleaving\<close>: \<open>ProcessPaymentHandler.execute\<close> and
    \<open>RefundHandler.execute\<close> cut at their awaits (\<open>session_step\<close>, \<open>refund_step\<close> over the program points
    \<open>pay_session\<close>, \<open>refund_session\<close>), and any number of runs taking turns over one \<open>pay_state\<close>.  The steps
    of one run alone are the handler of \<open>Payment_Service\<close> (\<open>run_alone\<close>, \<open>refund_alone\<close>).
  \<^item> \<open>Seed\<close>: \<open>scripts/seed-inventory.ts\<close> over the product and inventory tables (state \<open>catalog\<close>); a
    second run changes nothing, unless units are held (\<open>reseeding_mints\<close>).
  \<^item> \<open>Query_Apis\<close>: \<open>InventoryController\<close>, \<open>AuditController\<close>.
  \<^item> \<open>Audit_Log\<close>, \<open>Notification\<close>: the append-only log with its triggers; templates, consume-once guard
    and dispatcher.
  \<^item> \<open>Lifecycle\<close>, \<open>Routing\<close>: \<open>server.ts\<close>, \<open>startMessaging.ts\<close> and \<open>connection.ts\<close> as steps of the
    event loop; \<open>app.ts\<close> and \<open>routes/*.ts\<close> as tables of layers.
  \<^item> \<open>System\<close>: order, inventory and payment service composed with the broker.  An action is a
    request, a poll, a sweep, a webhook or a delivery; each runs its handler to its end.

  \<^bold>\<open>Interfaces.\<close>  A port of the code is a record of operations and a locale with its contract; the
  application layer is proved inside the locale, and the Knex repository interprets it:
  \<open>order_store\<close> and \<open>order_saga\<close> (a refinement: the rows abstract to a map of orders, an update is one
  change of the map and appends its events), \<open>stock_port\<close>, \<open>payment_store\<close>, \<open>outbox_port\<close> with
  \<open>reliable_outbox\<close>, \<open>append_only_log\<close>, \<open>idempotency_store\<close>, \<open>refund_store\<close> (which extends \<open>payment_store\<close>),
  \<open>status_machine\<close> with \<open>ranked_status_machine\<close> for the two status tables, and \<open>side_by_side\<close> for
  runs that take turns.

  \<^bold>\<open>What is shown.\<close>
  \<^item> \<open>System_Properties\<close>: a confirmed order was announced once, charged exactly once for its total, and
    its stock reserved, in every reachable state; every message on the broker is a typed event with the
    payload its type declares (the interfaces of \<open>DomainEvent.ts\<close> are predicates of \<open>Domain_Event\<close>).
    \<open>System_Invariant\<close> carries the invariant action by action, over three sets that only grow: the
    outbox events, the reservations ever made, the charges.  \<open>System_Properties\<close> also runs an order to
    its confirmation, so the invariant is not about an empty world.
  \<^item> \<open>Order_Properties\<close>: creation is atomic and idempotent per key, updates are not lost, every saga
    event performs one entry of a table (\<open>saga_plan\<close>) and is ignored when repeated, cancellation is
    guarded, totals are exact, pages list everything once.
  \<^item> \<open>Stock_Properties\<close>: reservations are all or nothing, releases undo them, stock is conserved in
    every run, cancellations compensate, sweeps release what expired.
  \<^item> \<open>Payment_Properties\<close>: the outcomes of a payment with and without its charge, refunds, webhooks,
    timelines that replay to the stored status, breaker and retry bounds.
  \<^item> \<open>Interleaving_Properties\<close>: payments and charges agree (\<open>books_ok\<close>) however concurrent requests
    interleave, at most one charge per key; at most one recorded refund per payment, though the
    gateway can be made to pay out twice (\<open>demo_double_refund\<close>); every run ends.  A step is one of a
    few moves (\<open>moves\<close>, \<open>refund_moves\<close>) that keep the invariant and do not disturb the other runs.
  \<^item> \<open>Platform_Properties\<close>: topology, delivery policy, traces across hops, outbox relay.
  \<^item> \<open>Api_Properties\<close>, \<open>Event_Log_Properties\<close>, \<open>Observability_Properties\<close>: the HTTP chain, rate limiter
    against a reference, replays; audit log and notifications; histograms and request metrics.
  \<^item> \<open>Service_Properties\<close>: no route gets around the middleware, a shutdown ends.

  \<^bold>\<open>Bounds and fuel.\<close>  Loops over rows, attempts and segments are structural or have a measure.  These
  definitions take fuel: \<open>parse_value\<close> of \<open>Json_Text\<close> (\<open>json_parse\<close> gives twice the length of the text, enough for every
  text that \<open>JSON.stringify\<close> writes), \<open>deliver_until_settled\<close> (two deliveries are enough), and the
  clients \<open>follow_cursor\<close>, \<open>audit_read\<close> and \<open>read_log\<close> that page through a listing (one request more than there are
  rows is enough); each bound is proved with the result.  A payment run takes at most
  \<open>maxAttempts + 7\<close> steps, a refund one less (\<open>rank\<close>, \<open>refund_rank\<close>).  Money is rounded to the two
  decimals of its column, so exact totals need prices in whole cents below the column's precision
  (\<open>order_total_exact\<close>).  Versions and quantities are 32-bit columns; a value beyond one makes the
  statement throw (\<open>int4\<close>).

  \<^bold>\<open>Assumptions of the composition.\<close>  A handler's run is one action; the database's transactions make
  this sound for each repository call, while runs that interleave between their calls are
  covered where a theorem says so (\<open>concurrent_payments\<close>, \<open>concurrent_refunds\<close>, \<open>order_no_lost_update\<close>,
  the breaker's relation).
  The broker delivers an accepted message any number of times, at any later moment, in any order.
  Clients of the payment API do not use the saga's keys \<open>payment-...\<close> and the gateway reports success
  only of charges it made (\<open>admitted\<close>): the code enforces neither, and without the first an order can
  be confirmed by a foreign payment.

  \<^bold>\<open>Not modelled.\<close>  The log lines of handlers, security headers and CORS (written, never read);
  deadlocks and connection loss of PostgreSQL beyond a statement that throws; the reconnect options of
  ioredis; re-exports, tests, user interface and deployment files.
\<close>

end
